(* ===== verification/Prelude.thy ===== *)
theory Prelude
  imports Complex_Main "HOL-Library.Word" "HOL-Library.Char_ord" "HOL-Library.Sublist"
begin

text \<open>
  Shared vocabulary of the development: the machine integers of the firmware, C++ strings as
  lists of bytes, the substring searches of \<open>std::string\<close> that the sources use, and the
  contracts (locales) that several components share.

  A \<open>std::string\<close> is a \<open>string\<close> (a list of \<open>char\<close>, and a \<open>char\<close> is one
  byte); comparisons of characters are the unsigned comparisons of \<open>HOL-Library.Char_ord\<close>.
  Every range test in the sources has ASCII bounds, so signedness of the C++ type \<open>char\<close>
  makes no difference.  Raw bytes (packets, frames) are \<open>u8 list\<close>.
\<close>

type_synonym u8 = "8 word"
type_synonym u16 = "16 word"
type_synonym u32 = "32 word"
type_synonym u64 = "64 word"

text \<open>
  A C++ \<open>double\<close>.  The sources only read, compare and forward doubles (angles, levels), so
  a finite one is a rational number; the comparisons are those of IEEE 754, false on a NaN.
\<close>

datatype cpp_double = Finite rat | PosInf | NegInf | NaN

fun isfinite :: "cpp_double \<Rightarrow> bool" where
  "isfinite (Finite x) = True"
| "isfinite _ = False"

fun dle :: "cpp_double \<Rightarrow> cpp_double \<Rightarrow> bool" where
  "dle (Finite x) (Finite y) = (x \<le> y)"
| "dle NaN y = False"
| "dle x NaN = False"
| "dle NegInf y = True"
| "dle x PosInf = True"
| "dle x y = False"

fun dlt :: "cpp_double \<Rightarrow> cpp_double \<Rightarrow> bool" where
  "dlt (Finite x) (Finite y) = (x < y)"
| "dlt NaN y = False"
| "dlt x NaN = False"
| "dlt NegInf y = (y \<noteq> NegInf)"
| "dlt x PosInf = (x \<noteq> PosInf)"
| "dlt x y = False"

fun deq :: "cpp_double \<Rightarrow> cpp_double \<Rightarrow> bool" where
  "deq NaN y = False"
| "deq x y = (x = y)"

lemma dle_Finite_D:
  "dle (Finite a) x \<Longrightarrow> dle x (Finite b) \<Longrightarrow> \<exists>r. x = Finite r \<and> a \<le> r \<and> r \<le> b"
  by (cases x) auto

section \<open>Substring operations of std::string\<close>

text \<open>The C string at \<open>s.c_str()\<close>: what precedes the first NUL.\<close>

abbreviation c_str :: "string \<Rightarrow> string" where
  "c_str s \<equiv> takeWhile (\<lambda>c. c \<noteq> CHR 0x00) s"

definition match_at :: "'a list \<Rightarrow> 'a list \<Rightarrow> nat \<Rightarrow> bool" where
  "match_at s p i \<longleftrightarrow> i + length p \<le> length s \<and> take (length p) (drop i s) = p"

definition str_find :: "'a list \<Rightarrow> 'a list \<Rightarrow> nat \<Rightarrow> nat option" where
  "str_find s p i = List.find (match_at s p) [i..<Suc (length s)]"

definition str_rfind :: "'a list \<Rightarrow> 'a list \<Rightarrow> nat option" where
  "str_rfind s p = List.find (match_at s p) (rev [0..<Suc (length s)])"

definition substr :: "'a list \<Rightarrow> nat \<Rightarrow> nat \<Rightarrow> 'a list" where
  "substr s pos n = take n (drop pos s)"

lemma match_at_append: "match_at (a @ p @ b) p (length a)"
  by (simp add: match_at_def)

lemma match_atD:
  assumes "match_at s p i"
  shows "s = take i s @ p @ drop (i + length p) s"
  using assms by (metis add.commute append_take_drop_id drop_drop match_at_def)

lemma match_at_iff: "match_at s p i \<longleftrightarrow> (\<exists>a b. s = a @ p @ b \<and> length a = i)"
proof
  assume m: "match_at s p i"
  then have "length (take i s) = i" by (simp add: match_at_def)
  with match_atD [OF m] show "\<exists>a b. s = a @ p @ b \<and> length a = i" by blast
next
  assume "\<exists>a b. s = a @ p @ b \<and> length a = i"
  then show "match_at s p i" using match_at_append by blast
qed

lemma find_upt_Some:
  "List.find P [i..<n] = Some j \<longleftrightarrow> i \<le> j \<and> j < n \<and> P j \<and> (\<forall>k. i \<le> k \<and> k < j \<longrightarrow> \<not> P k)"
proof
  assume "List.find P [i..<n] = Some j"
  then obtain m where m: "m < n - i" "P (i + m)" "j = i + m" "\<forall>l<m. \<not> P (i + l)"
    by (auto simp: find_Some_iff)
  have "\<not> P k" if "i \<le> k" "k < j" for k
    using m(3) m(4) [rule_format, of "k - i"] that by simp
  with m show "i \<le> j \<and> j < n \<and> P j \<and> (\<forall>k. i \<le> k \<and> k < j \<longrightarrow> \<not> P k)" by auto
next
  assume "i \<le> j \<and> j < n \<and> P j \<and> (\<forall>k. i \<le> k \<and> k < j \<longrightarrow> \<not> P k)"
  then show "List.find P [i..<n] = Some j"
    by (auto simp: find_Some_iff intro!: exI [of _ "j - i"])
qed

lemma find_upt_None: "List.find P [i..<n] = None \<longleftrightarrow> (\<forall>k. i \<le> k \<and> k < n \<longrightarrow> \<not> P k)"
  by (auto simp: find_None_iff)

lemma str_find_Some:
  "str_find s p i = Some j \<longleftrightarrow>
     i \<le> j \<and> match_at s p j \<and> (\<forall>k. i \<le> k \<and> k < j \<longrightarrow> \<not> match_at s p k)"
  unfolding str_find_def find_upt_Some by (auto simp: match_at_def)

lemma str_find_None: "str_find s p i = None \<longleftrightarrow> (\<forall>k\<ge>i. \<not> match_at s p k)"
  unfolding str_find_def find_upt_None by (auto simp: match_at_def)

section \<open>Clocks that wrap around\<close>

text \<open>The firmware's clock counts milliseconds in 32 bits; a difference of two readings is the
  elapsed time as long as that is below \<open>2^32\<close> milliseconds, across a wrap-around too.\<close>

lemma elapsed_u32:
  assumes "a \<le> b" "b - a < 2 ^ 32"
  shows "unat (of_nat b - of_nat a :: u32) = b - a"
proof -
  have "(of_nat b - of_nat a :: u32) = of_nat (b - a)" using assms(1) by (simp add: of_nat_diff)
  then show ?thesis using assms(2) by (simp add: unsigned_of_nat take_bit_nat_eq_self)
qed

lemma elapsed_le_u32:
  assumes "a \<le> b" "b - a < 2 ^ 32"
  shows "(of_nat b - of_nat a \<ge> (d :: u32)) \<longleftrightarrow> b - a \<ge> unat d"
  by (simp add: word_le_nat_alt elapsed_u32 [OF assms])

section \<open>Contracts shared by the components\<close>

text \<open>
  A component whose operations are named by events: every operation keeps the component's
  invariant.  The client's fact is that any sequence of operations keeps it.
\<close>

locale invariant_machine =
  fixes step :: "'ev \<Rightarrow> 's \<Rightarrow> 's"
    and inv :: "'s \<Rightarrow> bool"
  assumes step_inv: "inv s \<Longrightarrow> inv (step e s)"
begin

lemma run_inv: "inv s \<Longrightarrow> inv (fold step es s)"
  by (induction es arbitrary: s) (auto intro: step_inv)

end

end
