(* ===== verification/Text_Validation.thy ===== *)
theory Text_Validation
  imports Prelude
begin

text \<open>
  The validators of identifiers and of bounded UTF-8 text.  The sources repeat them per file
  (anonymous namespaces of \<open>protocol.cpp\<close>, \<open>protocol_guard.cpp\<close>, \<open>event.cpp\<close>,
  \<open>command.cpp\<close>, \<open>command_executor.cpp\<close>, \<open>audio_input.cpp\<close>,
  \<open>audio_output.cpp\<close>, \<open>camera_capture.cpp\<close>, \<open>provisioning.cpp\<close>); the
  definitions named without a prefix translate the text of \<open>protocol.cpp\<close>, which the other
  files repeat verbatim, and the prefixed ones translate the copies that are written differently
  and are proved to agree with it.

  The specification of the text validator is the set of UTF-8 encodings of scalar values.
\<close>

section \<open>Identifiers\<close>

definition isHexDigit :: "char \<Rightarrow> bool" where
  "isHexDigit value \<longleftrightarrow> (CHR ''0'' \<le> value \<and> value \<le> CHR ''9'')
     \<or> (CHR ''A'' \<le> value \<and> value \<le> CHR ''F'') \<or> (CHR ''a'' \<le> value \<and> value \<le> CHR ''f'')"

definition uuid_separator :: "nat \<Rightarrow> bool" where
  "uuid_separator index \<longleftrightarrow> index = 8 \<or> index = 13 \<or> index = 18 \<or> index = 23"

definition isValidUuid :: "string \<Rightarrow> bool" where
  "isValidUuid value \<longleftrightarrow>
     (if length value \<noteq> 36 then False
      else list_all (\<lambda>index. let separator = uuid_separator index in
             \<not> ((separator \<and> value ! index \<noteq> CHR ''-'')
                \<or> (\<not> separator \<and> \<not> isHexDigit (value ! index)))) [0..<length value])"

definition isAsciiAlphaNumeric :: "char \<Rightarrow> bool" where
  "isAsciiAlphaNumeric value \<longleftrightarrow> (CHR ''A'' \<le> value \<and> value \<le> CHR ''Z'')
     \<or> (CHR ''a'' \<le> value \<and> value \<le> CHR ''z'') \<or> (CHR ''0'' \<le> value \<and> value \<le> CHR ''9'')"

definition isValidDeviceId :: "string \<Rightarrow> bool" where
  "isValidDeviceId value \<longleftrightarrow>
     (if value = [] \<or> length value > 64 \<or> \<not> isAsciiAlphaNumeric (hd value) then False
      else list_all (\<lambda>character. \<not> (\<not> isAsciiAlphaNumeric character \<and> character \<noteq> CHR ''.''
             \<and> character \<noteq> CHR ''_'' \<and> character \<noteq> CHR ''-'')) value)"

definition isSafeHeaderValue :: "string \<Rightarrow> bool" where
  "isSafeHeaderValue value \<longleftrightarrow>
     list_all (\<lambda>character. \<not> (character < CHR 0x20 \<or> character = CHR 0x7F)) value"

subsection \<open>The copies that are written differently\<close>

text \<open>\<open>audio_input.cpp\<close> and \<open>camera_capture.cpp\<close>: the separators are an array that an inner
  loop searches.\<close>

definition kHyphens :: "nat list" where
  "kHyphens = [8, 13, 18, 23]"

fun search_hyphen :: "nat \<Rightarrow> nat list \<Rightarrow> bool" where
  "search_hyphen index [] = False"
| "search_hyphen index (hyphen # rest) = (if index = hyphen then True else search_hyphen index rest)"

fun array_uuid_loop :: "string \<Rightarrow> nat list \<Rightarrow> bool" where
  "array_uuid_loop value [] = True"
| "array_uuid_loop value (index # rest) =
     (let character = value ! index in
      if search_hyphen index kHyphens
      then (if character \<noteq> CHR ''-'' then False else array_uuid_loop value rest)
      else if \<not> ((CHR ''0'' \<le> character \<and> character \<le> CHR ''9'')
                 \<or> (CHR ''a'' \<le> character \<and> character \<le> CHR ''f'')
                 \<or> (CHR ''A'' \<le> character \<and> character \<le> CHR ''F''))
      then False else array_uuid_loop value rest)"

definition audio_input_isValidUuid :: "string \<Rightarrow> bool" where
  "audio_input_isValidUuid value =
     (if length value \<noteq> 36 then False else array_uuid_loop value [0..<length value])"

definition camera_isValidUuid :: "string \<Rightarrow> bool" where
  "camera_isValidUuid value =
     (if length value \<noteq> 36 then False else array_uuid_loop value [0..<length value])"

text \<open>\<open>command_executor.cpp\<close>: the hexadecimal test is inlined.\<close>

definition executor_isValidUuid :: "string \<Rightarrow> bool" where
  "executor_isValidUuid value \<longleftrightarrow>
     (if length value \<noteq> 36 then False
      else list_all (\<lambda>index.
             let separator = index = 8 \<or> index = 13 \<or> index = 18 \<or> index = 23;
                 character = value ! index;
                 hex = (CHR ''0'' \<le> character \<and> character \<le> CHR ''9'')
                   \<or> (CHR ''A'' \<le> character \<and> character \<le> CHR ''F'')
                   \<or> (CHR ''a'' \<le> character \<and> character \<le> CHR ''f'')
             in \<not> ((separator \<and> character \<noteq> CHR ''-'') \<or> (\<not> separator \<and> \<not> hex))) [0..<length value])"

text \<open>\<open>command.cpp\<close>: a \<open>const char*\<close> that may be null, copied into a string first.\<close>

definition command_isValidUuid :: "string option \<Rightarrow> bool" where
  "command_isValidUuid value = (case value of None \<Rightarrow> False | Some uuid \<Rightarrow> isValidUuid uuid)"

definition command_isValidDeviceId :: "string option \<Rightarrow> bool" where
  "command_isValidDeviceId value =
     (case value of None \<Rightarrow> False | Some deviceId \<Rightarrow> isValidDeviceId deviceId)"

text \<open>
  \<open>audio_output.cpp\<close>: the check reads a NUL-terminated C string by index, with no length.
  \<open>cstr_at s i\<close> is \<open>None\<close> for a read past the terminator (undefined behaviour in C), so
  \<open>uuid_scan\<close> is \<open>None\<close> when the scan would leave the string.
\<close>

definition cstr_at :: "string \<Rightarrow> nat \<Rightarrow> char option" where
  "cstr_at s i = (if i < length s then Some (s ! i) else if i = length s then Some (CHR 0x00) else None)"

fun uuid_scan :: "string \<Rightarrow> nat list \<Rightarrow> bool option" where
  "uuid_scan value [] = map_option (\<lambda>c. c = CHR 0x00) (cstr_at value 36)"
| "uuid_scan value (index # rest) =
     (case cstr_at value index of
        None \<Rightarrow> None
      | Some character \<Rightarrow>
          if search_hyphen index kHyphens
          then (if character \<noteq> CHR ''-'' then Some False else uuid_scan value rest)
          else if \<not> ((CHR ''0'' \<le> character \<and> character \<le> CHR ''9'')
                     \<or> (CHR ''a'' \<le> character \<and> character \<le> CHR ''f'')
                     \<or> (CHR ''A'' \<le> character \<and> character \<le> CHR ''F''))
          then Some False else uuid_scan value rest)"

definition audio_output_isValidUuid :: "string option \<Rightarrow> bool option" where
  "audio_output_isValidUuid value =
     (case value of None \<Rightarrow> Some False | Some s \<Rightarrow> uuid_scan s [0..<36])"

section \<open>Bounded UTF-8 text\<close>

definition isUtf8Continuation :: "char \<Rightarrow> bool" where
  "isUtf8Continuation value \<longleftrightarrow> CHR 0x80 \<le> value \<and> value \<le> CHR 0xBF"

definition sequenceLength :: "char \<Rightarrow> nat option" where
  "sequenceLength first =
     (if first \<le> CHR 0x7F then (if first < CHR 0x20 \<or> first = CHR 0x7F then None else Some 1)
      else if CHR 0xC2 \<le> first \<and> first \<le> CHR 0xDF then Some 2
      else if CHR 0xE0 \<le> first \<and> first \<le> CHR 0xEF then Some 3
      else if CHR 0xF0 \<le> first \<and> first \<le> CHR 0xF4 then Some 4
      else None)"

lemma sequenceLength_pos: "sequenceLength c = Some n \<Longrightarrow> 0 < n"
  by (auto simp: sequenceLength_def split: if_splits)

function bounded_text_loop :: "string \<Rightarrow> nat \<Rightarrow> nat \<Rightarrow> nat \<Rightarrow> bool" where
  "bounded_text_loop value maximumCodePoints index codePoints =
     (if index < length value then
        (let first = value ! index in
         case sequenceLength first of
           None \<Rightarrow> False
         | Some n \<Rightarrow>
             if index + n > length value then False
             else if \<not> list_all (\<lambda>offset. isUtf8Continuation (value ! (index + offset))) [1..<n] then False
             else if n = 3 \<and> (let second = value ! (index + 1) in
                     (first = CHR 0xE0 \<and> second < CHR 0xA0) \<or> (first = CHR 0xED \<and> second > CHR 0x9F)) then False
             else if n = 4 \<and> (let second = value ! (index + 1) in
                     (first = CHR 0xF0 \<and> second < CHR 0x90) \<or> (first = CHR 0xF4 \<and> second > CHR 0x8F)) then False
             else if codePoints + 1 > maximumCodePoints then False
             else bounded_text_loop value maximumCodePoints (index + n) (codePoints + 1))
      else True)"
  by pat_completeness auto

termination
  by (relation "measure (\<lambda>(value, m, index, k). length value - index)")
     (auto dest!: sequenceLength_pos)

declare bounded_text_loop.simps [simp del]

definition isValidBoundedText :: "string \<Rightarrow> nat \<Rightarrow> bool" where
  "isValidBoundedText value maximumCodePoints =
     (if value = [] then False else bounded_text_loop value maximumCodePoints 0 0)"

subsection \<open>Specification: encodings of printable scalar values\<close>

text \<open>
  \<open>utf8 c\<close> is the UTF-8 encoding of a code point; \<open>printable\<close> are the scalar values
  other than the C0 controls and DEL, which the validator refuses.
\<close>

definition scalar :: "nat \<Rightarrow> bool" where
  "scalar c \<longleftrightarrow> c < 0xD800 \<or> (0xE000 \<le> c \<and> c \<le> 0x10FFFF)"

definition printable :: "nat \<Rightarrow> bool" where
  "printable c \<longleftrightarrow> scalar c \<and> 0x20 \<le> c \<and> c \<noteq> 0x7F"

definition utf8 :: "nat \<Rightarrow> string" where
  "utf8 c = map char_of
     (if c < 0x80 then [c]
      else if c < 0x800 then [0xC0 + c div 64, 0x80 + c mod 64]
      else if c < 0x10000 then [0xE0 + c div 4096, 0x80 + c div 64 mod 64, 0x80 + c mod 64]
      else [0xF0 + c div 262144, 0x80 + c div 4096 mod 64, 0x80 + c div 64 mod 64, 0x80 + c mod 64])"

definition second_ok :: "nat \<Rightarrow> char \<Rightarrow> char \<Rightarrow> bool" where
  "second_ok n first second \<longleftrightarrow>
     \<not> (n = 3 \<and> ((first = CHR 0xE0 \<and> second < CHR 0xA0) \<or> (first = CHR 0xED \<and> second > CHR 0x9F)))
   \<and> \<not> (n = 4 \<and> ((first = CHR 0xF0 \<and> second < CHR 0x90) \<or> (first = CHR 0xF4 \<and> second > CHR 0x8F)))"

abbreviation code_of :: "char \<Rightarrow> nat" where "code_of c \<equiv> of_char c"

lemma char_eq_nat: "(c :: char) = d \<longleftrightarrow> (of_char c :: nat) = of_char d"
  by simp

lemma char_of_eqI: "(of_char c :: nat) = n \<Longrightarrow> char_of n = c"
  by auto

lemma decode1:
  assumes "sequenceLength c0 = Some 1"
  shows "\<exists>c. printable c \<and> utf8 c = [c0]"
proof -
  let ?c = "of_char c0 :: nat"
  from assms have "?c < 0x7F" "0x20 \<le> ?c"
    by (auto simp: sequenceLength_def less_char_def less_eq_char_def char_eq_nat not_less
      simp del: of_char_eq_iff split: if_splits)
  then have "printable ?c" "utf8 ?c = [c0]" by (auto simp: printable_def scalar_def utf8_def)
  then show ?thesis by blast
qed

lemma base64_digit [simp]:
  assumes "z < 64"
  shows "(w * 64 + z) div 64 = w" and "(w * 64 + z) mod 64 = (z :: nat)"
  using assms by auto

lemma div_4096: "c div 4096 = c div 64 div (64 :: nat)"
  by (simp flip: div_mult2_eq)

lemma div_262144: "c div 262144 = c div 64 div 64 div (64 :: nat)"
  by (simp flip: div_mult2_eq)

lemma continuation_digit:
  assumes "isUtf8Continuation c"
  obtains z where "z < 64" "code_of c = 0x80 + z"
proof -
  from assms have "0x80 \<le> code_of c" "code_of c \<le> 0xBF"
    by (auto simp: isUtf8Continuation_def less_eq_char_def)
  then show ?thesis using that [of "code_of c - 0x80"] by simp
qed

lemma decode2:
  assumes "sequenceLength c0 = Some 2" "isUtf8Continuation c1"
  shows "\<exists>c. printable c \<and> utf8 c = [c0, c1]"
proof -
  from assms(1) obtain x where x: "code_of c0 = 0xC0 + x" "2 \<le> x" "x < 32"
    using that [of "code_of c0 - 0xC0"]
    by (auto simp: sequenceLength_def less_char_def less_eq_char_def split: if_splits)
  obtain y where y: "y < 64" "code_of c1 = 0x80 + y" using assms(2) by (rule continuation_digit)
  let ?c = "x * 64 + y"
  have "printable ?c" "0x80 \<le> ?c" "?c < 0x800" using x y by (auto simp: printable_def scalar_def)
  with x y show ?thesis by (intro exI [of _ ?c]) (auto simp: utf8_def intro!: char_of_eqI)
qed

lemma decode3:
  assumes "sequenceLength c0 = Some 3" "isUtf8Continuation c1" "isUtf8Continuation c2" "second_ok 3 c0 c1"
  shows "\<exists>c. printable c \<and> utf8 c = [c0, c1, c2]"
proof -
  from assms(1) obtain x where x: "code_of c0 = 0xE0 + x" "x < 16"
    using that [of "code_of c0 - 0xE0"]
    by (auto simp: sequenceLength_def less_char_def less_eq_char_def split: if_splits)
  obtain y where y: "y < 64" "code_of c1 = 0x80 + y" using assms(2) by (rule continuation_digit)
  obtain z where z: "z < 64" "code_of c2 = 0x80 + z" using assms(3) by (rule continuation_digit)
  from assms(4) x y have s: "x = 0 \<longrightarrow> 32 \<le> y" "x = 13 \<longrightarrow> y \<le> 31"
    by (auto simp: second_ok_def less_char_def char_eq_nat simp del: of_char_eq_iff)
  define c where "c = (x * 64 + y) * 64 + z"
  have q: "c mod 64 = z" "c div 64 = x * 64 + y" using z(1) unfolding c_def by (simp_all only: base64_digit)
  have r: "0x800 \<le> c" "c < 0x10000" using x y z s unfolding c_def by (cases "x = 0"; auto)+
  have "scalar c" using x y z s unfolding scalar_def c_def by (cases "x \<le> 12"; cases "x = 13"; auto)
  with r have "printable c" by (auto simp: printable_def)
  with r q x y z show ?thesis
    by (intro exI [of _ c]) (auto simp: utf8_def div_4096 intro!: char_of_eqI)
qed

lemma decode4:
  assumes "sequenceLength c0 = Some 4" "isUtf8Continuation c1" "isUtf8Continuation c2" "isUtf8Continuation c3"
    "second_ok 4 c0 c1"
  shows "\<exists>c. printable c \<and> utf8 c = [c0, c1, c2, c3]"
proof -
  from assms(1) obtain x where x: "code_of c0 = 0xF0 + x" "x \<le> 4"
    using that [of "code_of c0 - 0xF0"]
    by (auto simp: sequenceLength_def less_char_def less_eq_char_def split: if_splits)
  obtain y where y: "y < 64" "code_of c1 = 0x80 + y" using assms(2) by (rule continuation_digit)
  obtain z where z: "z < 64" "code_of c2 = 0x80 + z" using assms(3) by (rule continuation_digit)
  obtain w where w: "w < 64" "code_of c3 = 0x80 + w" using assms(4) by (rule continuation_digit)
  from assms(5) x y have s: "x = 0 \<longrightarrow> 16 \<le> y" "x = 4 \<longrightarrow> y \<le> 15"
    by (auto simp: second_ok_def less_char_def char_eq_nat simp del: of_char_eq_iff)
  define d where "d = (x * 64 + y) * 64 + z"
  define c where "c = d * 64 + w"
  have q: "c mod 64 = w" "c div 64 = d" "d div 64 = x * 64 + y" "d mod 64 = z"
    using z(1) w(1) unfolding c_def d_def by (simp_all only: base64_digit)
  have r: "0x10000 \<le> c" using x y z w s unfolding c_def d_def by (cases "x = 0") auto
  have "c \<le> 0x10FFFF" using x y z w s unfolding c_def d_def by (cases "x = 4") auto
  with r have "printable c" by (auto simp: printable_def scalar_def)
  with r x y z w show ?thesis
    by (intro exI [of _ c]) (simp add: utf8_def div_4096 div_262144 q char_of_eqI)
qed

text \<open>The other direction: the encoding of a printable scalar passes the checks of one iteration.\<close>

lemma utf8_step:
  assumes "printable c"
  shows "\<exists>c0 t. utf8 c = c0 # t \<and> sequenceLength c0 = Some (Suc (length t))
     \<and> list_all isUtf8Continuation t \<and> (t \<noteq> [] \<longrightarrow> second_ok (Suc (length t)) c0 (hd t))"
proof -
  consider "c < 0x80" | "0x80 \<le> c" "c < 0x800" | "0x800 \<le> c" "c < 0x10000" | "0x10000 \<le> c" by linarith
  then show ?thesis
  proof cases
    case 1
    then have "utf8 c = [char_of c]" by (simp add: utf8_def)
    with 1 assms show ?thesis
      by (intro exI [of _ "char_of c"] exI [of _ "[]"]) (auto simp: printable_def sequenceLength_def less_char_def less_eq_char_def char_eq_nat
        simp del: of_char_eq_iff)
  next
    case 2
    have "0xC0 + c div 64 < 256" "2 \<le> c div 64" "c div 64 < 32" "c mod 64 < 64" using 2 by auto
    moreover have "utf8 c = map char_of [0xC0 + c div 64, 0x80 + c mod 64]" using 2 by (simp add: utf8_def)
    ultimately show ?thesis
      by (intro exI [of _ "char_of (0xC0 + c div 64)"] exI [of _ "[char_of (0x80 + c mod 64)]"])
        (auto simp: sequenceLength_def second_ok_def isUtf8Continuation_def less_char_def less_eq_char_def char_eq_nat
        simp del: of_char_eq_iff)
  next
    case 3
    define x y z where "x = c div 64 div 64" and "y = c div 64 mod 64" and "z = c mod 64"
    have c: "c = (x * 64 + y) * 64 + z" by (simp add: x_def y_def z_def)
    have r: "x < 16" "y < 64" "z < 64" using 3 by (auto simp: x_def y_def z_def)
    have s: "x = 0 \<longrightarrow> 32 \<le> y" "x = 13 \<longrightarrow> y \<le> 31"
      using 3 assms r unfolding printable_def scalar_def c by auto
    have "utf8 c = map char_of [0xE0 + x, 0x80 + y, 0x80 + z]"
      using 3 by (simp add: utf8_def div_4096 x_def y_def z_def)
    then show ?thesis using r s
      by (intro exI [of _ "char_of (0xE0 + x)"] exI [of _ "[char_of (0x80 + y), char_of (0x80 + z)]"])
        (auto simp: sequenceLength_def second_ok_def isUtf8Continuation_def less_char_def less_eq_char_def char_eq_nat
        simp del: of_char_eq_iff)
  next
    case 4
    define x y z w where "x = c div 64 div 64 div 64" and "y = c div 64 div 64 mod 64"
      and "z = c div 64 mod 64" and "w = c mod 64"
    have c: "c = ((x * 64 + y) * 64 + z) * 64 + w" by (simp add: x_def y_def z_def w_def)
    have "c \<le> 0x10FFFF" using assms 4 by (auto simp: printable_def scalar_def)
    then have r: "x \<le> 4" "y < 64" "z < 64" "w < 64" by (auto simp: c) (auto simp: y_def z_def w_def)
    have s: "x = 0 \<longrightarrow> 16 \<le> y" "x = 4 \<longrightarrow> y \<le> 15"
      using 4 \<open>c \<le> 0x10FFFF\<close> r unfolding c by auto
    have "utf8 c = map char_of [0xF0 + x, 0x80 + y, 0x80 + z, 0x80 + w]"
      using 4 by (simp add: utf8_def div_4096 div_262144 x_def y_def z_def w_def)
    then show ?thesis using r s
      by (intro exI [of _ "char_of (0xF0 + x)"]
          exI [of _ "[char_of (0x80 + y), char_of (0x80 + z), char_of (0x80 + w)]"])
        (auto simp: sequenceLength_def second_ok_def isUtf8Continuation_def less_char_def less_eq_char_def char_eq_nat
        simp del: of_char_eq_iff)
  qed
qed

lemma continuation_upt:
  "list_all (\<lambda>offset. isUtf8Continuation (value ! (i + offset))) [1..<n] \<longleftrightarrow>
     (\<forall>j. 1 \<le> j \<and> j < n \<longrightarrow> isUtf8Continuation (value ! (i + j)))"
  by (auto simp: list_all_iff)

lemma sequenceLength_cases:
  assumes "sequenceLength c = Some n"
  shows "n = 1 \<or> n = 2 \<or> n = 3 \<or> n = 4"
  using assms by (auto simp: sequenceLength_def split: if_splits)

lemma iteration_decodes:
  assumes "i < length s" "sequenceLength (s ! i) = Some n" "i + n \<le> length s"
    and "list_all (\<lambda>offset. isUtf8Continuation (s ! (i + offset))) [1..<n]"
    and "second_ok n (s ! i) (s ! (i + 1))"
  shows "\<exists>c. printable c \<and> utf8 c = take n (drop i s)"
proof -
  have nth: "take n (drop i s) = map (\<lambda>j. s ! (i + j)) [0..<n]"
    using assms(3) by (intro nth_equalityI) auto
  have cont: "isUtf8Continuation (s ! (i + j))" if "1 \<le> j" "j < n" for j
    using assms(4) that unfolding continuation_upt by simp
  consider "n = 1" | "n = 2" | "n = 3" | "n = 4" using sequenceLength_cases [OF assms(2)] by blast
  then show ?thesis
  proof cases
    case 1
    have "take n (drop i s) = [s ! i]" using 1 nth by simp
    moreover have "\<exists>c. printable c \<and> utf8 c = [s ! i]" using decode1 assms(2) 1 by simp
    ultimately show ?thesis by simp
  next
    case 2
    have "take n (drop i s) = [s ! i, s ! (i + 1)]" using 2 nth by (simp add: upt_rec)
    then show ?thesis using 2 decode2 assms(2) cont [of 1] by simp
  next
    case 3
    have "take n (drop i s) = [s ! i, s ! (i + 1), s ! (i + 2)]" using 3 nth by (simp add: upt_rec)
    then show ?thesis using 3 decode3 assms(2,5) cont [of 1] cont [of 2] by simp
  next
    case 4
    have "take n (drop i s) = [s ! i, s ! (i + 1), s ! (i + 2), s ! (i + 3)]"
      using 4 nth by (simp add: upt_rec numeral_3_eq_3)
    then show ?thesis using 4 decode4 assms(2,5) cont [of 1] cont [of 2] cont [of 3] by simp
  qed
qed

lemma bounded_text_loop_sound:
  assumes "bounded_text_loop s m i k" "i \<le> length s" "k \<le> m"
  shows "\<exists>cs. drop i s = concat (map utf8 cs) \<and> list_all printable cs \<and> k + length cs \<le> m"
  using assms
proof (induction s m i k rule: bounded_text_loop.induct)
  case (1 s m i k)
  show ?case
  proof (cases "i < length s")
    case False
    with 1 show ?thesis by (intro exI [of _ "[]"]) simp
  next
    case True
    with 1(2) obtain n where n: "sequenceLength (s ! i) = Some n" "i + n \<le> length s"
      "list_all (\<lambda>offset. isUtf8Continuation (s ! (i + offset))) [1..<n]"
      "second_ok n (s ! i) (s ! (i + 1))" "k + 1 \<le> m" "bounded_text_loop s m (i + n) (k + 1)"
      by (subst (asm) bounded_text_loop.simps)
        (auto simp: Let_def second_ok_def split: option.splits if_splits)
    from iteration_decodes [OF True n(1-4)] obtain c where c: "printable c" "utf8 c = take n (drop i s)" by blast
    have "\<exists>cs. drop (i + n) s = concat (map utf8 cs) \<and> list_all printable cs \<and> k + 1 + length cs \<le> m"
      using True n by (intro "1.IH") (auto simp: second_ok_def)
    then obtain cs where cs: "drop (i + n) s = concat (map utf8 cs)" "list_all printable cs" "k + 1 + length cs \<le> m" by blast
    have "drop i s = take n (drop i s) @ drop (i + n) s" by (metis append_take_drop_id drop_drop add.commute)
    with c cs show ?thesis by (intro exI [of _ "c # cs"]) simp
  qed
qed

lemma bounded_text_loop_complete:
  assumes "list_all printable cs" "s = pre @ concat (map utf8 cs)" "k + length cs \<le> m"
  shows "bounded_text_loop s m (length pre) k"
  using assms
proof (induction cs arbitrary: pre k)
  case Nil
  then show ?case by (simp add: bounded_text_loop.simps)
next
  case (Cons c cs)
  then have "printable c" by simp
  then obtain c0 t where t: "utf8 c = c0 # t" "sequenceLength c0 = Some (Suc (length t))"
    "list_all isUtf8Continuation t" "t \<noteq> [] \<longrightarrow> second_ok (Suc (length t)) c0 (hd t)"
    using utf8_step by blast
  let ?rest = "concat (map utf8 cs)"
  have s: "s = pre @ c0 # t @ ?rest" using Cons.prems(2) t(1) by simp
  have first: "s ! length pre = c0" by (simp add: s nth_append)
  have later: "s ! (length pre + Suc j) = t ! j" if "j < length t" for j
    using that by (simp add: s nth_append)
  have cont: "list_all (\<lambda>offset. isUtf8Continuation (s ! (length pre + offset))) [1..<Suc (length t)]"
    using t(3) unfolding continuation_upt
    by (metis One_nat_def Suc_le_D Suc_less_eq later list_all_length)
  have "bounded_text_loop s m (length (pre @ utf8 c)) (k + 1)"
    using Cons.prems s t(1) by (intro Cons.IH) auto
  then have rec: "bounded_text_loop s m (length pre + Suc (length t)) (k + 1)" by (simp add: t(1))
  have sec: "t \<noteq> [] \<Longrightarrow> s ! (length pre + 1) = hd t" using later [of 0] by (cases t) auto
  have "second_ok (Suc (length t)) c0 (s ! (length pre + 1))"
    using t(4) sec by (cases t) (auto simp: second_ok_def)
  with first t(2) cont rec Cons.prems(3) s show ?case
    by (subst bounded_text_loop.simps) (auto simp: Let_def second_ok_def)
qed

text \<open>C30: The bounded text validator accepts exactly the UTF-8 encodings of 1 to m scalar values
  without C0 controls and DEL.\<close>

theorem isValidBoundedText_utf8:
  "isValidBoundedText s m \<longleftrightarrow>
     (\<exists>cs. s = concat (map utf8 cs) \<and> cs \<noteq> [] \<and> length cs \<le> m \<and> list_all printable cs)"
proof
  assume v: "isValidBoundedText s m"
  then have "s \<noteq> []" "bounded_text_loop s m 0 0" by (auto simp: isValidBoundedText_def split: if_splits)
  with bounded_text_loop_sound [of s m 0 0] show
    "\<exists>cs. s = concat (map utf8 cs) \<and> cs \<noteq> [] \<and> length cs \<le> m \<and> list_all printable cs" by auto
next
  assume "\<exists>cs. s = concat (map utf8 cs) \<and> cs \<noteq> [] \<and> length cs \<le> m \<and> list_all printable cs"
  then obtain cs where cs: "s = concat (map utf8 cs)" "cs \<noteq> []" "length cs \<le> m" "list_all printable cs" by blast
  then have "s \<noteq> []" using utf8_step [of "hd cs"] by (cases cs) auto
  with cs bounded_text_loop_complete [of cs s "[]" 0 m] show "isValidBoundedText s m"
    by (simp add: isValidBoundedText_def)
qed

section \<open>The copies of the UUID check agree\<close>

definition uuid_char_ok :: "nat \<Rightarrow> char \<Rightarrow> bool" where
  "uuid_char_ok index character \<longleftrightarrow>
     (if uuid_separator index then character = CHR ''-'' else isHexDigit character)"

lemma isValidUuid_iff:
  "isValidUuid value \<longleftrightarrow> length value = 36 \<and> (\<forall>i<36. uuid_char_ok i (value ! i))"
  by (auto simp: isValidUuid_def list_all_iff uuid_char_ok_def Let_def)

text \<open>The same check as a recursion on the characters, for strings that are known by their text.\<close>

fun uuid_chars :: "nat \<Rightarrow> string \<Rightarrow> bool" where
  "uuid_chars k [] = True"
| "uuid_chars k (c # cs) = (uuid_char_ok k c \<and> uuid_chars (Suc k) cs)"

lemma uuid_chars_nth: "uuid_chars k cs \<longleftrightarrow> (\<forall>i<length cs. uuid_char_ok (k + i) (cs ! i))"
  by (induction cs arbitrary: k) (auto simp: nth_Cons less_Suc_eq_0_disj all_conj_distrib split: nat.splits)

lemma isValidUuid_chars: "isValidUuid value \<longleftrightarrow> length value = 36 \<and> uuid_chars 0 value"
  by (auto simp: isValidUuid_iff uuid_chars_nth)

lemma search_hyphen_iff: "search_hyphen index hs \<longleftrightarrow> index \<in> set hs"
  by (induction hs) auto

lemma search_kHyphens: "search_hyphen index kHyphens \<longleftrightarrow> uuid_separator index"
  by (auto simp: search_hyphen_iff kHyphens_def uuid_separator_def)

lemma array_uuid_loop_iff:
  "array_uuid_loop value is \<longleftrightarrow> (\<forall>i\<in>set is. uuid_char_ok i (value ! i))"
  by (induction "is") (auto simp: search_kHyphens uuid_char_ok_def isHexDigit_def Let_def)

lemma uuid_scan_prefix:
  assumes "[i..<36] = map_upto" "i \<le> 36" "i \<le> length value" "CHR 0x00 \<notin> set value"
  shows "uuid_scan value map_upto =
    Some (length value = 36 \<and> (\<forall>j. i \<le> j \<and> j < 36 \<longrightarrow> uuid_char_ok j (value ! j)))"
  using assms
proof (induction map_upto arbitrary: i)
  case Nil
  then have "i = 36" by simp
  with Nil show ?case by (auto simp: cstr_at_def) (metis nth_mem)
next
  case (Cons k ks)
  then have k: "k = i" "i < 36" "ks = [Suc i..<36]"
    by (auto simp: upt_eq_Cons_conv)
  show ?case
  proof (cases "i < length value")
    case False
    with Cons have "i = length value" by simp
    with k False show ?thesis
      by (auto simp: cstr_at_def)
  next
    case True
    have tail: "uuid_scan value ks =
      Some (length value = 36 \<and> (\<forall>j. Suc i \<le> j \<and> j < 36 \<longrightarrow> uuid_char_ok j (value ! j)))"
      using Cons.prems k True by (intro Cons.IH) auto
    have split: "(\<forall>j. i \<le> j \<and> j < 36 \<longrightarrow> uuid_char_ok j (value ! j)) \<longleftrightarrow>
      uuid_char_ok i (value ! i) \<and> (\<forall>j. Suc i \<le> j \<and> j < 36 \<longrightarrow> uuid_char_ok j (value ! j))"
      using k(2) by (metis Suc_leD Suc_leI le_neq_implies_less order_refl)
    have "cstr_at value i = Some (value ! i)" using True by (simp add: cstr_at_def)
    then show ?thesis unfolding split
      by (auto simp: k(1) tail search_kHyphens uuid_char_ok_def isHexDigit_def)
  qed
qed

lemma array_uuid_agrees:
  "(if length value \<noteq> 36 then False else array_uuid_loop value [0..<length value]) = isValidUuid value"
  by (simp add: isValidUuid_iff array_uuid_loop_iff Ball_def)

theorem uuid_copies_agree:
  "audio_input_isValidUuid value = isValidUuid value \<and> camera_isValidUuid value = isValidUuid value
   \<and> executor_isValidUuid value = isValidUuid value"
proof (intro conjI)
  show "audio_input_isValidUuid value = isValidUuid value" "camera_isValidUuid value = isValidUuid value"
    by (simp_all only: audio_input_isValidUuid_def camera_isValidUuid_def array_uuid_agrees)
  show "executor_isValidUuid value = isValidUuid value"
    by (simp only: executor_isValidUuid_def isValidUuid_def uuid_separator_def isHexDigit_def Let_def)
qed

theorem uuid_scan_in_bounds:
  assumes "CHR 0x00 \<notin> set value"
  shows "audio_output_isValidUuid (Some value) = Some (isValidUuid value)"
  using uuid_scan_prefix [OF refl _ _ assms, of 0]
  by (simp add: audio_output_isValidUuid_def isValidUuid_iff)

lemma uuid_scan_in_bounds_witness:
  "audio_output_isValidUuid (Some ''00000000-0000-4000-8000-00000000000'') = Some False"
  by (subst uuid_scan_in_bounds; simp add: isValidUuid_def)

end
