(* ===== verification/Settings.thy ===== *)
theory Settings
  imports Prelude
begin

text \<open>
  \<open>settings.cpp\<close>: the choice of the bridge URL among its sources and the check of its shape.

  The specification of the check is the grammar \<open>scheme authority path\<close>.
\<close>

definition isdigit :: "char \<Rightarrow> bool" where
  "isdigit c \<longleftrightarrow> CHR ''0'' \<le> c \<and> c \<le> CHR ''9''"

definition digit_value :: "char \<Rightarrow> nat" where
  "digit_value c = of_char c - 48"

text \<open>The loop leaves early above 65535, so its 32-bit accumulator never wraps.\<close>

fun port_loop :: "string \<Rightarrow> nat \<Rightarrow> nat option" where
  "port_loop [] value = Some value"
| "port_loop (character # rest) value =
    (if \<not> isdigit character then None
     else let value = value * 10 + digit_value character in
       if value > 65535 then None else port_loop rest value)"

definition isValidPort :: "string \<Rightarrow> bool" where
  "isValidPort port =
    (if port = [] then False
     else case port_loop port 0 of None \<Rightarrow> False | Some value \<Rightarrow> value \<ge> 1)"

definition isValidHost :: "string \<Rightarrow> bool" where
  "isValidHost host =
    (if host = [] then False
     else list_all (\<lambda>character. \<not> (character \<le> CHR 0x20 \<or> character \<ge> CHR 0x7F \<or> character = CHR ''/''
            \<or> character = CHR 0x5C \<or> character = CHR ''@'' \<or> character = CHR ''?''
            \<or> character = CHR ''#'' \<or> character = CHR ''['' \<or> character = CHR '']'')) host)"

definition isValidAuthority :: "string \<Rightarrow> bool" where
  "isValidAuthority authority =
    (if authority = [] then False
     else if hd authority = CHR ''['' then False
     else case str_find authority '':'' 0 of
       None \<Rightarrow> isValidHost authority
     | Some colon \<Rightarrow>
         str_find authority '':'' (colon + 1) = None
         \<and> isValidHost (substr authority 0 colon) \<and> isValidPort (drop (colon + 1) authority))"

definition kPath :: string where "kPath = ''/v1/device/ws''"
definition kMaxUrlBytes :: nat where "kMaxUrlBytes = 512"

definition isBridgeWebSocketUrl :: "string \<Rightarrow> bool" where
  "isBridgeWebSocketUrl url =
    (if length url > kMaxUrlBytes then False
     else let schemeLength = (if match_at url ''ws://'' 0 then 5 else if match_at url ''wss://'' 0 then 6 else 0);
              pathLength = length kPath
       in if schemeLength = 0 \<or> length url < pathLength then False
          else let pathOffset = length url - pathLength in
            pathOffset > schemeLength \<and> drop pathOffset url = kPath
            \<and> isValidAuthority (substr url schemeLength (pathOffset - schemeLength)))"

datatype BridgeEndpointSource = NoSource | Nvs | Mdns | NvsFallback | Kconfig

record BridgeEndpointSources =
  nvsUrl :: string
  mdnsUrl :: string
  nvsFallbackUrl :: string
  kconfigUrl :: string
  discoveryEnabled :: bool

definition new_BridgeEndpointSources :: BridgeEndpointSources where
  "new_BridgeEndpointSources = \<lparr>nvsUrl = [], mdnsUrl = [], nvsFallbackUrl = [], kconfigUrl = [],
     discoveryEnabled = True\<rparr>"

record BridgeEndpointResult =
  endpoint_ok :: bool
  endpoint_source :: BridgeEndpointSource
  endpoint_url :: string

definition resolveBridgeEndpoint :: "BridgeEndpointSources \<Rightarrow> BridgeEndpointResult" where
  "resolveBridgeEndpoint sources =
    (let (source, url) =
       (if nvsUrl sources \<noteq> [] then (Nvs, Some (nvsUrl sources))
        else if discoveryEnabled sources \<and> mdnsUrl sources \<noteq> [] then (Mdns, Some (mdnsUrl sources))
        else if nvsFallbackUrl sources \<noteq> [] then (NvsFallback, Some (nvsFallbackUrl sources))
        else if kconfigUrl sources \<noteq> [] then (Kconfig, Some (kconfigUrl sources))
        else (NoSource, None))
     in case url of
          None \<Rightarrow> \<lparr>endpoint_ok = False, endpoint_source = NoSource, endpoint_url = []\<rparr>
        | Some u \<Rightarrow>
            if \<not> isBridgeWebSocketUrl u
            then \<lparr>endpoint_ok = False, endpoint_source = NoSource, endpoint_url = []\<rparr>
            else \<lparr>endpoint_ok = True, endpoint_source = source, endpoint_url = u\<rparr>)"

section \<open>The grammar\<close>

abbreviation decimal_from :: "nat \<Rightarrow> string \<Rightarrow> nat" where
  "decimal_from n s \<equiv> foldl (\<lambda>n c. n * 10 + digit_value c) n s"

definition decimal :: "string \<Rightarrow> nat" where
  "decimal s = decimal_from 0 s"

lemma decimal_from_mono: "n \<le> decimal_from n s"
proof (induction s arbitrary: n)
  case (Cons c s)
  have "n \<le> n * 10 + digit_value c" by simp
  also have "\<dots> \<le> decimal_from (n * 10 + digit_value c) s" by (rule Cons.IH)
  finally show ?case by simp
qed simp

lemma port_loop_eq:
  "n \<le> 65535 \<Longrightarrow> port_loop s n =
     (if list_all isdigit s \<and> decimal_from n s \<le> 65535 then Some (decimal_from n s) else None)"
proof (induction s arbitrary: n)
  case (Cons c s)
  then show ?case using decimal_from_mono [of "n * 10 + digit_value c" s]
    by (cases "n * 10 + digit_value c > 65535") (simp_all add: Let_def Cons.IH)
qed simp

lemma isValidPort_iff:
  "isValidPort p \<longleftrightarrow> list_all isdigit p \<and> p \<noteq> [] \<and> 1 \<le> decimal p \<and> decimal p \<le> 65535"
  by (auto simp: isValidPort_def decimal_def port_loop_eq)

definition host_char :: "char \<Rightarrow> bool" where
  "host_char c \<longleftrightarrow> CHR 0x20 < c \<and> c < CHR 0x7F
     \<and> c \<notin> set [CHR ''/'', CHR 0x5C, CHR ''@'', CHR ''?'', CHR ''#'', CHR ''['', CHR '']'']"

lemma isValidHost_iff: "isValidHost h \<longleftrightarrow> h \<noteq> [] \<and> list_all host_char h"
  by (auto simp: isValidHost_def host_char_def list_all_iff not_le)

lemma in_set_drop: "x \<in> set (drop n a) \<longleftrightarrow> (\<exists>j\<ge>n. j < length a \<and> a ! j = x)"
proof
  assume "x \<in> set (drop n a)"
  then obtain i where "i < length a - n" "x = a ! (n + i)" by (auto simp: in_set_conv_nth)
  then show "\<exists>j\<ge>n. j < length a \<and> a ! j = x" by (intro exI [of _ "n + i"]) auto
next
  assume "\<exists>j\<ge>n. j < length a \<and> a ! j = x"
  then obtain j where "n \<le> j" "j < length a" "a ! j = x" by blast
  then show "x \<in> set (drop n a)" unfolding in_set_conv_nth by (intro exI [of _ "j - n"]) auto
qed

lemma match_at_single: "match_at s [c] i \<longleftrightarrow> i < length s \<and> s ! i = c"
  by (auto simp: match_at_def take_Suc_conv_app_nth hd_drop_conv_nth take_Suc Suc_le_eq)

text \<open>An authority is a host, or a host and a port; neither holds a second colon.\<close>

definition authority_grammar :: "string \<Rightarrow> bool" where
  "authority_grammar a \<longleftrightarrow> isValidHost a \<and> CHR '':'' \<notin> set a
     \<or> (\<exists>h p. a = h @ CHR '':'' # p \<and> isValidHost h \<and> CHR '':'' \<notin> set h \<and> isValidPort p)"

lemma colon_not_digit: "list_all isdigit p \<Longrightarrow> CHR '':'' \<notin> set p"
  by (auto simp: list_all_iff isdigit_def less_eq_char_def)

lemma host_not_bracket: "isValidHost h \<Longrightarrow> hd (h @ t) \<noteq> CHR ''[''"
  by (cases h) (auto simp: isValidHost_iff host_char_def)

lemma isValidAuthority_iff: "isValidAuthority a \<longleftrightarrow> authority_grammar a"
proof (cases "str_find a '':'' 0")
  case None
  then have n: "CHR '':'' \<notin> set a" by (auto simp: str_find_None match_at_single in_set_conv_nth)
  then show ?thesis using None host_not_bracket [of a "[]"]
    by (auto simp: isValidAuthority_def authority_grammar_def isValidHost_iff)
next
  case (Some k)
  then have k: "k < length a" "a ! k = CHR '':''" "\<forall>j<k. a ! j \<noteq> CHR '':''"
    by (auto simp: str_find_Some match_at_single)
  have a: "a = take k a @ CHR '':'' # drop (Suc k) a" using k by (metis id_take_nth_drop)
  have h: "CHR '':'' \<notin> set (take k a)" using k by (auto simp: in_set_conv_nth)
  have rest: "str_find a '':'' (k + 1) = None \<longleftrightarrow> CHR '':'' \<notin> set (drop (Suc k) a)"
    unfolding str_find_None match_at_single in_set_drop by auto
  have split: "take k a = h' \<and> drop (Suc k) a = p'" if "a = h' @ CHR '':'' # p'" "CHR '':'' \<notin> set h'" for h' p'
  proof -
    have "length h' = k"
      using that(1,2) k(2,3) nth_append_length [of h' "CHR '':''" p'] k(1)
      by (metis (no_types, lifting) length_append_singleton less_Suc_eq linorder_neqE_nat nth_append nth_mem)
    then show ?thesis using that by simp
  qed
  show ?thesis
  proof
    assume "isValidAuthority a"
    then show "authority_grammar a"
      using Some a h by (auto simp: isValidAuthority_def authority_grammar_def substr_def split: if_splits)
  next
    assume "authority_grammar a"
    then have "isValidHost (take k a) \<and> isValidPort (drop (Suc k) a)"
      using k split unfolding authority_grammar_def by (metis nth_mem)
    moreover from this have "hd a \<noteq> CHR ''[''" by (subst a) (rule host_not_bracket, simp)
    ultimately show "isValidAuthority a" using Some rest k
      by (auto simp: isValidAuthority_def substr_def isValidPort_iff dest: colon_not_digit)
  qed
qed

lemma match_at_0: "match_at s p 0 \<longleftrightarrow> (\<exists>r. s = p @ r)"
  by (auto simp: match_at_iff)

lemma authority_not_empty: "isValidAuthority a \<Longrightarrow> a \<noteq> []"
  by (auto simp: isValidAuthority_def)

definition url_of :: "string \<Rightarrow> string \<Rightarrow> string" where
  "url_of scheme authority = scheme @ authority @ kPath"

lemma scheme_body:
  assumes "n < length url - length kPath" "\<not> length url < length kPath"
    and "match_at url scheme 0" "drop (length url - length kPath) url = kPath" "length scheme = n"
  shows "url = url_of scheme (substr url n (length url - length kPath - n))"
proof -
  from assms(3) obtain r where r: "url = scheme @ r" by (auto simp: match_at_0)
  with assms(1,2,4,5) have "length kPath \<le> length r" "drop (length r - length kPath) r = kPath" by auto
  then have "r = take (length r - length kPath) r @ kPath" by (metis append_take_drop_id)
  with r assms(5) show ?thesis by (simp add: url_of_def substr_def)
qed

lemma schemes_differ: "\<not> (match_at url ''ws://'' 0 \<and> match_at url ''wss://'' 0)"
  by (auto simp: match_at_0)

theorem bridge_url_grammar:
  "isBridgeWebSocketUrl url \<longleftrightarrow> length url \<le> 512
     \<and> (\<exists>scheme authority. scheme \<in> {''ws://'', ''wss://''} \<and> authority_grammar authority
          \<and> url = scheme @ authority @ ''/v1/device/ws'')"
proof
  assume v: "isBridgeWebSocketUrl url"
  obtain scheme n where s: "scheme \<in> {''ws://'', ''wss://''}" "match_at url scheme 0" "length scheme = n"
    and u: "n < length url - length kPath" "\<not> length url < length kPath" "length url \<le> 512"
      "drop (length url - length kPath) url = kPath"
      "isValidAuthority (substr url n (length url - length kPath - n))"
  proof (cases "match_at url ''ws://'' 0")
    case True
    with v show thesis using that [of "''ws://''" 5]
      by (simp add: isBridgeWebSocketUrl_def Let_def kMaxUrlBytes_def split: if_split_asm)
  next
    case False
    with v show thesis using that [of "''wss://''" 6]
      by (simp add: isBridgeWebSocketUrl_def Let_def kMaxUrlBytes_def split: if_split_asm)
  qed
  have "url = url_of scheme (substr url n (length url - length kPath - n))"
    by (rule scheme_body) (use s u in simp_all)
  with s(1) u(3,5) show "length url \<le> 512
     \<and> (\<exists>scheme authority. scheme \<in> {''ws://'', ''wss://''} \<and> authority_grammar authority
          \<and> url = scheme @ authority @ ''/v1/device/ws'')"
    unfolding url_of_def isValidAuthority_iff kPath_def by blast
next
  assume "length url \<le> 512
     \<and> (\<exists>scheme authority. scheme \<in> {''ws://'', ''wss://''} \<and> authority_grammar authority
          \<and> url = scheme @ authority @ ''/v1/device/ws'')"
  then obtain s a where u: "length url \<le> 512" "s \<in> {''ws://'', ''wss://''}" "isValidAuthority a"
    "url = s @ a @ kPath" unfolding isValidAuthority_iff kPath_def by blast
  have m: "match_at url s 0" using u(4) unfolding match_at_0 by blast
  have a: "a \<noteq> []" using u(3) by (rule authority_not_empty)
  have len: "length url = length s + length a + length kPath"
    and d: "drop (length s + length a) url = kPath" and t: "take (length a) (drop (length s) url) = a"
    using u(4) by simp_all
  from u(2) show "isBridgeWebSocketUrl url"
  proof (elim insertE emptyE)
    assume s: "s = ''ws://''"
    then have l: "length s = 5" and m': "match_at url ''ws://'' 0" using m by auto
    show ?thesis using m' u(1,3) a len [unfolded l] d [unfolded l] t [unfolded l]
      by (simp add: isBridgeWebSocketUrl_def Let_def kMaxUrlBytes_def substr_def)
  next
    assume s: "s = ''wss://''"
    then have l: "length s = 6" and m': "\<not> match_at url ''ws://'' 0" "match_at url ''wss://'' 0"
      using m schemes_differ by auto
    show ?thesis using m' u(1,3) a len [unfolded l] d [unfolded l] t [unfolded l]
      by (simp add: isBridgeWebSocketUrl_def Let_def kMaxUrlBytes_def substr_def)
  qed
qed

text \<open>The first source that is set decides; a lower source is not used in place of an invalid one.\<close>

definition endpoint_candidates :: "BridgeEndpointSources \<Rightarrow> (BridgeEndpointSource \<times> string) list" where
  "endpoint_candidates s =
     [(Nvs, nvsUrl s), (Mdns, if discoveryEnabled s then mdnsUrl s else []),
      (NvsFallback, nvsFallbackUrl s), (Kconfig, kconfigUrl s)]"

theorem endpoint_precedence:
  "resolveBridgeEndpoint s =
    (case List.find (\<lambda>c. snd c \<noteq> []) (endpoint_candidates s) of
       None \<Rightarrow> \<lparr>endpoint_ok = False, endpoint_source = NoSource, endpoint_url = []\<rparr>
     | Some (source, url) \<Rightarrow>
         if isBridgeWebSocketUrl url
         then \<lparr>endpoint_ok = True, endpoint_source = source, endpoint_url = url\<rparr>
         else \<lparr>endpoint_ok = False, endpoint_source = NoSource, endpoint_url = []\<rparr>)"
  by (auto simp: resolveBridgeEndpoint_def endpoint_candidates_def)

lemma endpoint_ok_url:
  "endpoint_ok (resolveBridgeEndpoint s) \<Longrightarrow> isBridgeWebSocketUrl (endpoint_url (resolveBridgeEndpoint s))"
  by (simp add: endpoint_precedence split: option.splits if_splits prod.splits)

end
