(* ===== verification/Cpp_Library.thy ===== *)
theory Cpp_Library
  imports Settings
begin

text \<open>
  The parts of the C and C++ libraries that several components use, as their standards define them:
  \<open>std::to_string\<close> and \<open>std::hex\<close> output, \<open>strtol\<close> and \<open>strtoul\<close>, and the trimming of strings.  The types
  \<open>long\<close> and \<open>unsigned long\<close> have 32 bits on the target; both parsers clamp there, as the C standard says.
\<close>

lemma takeWhile_id: "list_all P s \<Longrightarrow> takeWhile P s = s"
  by (induction s) auto

section \<open>Printing numbers\<close>

fun to_string :: "nat \<Rightarrow> string" where
  "to_string n = (if n < 10 then [char_of (48 + n)] else to_string (n div 10) @ [char_of (48 + n mod 10)])"

declare to_string.simps [simp del]

definition int_to_string :: "int \<Rightarrow> string" where
  "int_to_string i = (if i < 0 then CHR ''-'' # to_string (nat (- i)) else to_string (nat i))"

fun to_hex :: "nat \<Rightarrow> string" where
  "to_hex n = (if n < 16 then [''0123456789abcdef'' ! n] else to_hex (n div 16) @ [''0123456789abcdef'' ! (n mod 16)])"

declare to_hex.simps [simp del]

lemma digit_char: "(k :: nat) < 10 \<Longrightarrow> isdigit (char_of (48 + k)) \<and> digit_value (char_of (48 + k)) = k"
  by (simp add: isdigit_def digit_value_def less_eq_char_def)

lemma isdigit_char: "isdigit c \<longleftrightarrow> (\<exists>k<10. c = char_of (48 + k :: nat))"
proof
  assume "isdigit c"
  then have "48 \<le> (of_char c :: nat)" "(of_char c :: nat) \<le> 57" by (auto simp: isdigit_def less_eq_char_def)
  then show "\<exists>k<10. c = char_of (48 + k :: nat)" by (intro exI [of _ "of_char c - 48"]) auto
qed (auto dest: digit_char)

lemma to_string_digits: "list_all isdigit (to_string n) \<and> to_string n \<noteq> []"
proof (induction n rule: to_string.induct)
  case (1 n)
  then show ?case using digit_char [of n] digit_char [of "n mod 10"]
    by (subst (1 2) to_string.simps) auto
qed

lemma decimal_to_string: "decimal (to_string n) = n"
proof (induction n rule: to_string.induct)
  case (1 n)
  show ?case
  proof (cases "n < 10")
    case True
    then show ?thesis using digit_char [of n] by (subst to_string.simps) (simp add: decimal_def)
  next
    case False
    with 1 have "decimal (to_string (n div 10) @ [char_of (48 + n mod 10)]) = n div 10 * 10 + n mod 10"
      using digit_char [of "n mod 10"] by (simp add: decimal_def)
    with False show ?thesis by (subst to_string.simps) simp
  qed
qed

lemma zero_digit: "char_of (48 :: nat) = CHR ''0''"
  by code_simp

lemma zero_text: "(k :: nat) < 10 \<Longrightarrow> char_of (48 + k) = CHR ''0'' \<longleftrightarrow> k = 0"
  using digit_char [of k] digit_char [of 0] by (metis add_0_right zero_digit zero_less_numeral)

lemma to_string_length: "n < 10 ^ Suc k \<Longrightarrow> length (to_string n) \<le> Suc k"
proof (induction k arbitrary: n)
  case 0
  then show ?case by (simp add: to_string.simps)
next
  case (Suc k)
  have "n div 10 < 10 ^ Suc k" using Suc.prems by (simp add: less_mult_imp_div_less mult.commute)
  then have "length (to_string (n div 10)) \<le> Suc k" by (rule Suc.IH)
  then show ?case by (subst to_string.simps) simp
qed

section \<open>Parsing numbers\<close>

definition isspace :: "char \<Rightarrow> bool" where
  "isspace c \<longleftrightarrow> c \<in> set [CHR '' '', CHR 0x09, CHR 0x0A, CHR 0x0B, CHR 0x0C, CHR 0x0D]"

definition hex_value :: "char \<Rightarrow> nat option" where
  "hex_value c =
    (if CHR ''0'' \<le> c \<and> c \<le> CHR ''9'' then Some (of_char c - 48)
     else if CHR ''a'' \<le> c \<and> c \<le> CHR ''f'' then Some (of_char c - 87)
     else if CHR ''A'' \<le> c \<and> c \<le> CHR ''F'' then Some (of_char c - 55) else None)"

definition base_digit :: "nat \<Rightarrow> char \<Rightarrow> nat option" where
  "base_digit base c = (case hex_value c of None \<Rightarrow> None | Some d \<Rightarrow> if d < base then Some d else None)"

abbreviation is_base_digit :: "nat \<Rightarrow> char \<Rightarrow> bool" where
  "is_base_digit base c \<equiv> base_digit base c \<noteq> None"

definition digits_value :: "nat \<Rightarrow> string \<Rightarrow> nat" where
  "digits_value base s = foldl (\<lambda>n c. n * base + the (base_digit base c)) 0 s"

text \<open>The subject sequence of \<open>strtol\<close>: a sign, the digits, and the characters consumed (0 for no conversion).\<close>

definition strto_subject :: "nat \<Rightarrow> string \<Rightarrow> bool \<times> nat \<times> nat" where
  "strto_subject base s =
    (let blanks = length (takeWhile isspace s);
         rest = drop blanks s;
         negative = (rest \<noteq> [] \<and> hd rest = CHR ''-'');
         sign = (if rest \<noteq> [] \<and> (hd rest = CHR ''-'' \<or> hd rest = CHR ''+'') then 1 else 0);
         body = drop sign rest;
         prefix = (if base = 16 \<and> 3 \<le> length body \<and> body ! 0 = CHR ''0''
                      \<and> (body ! 1 = CHR ''x'' \<or> body ! 1 = CHR ''X'') \<and> is_base_digit 16 (body ! 2) then 2 else 0);
         digits = takeWhile (is_base_digit base) (drop prefix body)
     in if digits = [] then (False, 0, 0)
        else (negative, digits_value base digits, blanks + sign + prefix + length digits))"

definition strtol :: "nat \<Rightarrow> string \<Rightarrow> int \<times> nat" where
  "strtol base s =
    (let (negative, n, consumed) = strto_subject base s;
         v = (if negative then - int n else int n)
     in (if v > 2 ^ 31 - 1 then 2 ^ 31 - 1 else if v < - (2 ^ 31) then - (2 ^ 31) else v, consumed))"

definition strtoul :: "nat \<Rightarrow> string \<Rightarrow> u32 \<times> nat" where
  "strtoul base s =
    (let (negative, n, consumed) = strto_subject base s
     in (if n > 2 ^ 32 - 1 then - 1 else if negative then - of_nat n else of_nat n, consumed))"

definition trim_left :: "char set \<Rightarrow> string \<Rightarrow> string" where
  "trim_left cs s = dropWhile (\<lambda>c. c \<in> cs) s"

definition trim_right :: "char set \<Rightarrow> string \<Rightarrow> string" where
  "trim_right cs s = rev (dropWhile (\<lambda>c. c \<in> cs) (rev s))"

abbreviation blank :: "char set" where
  "blank \<equiv> {CHR '' '', CHR 0x09}"

abbreviation blank_or_eol :: "char set" where
  "blank_or_eol \<equiv> {CHR '' '', CHR 0x09, CHR 0x0D, CHR 0x0A}"

end
