(* ===== verification/Provisioning.thy ===== *)
theory Provisioning
  imports Text_Validation Cpp_Library
begin

text \<open>
  \<open>provisioning.cpp\<close>: the arguments of the local console command that provisions the robot.

  An argument vector is a function from the index to a \<open>const char*\<close> (\<open>None\<close> for a null pointer),
  itself \<open>None\<close> for a null vector.  \<open>from_chars\<close> is \<open>std::from_chars\<close> for \<open>int\<close> in base 10: the value, or
  \<open>None\<close> for an error code, and the number of characters it has consumed.
\<close>

datatype ProvisioningAction = NoAction | SetDeviceId | SetDeviceName | SetBridgeUrl | SetBridgeFallbackUrl
  | SetBridgeToken | SetBridgeDiscoveryEnabled | SetAudioVolume | SetDisplayBrightness
  | SetMotionIdleLevel | SetTouchEnabled | CycleWifi

datatype ProvisioningError = NoError | InvalidArguments | InvalidValue

datatype WifiCycleAuthorization = Allowed | NotConnected | AlreadyUsed

record ProvisioningResult =
  action :: ProvisioningAction
  error :: ProvisioningError
  provisioned_value :: string
  numericValue :: int
  boolValue :: bool
  restartRequired :: bool

definition new_ProvisioningResult :: ProvisioningResult where
  "new_ProvisioningResult = \<lparr>action = NoAction, error = InvalidArguments, provisioned_value = [],
     numericValue = 0, boolValue = False, restartRequired = False\<rparr>"

section \<open>Values\<close>

definition isValidDeviceToken :: "string \<Rightarrow> bool" where
  "isValidDeviceToken value =
    (if value = [] \<or> length value > 512 then False
     else list_all (\<lambda>character. \<not> (character < CHR 0x20 \<or> character = CHR 0x7F)) value)"

text \<open>The file repeats \<open>isValidDeviceId\<close> and, with the limit 64 written in, the loop of the bounded text.\<close>

definition provisioning_isValidDeviceId :: "string \<Rightarrow> bool" where
  "provisioning_isValidDeviceId value \<longleftrightarrow>
     (if value = [] \<or> length value > 64 \<or> \<not> isAsciiAlphaNumeric (hd value) then False
      else list_all (\<lambda>character. \<not> (\<not> isAsciiAlphaNumeric character \<and> character \<noteq> CHR ''.''
             \<and> character \<noteq> CHR ''_'' \<and> character \<noteq> CHR ''-'')) value)"

definition isValidDeviceName :: "string \<Rightarrow> bool" where
  "isValidDeviceName value = (if value = [] then False else bounded_text_loop value 64 0 0)"

definition from_chars :: "string \<Rightarrow> int option \<times> nat" where
  "from_chars s =
    (let negative = (s \<noteq> [] \<and> hd s = CHR ''-'');
         body = (if negative then tl s else s);
         digits = takeWhile isdigit body;
         n = int (decimal digits);
         n = (if negative then - n else n);
         consumed = length digits + (if negative then 1 else 0)
     in if digits = [] then (None, 0)
        else if n < - (2 ^ 31) \<or> n \<ge> 2 ^ 31 then (None, consumed)
        else (Some n, consumed))"

definition parseBoundedInteger :: "string \<Rightarrow> int \<Rightarrow> int \<Rightarrow> int option" where
  "parseBoundedInteger value minimum maximum =
    (case from_chars value of
       (None, _) \<Rightarrow> None
     | (Some parsed, ptr) \<Rightarrow>
         if ptr \<noteq> length value \<or> parsed < minimum \<or> parsed > maximum then None else Some parsed)"

definition parseEnabled :: "string \<Rightarrow> bool option" where
  "parseEnabled value =
    (if value = ''enabled'' then Some True else if value = ''disabled'' then Some False else None)"

section \<open>Operations\<close>

definition authorizeAttendedWifiCycle :: "bool \<Rightarrow> bool \<Rightarrow> WifiCycleAuthorization \<times> bool" where
  "authorizeAttendedWifiCycle is_connected used =
    (if used then (AlreadyUsed, used)
     else if \<not> is_connected then (NotConnected, used)
     else (Allowed, True))"

definition provision :: "string \<Rightarrow> string \<Rightarrow> ProvisioningResult" where
  "provision command value =
    (let result = new_ProvisioningResult;
         invalid = result\<lparr>error := InvalidValue\<rparr>;
         finish = (\<lambda>r. r\<lparr>error := NoError, provisioned_value := value, restartRequired := action r \<noteq> CycleWifi\<rparr>)
     in if command = ''set-device-id'' then
          (if \<not> provisioning_isValidDeviceId value then invalid else finish (result\<lparr>action := SetDeviceId\<rparr>))
        else if command = ''set-device-name'' then
          (if \<not> isValidDeviceName value then invalid else finish (result\<lparr>action := SetDeviceName\<rparr>))
        else if command = ''set-url'' \<or> command = ''set-fallback-url'' then
          (let sources = new_BridgeEndpointSources\<lparr>nvsUrl := value\<rparr>
           in if \<not> endpoint_ok (resolveBridgeEndpoint sources) then invalid
              else finish (result\<lparr>action := if command = ''set-url'' then SetBridgeUrl else SetBridgeFallbackUrl\<rparr>))
        else if command = ''set-token'' then
          (if \<not> isValidDeviceToken value then invalid else finish (result\<lparr>action := SetBridgeToken\<rparr>))
        else if command = ''set-discovery'' \<or> command = ''set-touch'' then
          (case parseEnabled value of None \<Rightarrow> invalid
           | Some enabled \<Rightarrow> finish (result\<lparr>boolValue := enabled,
               action := if command = ''set-discovery'' then SetBridgeDiscoveryEnabled else SetTouchEnabled\<rparr>))
        else if command = ''set-volume'' \<or> command = ''set-brightness'' \<or> command = ''set-idle-level'' then
          (let maximum = (if command = ''set-idle-level'' then 3 else 100)
           in case parseBoundedInteger value 0 maximum of None \<Rightarrow> invalid
              | Some n \<Rightarrow> finish (result\<lparr>numericValue := n,
                  action := if command = ''set-volume'' then SetAudioVolume
                    else if command = ''set-brightness'' then SetDisplayBrightness else SetMotionIdleLevel\<rparr>))
        else if command = ''cycle-wifi'' then
          (case parseBoundedInteger value 5 30 of None \<Rightarrow> invalid
           | Some n \<Rightarrow> finish (result\<lparr>numericValue := n, action := CycleWifi\<rparr>))
        else result)"

definition parseProvisioningArguments :: "int \<Rightarrow> (nat \<Rightarrow> string option) option \<Rightarrow> ProvisioningResult" where
  "parseProvisioningArguments argumentCount arguments =
    (if argumentCount \<noteq> 3 then new_ProvisioningResult
     else case arguments of
       None \<Rightarrow> new_ProvisioningResult
     | Some argv \<Rightarrow>
         (case (argv 1, argv 2) of
            (Some command, Some value) \<Rightarrow> provision (c_str command) (c_str value)
          | _ \<Rightarrow> new_ProvisioningResult))"

section \<open>What an accepted command carries\<close>

lemma device_id_agrees: "provisioning_isValidDeviceId = isValidDeviceId"
  by (simp add: fun_eq_iff provisioning_isValidDeviceId_def isValidDeviceId_def)

lemma device_name_bounded: "isValidDeviceName value = isValidBoundedText value 64"
  by (simp add: isValidDeviceName_def isValidBoundedText_def)

lemma only_nvs: "value \<noteq> [] \<Longrightarrow>
   endpoint_ok (resolveBridgeEndpoint (new_BridgeEndpointSources\<lparr>nvsUrl := value\<rparr>)) = isBridgeWebSocketUrl value"
  by (simp add: resolveBridgeEndpoint_def new_BridgeEndpointSources_def)

lemma no_url_is_refused: "\<not> endpoint_ok (resolveBridgeEndpoint (new_BridgeEndpointSources\<lparr>nvsUrl := []\<rparr>))"
  by (simp add: resolveBridgeEndpoint_def new_BridgeEndpointSources_def)

lemma url_source: "endpoint_ok (resolveBridgeEndpoint (new_BridgeEndpointSources\<lparr>nvsUrl := value\<rparr>)) = isBridgeWebSocketUrl value"
proof (cases "value")
  case Nil
  then show ?thesis by (simp only: no_url_is_refused) (simp add: isBridgeWebSocketUrl_def match_at_def)
next
  case (Cons c cs)
  then show ?thesis by (intro only_nvs) simp
qed

text \<open>A signed decimal numeral and its value; leading zeros are allowed, a plus sign and blanks are not.\<close>

definition numeral_of :: "string \<Rightarrow> int \<Rightarrow> bool" where
  "numeral_of s n \<longleftrightarrow> (\<exists>digits. digits \<noteq> [] \<and> list_all isdigit digits
     \<and> (s = digits \<and> n = int (decimal digits) \<or> s = CHR ''-'' # digits \<and> n = - int (decimal digits)))"

lemma minus_not_digit: "\<not> isdigit (CHR ''-'')"
  by (simp add: isdigit_def less_eq_char_def)

lemma parseBoundedInteger_digits:
  assumes "list_all isdigit s" "s \<noteq> []"
  shows "from_chars s = (if int (decimal s) \<ge> 2 ^ 31 then None else Some (int (decimal s)), length s)"
proof -
  have "hd s \<noteq> CHR ''-''" using assms minus_not_digit by (cases s) auto
  then show ?thesis using assms by (simp add: from_chars_def Let_def takeWhile_id)
qed

lemma from_chars_negative:
  assumes "list_all isdigit s" "s \<noteq> []"
  shows "from_chars (CHR ''-'' # s)
    = (if - int (decimal s) < - (2 ^ 31) then None else Some (- int (decimal s)), Suc (length s))"
  using assms by (simp add: from_chars_def Let_def takeWhile_id)

lemma takeWhile_all: "length (takeWhile P s) = length s \<Longrightarrow> takeWhile P s = s \<and> list_all P s"
  by (induction s) (auto split: if_splits)

lemma from_chars_whole:
  assumes "from_chars s = (Some n, length s)"
  shows "numeral_of s n"
proof (cases "s \<noteq> [] \<and> hd s = CHR ''-''")
  case True
  then obtain t where s: "s = CHR ''-'' # t" by (cases s) auto
  with assms have "length (takeWhile isdigit t) = length t" "takeWhile isdigit t \<noteq> []"
    "n = - int (decimal (takeWhile isdigit t))"
    by (auto simp: from_chars_def Let_def split: if_splits)
  with takeWhile_all [of isdigit t] have "t \<noteq> [] \<and> list_all isdigit t \<and> n = - int (decimal t)" by metis
  with s show ?thesis unfolding numeral_of_def by blast
next
  case False
  with assms have "length (takeWhile isdigit s) = length s" "takeWhile isdigit s \<noteq> []"
    "n = int (decimal (takeWhile isdigit s))"
    by (auto simp: from_chars_def Let_def split: if_splits)
  with takeWhile_all [of isdigit s] have "s \<noteq> [] \<and> list_all isdigit s \<and> n = int (decimal s)" by metis
  then show ?thesis unfolding numeral_of_def by blast
qed

lemma parseBoundedInteger_iff:
  assumes "- (2 ^ 31) \<le> minimum" "maximum < 2 ^ 31"
  shows "parseBoundedInteger s minimum maximum = Some n \<longleftrightarrow> numeral_of s n \<and> minimum \<le> n \<and> n \<le> maximum"
proof
  assume "parseBoundedInteger s minimum maximum = Some n"
  then show "numeral_of s n \<and> minimum \<le> n \<and> n \<le> maximum"
    by (auto simp: parseBoundedInteger_def intro: from_chars_whole split: prod.splits option.splits if_splits)
next
  assume r: "numeral_of s n \<and> minimum \<le> n \<and> n \<le> maximum"
  then obtain digits where d: "list_all isdigit digits" "digits \<noteq> []"
    "s = digits \<and> n = int (decimal digits) \<or> s = CHR ''-'' # digits \<and> n = - int (decimal digits)"
    by (auto simp: numeral_of_def)
  from d(3) show "parseBoundedInteger s minimum maximum = Some n"
  proof
    assume "s = digits \<and> n = int (decimal digits)"
    with r assms show ?thesis by (simp add: parseBoundedInteger_def parseBoundedInteger_digits [OF d(1,2)])
  next
    assume "s = CHR ''-'' # digits \<and> n = - int (decimal digits)"
    with r assms show ?thesis by (simp add: parseBoundedInteger_def from_chars_negative [OF d(1,2)])
  qed
qed

text \<open>The values each action may carry: \<open>(command, value) \<mapsto> (number, flag)\<close>.\<close>

definition carries :: "ProvisioningAction \<Rightarrow> string \<Rightarrow> string \<Rightarrow> int \<Rightarrow> bool \<Rightarrow> bool" where
  "carries a command value n b =
    (case a of
       NoAction \<Rightarrow> False
     | SetDeviceId \<Rightarrow> command = ''set-device-id'' \<and> isValidDeviceId value \<and> n = 0 \<and> \<not> b
     | SetDeviceName \<Rightarrow> command = ''set-device-name'' \<and> isValidBoundedText value 64 \<and> n = 0 \<and> \<not> b
     | SetBridgeUrl \<Rightarrow> command = ''set-url'' \<and> isBridgeWebSocketUrl value \<and> n = 0 \<and> \<not> b
     | SetBridgeFallbackUrl \<Rightarrow> command = ''set-fallback-url'' \<and> isBridgeWebSocketUrl value \<and> n = 0 \<and> \<not> b
     | SetBridgeToken \<Rightarrow> command = ''set-token'' \<and> isSafeHeaderValue value \<and> 1 \<le> length value \<and> length value \<le> 512
         \<and> n = 0 \<and> \<not> b
     | SetBridgeDiscoveryEnabled \<Rightarrow> command = ''set-discovery'' \<and> value = (if b then ''enabled'' else ''disabled'') \<and> n = 0
     | SetTouchEnabled \<Rightarrow> command = ''set-touch'' \<and> value = (if b then ''enabled'' else ''disabled'') \<and> n = 0
     | SetAudioVolume \<Rightarrow> command = ''set-volume'' \<and> numeral_of value n \<and> 0 \<le> n \<and> n \<le> 100 \<and> \<not> b
     | SetDisplayBrightness \<Rightarrow> command = ''set-brightness'' \<and> numeral_of value n \<and> 0 \<le> n \<and> n \<le> 100 \<and> \<not> b
     | SetMotionIdleLevel \<Rightarrow> command = ''set-idle-level'' \<and> numeral_of value n \<and> 0 \<le> n \<and> n \<le> 3 \<and> \<not> b
     | CycleWifi \<Rightarrow> command = ''cycle-wifi'' \<and> numeral_of value n \<and> 5 \<le> n \<and> n \<le> 30 \<and> \<not> b)"

text \<open>\<open>completed a command value n b\<close>: the result of an accepted command.\<close>

definition completed :: "ProvisioningAction \<Rightarrow> string \<Rightarrow> int \<Rightarrow> bool \<Rightarrow> ProvisioningResult" where
  "completed a value n b = \<lparr>action = a, error = NoError, provisioned_value = value, numericValue = n,
     boolValue = b, restartRequired = (a \<noteq> CycleWifi)\<rparr>"

definition provisioning_commands :: "string list" where
  "provisioning_commands = [''set-device-id'', ''set-device-name'', ''set-url'', ''set-fallback-url'', ''set-token'',
     ''set-discovery'', ''set-touch'', ''set-volume'', ''set-brightness'', ''set-idle-level'', ''cycle-wifi'']"

lemma token_ok: "isValidDeviceToken value \<longleftrightarrow> isSafeHeaderValue value \<and> 1 \<le> length value \<and> length value \<le> 512"
  by (auto simp: isValidDeviceToken_def isSafeHeaderValue_def Suc_le_eq)

lemma enabled_value: "parseEnabled value = Some b \<longleftrightarrow> value = (if b then ''enabled'' else ''disabled'')"
  by (auto simp: parseEnabled_def)

lemma bounded_values:
  "parseBoundedInteger s 0 100 = Some n \<longleftrightarrow> numeral_of s n \<and> 0 \<le> n \<and> n \<le> 100"
  "parseBoundedInteger s 0 3 = Some n \<longleftrightarrow> numeral_of s n \<and> 0 \<le> n \<and> n \<le> 3"
  "parseBoundedInteger s 5 30 = Some n \<longleftrightarrow> numeral_of s n \<and> 5 \<le> n \<and> n \<le> 30"
  by (rule parseBoundedInteger_iff; simp)+

definition refused :: "ProvisioningError \<Rightarrow> ProvisioningResult" where
  "refused e = new_ProvisioningResult\<lparr>error := e\<rparr>"

text \<open>One command at a time.\<close>

lemma provision_command:
  "provision ''set-device-id'' v = (if isValidDeviceId v then completed SetDeviceId v 0 False else refused InvalidValue)"
  "provision ''set-device-name'' v = (if isValidBoundedText v 64 then completed SetDeviceName v 0 False else refused InvalidValue)"
  "provision ''set-url'' v = (if isBridgeWebSocketUrl v then completed SetBridgeUrl v 0 False else refused InvalidValue)"
  "provision ''set-fallback-url'' v =
     (if isBridgeWebSocketUrl v then completed SetBridgeFallbackUrl v 0 False else refused InvalidValue)"
  "provision ''set-token'' v = (if isValidDeviceToken v then completed SetBridgeToken v 0 False else refused InvalidValue)"
  "provision ''set-discovery'' v = (case parseEnabled v of None \<Rightarrow> refused InvalidValue
     | Some b \<Rightarrow> completed SetBridgeDiscoveryEnabled v 0 b)"
  "provision ''set-touch'' v = (case parseEnabled v of None \<Rightarrow> refused InvalidValue
     | Some b \<Rightarrow> completed SetTouchEnabled v 0 b)"
  "provision ''set-volume'' v = (case parseBoundedInteger v 0 100 of None \<Rightarrow> refused InvalidValue
     | Some n \<Rightarrow> completed SetAudioVolume v n False)"
  "provision ''set-brightness'' v = (case parseBoundedInteger v 0 100 of None \<Rightarrow> refused InvalidValue
     | Some n \<Rightarrow> completed SetDisplayBrightness v n False)"
  "provision ''set-idle-level'' v = (case parseBoundedInteger v 0 3 of None \<Rightarrow> refused InvalidValue
     | Some n \<Rightarrow> completed SetMotionIdleLevel v n False)"
  "provision ''cycle-wifi'' v = (case parseBoundedInteger v 5 30 of None \<Rightarrow> refused InvalidValue
     | Some n \<Rightarrow> completed CycleWifi v n False)"
  by (simp_all add: provision_def Let_def new_ProvisioningResult_def completed_def refused_def
      url_source device_id_agrees device_name_bounded split: option.split)

lemma provision_unknown:
  "command \<notin> set provisioning_commands \<Longrightarrow> provision command v = refused InvalidArguments"
  by (simp add: provision_def provisioning_commands_def refused_def new_ProvisioningResult_def)

lemma refused_not_accepted [simp]: "error (refused InvalidValue) \<noteq> NoError" "error (refused InvalidArguments) \<noteq> NoError"
  by (simp_all add: refused_def)

lemma completed_accepted [simp]: "error (completed a v n b) = NoError"
  by (simp add: completed_def)

lemma bounded_parse:
  "numeral_of s n \<Longrightarrow> 0 \<le> n \<Longrightarrow> n \<le> 100 \<Longrightarrow> parseBoundedInteger s 0 100 = Some n"
  "numeral_of s n \<Longrightarrow> 0 \<le> n \<Longrightarrow> n \<le> 3 \<Longrightarrow> parseBoundedInteger s 0 3 = Some n"
  "numeral_of s n \<Longrightarrow> 5 \<le> n \<Longrightarrow> n \<le> 30 \<Longrightarrow> parseBoundedInteger s 5 30 = Some n"
  by (simp_all only: bounded_values)

lemma completed_fields [simp]:
  "action (completed a v n b) = a" "numericValue (completed a v n b) = n" "boolValue (completed a v n b) = b"
  by (simp_all add: completed_def)

lemma provision_sound:
  assumes "error (provision command value) = NoError"
  shows "carries (action (provision command value)) command value (numericValue (provision command value))
     (boolValue (provision command value))"
proof -
  have "command \<in> set provisioning_commands"
    using assms provision_unknown [of command "value"] by (metis refused_not_accepted(2))
  then show ?thesis unfolding provisioning_commands_def list.set
    by (elim insertE emptyE; insert assms; hypsubst; simp only: provision_command split: if_splits option.splits)
      (simp_all add: carries_def token_ok enabled_value bounded_values)
qed

lemma provision_complete: "carries a command value n b \<Longrightarrow> provision command value = completed a value n b"
  by (cases a) (auto simp: provision_command carries_def token_ok parseEnabled_def dest: bounded_parse)

lemma provision_refuses:
  assumes "error (provision command value) \<noteq> NoError"
  shows "provision command value = refused (if command \<in> set provisioning_commands then InvalidValue else InvalidArguments)"
proof (cases "command \<in> set provisioning_commands")
  case True
  then show ?thesis using assms unfolding provisioning_commands_def list.set
    by (elim insertE emptyE; simp add: provision_command split: if_splits option.splits)
qed (simp add: provision_unknown)

lemma provision_iff: "provision command value = completed a value n b \<longleftrightarrow> carries a command value n b"
proof
  assume "provision command value = completed a value n b"
  then show "carries a command value n b" using provision_sound [of command "value"] by simp
qed (rule provision_complete)

theorem provisioning_accepts:
  "error (parseProvisioningArguments argumentCount arguments) = NoError \<longleftrightarrow>
     argumentCount = 3 \<and> (\<exists>argv command value a n b.
        arguments = Some argv \<and> argv 1 = Some command \<and> argv 2 = Some value
      \<and> carries a (c_str command) (c_str value) n b
      \<and> parseProvisioningArguments argumentCount arguments = completed a (c_str value) n b)"
  (is "?accepted \<longleftrightarrow> ?shape")
proof
  assume ?accepted
  then obtain argv command v where a: "argumentCount = 3" "arguments = Some argv" "argv 1 = Some command" "argv 2 = Some v"
    "error (provision (c_str command) (c_str v)) = NoError"
    by (auto simp: parseProvisioningArguments_def new_ProvisioningResult_def split: if_splits option.splits)
  then have "parseProvisioningArguments argumentCount arguments = provision (c_str command) (c_str v)"
    by (simp add: parseProvisioningArguments_def)
  with a provision_sound [OF a(5)] provision_complete show ?shape by metis
next
  assume ?shape
  then show ?accepted by auto
qed

theorem provisioning_refuses:
  "error (parseProvisioningArguments argumentCount arguments) \<noteq> NoError \<Longrightarrow>
     \<exists>e. parseProvisioningArguments argumentCount arguments = refused e"
  using provision_refuses
  by (auto simp: parseProvisioningArguments_def refused_def new_ProvisioningResult_def split: option.splits if_splits)

end
