(* ===== verification/Discovery.thy ===== *)
theory Discovery
  imports Cpp_Library
begin

text \<open>
  \<open>discovery.cpp\<close>: the bridge URL of a service found over mDNS.  The specification reads the accepted
  addresses as the dotted quads of 32-bit addresses on a private or link-local network.
\<close>

unbundle bit_operations_syntax

record MdnsBridgeService =
  ipv4Address :: string
  service_port :: u16
  protocolVersion :: string
  authRequired :: string
  interfaceAddress :: u32
  interfaceNetmask :: u32

section \<open>isLocalUnicastIpv4Address\<close>

text \<open>The inner loop over the characters of an octet; at most three digits, so the \<open>int\<close> cannot overflow.\<close>

fun octet_value :: "string \<Rightarrow> nat \<Rightarrow> nat option" where
  "octet_value [] n = Some n"
| "octet_value (character # rest) n =
     (if character < CHR ''0'' \<or> character > CHR ''9'' then None
      else octet_value rest (n * 10 + digit_value character))"

fun octets_loop :: "string \<Rightarrow> nat list \<Rightarrow> nat \<Rightarrow> u32 \<Rightarrow> u32 option" where
  "octets_loop address [] offset ip = Some ip"
| "octets_loop address (octet # octets) offset ip =
     (let separator = str_find address ''.'' offset;
          stop = (case separator of None \<Rightarrow> length address | Some p \<Rightarrow> p)
      in if stop = offset \<or> stop - offset > 3 \<or> (stop - offset > 1 \<and> address ! offset = CHR ''0'') then None
         else case octet_value (substr address offset (stop - offset)) 0 of
           None \<Rightarrow> None
         | Some n \<Rightarrow>
             if n > 255 \<or> (octet < 3 \<and> separator = None) \<or> (octet = 3 \<and> separator \<noteq> None) then None
             else octets_loop address octets (stop + 1) (push_bit 8 ip OR of_nat n))"

definition parse_ipv4 :: "string \<Rightarrow> u32 option" where
  "parse_ipv4 address =
    (if address = [] \<or> length address > 15 then None else octets_loop address [0..<4] 0 0)"

text \<open>The address of the network and its broadcast address are not hosts of the interface's network.\<close>

definition subnet_boundary :: "MdnsBridgeService \<Rightarrow> u32 \<Rightarrow> bool" where
  "subnet_boundary service ip =
    (let mask = interfaceNetmask service; hostMask = NOT mask
     in mask \<noteq> 0 \<and> hostMask > 1 \<and> ip AND mask = interfaceAddress service AND mask
        \<and> (ip AND hostMask = 0 \<or> ip AND hostMask = hostMask))"

definition private_range :: "u32 \<Rightarrow> bool" where
  "private_range ip \<longleftrightarrow> (ip > 0x0a000000 \<and> ip < 0x0affffff) \<or> (ip > 0xac100000 \<and> ip < 0xac1fffff)
     \<or> (ip > 0xc0a80000 \<and> ip < 0xc0a8ffff) \<or> (ip \<ge> 0xa9fe0100 \<and> ip \<le> 0xa9fefeff)"

definition isLocalUnicastIpv4Address :: "MdnsBridgeService \<Rightarrow> bool" where
  "isLocalUnicastIpv4Address service =
    (case parse_ipv4 (ipv4Address service) of
       None \<Rightarrow> False
     | Some ip \<Rightarrow> if subnet_boundary service ip then False else private_range ip)"

section \<open>buildMdnsBridgeWebSocketUrl\<close>

definition buildMdnsBridgeWebSocketUrl :: "MdnsBridgeService \<Rightarrow> string" where
  "buildMdnsBridgeWebSocketUrl service =
    (if \<not> isLocalUnicastIpv4Address service \<or> service_port service = 0
        \<or> protocolVersion service \<noteq> ''1'' \<or> authRequired service \<noteq> ''true'' then []
     else ''ws://'' @ ipv4Address service @ '':'' @ to_string (unat (service_port service)) @ ''/v1/device/ws'')"

section \<open>Dotted quads\<close>

lemma octet_value_eq: "octet_value s n = (if list_all isdigit s then Some (decimal_from n s) else None)"
  by (induction s arbitrary: n) (auto simp: isdigit_def not_le)

lemma octet_canonical:
  assumes "list_all isdigit s" "s \<noteq> []" "length s \<le> 3" "length s > 1 \<longrightarrow> s ! 0 \<noteq> CHR ''0''"
  shows "to_string (decimal s) = s"
proof -
  consider a where "s = [a]" | a b where "s = [a, b]" | a b c where "s = [a, b, c]"
    using assms(2,3) by (auto simp: neq_Nil_conv le_Suc_eq length_Suc_conv numeral_3_eq_3 that)
  then show ?thesis
  proof cases
    case 1
    with assms obtain i :: nat where "i < 10" "a = char_of (48 + i)" by (auto simp: isdigit_char)
    with 1 digit_char show ?thesis by (simp add: decimal_def to_string.simps)
  next
    case 2
    with assms obtain i j :: nat where d: "i < 10" "a = char_of (48 + i)" "j < 10" "b = char_of (48 + j)" by (auto simp: isdigit_char)
    have "0 < i" using assms(4) 2 d zero_text [of i] by simp
    then have "decimal s = i * 10 + j" "\<not> i * 10 + j < 10" "(i * 10 + j) div 10 = i" "(i * 10 + j) mod 10 = j"
      using 2 d digit_char by (auto simp: decimal_def)
    with 2 d show ?thesis by (simp add: to_string.simps)
  next
    case 3
    with assms obtain i j k :: nat where d: "i < 10" "a = char_of (48 + i)" "j < 10" "b = char_of (48 + j)"
      "k < 10" "c = char_of (48 + k)" by (auto simp: isdigit_char)
    have "0 < i" using assms(4) 3 d zero_text [of i] by simp
    define m where "m = i * 10 + j"
    have "decimal s = m * 10 + k" using 3 d digit_char by (simp add: decimal_def m_def)
    moreover have "(m * 10 + k) div 10 = m" "(m * 10 + k) mod 10 = k" using d by auto
    moreover have "\<not> m * 10 + k < 10" "\<not> m < 10" "m div 10 = i" "m mod 10 = j"
      using d \<open>0 < i\<close> by (auto simp: m_def)
    ultimately show ?thesis using 3 d by (simp add: to_string.simps)
  qed
qed

lemma octet_digits:
  assumes "n < 256"
  shows "length (to_string n) \<le> 3 \<and> (length (to_string n) > 1 \<longrightarrow> to_string n ! 0 \<noteq> CHR ''0'')"
proof -
  consider "n < 10" | "10 \<le> n" "n < 100" | "100 \<le> n" "n < 1000" using assms by linarith
  then show ?thesis
  proof cases
    case 1
    then show ?thesis by (simp add: to_string.simps)
  next
    case 2
    then have "n div 10 < 10" "n div 10 \<noteq> 0" by auto
    with 2 show ?thesis using zero_text [of "n div 10"] by (simp add: to_string.simps)
  next
    case 3
    then have "n div 10 div 10 < 10" "\<not> n div 10 < 10" "n div 10 div 10 \<noteq> 0" by auto
    with 3 show ?thesis using zero_text [of "n div 10 div 10"] by (simp add: to_string.simps [of n] to_string.simps [of "n div 10"]
          to_string.simps [of "n div 10 div 10"])
  qed
qed

text \<open>The text of an octet is followed by a dot, or by the end of the address after the fourth.\<close>

lemma find_dot:
  assumes "list_all isdigit t"
  shows "str_find (pre @ t @ CHR ''.'' # rest) ''.'' (length pre) = Some (length pre + length t)"
    and "str_find (pre @ t) ''.'' (length pre) = None"
proof -
  have "t ! i \<noteq> CHR ''.''" if "i < length t" for i
    using assms that by (auto simp: list_all_length isdigit_def less_eq_char_def)
  then have n: "(pre @ t @ r) ! k \<noteq> CHR ''.''" if "length pre \<le> k" "k < length pre + length t" for k r
    using that by (auto simp: nth_append)
  show "str_find (pre @ t @ CHR ''.'' # rest) ''.'' (length pre) = Some (length pre + length t)"
    using n by (auto simp: str_find_Some match_at_single nth_append)
  show "str_find (pre @ t) ''.'' (length pre) = None"
    using n [of _ "[]"] by (auto simp: str_find_None match_at_single)
qed

definition shift_in :: "u32 \<Rightarrow> u8 \<Rightarrow> u32" where
  "shift_in ip b = push_bit 8 ip OR ucast b"

abbreviation octet_text :: "u8 \<Rightarrow> string" where
  "octet_text b \<equiv> to_string (unat b)"

lemma octet_text_accepted:
  "octet_value (octet_text b) 0 = Some (unat b)" "octet_text b \<noteq> []" "length (octet_text b) \<le> 3"
  "length (octet_text b) > 1 \<longrightarrow> octet_text b ! 0 \<noteq> CHR ''0''" "list_all isdigit (octet_text b)"
  "unat b \<le> 255"
proof -
  have "unat b < 256" using unsigned_less [of b] by simp
  then show "unat b \<le> 255" "length (octet_text b) \<le> 3"
    "length (octet_text b) > 1 \<longrightarrow> octet_text b ! 0 \<noteq> CHR ''0''"
    using octet_digits [of "unat b"] by simp_all
  show "octet_value (octet_text b) 0 = Some (unat b)" "octet_text b \<noteq> []" "list_all isdigit (octet_text b)"
    using to_string_digits [of "unat b"] decimal_to_string [of "unat b"] by (simp_all add: octet_value_eq decimal_def)
qed

lemma of_nat_octet: "(of_nat (unat b) :: u32) = ucast (b :: u8)"
  by simp

lemma octet_dot:
  assumes "octet < 3"
  shows "octets_loop (pre @ octet_text b @ CHR ''.'' # rest) (octet # octets) (length pre) ip
    = octets_loop (pre @ octet_text b @ CHR ''.'' # rest) octets (length (pre @ octet_text b @ ''.'')) (shift_in ip b)"
  using assms octet_text_accepted [of b]
  by (auto simp: find_dot substr_def shift_in_def nth_append Let_def)

lemma octet_end: "octets_loop (pre @ octet_text b) [3] (length pre) ip = Some (shift_in ip b)"
  using octet_text_accepted [of b] by (auto simp: find_dot substr_def shift_in_def nth_append Let_def)

lemma octet_read:
  assumes "octet_value t 0 = Some n" "t \<noteq> []" "length t \<le> 3" "length t > 1 \<longrightarrow> t ! 0 \<noteq> CHR ''0''" "n \<le> 255"
  shows "t = octet_text (of_nat n)"
proof -
  have "list_all isdigit t" "n = decimal t" using assms(1) by (auto simp: octet_value_eq decimal_def split: if_splits)
  with octet_canonical [of t] assms have "to_string n = t" by simp
  moreover have "unat (of_nat n :: u8) = n" using assms(5) by (simp add: unat_of_nat)
  ultimately show ?thesis by simp
qed

text \<open>One iteration, backwards: what it accepts starts with the text of an octet.\<close>

lemma accept_shape:
  "(if A then None else case v of None \<Rightarrow> None | Some n \<Rightarrow> if B n then None else F n) = Some x
     \<Longrightarrow> \<not> A \<and> (\<exists>n. v = Some n \<and> \<not> B n \<and> F n = Some x)"
  by (auto split: if_splits option.splits)

lemma octet_step:
  assumes "octets_loop (pre @ rest) (octet # octets) (length pre) ip = Some x"
  shows "if octet < 3
    then \<exists>b tail. rest = octet_text b @ CHR ''.'' # tail
       \<and> octets_loop (pre @ rest) octets (length (pre @ octet_text b @ ''.'')) (shift_in ip b) = Some x
    else octet = 3 \<longrightarrow> (\<exists>b. rest = octet_text b)"
proof -
  let ?a = "pre @ rest"
  define stop where "stop = (case str_find ?a ''.'' (length pre) of None \<Rightarrow> length ?a | Some p \<Rightarrow> p)"
  define t where "t = substr ?a (length pre) (stop - length pre)"
  have "octets_loop ?a (octet # octets) (length pre) ip =
     (if stop = length pre \<or> stop - length pre > 3 \<or> (stop - length pre > 1 \<and> ?a ! length pre = CHR ''0'') then None
      else case octet_value t 0 of None \<Rightarrow> None
        | Some n \<Rightarrow> if n > 255 \<or> (octet < 3 \<and> str_find ?a ''.'' (length pre) = None)
              \<or> (octet = 3 \<and> str_find ?a ''.'' (length pre) \<noteq> None) then None
            else octets_loop ?a octets (stop + 1) (push_bit 8 ip OR of_nat n))"
    by (simp only: octets_loop.simps Let_def stop_def t_def)
  from accept_shape [OF this [symmetric, unfolded assms]]
  obtain n where n: "octet_value t 0 = Some n" "\<not> n > 255" "stop \<noteq> length pre" "\<not> stop - length pre > 3"
      "\<not> (stop - length pre > 1 \<and> ?a ! length pre = CHR ''0'')"
      "\<not> (octet < 3 \<and> str_find ?a ''.'' (length pre) = None)"
      "\<not> (octet = 3 \<and> str_find ?a ''.'' (length pre) \<noteq> None)"
      "octets_loop ?a octets (stop + 1) (push_bit 8 ip OR of_nat n) = Some x"
    unfolding de_Morgan_disj by (elim conjE exE) (rule that)
  have ge: "length pre \<le> stop" "stop \<le> length ?a"
    by (auto simp: stop_def str_find_Some match_at_single split: option.split)
  have t: "t = take (stop - length pre) rest" by (simp add: t_def substr_def)
  have len: "length t = stop - length pre" using ge by (simp add: t)
  have "t ! 0 = ?a ! length pre" using ge n(3) by (simp add: t nth_append)
  with n(1-5) len ge have o: "t = octet_text (of_nat n)" by (intro octet_read) auto
  have u: "unat (of_nat n :: u8) = n" using n(2) by (simp add: unat_of_nat)
  have w: "push_bit 8 ip OR of_nat n = shift_in ip (of_nat n)"
    unfolding shift_in_def of_nat_octet [symmetric] u ..
  show ?thesis
  proof (cases "octet < 3")
    case True
    then obtain p where p: "str_find ?a ''.'' (length pre) = Some p" using n(6) by auto
    then have "stop = p" by (simp add: stop_def)
    with p have "stop < length ?a" "?a ! stop = CHR ''.''" by (auto simp: str_find_Some match_at_single)
    then have "stop - length pre < length rest" "rest ! (stop - length pre) = CHR ''.''"
      using ge by (simp_all add: nth_append)
    then have "rest = t @ CHR ''.'' # drop (Suc (stop - length pre)) rest"
      unfolding t by (metis id_take_nth_drop)
    moreover have "octets_loop ?a octets (length (pre @ t @ ''.'')) (shift_in ip (of_nat n)) = Some x"
      using n(8) len ge by (simp add: w)
    ultimately show ?thesis using True o by auto
  next
    case False
    with n(7) have "octet = 3 \<Longrightarrow> rest = t" unfolding t by (auto simp: stop_def)
    with False o show ?thesis by auto
  qed
qed

subsection \<open>parse_ipv4 reads exactly the dotted quads\<close>

definition octet :: "u32 \<Rightarrow> nat \<Rightarrow> u8" where
  "octet ip i = ucast (drop_bit (8 * (3 - i)) ip)"

definition dotted_quad :: "u32 \<Rightarrow> string" where
  "dotted_quad ip = octet_text (octet ip 0) @ ''.'' @ octet_text (octet ip 1) @ ''.''
     @ octet_text (octet ip 2) @ ''.'' @ octet_text (octet ip 3)"

abbreviation quad :: "u8 \<Rightarrow> u8 \<Rightarrow> u8 \<Rightarrow> u8 \<Rightarrow> u32" where
  "quad a b c d \<equiv> shift_in (shift_in (shift_in (shift_in 0 a) b) c) d"

lemma quad_bits: "bit (quad a b c d) n \<longleftrightarrow>
    (if n < 8 then bit d n else if n < 16 then bit c (n - 8) else if n < 24 then bit b (n - 16)
     else n < 32 \<and> bit a (n - 24))"
  by (auto simp: shift_in_def bit_simps dest: bit_imp_le_length)

lemma octet_bits: "bit (octet ip i) n \<longleftrightarrow> n < 8 \<and> bit ip (8 * (3 - i) + n)"
  by (auto simp: octet_def bit_simps)

lemma octets_quad:
  "octet (quad a b c d) 0 = a" "octet (quad a b c d) 1 = b" "octet (quad a b c d) 2 = c" "octet (quad a b c d) 3 = d"
  by (rule bit_eqI; auto simp: octet_bits quad_bits dest: bit_imp_le_length)+

lemma quad_octets: "quad (octet ip 0) (octet ip 1) (octet ip 2) (octet ip 3) = ip"
  by (rule bit_eqI) (auto simp: octet_bits quad_bits dest: bit_imp_le_length)

lemma dotted_quad_eq: "dotted_quad (quad a b c d)
    = octet_text a @ ''.'' @ octet_text b @ ''.'' @ octet_text c @ ''.'' @ octet_text d"
  by (simp only: dotted_quad_def octets_quad)

lemma octets_four: "[0..<4] = [0, 1, 2, 3 :: nat]"
  by code_simp

lemma parse_quad: "parse_ipv4 (octet_text a @ ''.'' @ octet_text b @ ''.'' @ octet_text c @ ''.'' @ octet_text d)
    = Some (quad a b c d)"
proof -
  let ?w = "octet_text a @ ''.'' @ octet_text b @ ''.'' @ octet_text c @ ''.'' @ octet_text d"
  have "length ?w \<le> 15" "?w \<noteq> []"
    using octet_text_accepted(3) [of a] octet_text_accepted(3) [of b] octet_text_accepted(3) [of c]
      octet_text_accepted(3) [of d] by simp_all
  moreover have "octets_loop ?w [0, 1, 2, 3] 0 0 = Some (quad a b c d)"
    using octet_dot [of 0 "[]" a "octet_text b @ ''.'' @ octet_text c @ ''.'' @ octet_text d" "[1, 2, 3]" 0]
      octet_dot [of 1 "octet_text a @ ''.''" b "octet_text c @ ''.'' @ octet_text d" "[2, 3]"]
      octet_dot [of 2 "octet_text a @ ''.'' @ octet_text b @ ''.''" c "octet_text d" "[3]"]
      octet_end [of "octet_text a @ ''.'' @ octet_text b @ ''.'' @ octet_text c @ ''.''" d]
    by (simp del: octets_loop.simps)
  ultimately show ?thesis by (simp add: parse_ipv4_def octets_four del: octets_loop.simps)
qed

lemma parse_ipv4_iff: "parse_ipv4 address = Some ip \<longleftrightarrow> address = dotted_quad ip"
proof
  assume "address = dotted_quad ip"
  then show "parse_ipv4 address = Some ip"
    using parse_quad [of "octet ip 0" "octet ip 1" "octet ip 2" "octet ip 3"]
    by (simp only: dotted_quad_def quad_octets)
next
  assume "parse_ipv4 address = Some ip"
  then have l: "octets_loop ([] @ address) [0, 1, 2, 3] (length []) 0 = Some ip"
    by (simp add: parse_ipv4_def octets_four del: octets_loop.simps split: if_splits)
  from octet_step [OF l] obtain a t where a: "address = octet_text a @ CHR ''.'' # t"
    and l1: "octets_loop ((octet_text a @ ''.'') @ t) [1, 2, 3] (length (octet_text a @ ''.'')) (shift_in 0 a) = Some ip"
    by (auto simp del: octets_loop.simps)
  from octet_step [OF l1] obtain b t' where b: "t = octet_text b @ CHR ''.'' # t'"
    and l2: "octets_loop ((octet_text a @ ''.'' @ octet_text b @ ''.'') @ t') [2, 3]
       (length (octet_text a @ ''.'' @ octet_text b @ ''.'')) (shift_in (shift_in 0 a) b) = Some ip"
    by (auto simp del: octets_loop.simps)
  from octet_step [OF l2] obtain c t'' where c: "t' = octet_text c @ CHR ''.'' # t''"
    and l3: "octets_loop ((octet_text a @ ''.'' @ octet_text b @ ''.'' @ octet_text c @ ''.'') @ t'') [3]
       (length (octet_text a @ ''.'' @ octet_text b @ ''.'' @ octet_text c @ ''.'')) (shift_in (shift_in (shift_in 0 a) b) c)
     = Some ip"
    by (auto simp del: octets_loop.simps)
  from octet_step [OF l3] obtain d where d: "t'' = octet_text d" by auto
  have w: "address = octet_text a @ ''.'' @ octet_text b @ ''.'' @ octet_text c @ ''.'' @ octet_text d"
    by (simp add: a b c d)
  with \<open>parse_ipv4 address = Some ip\<close> parse_quad [of a b c d] have "ip = quad a b c d" by simp
  with w show "address = dotted_quad ip" by (simp only: dotted_quad_eq)
qed

section \<open>The URL\<close>

text \<open>The private networks of RFC 1918 without their first and last address, and the link-local
  network without its first and last 256.\<close>

definition in_network :: "u32 \<Rightarrow> u32 \<Rightarrow> nat \<Rightarrow> bool" where
  "in_network ip base width \<longleftrightarrow> drop_bit (32 - width) ip = drop_bit (32 - width) base"

definition local_unicast :: "u32 \<Rightarrow> bool" where
  "local_unicast ip \<longleftrightarrow>
     (in_network ip (quad 10 0 0 0) 8 \<and> ip \<noteq> quad 10 0 0 0 \<and> ip \<noteq> quad 10 255 255 255)
   \<or> (in_network ip (quad 172 16 0 0) 12 \<and> ip \<noteq> quad 172 16 0 0 \<and> ip \<noteq> quad 172 31 255 255)
   \<or> (in_network ip (quad 192 168 0 0) 16 \<and> ip \<noteq> quad 192 168 0 0 \<and> ip \<noteq> quad 192 168 255 255)
   \<or> (in_network ip (quad 169 254 0 0) 16 \<and> octet ip 2 \<noteq> 0 \<and> octet ip 2 \<noteq> 255)"

lemma unat_u32: "take_bit 32 (unat ip) = unat (ip :: u32)"
proof -
  have "unat ip < 2 ^ 32" using unsigned_less [of ip] by simp
  then show ?thesis by (rule take_bit_nat_eq_self)
qed

lemma in_network_div: "in_network ip base width \<longleftrightarrow>
    unat ip div 2 ^ (32 - width) = unat base div 2 ^ (32 - width)"
  by (simp only: in_network_def word_unat_eq_iff unsigned_drop_bit_eq) (simp add: unat_u32 drop_bit_eq_div)

lemma octet_2: "unat (octet ip 2) = unat ip div 256 mod 256"
  by (simp only: octet_def unsigned_ucast_eq unsigned_drop_bit_eq) (simp add: unat_u32 drop_bit_eq_div, simp add: take_bit_eq_mod)

lemma network_addresses:
  "quad 10 0 0 0 = 0x0a000000" "quad 10 255 255 255 = 0x0affffff"
  "quad 172 16 0 0 = 0xac100000" "quad 172 31 255 255 = 0xac1fffff"
  "quad 192 168 0 0 = 0xc0a80000" "quad 192 168 255 255 = 0xc0a8ffff" "quad 169 254 0 0 = 0xa9fe0000"
  by code_simp+

lemma octet_2_cases: "octet ip 2 = 0 \<longleftrightarrow> unat ip div 256 mod 256 = 0" "octet ip 2 = 255 \<longleftrightarrow> unat ip div 256 mod 256 = 255"
  using octet_2 [of ip] by (simp_all add: word_unat_eq_iff)

lemma div_range:
  assumes "0 < k"
  shows "n div k = q \<longleftrightarrow> q * k \<le> n \<and> n < Suc q * (k :: nat)"
proof
  assume "n div k = q"
  then have "n = q * k + n mod k" by auto
  moreover have "n mod k < k" using assms by simp
  ultimately show "q * k \<le> n \<and> n < Suc q * k" by (metis add.commute le_add1 mult_Suc nat_add_left_cancel_less)
next
  assume "q * k \<le> n \<and> n < Suc q * k"
  then show "n div k = q" by (intro div_nat_eqI) (simp_all add: mult.commute)
qed

lemma third_octet:
  assumes "m < 65536"
  shows "(q * 65536 + m) div 256 mod 256 = m div (256 :: nat)"
proof -
  have "(q * 65536 + m) div 256 = (m + (q * 256) * 256) div 256" by (simp add: algebra_simps)
  also have "\<dots> = q * 256 + m div 256" by (rule div_mult_self1) simp
  finally show ?thesis using assms by (simp add: div_less_iff_less_mult)
qed

lemma link_local_range:
  "n div 65536 = 43518 \<and> n div 256 mod 256 \<noteq> 0 \<and> n div 256 mod 256 \<noteq> 255
     \<longleftrightarrow> 2851995904 \<le> n \<and> n \<le> (2852060927 :: nat)"
proof (cases "n div 65536 = 43518")
  case True
  then obtain m where "n = 43518 * 65536 + m" "m < 65536"
    by (metis div_mult_mod_eq mod_less_divisor zero_less_numeral)
  with third_octet [of m 43518] show ?thesis using True by auto
next
  case False
  then show ?thesis by (auto simp: div_range)
qed

lemma private_range_iff: "private_range ip \<longleftrightarrow> local_unicast ip"
proof -
  have eq: "ip = w \<longleftrightarrow> unat ip = unat w" for w by (rule word_unat_eq_iff)
  have "in_network ip (quad 10 0 0 0) 8 \<longleftrightarrow> unat ip div 16777216 = 10"
    "in_network ip (quad 172 16 0 0) 12 \<longleftrightarrow> unat ip div 1048576 = 2753"
    "in_network ip (quad 192 168 0 0) 16 \<longleftrightarrow> unat ip div 65536 = 49320"
    "in_network ip (quad 169 254 0 0) 16 \<longleftrightarrow> unat ip div 65536 = 43518"
    unfolding in_network_div network_addresses by simp_all
  moreover have
    "0x0a000000 < ip \<and> ip < 0x0affffff \<longleftrightarrow> unat ip div 16777216 = 10 \<and> ip \<noteq> 0x0a000000 \<and> ip \<noteq> 0x0affffff"
    "0xac100000 < ip \<and> ip < 0xac1fffff \<longleftrightarrow> unat ip div 1048576 = 2753 \<and> ip \<noteq> 0xac100000 \<and> ip \<noteq> 0xac1fffff"
    "0xc0a80000 < ip \<and> ip < 0xc0a8ffff \<longleftrightarrow> unat ip div 65536 = 49320 \<and> ip \<noteq> 0xc0a80000 \<and> ip \<noteq> 0xc0a8ffff"
    by (auto simp: div_range word_less_nat_alt eq)
  moreover have "0xa9fe0100 \<le> ip \<and> ip \<le> 0xa9fefeff \<longleftrightarrow> 2851995904 \<le> unat ip \<and> unat ip \<le> 2852060927"
    by (simp add: word_le_nat_alt)
  ultimately show ?thesis
    unfolding private_range_def local_unicast_def octet_2_cases by (simp only: network_addresses link_local_range)
qed

lemma dotted_quad_inject: "dotted_quad x = dotted_quad y \<longleftrightarrow> x = y"
  by (metis option.inject parse_ipv4_iff)

text \<open>The address of the service, as the specification reads it.\<close>

definition reachable_at :: "MdnsBridgeService \<Rightarrow> u32 \<Rightarrow> bool" where
  "reachable_at service ip \<longleftrightarrow>
     ipv4Address service = dotted_quad ip \<and> local_unicast ip \<and> \<not> subnet_boundary service ip"

lemma isLocalUnicastIpv4Address_iff:
  "isLocalUnicastIpv4Address service \<longleftrightarrow> (\<exists>ip. reachable_at service ip)"
proof (cases "parse_ipv4 (ipv4Address service)")
  case None
  then have "ipv4Address service \<noteq> dotted_quad ip" for ip by (metis option.distinct(1) parse_ipv4_iff)
  with None show ?thesis by (simp add: isLocalUnicastIpv4Address_def reachable_at_def)
next
  case (Some ip)
  then have "ipv4Address service = dotted_quad ip" by (simp add: parse_ipv4_iff)
  with Some show ?thesis
    by (simp add: isLocalUnicastIpv4Address_def reachable_at_def private_range_iff dotted_quad_inject)
qed

definition offers_protocol :: "MdnsBridgeService \<Rightarrow> bool" where
  "offers_protocol service \<longleftrightarrow> service_port service \<noteq> 0 \<and> protocolVersion service = ''1'' \<and> authRequired service = ''true''"

lemma url_text: "buildMdnsBridgeWebSocketUrl service =
    (if (\<exists>ip. reachable_at service ip) \<and> offers_protocol service
     then ''ws://'' @ (ipv4Address service @ '':'' @ to_string (unat (service_port service))) @ kPath else [])"
  by (simp add: buildMdnsBridgeWebSocketUrl_def isLocalUnicastIpv4Address_iff offers_protocol_def kPath_def)

theorem mdns_url_decides:
  "buildMdnsBridgeWebSocketUrl service \<noteq> [] \<longleftrightarrow>
     offers_protocol service \<and> (\<exists>ip. ipv4Address service = dotted_quad ip \<and> local_unicast ip \<and> \<not> subnet_boundary service ip)"
  by (auto simp: url_text reachable_at_def)

text \<open>A host that is a dotted quad, with a port, is accepted by the check of the settings.\<close>

lemma dotted_quad_host: "reachable_at service ip \<Longrightarrow> isValidHost (ipv4Address service) \<and> CHR '':'' \<notin> set (ipv4Address service)
    \<and> length (ipv4Address service) \<le> 15"
proof -
  assume "reachable_at service ip"
  then have a: "ipv4Address service = dotted_quad ip" by (simp add: reachable_at_def)
  have chars: "c \<in> set (dotted_quad ip) \<Longrightarrow> isdigit c \<or> c = CHR ''.''" for c
    using octet_text_accepted(5) [of "octet ip 0"] octet_text_accepted(5) [of "octet ip 1"]
      octet_text_accepted(5) [of "octet ip 2"] octet_text_accepted(5) [of "octet ip 3"]
    by (auto simp: dotted_quad_def list_all_iff)
  have "host_char c \<and> c \<noteq> CHR '':''" if "isdigit c \<or> c = CHR ''.''" for c
    using that by (auto simp: host_char_def isdigit_def less_char_def less_eq_char_def)
  with chars have "list_all host_char (dotted_quad ip)" "CHR '':'' \<notin> set (dotted_quad ip)"
    by (auto simp: list_all_iff)
  moreover have "dotted_quad ip \<noteq> []" by (simp add: dotted_quad_def)
  moreover have "length (dotted_quad ip) \<le> 15"
    using octet_text_accepted(3) [of "octet ip 0"] octet_text_accepted(3) [of "octet ip 1"]
      octet_text_accepted(3) [of "octet ip 2"] octet_text_accepted(3) [of "octet ip 3"]
    by (simp add: dotted_quad_def)
  ultimately show ?thesis by (simp add: a isValidHost_iff)
qed

lemma discovered_url_valid:
  assumes "buildMdnsBridgeWebSocketUrl service \<noteq> []"
  shows "isBridgeWebSocketUrl (buildMdnsBridgeWebSocketUrl service)"
proof -
  let ?a = "ipv4Address service" and ?p = "to_string (unat (service_port service))"
  from assms have "(\<exists>ip. reachable_at service ip) \<and> offers_protocol service" unfolding url_text by argo
  moreover from this have url: "buildMdnsBridgeWebSocketUrl service = ''ws://'' @ (?a @ CHR '':'' # ?p) @ ''/v1/device/ws''"
    by (simp add: url_text kPath_def)
  ultimately obtain ip where r: "reachable_at service ip" "offers_protocol service" by blast
  have h: "isValidHost ?a" "CHR '':'' \<notin> set ?a" "length ?a \<le> 15" using dotted_quad_host [OF r(1)] by auto
  have n: "unat (service_port service) < 65536" using unsigned_less [of "service_port service"] by simp
  have "length ?p \<le> 5" using to_string_length [of "unat (service_port service)" 4] n by simp
  then have "length (buildMdnsBridgeWebSocketUrl service) \<le> 512" using h(3) by (simp add: url)
  moreover have "isValidPort ?p"
    using to_string_digits [of "unat (service_port service)"] decimal_to_string [of "unat (service_port service)"] n r(2)
    by (auto simp: isValidPort_iff offers_protocol_def unat_gt_0 Suc_le_eq)
  then have "authority_grammar (?a @ CHR '':'' # ?p)" using h unfolding authority_grammar_def by blast
  ultimately show ?thesis unfolding bridge_url_grammar url by blast
qed

theorem discovered_bridge_is_used:
  "buildMdnsBridgeWebSocketUrl service \<noteq> [] \<Longrightarrow>
     resolveBridgeEndpoint (new_BridgeEndpointSources\<lparr>mdnsUrl := buildMdnsBridgeWebSocketUrl service\<rparr>)
   = \<lparr>endpoint_ok = True, endpoint_source = Mdns, endpoint_url = buildMdnsBridgeWebSocketUrl service\<rparr>"
  using discovered_url_valid [of service] by (simp add: resolveBridgeEndpoint_def new_BridgeEndpointSources_def)

definition example_service :: MdnsBridgeService where
  "example_service = \<lparr>ipv4Address = ''192.168.1.20'', service_port = 8080, protocolVersion = ''1'', authRequired = ''true'',
     interfaceAddress = quad 192 168 1 31, interfaceNetmask = quad 255 255 255 0\<rparr>"

lemma char_digits: "char_of (48 :: nat) = CHR ''0''" "char_of (49 :: nat) = CHR ''1''" "char_of (50 :: nat) = CHR ''2''"
  "char_of (54 :: nat) = CHR ''6''" "char_of (56 :: nat) = CHR ''8''" "char_of (57 :: nat) = CHR ''9''"
  by code_simp+

lemma discovered_bridge_is_used_witness:
  "resolveBridgeEndpoint (new_BridgeEndpointSources\<lparr>mdnsUrl := buildMdnsBridgeWebSocketUrl example_service\<rparr>)
   = \<lparr>endpoint_ok = True, endpoint_source = Mdns, endpoint_url = buildMdnsBridgeWebSocketUrl example_service\<rparr>"
proof (rule discovered_bridge_is_used)
  have "reachable_at example_service (quad 192 168 1 20)"
    by (simp add: reachable_at_def example_service_def local_unicast_def in_network_def octet_def shift_in_def
        dotted_quad_def to_string.simps subnet_boundary_def Let_def char_digits)
  moreover have "offers_protocol example_service" by (simp add: offers_protocol_def example_service_def)
  ultimately show "buildMdnsBridgeWebSocketUrl example_service \<noteq> []" unfolding url_text by auto
qed

end
