(* ===== verification/Base64.thy ===== *)
theory Base64
  imports Prelude
begin

text \<open>
  Base64, which the WebSocket client needs for its handshake key.  \<open>websocket_handshake.cpp\<close> and
  \<open>web_socket.cpp\<close> each have an encoder, written differently; they agree, and the standard's decoder
  recovers the bytes.
\<close>

unbundle bit_operations_syntax

section \<open>The encoders\<close>

definition alphabet :: string where
  "alphabet = ''ABCDEFGHIJKLMNOPQRSTUVWXYZabcdefghijklmnopqrstuvwxyz0123456789+/''"

text \<open>\<open>websocket_handshake.cpp\<close>: three bytes make a 24-bit group.\<close>

fun base64Encode :: "u8 list \<Rightarrow> string" where
  "base64Encode [] = []"
| "base64Encode (byte0 # rest) =
    (let first = ucast byte0 :: u32;
         second = (case rest of [] \<Rightarrow> 0 | b # _ \<Rightarrow> ucast b);
         third = (case rest of _ # c # _ \<Rightarrow> ucast c | _ \<Rightarrow> 0);
         group = push_bit 16 first OR push_bit 8 second OR third
     in [alphabet ! unat (drop_bit 18 group AND 0x3F),
         alphabet ! unat (drop_bit 12 group AND 0x3F),
         if rest \<noteq> [] then alphabet ! unat (drop_bit 6 group AND 0x3F) else CHR ''='',
         if length rest > 1 then alphabet ! unat (group AND 0x3F) else CHR ''='']
        @ base64Encode (drop 2 rest))"

text \<open>\<open>web_socket.cpp\<close>: the four outputs are cut out of the three bytes.\<close>

definition chunk_outputs :: "u8 \<Rightarrow> u8 \<Rightarrow> u8 \<Rightarrow> u8 list" where
  "chunk_outputs input0 input1 input2 =
    [drop_bit 2 (input0 AND 0xFC),
     push_bit 4 (input0 AND 0x03) OR drop_bit 4 (input1 AND 0xF0),
     push_bit 2 (input1 AND 0x0F) OR drop_bit 6 (input2 AND 0xC0),
     input2 AND 0x3F]"

function socket_base64Encode :: "u8 list \<Rightarrow> string" where
  "socket_base64Encode data =
    (if data = [] then []
     else let chunkSize = min 3 (length data);
              input = (\<lambda>index. if index < chunkSize then data ! index else 0);
              output = chunk_outputs (input 0) (input 1) (input 2)
       in map (\<lambda>index. if index \<le> chunkSize then alphabet ! unat (output ! index) else CHR ''='') [0..<4]
          @ socket_base64Encode (drop chunkSize data))"
  by pat_completeness auto
termination by (relation "measure length") auto

section \<open>They agree\<close>

lemma bit_u8_less: "bit (b :: u8) n \<Longrightarrow> n < 8"
  using bit_imp_le_length [of b n] by simp

lemma mask6: "(0x3F :: u32) = mask 6" "(0x3F :: u8) = mask 6" "(0x03 :: u8) = mask 2" "(0x0F :: u8) = mask 4"
  by (simp_all add: mask_eq_exp_minus_1)

lemma high_masks: "(0xFC :: u8) = push_bit 2 (mask 6)" "(0xF0 :: u8) = push_bit 4 (mask 4)"
    "(0xC0 :: u8) = push_bit 6 (mask 2)"
  by (simp_all add: mask_eq_exp_minus_1 push_bit_eq_mult)

lemma group_sextets:
  fixes a b c :: u8
  defines "sextets \<equiv> push_bit 16 (ucast a :: u32) OR push_bit 8 (ucast b) OR ucast c"
  shows "drop_bit 18 sextets AND 0x3F = ucast (chunk_outputs a b c ! 0)"
    "drop_bit 12 sextets AND 0x3F = ucast (chunk_outputs a b c ! 1)"
    "drop_bit 6 sextets AND 0x3F = ucast (chunk_outputs a b c ! 2)"
    "sextets AND 0x3F = ucast (chunk_outputs a b c ! 3)"
  unfolding sextets_def chunk_outputs_def mask6 high_masks
  by (rule bit_word_eqI; auto simp: bit_simps dest: bit_u8_less)+

lemma unat_ucast_u8 [simp]: "unat (ucast (x :: u8) :: u32) = unat x"
proof -
  have "unat x < 2 ^ 32" using unsigned_less [of x, where 'a = nat] by simp
  then show ?thesis by (simp add: unsigned_ucast_eq take_bit_nat_eq_self)
qed

lemma upt_4: "[0..<4] = [0, 1, 2, 3 :: nat]"
  by (simp add: upt_rec)

lemma two_cases:
  obtains "xs = []" | x where "xs = [x]" | x y ys where "xs = x # y # ys"
  by (cases xs; cases "tl xs") auto

text \<open>One round of either encoder.\<close>

lemma base64_round:
  "base64Encode (a # rest) =
    (let out = chunk_outputs a (case rest of [] \<Rightarrow> 0 | b # _ \<Rightarrow> b) (case rest of _ # c # _ \<Rightarrow> c | _ \<Rightarrow> 0)
     in [alphabet ! unat (out ! 0), alphabet ! unat (out ! 1),
         if rest \<noteq> [] then alphabet ! unat (out ! 2) else CHR ''='',
         if length rest > 1 then alphabet ! unat (out ! 3) else CHR ''='']
        @ base64Encode (drop 2 rest))"
  using group_sextets [of a "case rest of [] \<Rightarrow> 0 | b # _ \<Rightarrow> b" "case rest of _ # c # _ \<Rightarrow> c | _ \<Rightarrow> 0"]
  by (cases rest rule: two_cases) (simp_all add: Let_def)

lemma socket_round:
  "socket_base64Encode (a # rest) =
    (let out = chunk_outputs a (case rest of [] \<Rightarrow> 0 | b # _ \<Rightarrow> b) (case rest of _ # c # _ \<Rightarrow> c | _ \<Rightarrow> 0)
     in [alphabet ! unat (out ! 0), alphabet ! unat (out ! 1),
         if rest \<noteq> [] then alphabet ! unat (out ! 2) else CHR ''='',
         if length rest > 1 then alphabet ! unat (out ! 3) else CHR ''='']
        @ socket_base64Encode (drop 2 rest))"
  by (cases rest rule: two_cases; subst socket_base64Encode.simps) (simp_all add: Let_def upt_4)

theorem base64_encoders_agree: "socket_base64Encode data = base64Encode data"
proof (induction data rule: base64Encode.induct)
  case (2 byte0 rest)
  then show ?case by (simp only: base64_round socket_round Let_def)
qed (simp add: socket_base64Encode.simps)

section \<open>Decoding\<close>

definition sextet :: "char \<Rightarrow> u8 option" where
  "sextet c = map_option of_nat (List.find (\<lambda>n. alphabet ! n = c) [0..<64])"

fun base64_decode :: "string \<Rightarrow> u8 list option" where
  "base64_decode [] = Some []"
| "base64_decode (c0 # c1 # c2 # c3 # rest) =
    (case (sextet c0, sextet c1, sextet c2, sextet c3) of
       (Some s0, Some s1, Some s2, Some s3) \<Rightarrow>
         map_option (\<lambda>bytes. (push_bit 2 s0 OR drop_bit 4 s1) # (push_bit 4 s1 OR drop_bit 2 s2)
                               # (push_bit 6 s2 OR s3) # bytes) (base64_decode rest)
     | (Some s0, Some s1, Some s2, None) \<Rightarrow>
         if c3 = CHR ''='' \<and> rest = []
         then Some [push_bit 2 s0 OR drop_bit 4 s1, push_bit 4 s1 OR drop_bit 2 s2] else None
     | (Some s0, Some s1, None, None) \<Rightarrow>
         if c2 = CHR ''='' \<and> c3 = CHR ''='' \<and> rest = [] then Some [push_bit 2 s0 OR drop_bit 4 s1] else None
     | _ \<Rightarrow> None)"
| "base64_decode _ = None"

lemma distinct_alphabet: "distinct alphabet" "length alphabet = 64" "CHR ''='' \<notin> set alphabet"
  by code_simp+

lemma find_nth: "distinct xs \<Longrightarrow> n < length xs \<Longrightarrow> List.find (\<lambda>i. xs ! i = xs ! n) [0..<length xs] = Some n"
  by (subst find_Some_iff) (auto simp: nth_eq_iff_index_eq)

lemma sextet_alphabet:
  assumes "unat x < 64"
  shows "sextet (alphabet ! unat x) = Some x"
  using find_nth [of alphabet "unat x"] assms by (simp add: sextet_def distinct_alphabet)

lemma sextet_pad: "sextet (CHR ''='') = None"
  using distinct_alphabet by (simp add: sextet_def find_None_iff) (metis nth_mem)

lemma diff_back [simp]:
  "Suc (Suc (n - 2)) = (if n < 2 then 2 else n)" "4 + (n - 4) = (if n < 4 then 4 else n)"
  "6 + (n - 6) = (if n < 6 then 6 else n :: nat)"
  by arith+

lemma six_bits:
  assumes "take_bit 6 x = (x :: u8)"
  shows "unat x < 64"
proof -
  have "unat x = take_bit 6 (unat x)" using assms by (metis unsigned_take_bit_eq)
  also have "\<dots> < 2 ^ 6" by (rule take_bit_nat_less_exp)
  finally show ?thesis by simp
qed

lemma chunk_sextets:
  "unat (chunk_outputs a b c ! 0) < 64" "unat (chunk_outputs a b c ! 1) < 64"
  "unat (chunk_outputs a b c ! 2) < 64" "unat (chunk_outputs a b c ! 3) < 64"
  unfolding chunk_outputs_def mask6 high_masks
  by (rule six_bits, rule bit_word_eqI, auto simp: bit_simps dest: bit_u8_less)+

lemma chunk_bytes:
  "push_bit 2 (chunk_outputs a b c ! 0) OR drop_bit 4 (chunk_outputs a b c ! 1) = a"
  "push_bit 4 (chunk_outputs a b c ! 1) OR drop_bit 2 (chunk_outputs a b c ! 2) = b"
  "push_bit 6 (chunk_outputs a b c ! 2) OR chunk_outputs a b c ! 3 = c"
  unfolding chunk_outputs_def mask6 high_masks
  by (rule bit_word_eqI; auto simp: bit_simps dest: bit_u8_less split: if_splits)+

declare base64Encode.simps(2) [simp del]

theorem base64_roundtrip: "base64_decode (base64Encode data) = Some data"
proof (induction data rule: base64Encode.induct)
  case (2 a rest)
  then show ?case
    by (cases rest rule: two_cases)
      (simp_all add: base64_round Let_def sextet_alphabet sextet_pad chunk_sextets
        chunk_sextets [unfolded One_nat_def] chunk_bytes chunk_bytes [unfolded One_nat_def])
qed simp

end
