(* ===== verification/Sha1.thy ===== *)
theory Sha1
  imports Base64
begin

text \<open>
  The SHA-1 of \<open>websocket_handshake.cpp\<close>, and the definition of FIPS 180-4 it is to compute: the
  standard's padding (the length in 64 bits), its recursive message schedule, functions, constants
  and rounds, over blocks cut from the padded message.  Both work on 32-bit words that wrap around.
\<close>

section \<open>The code\<close>

definition rotateLeft :: "u32 \<Rightarrow> nat \<Rightarrow> u32" where
  "rotateLeft val bits = push_bit bits val OR drop_bit (32 - bits) val"

text \<open>The loop that pads with zero bytes.\<close>

definition padding_left :: "u8 list \<Rightarrow> nat" where
  "padding_left message =
     (if length message mod 64 \<le> 56 then 56 - length message mod 64 else 120 - length message mod 64)"

lemma padding_left_decreases:
  assumes "length message mod 64 \<noteq> 56"
  shows "padding_left (message @ [0]) < padding_left message"
proof -
  have "length message mod 64 < 64" by simp
  then show ?thesis using assms by (auto simp: padding_left_def mod_Suc split: if_splits)
qed

function zero_pad :: "u8 list \<Rightarrow> u8 list" where
  "zero_pad message = (if length message mod 64 \<noteq> 56 then zero_pad (message @ [0]) else message)"
  by pat_completeness auto
termination by (relation "measure padding_left") (simp_all add: padding_left_decreases)

definition sha1_message :: "string \<Rightarrow> u8 list" where
  "sha1_message input =
    (let inputBits = of_nat (length input) * 8 :: u64
     in zero_pad (map of_char input @ [0x80])
        @ map (\<lambda>shift. ucast (drop_bit shift inputBits AND 0xFF)) [56, 48, 40, 32, 24, 16, 8, 0])"

definition load_word :: "u8 list \<Rightarrow> nat \<Rightarrow> u32" where
  "load_word message offset =
     push_bit 24 (ucast (message ! offset)) OR push_bit 16 (ucast (message ! (offset + 1)))
     OR push_bit 8 (ucast (message ! (offset + 2))) OR ucast (message ! (offset + 3))"

definition sha1_words :: "u8 list \<Rightarrow> nat \<Rightarrow> u32 list" where
  "sha1_words message chunk =
    (let words = fold (\<lambda>index words. words[index := load_word message (chunk + index * 4)]) [0..<16]
                   (replicate 80 0)
     in fold (\<lambda>index words. words[index :=
            rotateLeft (words ! (index - 3) XOR words ! (index - 8) XOR words ! (index - 14)
                        XOR words ! (index - 16)) 1]) [16..<80] words)"

type_synonym sha1_state = "u32 \<times> u32 \<times> u32 \<times> u32 \<times> u32"

definition sha1_round :: "u32 list \<Rightarrow> nat \<Rightarrow> sha1_state \<Rightarrow> sha1_state" where
  "sha1_round words index s =
    (case s of (a, b, c, d, e) \<Rightarrow>
      let (f, k) =
        (if index < 20 then ((b AND c) OR (NOT b AND d), 0x5A827999)
         else if index < 40 then (b XOR c XOR d, 0x6ED9EBA1)
         else if index < 60 then ((b AND c) OR (b AND d) OR (c AND d), 0x8F1BBCDC)
         else (b XOR c XOR d, 0xCA62C1D6))
      in (rotateLeft a 5 + f + e + k + words ! index, a, rotateLeft b 30, c, d))"

function sha1_chunks :: "u8 list \<Rightarrow> nat \<Rightarrow> sha1_state \<Rightarrow> sha1_state" where
  "sha1_chunks message chunk h =
    (if chunk < length message
     then case h of (h0, h1, h2, h3, h4) \<Rightarrow>
       case fold (sha1_round (sha1_words message chunk)) [0..<80] h of (a, b, c, d, e) \<Rightarrow>
         sha1_chunks message (chunk + 64) (h0 + a, h1 + b, h2 + c, h3 + d, h4 + e)
     else h)"
  by pat_completeness auto
termination by (relation "measure (\<lambda>(message, chunk, h). length message - chunk)") auto

definition sha1_digest :: "sha1_state \<Rightarrow> u8 list" where
  "sha1_digest h =
    (case h of (h0, h1, h2, h3, h4) \<Rightarrow>
      concat (map (\<lambda>w. map (\<lambda>byte. ucast (drop_bit (24 - byte * 8) w AND 0xFF)) [0, 1, 2, 3]) [h0, h1, h2, h3, h4]))"

definition sha1 :: "string \<Rightarrow> u8 list" where
  "sha1 input = sha1_digest (sha1_chunks (sha1_message input) 0
     (0x67452301, 0xEFCDAB89, 0x98BADCFE, 0x10325476, 0xC3D2E1F0))"

section \<open>The reference: FIPS 180-4\<close>

definition fips_padded :: "u8 list \<Rightarrow> u8 list" where
  "fips_padded m = m @ [0x80] @ replicate ((119 - length m mod 64) mod 64) 0
     @ map (\<lambda>i. of_nat (8 * length m div 256 ^ (7 - i) mod 256)) [0..<8]"

fun fips_schedule :: "u8 list \<Rightarrow> nat \<Rightarrow> u32" where
  "fips_schedule block t =
    (if t < 16 then load_word block (4 * t)
     else word_rotl 1 (fips_schedule block (t - 3) XOR fips_schedule block (t - 8)
            XOR fips_schedule block (t - 14) XOR fips_schedule block (t - 16)))"

definition fips_f :: "nat \<Rightarrow> u32 \<Rightarrow> u32 \<Rightarrow> u32 \<Rightarrow> u32" where
  "fips_f t x y z =
    (if t \<le> 19 then (x AND y) XOR (NOT x AND z)
     else if t \<le> 39 then x XOR y XOR z
     else if t \<le> 59 then (x AND y) XOR (x AND z) XOR (y AND z)
     else x XOR y XOR z)"

definition fips_K :: "nat \<Rightarrow> u32" where
  "fips_K t = (if t \<le> 19 then 0x5a827999 else if t \<le> 39 then 0x6ed9eba1
     else if t \<le> 59 then 0x8f1bbcdc else 0xca62c1d6)"

definition fips_step :: "u8 list \<Rightarrow> sha1_state \<Rightarrow> nat \<Rightarrow> sha1_state" where
  "fips_step block s t = (case s of (a, b, c, d, e) \<Rightarrow>
     (word_rotl 5 a + fips_f t b c d + e + fips_K t + fips_schedule block t, a, word_rotl 30 b, c, d))"

definition fips_compress :: "sha1_state \<Rightarrow> u8 list \<Rightarrow> sha1_state" where
  "fips_compress h block =
    (case h of (h0, h1, h2, h3, h4) \<Rightarrow>
     case foldl (fips_step block) h [0..<80] of (a, b, c, d, e) \<Rightarrow>
       (a + h0, b + h1, c + h2, d + h3, e + h4))"

function fips_blocks :: "u8 list \<Rightarrow> u8 list list" where
  "fips_blocks m = (if m = [] then [] else take 64 m # fips_blocks (drop 64 m))"
  by pat_completeness auto
termination by (relation "measure length") auto

definition fips_sha1 :: "u8 list \<Rightarrow> u8 list" where
  "fips_sha1 m =
    (case foldl fips_compress (0x67452301, 0xefcdab89, 0x98badcfe, 0x10325476, 0xc3d2e1f0)
            (fips_blocks (fips_padded m)) of
       (h0, h1, h2, h3, h4) \<Rightarrow>
         concat (map (\<lambda>w. map (\<lambda>i. of_nat (unat w div 256 ^ (3 - i) mod 256)) [0..<4]) [h0, h1, h2, h3, h4]))"

section \<open>The code computes it\<close>

lemma rotateLeft_rotl:
  assumes "0 < n" "n < 32"
  shows "rotateLeft w n = word_rotl n w"
proof (rule bit_word_eqI)
  fix i :: nat
  assume "i < LENGTH(32)"
  then have i: "i < 32" by simp
  show "bit (rotateLeft w n) i = bit (word_rotl n w) i"
  proof (cases "n \<le> i")
    case True
    then have "(i + (32 - n)) mod 32 = i - n" "\<not> 32 - n + i < 32" using assms i by (auto simp: le_mod_geq)
    moreover have "\<not> bit w (32 - n + i)" using calculation(2) bit_imp_le_length [of w] by fastforce
    ultimately show ?thesis using True assms i by (simp add: rotateLeft_def bit_simps bit_word_rotl_iff)
  next
    case False
    then have "(i + (32 - n)) mod 32 = 32 - n + i" using assms i by simp
    with False show ?thesis using assms i by (simp add: rotateLeft_def bit_simps bit_word_rotl_iff)
  qed
qed

lemma round_functions:
  "(b AND c) OR (NOT b AND d) = (b AND c) XOR (NOT b AND (d :: u32))"
  "(b AND c) OR (b AND d) OR (c AND d) = (b AND c) XOR (b AND d) XOR (c AND (d :: u32))"
  by (rule bit_word_eqI; auto simp: bit_simps)+

declare zero_pad.simps [simp del]

lemma zero_pad_replicate: "zero_pad m = m @ replicate (padding_left m) 0"
proof (induction m rule: zero_pad.induct)
  case (1 m)
  show ?case
  proof (cases "length m mod 64 = 56")
    case True
    then show ?thesis by (simp add: zero_pad.simps padding_left_def)
  next
    case False
    have "length m mod 64 < 64" by simp
    then have "padding_left m = Suc (padding_left (m @ [0]))"
      using False by (auto simp: padding_left_def mod_Suc split: if_splits)
    with 1 [OF False] False show ?thesis by (simp add: zero_pad.simps)
  qed
qed

lemma padding_left_fips: "padding_left (m @ [x]) = (119 - length m mod 64) mod 64"
proof -
  define r where "r = length m mod 64"
  have r: "r < 64" "length (m @ [x]) mod 64 = (if r = 63 then 0 else Suc r)"
    by (simp_all add: r_def mod_Suc)
  consider "r = 63" | "r \<le> 55" | "56 \<le> r" "r \<le> 62" using r(1) by linarith
  then have "(119 - r) mod 64 = (if r = 63 then 56 else if r \<le> 55 then 55 - r else 119 - r)"
    by cases (auto simp: le_mod_geq)
  then show ?thesis using r(1) unfolding padding_left_def r(2) r_def [symmetric] by auto
qed

lemma low_byte:
  "ucast (drop_bit n (of_nat x :: 'a::len word) AND 0xFF) = (of_nat (take_bit LENGTH('a) x div 2 ^ n mod 256) :: u8)"
proof -
  have m: "(0xFF :: 'a word) = mask 8" by (simp add: mask_eq_exp_minus_1)
  have d: "y div 2 ^ n mod 256 = take_bit 8 (drop_bit n y)" for y :: nat
    by (simp add: drop_bit_eq_div take_bit_eq_mod)
  show ?thesis unfolding m d by (rule bit_word_eqI) (auto simp: bit_simps)
qed

lemma byte_of_word: "ucast (drop_bit n w AND 0xFF :: 'a::len word) = (of_nat (unat w div 2 ^ n mod 256) :: u8)"
  using low_byte [of n "unat w", where 'a = 'a] by (simp add: take_bit_nat_eq_self)

lemma fold_update_upt:
  "k \<le> length xs \<Longrightarrow> fold (\<lambda>i xs. xs[i := f i]) [0..<k] xs = map f [0..<k] @ drop k xs"
  by (induction k) (auto simp: list_update_append Cons_nth_drop_Suc [symmetric])

lemma load_word_block:
  assumes "chunk + 64 \<le> length message" "t < 16"
  shows "load_word message (chunk + t * 4) = load_word (take 64 (drop chunk message)) (4 * t)"
  using assms by (simp add: load_word_def ac_simps)

lemma fips_schedule_late:
  "fips_schedule block (16 + k) = rotateLeft (fips_schedule block (13 + k) XOR fips_schedule block (8 + k)
     XOR fips_schedule block (2 + k) XOR fips_schedule block k) 1"
  by (subst fips_schedule.simps) (simp add: rotateLeft_rotl del: fips_schedule.simps)

declare fips_schedule.simps [simp del]

lemma sha1_words_schedule:
  assumes m: "chunk + 64 \<le> length message"
  defines "w \<equiv> fips_schedule (take 64 (drop chunk message))"
  shows "sha1_words message chunk = map w [0..<80]"
proof -
  define start where "start = fold (\<lambda>index words. words[index := load_word message (chunk + index * 4)]) [0..<16]
                   (replicate 80 0)"
  have s: "start = map w [0..<16] @ replicate 64 0"
    unfolding start_def
    by (simp add: fold_update_upt w_def load_word_block [OF m] fips_schedule.simps)
  define expand where "expand = (\<lambda>index words. words[index :=
            rotateLeft (words ! (index - 3) XOR words ! (index - 8) XOR words ! (index - 14)
                        XOR words ! (index - 16)) 1 :: u32])"
  have "k \<le> 64 \<Longrightarrow> fold expand [16..<16 + k] start = map w [0..<16 + k] @ replicate (64 - k) 0" for k
  proof (induction k)
    case (Suc k)
    then have "w (16 + k) = rotateLeft (w (13 + k) XOR w (8 + k) XOR w (2 + k) XOR w k) 1"
      by (simp only: w_def fips_schedule_late)
    moreover have "replicate (64 - k) 0 = (0 :: u32) # replicate (64 - Suc k) 0"
      using Suc.prems by (cases "64 - k") (auto simp: Suc_diff_Suc)
    moreover have "[16..<16 + Suc k] = [16..<16 + k] @ [16 + k]" "[0..<16 + Suc k] = [0..<16 + k] @ [16 + k]"
      by (simp_all only: add_Suc_right upt_Suc_append le_add1 le0)
    moreover have "expand (16 + k) (map w [0..<16 + k] @ 0 # zs)
        = map w [0..<16 + k] @ rotateLeft (w (13 + k) XOR w (8 + k) XOR w (2 + k) XOR w k) 1 # zs" for zs
      by (simp add: expand_def nth_append list_update_append)
    ultimately show ?case using Suc by (simp only: fold_append fold_simps map_append list.map o_apply) simp
  qed (simp add: s)
  from this [of 64] show ?thesis
    unfolding sha1_words_def start_def [symmetric] expand_def [symmetric] by simp
qed

lemma sha1_round_fips:
  assumes "index < 80"
  shows "sha1_round (map (fips_schedule block) [0..<80]) index s = fips_step block s index"
  using assms
  by (auto simp: sha1_round_def fips_step_def fips_f_def fips_K_def rotateLeft_rotl round_functions
      split: prod.split)

lemma sha1_rounds_fips:
  assumes "chunk + 64 \<le> length message"
  shows "fold (sha1_round (sha1_words message chunk)) [0..<80] h
    = foldl (fips_step (take 64 (drop chunk message))) h [0..<80]"
  unfolding sha1_words_schedule [OF assms] foldl_conv_fold
  by (rule fold_cong) (auto simp: sha1_round_fips)

declare sha1_chunks.simps [simp del] fips_blocks.simps [simp del]

lemma sha1_chunks_fips:
  assumes "64 dvd length message - chunk"
  shows "sha1_chunks message chunk h = foldl fips_compress h (fips_blocks (drop chunk message))"
  using assms
proof (induction "length message - chunk" arbitrary: chunk h rule: less_induct)
  case less
  show ?case
  proof (cases "chunk < length message")
    case True
    then have l: "chunk + 64 \<le> length message" using less(2) by (auto dest: dvd_imp_le)
    have d: "64 dvd length message - (chunk + 64)" using less(2) by (metis diff_diff_left dvd_diff_nat dvd_refl)
    obtain h0 h1 h2 h3 h4 where h: "h = (h0, h1, h2, h3, h4)" by (cases h) auto
    obtain a b c d e where r: "foldl (fips_step (take 64 (drop chunk message))) h [0..<80] = (a, b, c, d, e)"
      by (cases "foldl (fips_step (take 64 (drop chunk message))) h [0..<80]") auto
    have "fips_compress h (take 64 (drop chunk message)) = (h0 + a, h1 + b, h2 + c, h3 + d, h4 + e)"
      using r unfolding h by (simp add: fips_compress_def add.commute)
    moreover have "fips_blocks (drop chunk message)
        = take 64 (drop chunk message) # fips_blocks (drop (chunk + 64) message)"
      using True by (subst fips_blocks.simps) (simp add: add.commute)
    moreover have "sha1_chunks message chunk h = sha1_chunks message (chunk + 64) (h0 + a, h1 + b, h2 + c, h3 + d, h4 + e)"
      using True r by (subst sha1_chunks.simps) (simp add: sha1_rounds_fips [OF l] h)
    ultimately show ?thesis using less(1) [OF _ d] True by simp
  next
    case False
    then show ?thesis by (simp add: sha1_chunks.simps fips_blocks.simps)
  qed
qed

lemma bits_of_length:
  assumes "shift \<in> {56, 48, 40, 32, 24, 16, 8, 0}"
  shows "(ucast (drop_bit shift (of_nat n * 8 :: u64) AND 0xFF) :: u8) = of_nat (8 * n div 2 ^ shift mod 256)"
proof -
  have "(of_nat n * 8 :: u64) = of_nat (8 * n)" by simp
  moreover have "8 * n mod 2 ^ 64 div 2 ^ shift mod 256 = 8 * n div 2 ^ shift mod 256"
  proof -
    have "take_bit 8 (drop_bit shift (take_bit 64 (8 * n))) = take_bit 8 (drop_bit shift (8 * n))"
      using assms by (auto simp: drop_bit_take_bit)
    then show ?thesis by (simp add: take_bit_eq_mod drop_bit_eq_div)
  qed
  ultimately show ?thesis by (simp only: low_byte) (simp add: take_bit_eq_mod)
qed

lemma sha1_message_fips: "sha1_message input = fips_padded (map of_char input)"
proof -
  have "map (\<lambda>shift. ucast (drop_bit shift (of_nat (length input) * 8 :: u64) AND 0xFF)) [56, 48, 40, 32, 24, 16, 8, 0]
      = map (\<lambda>i. of_nat (8 * length input div 256 ^ (7 - i) mod 256) :: u8) [0..<8]"
    by (simp add: bits_of_length bits_of_length [of 0, simplified] upt_rec)
  then show ?thesis
    by (simp add: sha1_message_def fips_padded_def zero_pad_replicate padding_left_fips Let_def)
qed

lemma fips_padded_length: "64 dvd length (fips_padded m)"
proof -
  define r where "r = length m mod 64"
  have r: "r < 64" "length m = 64 * (length m div 64) + r" by (simp_all add: r_def)
  have "(119 - r) mod 64 = (if r = 63 then 56 else if r \<le> 55 then 55 - r else 119 - r)"
    using r(1) by (cases "r \<le> 55"; cases "r = 63") (auto simp: le_mod_geq)
  then have "64 dvd r + 9 + (119 - r) mod 64" using r(1) by (auto simp: dvd_def)
  moreover have "length (fips_padded m) = 64 * (length m div 64) + (r + 9 + (119 - r) mod 64)"
    unfolding fips_padded_def r_def [symmetric] using r(2) by simp
  ultimately show ?thesis by (metis dvd_add dvd_triv_left)
qed

lemma sha1_digest_fips:
  "sha1_digest h = (case h of (h0, h1, h2, h3, h4) \<Rightarrow>
     concat (map (\<lambda>w. map (\<lambda>i. of_nat (unat w div 256 ^ (3 - i) mod 256)) [0..<4]) [h0, h1, h2, h3, h4]))"
proof -
  have "map (\<lambda>byte. ucast (drop_bit (24 - byte * 8) (w :: u32) AND 0xFF)) [0, 1, 2, 3]
      = map (\<lambda>i. of_nat (unat w div 256 ^ (3 - i) mod 256) :: u8) [0..<4]" for w
    by (simp add: byte_of_word byte_of_word [of 0, simplified] upt_4 unsigned_drop_bit_eq take_bit_nat_eq_self drop_bit_eq_div unat_div_distrib)
  then show ?thesis unfolding sha1_digest_def by simp
qed

text \<open>C10: The SHA-1 of the handshake is that of FIPS 180-4 for every input.\<close>

theorem sha1_is_fips_180: "sha1 input = fips_sha1 (map of_char input)"
  unfolding sha1_def fips_sha1_def sha1_digest_fips sha1_message_fips
  by (simp add: sha1_chunks_fips fips_padded_length)

end
