(* ===== verification/Websocket_Handshake.thy ===== *)
theory Websocket_Handshake
  imports Sha1
begin

text \<open>
  The rest of \<open>websocket_handshake.cpp\<close>: the check of the server's response to the opening handshake.
  The reference splits the response into lines, the lines into fields and the fields into tokens.
\<close>

section \<open>The response\<close>

definition kWebSocketGuid :: string where
  "kWebSocketGuid = ''258EAFA5-E914-47DA-95CA-C5AB0DC85B11''"

definition expectedAccept :: "string \<Rightarrow> string" where
  "expectedAccept clientKey = base64Encode (sha1 (clientKey @ kWebSocketGuid))"

definition lowerAscii :: "char \<Rightarrow> char" where
  "lowerAscii c = (if CHR ''A'' \<le> c \<and> c \<le> CHR ''Z'' then char_of (of_char c + (32 :: nat)) else c)"

definition equalsIgnoreCase :: "string \<Rightarrow> string \<Rightarrow> bool" where
  "equalsIgnoreCase left right \<longleftrightarrow> length left = length right \<and> map lowerAscii left = map lowerAscii right"

definition blank :: "char \<Rightarrow> bool" where
  "blank c \<longleftrightarrow> c = CHR '' '' \<or> c = CHR 0x09"

definition trimHttpWhitespace :: "string \<Rightarrow> string" where
  "trimHttpWhitespace val = rev (dropWhile blank (rev (dropWhile blank val)))"

function containsHeaderToken :: "string \<Rightarrow> string \<Rightarrow> bool" where
  "containsHeaderToken val expected =
    (let separator = str_find val '','' 0;
         token = trimHttpWhitespace (case separator of None \<Rightarrow> val | Some p \<Rightarrow> substr val 0 p)
     in if equalsIgnoreCase token expected then True
        else case separator of
          None \<Rightarrow> False
        | Some p \<Rightarrow> containsHeaderToken (drop (p + 1) val) expected)"
  by pat_completeness auto
termination
  by (relation "measure (\<lambda>(val, expected). length val)")
    (auto simp: str_find_Some match_at_def dest!: sym [of "Some _"])

abbreviation crlf :: string where
  "crlf \<equiv> [CHR 0x0D, CHR 0x0A]"

record handshake_flags =
  upgrade :: bool
  connectionUpgrade :: bool
  acceptSeen :: bool
  acceptMatches :: bool

text \<open>The body of the loop over the header lines; \<open>None\<close> is its \<open>return false\<close>.\<close>

definition header_line :: "string \<Rightarrow> string \<Rightarrow> handshake_flags \<Rightarrow> handshake_flags option" where
  "header_line accept line flags =
    (if line = [] \<or> blank (hd line) then None
     else case str_find line '':'' 0 of
       None \<Rightarrow> None
     | Some colon \<Rightarrow>
         if colon = 0 then None
         else let name = substr line 0 colon
              in if trimHttpWhitespace name \<noteq> name then None
                 else let val = trimHttpWhitespace (drop (colon + 1) line)
                      in if equalsIgnoreCase name ''Upgrade''
                         then Some (flags\<lparr>upgrade := upgrade flags \<or> containsHeaderToken val ''websocket''\<rparr>)
                         else if equalsIgnoreCase name ''Connection''
                         then Some (flags\<lparr>connectionUpgrade :=
                                connectionUpgrade flags \<or> containsHeaderToken val ''Upgrade''\<rparr>)
                         else if equalsIgnoreCase name ''Sec-WebSocket-Accept''
                         then if acceptSeen flags then None
                              else Some (flags\<lparr>acceptSeen := True, acceptMatches := (val = accept)\<rparr>)
                         else Some flags)"

function header_lines :: "string \<Rightarrow> string \<Rightarrow> nat \<Rightarrow> nat \<Rightarrow> handshake_flags \<Rightarrow> handshake_flags option" where
  "header_lines response accept headerEnd offset flags =
    (if offset < headerEnd
     then case str_find response crlf offset of
       None \<Rightarrow> None
     | Some lineEnd \<Rightarrow>
         if lineEnd > headerEnd then None
         else case header_line accept (substr response offset (lineEnd - offset)) flags of
           None \<Rightarrow> None
         | Some flags' \<Rightarrow> header_lines response accept headerEnd (lineEnd + 2) flags'
     else Some flags)"
  by pat_completeness auto
termination
  by (relation "measure (\<lambda>(response, accept, headerEnd, offset, flags). headerEnd - offset)")
    (auto simp: str_find_Some dest!: sym [of "Some _"])

definition validateWebSocketHandshakeResponse :: "string \<Rightarrow> string \<Rightarrow> bool" where
  "validateWebSocketHandshakeResponse response clientKey \<longleftrightarrow>
    (if clientKey = [] then False
     else case (str_find response (crlf @ crlf) 0, str_find response crlf 0) of
       (Some headerEnd, Some statusEnd) \<Rightarrow>
         if statusEnd \<ge> headerEnd then False
         else let status = substr response 0 statusEnd
              in if length status < 13 \<or> substr status 0 9 \<noteq> ''HTTP/1.1 '' \<or> substr status 9 3 \<noteq> ''101''
                    \<or> status ! 12 \<noteq> CHR '' '' then False
                 else (case header_lines response (expectedAccept clientKey) headerEnd (statusEnd + 2)
                        \<lparr>upgrade = False, connectionUpgrade = False, acceptSeen = False, acceptMatches = False\<rparr> of
                      None \<Rightarrow> False
                    | Some flags \<Rightarrow> upgrade flags \<and> connectionUpgrade flags \<and> acceptSeen flags \<and> acceptMatches flags)
     | _ \<Rightarrow> False)"


section \<open>The reference\<close>

fun crlf_lines :: "string \<Rightarrow> string \<Rightarrow> string list option" where
  "crlf_lines cur [] = None"
| "crlf_lines cur (c # rest) =
    (if c = CHR 0x0D \<and> rest \<noteq> [] \<and> hd rest = CHR 0x0A
     then if cur = [] then Some [] else map_option ((#) (rev cur)) (crlf_lines [] (tl rest))
     else crlf_lines (c # cur) rest)"

fun split_on :: "'a \<Rightarrow> 'a list \<Rightarrow> 'a list list" where
  "split_on c [] = [[]]"
| "split_on c (x # xs) = (if x = c then [] # split_on c xs else (x # hd (split_on c xs)) # tl (split_on c xs))"

definition field_name :: "string \<Rightarrow> string" where
  "field_name line = takeWhile (\<lambda>c. c \<noteq> CHR '':'') line"

definition field_value :: "string \<Rightarrow> string" where
  "field_value line = trimHttpWhitespace (tl (dropWhile (\<lambda>c. c \<noteq> CHR '':'') line))"

definition field_ok :: "string \<Rightarrow> bool" where
  "field_ok line \<longleftrightarrow> CHR '':'' \<in> set line \<and> field_name line \<noteq> []
     \<and> \<not> blank (hd (field_name line)) \<and> \<not> blank (List.last (field_name line))"

definition values_of :: "string \<Rightarrow> string list \<Rightarrow> string list" where
  "values_of name headers = map field_value (filter (\<lambda>line. equalsIgnoreCase (field_name line) name) headers)"

definition has_token :: "string \<Rightarrow> string \<Rightarrow> bool" where
  "has_token token val \<longleftrightarrow> list_ex (\<lambda>t. equalsIgnoreCase (trimHttpWhitespace t) token) (split_on (CHR '','') val)"

definition handshake_accepted :: "string \<Rightarrow> string \<Rightarrow> bool" where
  "handshake_accepted response clientKey \<longleftrightarrow>
    clientKey \<noteq> []
    \<and> (case crlf_lines [] response of
         Some (status # headers) \<Rightarrow>
           prefix ''HTTP/1.1 101 '' status
           \<and> list_all field_ok headers
           \<and> list_ex (has_token ''websocket'') (values_of ''Upgrade'' headers)
           \<and> list_ex (has_token ''Upgrade'') (values_of ''Connection'' headers)
           \<and> values_of ''Sec-WebSocket-Accept'' headers = [expectedAccept clientKey]
       | _ \<Rightarrow> False)"

section \<open>The code decides it\<close>

lemma match_at_char: "match_at s [c] i \<longleftrightarrow> i < length s \<and> s ! i = c"
  by (auto simp: match_at_def take_Suc_conv_app_nth hd_drop_conv_nth take_Suc)

lemma str_find_char:
  "str_find s [c] 0 = (if c \<in> set s then Some (length (takeWhile (\<lambda>x. x \<noteq> c) s)) else None)"
proof (cases "c \<in> set s")
  case True
  then have "length (takeWhile (\<lambda>x. x \<noteq> c) s) < length s"
    by (induction s) auto
  moreover have "s ! length (takeWhile (\<lambda>x. x \<noteq> c) s) = c" using nth_length_takeWhile calculation by fastforce
  moreover have "s ! k \<noteq> c" if "k < length (takeWhile (\<lambda>x. x \<noteq> c) s)" for k
    using that by (metis (mono_tags) nth_mem set_takeWhileD takeWhile_nth)
  ultimately show ?thesis using True by (auto simp: str_find_Some match_at_char)
qed (auto simp: str_find_None match_at_char dest: nth_mem)

lemma split_on_char:
  "split_on c s = (if c \<in> set s
     then takeWhile (\<lambda>x. x \<noteq> c) s # split_on c (tl (dropWhile (\<lambda>x. x \<noteq> c) s)) else [s])"
  by (induction s) auto

lemma drop_length_takeWhile: "drop (length (takeWhile P s)) s = dropWhile P s"
  by (metis dropWhile_eq_drop)

lemma drop_Suc_length_takeWhile: "drop (Suc (length (takeWhile P s))) s = tl (dropWhile P s)"
  by (metis drop_Suc drop_length_takeWhile tl_drop)

lemma take_length_takeWhile: "take (length (takeWhile P s)) s = takeWhile P s"
  by (metis takeWhile_eq_take)

declare containsHeaderToken.simps [simp del] header_lines.simps [simp del]

lemma containsHeaderToken_iff: "containsHeaderToken val token \<longleftrightarrow> has_token token val"
proof (induction val token rule: containsHeaderToken.induct)
  case (1 val expected)
  show ?case
  proof (cases "CHR '','' \<in> set val")
    case True
    have "containsHeaderToken (tl (dropWhile (\<lambda>x. x \<noteq> CHR '','') val)) expected
        = has_token expected (tl (dropWhile (\<lambda>x. x \<noteq> CHR '','') val))"
      if "\<not> equalsIgnoreCase (trimHttpWhitespace (takeWhile (\<lambda>x. x \<noteq> CHR '','') val)) expected"
      using 1 [OF refl refl] True that
      by (simp add: str_find_char substr_def take_length_takeWhile drop_Suc_length_takeWhile)
    then show ?thesis using True
      by (subst containsHeaderToken.simps)
        (auto simp: has_token_def split_on_char [of _ val] str_find_char substr_def take_length_takeWhile
          drop_Suc_length_takeWhile Let_def)
  next
    case False
    then show ?thesis
      by (subst containsHeaderToken.simps) (simp add: has_token_def split_on_char [of _ val] str_find_char Let_def)
  qed
qed

lemma match_at_Cons: "match_at (c # s) p (Suc i) = match_at s p i"
  by (simp add: match_at_def)

lemma find_map_Suc: "List.find P (map Suc ns) = map_option Suc (List.find (\<lambda>i. P (Suc i)) ns)"
  by (induction ns) auto

lemma str_find_Cons:
  "str_find (c # s) p 0 = (if match_at (c # s) p 0 then Some 0 else map_option Suc (str_find s p 0))"
proof -
  have "[0..<Suc (length (c # s))] = 0 # map Suc [0..<Suc (length s)]"
    by (simp add: map_Suc_upt upt_conv_Cons del: upt_Suc)
  then show ?thesis unfolding str_find_def by (simp only: List.find.simps find_map_Suc match_at_Cons)
qed

lemma str_find_crlf_step:
  "crlf_lines cur r = (case str_find r crlf 0 of
      None \<Rightarrow> None
    | Some p \<Rightarrow> if rev cur @ take p r = [] then Some []
                else map_option ((#) (rev cur @ take p r)) (crlf_lines [] (drop (p + 2) r)))"
proof (induction r arbitrary: cur)
  case Nil
  then show ?case by (simp add: str_find_def match_at_def)
next
  case (Cons c rest)
  show ?case
  proof (cases "c = CHR 0x0D \<and> rest \<noteq> [] \<and> hd rest = CHR 0x0A")
    case True
    then have "str_find (c # rest) crlf 0 = Some 0"
      by (auto simp: str_find_Some match_at_def take_Suc neq_Nil_conv)
    with True show ?thesis by (auto simp: drop_Suc)
  next
    case False
    then have "\<not> match_at (c # rest) crlf 0" by (cases rest) (auto simp: match_at_def)
    then have "str_find (c # rest) crlf 0 = map_option Suc (str_find rest crlf 0)" by (simp add: str_find_Cons)
    then show ?thesis using False Cons [of "c # cur"]
      by (cases "str_find rest crlf 0") auto
  qed
qed

lemma trim_fixed:
  assumes "s \<noteq> []"
  shows "trimHttpWhitespace s = s \<longleftrightarrow> \<not> blank (hd s) \<and> \<not> blank (List.last s)"
proof
  have shrink: "dropWhile blank t = t \<longleftrightarrow> \<not> blank (hd t)" if "t \<noteq> []" for t
    using that length_dropWhile_le [of blank "tl t"] by (cases t) (auto dest: arg_cong [where f = length])
  assume t: "trimHttpWhitespace s = s"
  have "length (trimHttpWhitespace s) \<le> length (dropWhile blank s)"
    unfolding trimHttpWhitespace_def using length_dropWhile_le [of blank "rev (dropWhile blank s)"] by simp
  then have "\<not> blank (hd s)"
    using t assms length_dropWhile_le [of blank "tl s"] by (cases s) auto
  then have "dropWhile blank s = s" using shrink assms by simp
  with t have "dropWhile blank (rev s) = rev s" by (metis trimHttpWhitespace_def rev_rev_ident)
  then show "\<not> blank (hd s) \<and> \<not> blank (List.last s)"
    using shrink [of "rev s"] \<open>\<not> blank (hd s)\<close> assms by (simp add: hd_rev)
next
  assume "\<not> blank (hd s) \<and> \<not> blank (List.last s)"
  then have "dropWhile blank s = s" "dropWhile blank (rev s) = rev s"
    using assms by (metis dropWhile_eq_self_iff hd_rev)+
  then show "trimHttpWhitespace s = s" by (simp add: trimHttpWhitespace_def)
qed

lemma header_line_field:
  "header_line accept line flags =
    (if \<not> field_ok line then None
     else if equalsIgnoreCase (field_name line) ''Upgrade''
     then Some (flags\<lparr>upgrade := upgrade flags \<or> has_token ''websocket'' (field_value line)\<rparr>)
     else if equalsIgnoreCase (field_name line) ''Connection''
     then Some (flags\<lparr>connectionUpgrade := connectionUpgrade flags \<or> has_token ''Upgrade'' (field_value line)\<rparr>)
     else if equalsIgnoreCase (field_name line) ''Sec-WebSocket-Accept''
     then if acceptSeen flags then None
          else Some (flags\<lparr>acceptSeen := True, acceptMatches := (field_value line = accept)\<rparr>)
     else Some flags)"
proof (cases "CHR '':'' \<in> set line \<and> field_name line \<noteq> []")
  case True
  then have "line \<noteq> []" "hd line = hd (field_name line)" by (cases line; auto simp: field_name_def)+
  with True show ?thesis
    by (simp add: header_line_def field_ok_def trim_fixed str_find_char field_name_def [symmetric]
        substr_def take_length_takeWhile [of "\<lambda>c. c \<noteq> CHR '':''" line, folded field_name_def]
        drop_Suc_length_takeWhile [of "\<lambda>c. c \<noteq> CHR '':''" line, folded field_name_def]
        field_value_def [symmetric] containsHeaderToken_iff Let_def)
next
  case False
  then show ?thesis
    by (auto simp: header_line_def field_ok_def str_find_char field_name_def)
qed

fun check_lines :: "string \<Rightarrow> string list \<Rightarrow> handshake_flags \<Rightarrow> handshake_flags option" where
  "check_lines accept [] flags = Some flags"
| "check_lines accept (line # ls) flags =
    (case header_line accept line flags of None \<Rightarrow> None | Some flags' \<Rightarrow> check_lines accept ls flags')"

definition all_set :: "handshake_flags option \<Rightarrow> bool" where
  "all_set result = (case result of None \<Rightarrow> False
     | Some flags \<Rightarrow> upgrade flags \<and> connectionUpgrade flags \<and> acceptSeen flags \<and> acceptMatches flags)"

lemma names_distinct:
  "equalsIgnoreCase n ''Upgrade'' \<Longrightarrow> \<not> equalsIgnoreCase n ''Connection''"
  "equalsIgnoreCase n ''Upgrade'' \<Longrightarrow> \<not> equalsIgnoreCase n ''Sec-WebSocket-Accept''"
  "equalsIgnoreCase n ''Connection'' \<Longrightarrow> \<not> equalsIgnoreCase n ''Sec-WebSocket-Accept''"
  by (auto simp: equalsIgnoreCase_def)

lemma check_lines_accepts:
  "all_set (check_lines accept headers flags) \<longleftrightarrow>
     list_all field_ok headers
     \<and> (upgrade flags \<or> list_ex (has_token ''websocket'') (values_of ''Upgrade'' headers))
     \<and> (connectionUpgrade flags \<or> list_ex (has_token ''Upgrade'') (values_of ''Connection'' headers))
     \<and> (if acceptSeen flags then acceptMatches flags \<and> values_of ''Sec-WebSocket-Accept'' headers = []
        else values_of ''Sec-WebSocket-Accept'' headers = [accept])"
proof (induction headers arbitrary: flags)
  case Nil
  then show ?case by (auto simp: all_set_def values_of_def)
next
  case (Cons line ls)
  consider "\<not> field_ok line" | "field_ok line" "equalsIgnoreCase (field_name line) ''Upgrade''"
    | "field_ok line" "equalsIgnoreCase (field_name line) ''Connection''"
    | "field_ok line" "equalsIgnoreCase (field_name line) ''Sec-WebSocket-Accept''"
    | "field_ok line" "\<not> equalsIgnoreCase (field_name line) ''Upgrade''"
      "\<not> equalsIgnoreCase (field_name line) ''Connection''"
      "\<not> equalsIgnoreCase (field_name line) ''Sec-WebSocket-Accept''" by blast
  then show ?case
    by cases (auto simp: header_line_field Cons values_of_def names_distinct all_set_def [of None] dest: names_distinct)
qed

lemma match_at_step:
  "match_at r [] i \<longleftrightarrow> i \<le> length r"
  "match_at r (c # p) i \<longleftrightarrow> i < length r \<and> r ! i = c \<and> match_at r p (Suc i)"
  by (auto simp: match_at_def Cons_nth_drop_Suc [symmetric])

lemma match_at_crlf: "match_at r crlf i \<longleftrightarrow> Suc i < length r \<and> r ! i = CHR 0x0D \<and> r ! Suc i = CHR 0x0A"
  by (auto simp: match_at_step)

lemma match_at_crlf_crlf: "match_at r (crlf @ crlf) i \<longleftrightarrow> match_at r crlf i \<and> match_at r crlf (i + 2)"
  by (auto simp: match_at_step)

lemma match_at_drop: "i \<le> length s \<Longrightarrow> match_at (drop i s) p k \<longleftrightarrow> match_at s p (i + k)"
  by (auto simp: match_at_def add.commute)

lemma str_find_drop:
  assumes "str_find s p i = Some j"
  shows "str_find (drop i s) p 0 = Some (j - i)"
  using assms by (auto simp: str_find_Some match_at_drop [of i s] match_at_def)

lemma header_lines_check:
  assumes e: "str_find response (crlf @ crlf) 0 = Some e"
    and "2 \<le> start" "match_at response crlf (start - 2)" "start < e \<or> start = e + 2"
  shows "\<exists>ls. crlf_lines [] (drop start response) = Some ls
    \<and> header_lines response accept e start flags = check_lines accept ls flags"
  using assms(2-)
proof (induction "length response - start" arbitrary: start flags rule: less_induct)
  case less
  have end_match: "match_at response crlf e" "match_at response crlf (e + 2)"
    using e unfolding str_find_Some match_at_crlf_crlf by auto
  have no_end: "\<not> (match_at response crlf k \<and> match_at response crlf (k + 2))" if "k < e" for k
    using e that unfolding str_find_Some match_at_crlf_crlf by auto
  show ?case
  proof (cases "start = e + 2")
    case True
    have "match_at (drop start response) crlf 0"
      using end_match(2) True match_at_drop [of start response crlf 0] unfolding match_at_crlf [of response]
      by auto
    then have "str_find (drop start response) crlf 0 = Some 0" by (simp add: str_find_Some)
    then have "crlf_lines [] (drop start response) = Some []" by (subst str_find_crlf_step) simp
    then show ?thesis using True by (simp add: header_lines.simps)
  next
    case False
    then have se: "start < e" using less(4) by simp
    obtain p where p: "str_find response crlf start = Some p"
      using end_match(1) se by (meson less_imp_le not_Some_eq str_find_None)
    have pm: "start \<le> p" "match_at response crlf p" "p \<le> e"
      using p end_match(1) se unfolding str_find_Some by (blast, blast, meson less_imp_le not_le)
    have "start - 2 < e" "start - 2 + 2 = start" using less(2) se by auto
    then have "p \<noteq> start" using no_end [of "start - 2"] less(3) pm(2) by auto
    moreover have "p + 1 \<noteq> e" using pm(2) end_match(1) by (auto simp: match_at_crlf)
    moreover have "p + 2 \<noteq> e" using no_end [of p] pm(2) end_match(1) by auto
    ultimately have step: "start < p" "p + 2 < e \<or> p + 2 = e + 2" using pm by auto
    define line where "line = substr response start (p - start)"
    have ne: "take (p - start) (drop start response) \<noteq> []" using step(1) pm(2) by (auto simp: match_at_crlf)
    have lines: "crlf_lines [] (drop start response) = map_option ((#) line) (crlf_lines [] (drop (p + 2) response))"
      using str_find_drop [OF p] ne step(1) by (subst str_find_crlf_step) (simp add: line_def substr_def)
    have loop: "header_lines response accept e start flags = (case header_line accept line flags of
        None \<Rightarrow> None | Some flags' \<Rightarrow> header_lines response accept e (p + 2) flags')"
      using se p pm(3) by (subst header_lines.simps) (simp add: line_def)
    have "length response - (p + 2) < length response - start" using pm(1,2) by (auto simp: match_at_crlf)
    then have IH: "\<exists>ls. crlf_lines [] (drop (p + 2) response) = Some ls
        \<and> header_lines response accept e (p + 2) f = check_lines accept ls f" for f
      using less(1) [of "p + 2"] pm(2) step(2) by simp
    then show ?thesis using lines loop by (cases "header_line accept line flags") fastforce+
  qed
qed

lemma crlf_lines_end:
  "crlf_lines [] r = Some (status # headers) \<Longrightarrow> \<exists>e. match_at r (crlf @ crlf) e"
proof (induction headers arbitrary: r status)
  case (Nil r status)
  then obtain p where p: "match_at r crlf p" "crlf_lines [] (drop (p + 2) r) = Some []"
    by (subst (asm) str_find_crlf_step) (auto simp: str_find_Some split: option.splits if_splits)
  have "match_at (drop (p + 2) r) crlf 0"
    using p(2) by (subst (asm) str_find_crlf_step) (auto simp: str_find_Some match_at_crlf split: option.splits if_splits)
  with p(1) show ?case using match_at_drop [of "p + 2" r crlf 0]
    unfolding match_at_crlf_crlf by (intro exI [of _ p]) (auto simp: match_at_crlf [of r p])
next
  case (Cons field headers r status)
  then obtain p where p: "match_at r crlf p" "crlf_lines [] (drop (p + 2) r) = Some (field # headers)"
    by (subst (asm) (2) str_find_crlf_step) (auto simp: str_find_Some split: option.splits if_splits)
  with Cons.IH obtain e where "match_at (drop (p + 2) r) (crlf @ crlf) e" by blast
  then show ?case using p(1) match_at_drop [of "p + 2" r "crlf @ crlf" e] by (auto simp: match_at_crlf [of r p])
qed

lemma substr_match: "i + n \<le> length s \<Longrightarrow> n = length p \<Longrightarrow> substr s i n = p \<longleftrightarrow> match_at s p i"
  by (auto simp: substr_def match_at_def)

lemma status_prefix:
  "prefix ''HTTP/1.1 101 '' status \<longleftrightarrow>
     \<not> (length status < 13 \<or> substr status 0 9 \<noteq> ''HTTP/1.1 '' \<or> substr status 9 3 \<noteq> ''101''
        \<or> status ! 12 \<noteq> CHR '' '')"
proof -
  have "prefix p s \<longleftrightarrow> match_at s p 0" for p s :: string
    by (auto simp: match_at_iff prefix_def)
  moreover have "13 \<le> length status \<Longrightarrow> substr status 0 9 = ''HTTP/1.1 '' \<longleftrightarrow> match_at status ''HTTP/1.1 '' 0"
    "13 \<le> length status \<Longrightarrow> substr status 9 3 = ''101'' \<longleftrightarrow> match_at status ''101'' 9"
    by (simp_all add: substr_match)
  ultimately show ?thesis
    by (cases "13 \<le> length status") (auto simp: match_at_step eval_nat_numeral)
qed

lemma validate_decides: "validateWebSocketHandshakeResponse response clientKey = handshake_accepted response clientKey"
proof (cases "clientKey \<noteq> [] \<and> str_find response (crlf @ crlf) 0 \<noteq> None")
  case True
  then obtain e where e: "str_find response (crlf @ crlf) 0 = Some e" by blast
  then have em: "match_at response crlf e" "match_at response crlf (e + 2)"
    and first: "\<And>k. k < e \<Longrightarrow> \<not> (match_at response crlf k \<and> match_at response crlf (k + 2))"
    unfolding str_find_Some match_at_crlf_crlf by auto
  from em(1) obtain s where s: "str_find response crlf 0 = Some s" by (meson le0 not_Some_eq str_find_None)
  with em(1) have sm: "match_at response crlf s" "s \<le> e" unfolding str_find_Some by (blast, meson le0 not_le)
  have "s + 1 \<noteq> e" "s + 2 \<noteq> e" using sm(1) em first [of s] by (auto simp: match_at_crlf)
  with sm(2) have "s + 2 < e \<or> s + 2 = e + 2" by linarith
  with header_lines_check [OF e, of "s + 2"] sm(1)
  obtain ls where ls: "crlf_lines [] (drop (s + 2) response) = Some ls"
      "\<And>accept flags. header_lines response accept e (s + 2) flags = check_lines accept ls flags"
    by (metis add_diff_cancel_right' le_add2 option.inject)
  have lines: "crlf_lines [] response
      = (if take s response = [] then Some [] else Some (take s response # ls))"
    using s ls(1) by (subst str_find_crlf_step) simp
  have "s = e \<Longrightarrow> ls = []"
    using ls(1) em(2) match_at_drop [of "e + 2" response crlf 0]
    by (subst (asm) str_find_crlf_step) (auto simp: str_find_Some match_at_crlf split: option.splits if_splits)
  define result where "result = check_lines (expectedAccept clientKey) ls
      \<lparr>upgrade = False, connectionUpgrade = False, acceptSeen = False, acceptMatches = False\<rparr>"
  have "validateWebSocketHandshakeResponse response clientKey
      \<longleftrightarrow> s < e \<and> prefix ''HTTP/1.1 101 '' (take s response) \<and> all_set result"
    using True unfolding validateWebSocketHandshakeResponse_def e s prod.case option.case ls(2) result_def [symmetric]
    by (auto simp: status_prefix all_set_def Let_def substr_def [of response])
  moreover have "handshake_accepted response clientKey
      \<longleftrightarrow> prefix ''HTTP/1.1 101 '' (take s response) \<and> all_set result"
    using True unfolding handshake_accepted_def lines result_def check_lines_accepts by auto
  moreover have "s = e \<Longrightarrow> \<not> all_set result"
    using \<open>s = e \<Longrightarrow> ls = []\<close> by (simp add: result_def all_set_def)
  ultimately show ?thesis using sm(2) by auto
next
  case False
  then have "clientKey = [] \<or> str_find response (crlf @ crlf) 0 = None" by blast
  then show ?thesis
  proof
    assume n: "str_find response (crlf @ crlf) 0 = None"
    then have "crlf_lines [] response \<noteq> Some (status # headers)" for status headers
      using crlf_lines_end unfolding str_find_None by blast
    then show ?thesis unfolding validateWebSocketHandshakeResponse_def n handshake_accepted_def
      by (simp split: option.splits list.splits)
  qed (simp add: validateWebSocketHandshakeResponse_def handshake_accepted_def)
qed

text \<open>C9: The index-based check of the handshake response accepts exactly the responses whose lines,
  fields and tokens are those of an accepted upgrade.\<close>

theorem handshake_decides: "validateWebSocketHandshakeResponse response clientKey = handshake_accepted response clientKey"
  by (rule validate_decides)

end
