(* ===== verification/Http_Client.thy ===== *)
theory Http_Client
  imports Websocket_Handshake Cpp_Library "HOL-Library.List_Lexorder"
begin

text \<open>
  \<open>HttpClient\<close> of \<open>http_client.cpp\<close>: its URL, request and response parts.

  Its header \<open>http_client.h\<close>, the TCP classes' interface and \<open>NetworkInterface\<close> come from the locked package
  \<open>esp-ml307\<close>, outside the repository.  Parameters of the model are therefore the queue element
  \<open>DataChunk\<close> (\<open>chunk_ops\<close>), the limit \<open>MAX_BODY_CHUNKS_SIZE\<close> (8 KB by the source's comment) and what the
  network answers (\<open>http_net\<close>).  The mutexes serialize the operations, so an operation is one step; a
  condition variable's wait is a predicate on the state in which the step goes on.  \<open>unsigned long\<close>
  and \<open>size_t\<close> have 32 bits on the target.
\<close>

abbreviation tolower :: "string \<Rightarrow> string" where
  "tolower s \<equiv> map lowerAscii s"

section \<open>State\<close>

datatype ParseState = STATUS_LINE | HEADERS | BODY | CHUNK_SIZE | CHUNK_DATA | CHUNK_TRAILER | COMPLETE

record HeaderEntry =
  original_key :: string
  header_value :: string

text \<open>\<open>std::map\<close>: in the order of the keys.\<close>

fun headers_assign :: "string \<Rightarrow> HeaderEntry \<Rightarrow> (string \<times> HeaderEntry) list \<Rightarrow> (string \<times> HeaderEntry) list" where
  "headers_assign k v [] = [(k, v)]"
| "headers_assign k v ((k', v') # m) =
    (if k = k' then (k, v) # m else if k < k' then (k, v) # (k', v') # m else (k', v') # headers_assign k v m)"

datatype http_event = HttpConnect bool string int | HttpSend string | HttpDisconnect

record 'c http_client =
  timeout_ms :: int
  http_method :: string
  http_protocol :: string
  http_host :: string
  http_port :: int
  http_path :: string
  request_headers :: "(string \<times> HeaderEntry) list"
  content :: "string option"
  keep_alive :: bool
  request_chunked :: bool
  http_connected :: bool
  tcp_open :: bool
  server_keep_alive :: bool
  connection_error :: bool
  eof :: bool
  headers_received :: bool
  response_chunked :: bool
  status_code :: int
  response_headers :: "(string \<times> HeaderEntry) list"
  body_chunks :: "'c list"
  content_length :: u32
  total_body_received :: u32
  parse_state :: ParseState
  chunk_size :: u32
  chunk_received :: u32
  rx_buffer :: string
  headers_bit :: bool
  error_bit :: bool
  complete_bit :: bool
  http_log :: "http_event list"

text \<open>\<open>DataChunk\<close>, and the answers of the network: whether \<open>Connect\<close> succeeds, what \<open>Send\<close> returns.\<close>

record 'c chunk_ops =
  make_chunk :: "string \<Rightarrow> 'c"
  chunk_data :: "'c \<Rightarrow> string"
  chunk_read :: "nat \<Rightarrow> 'c \<Rightarrow> string \<times> 'c"
  chunk_empty :: "'c \<Rightarrow> bool"

record http_net =
  http_connects :: "bool \<Rightarrow> string \<Rightarrow> int \<Rightarrow> bool"
  http_sends :: "string \<Rightarrow> int"

definition log_event :: "http_event \<Rightarrow> 'c http_client \<Rightarrow> 'c http_client" where
  "log_event e h = h\<lparr>http_log := http_log h @ [e]\<rparr>"

section \<open>Configuration\<close>

definition SetTimeout :: "int \<Rightarrow> 'c http_client \<Rightarrow> 'c http_client" where
  "SetTimeout ms h = h\<lparr>timeout_ms := ms\<rparr>"

definition http_SetHeader :: "string \<Rightarrow> string \<Rightarrow> 'c http_client \<Rightarrow> 'c http_client" where
  "http_SetHeader key v h = h\<lparr>request_headers :=
     headers_assign (tolower key) \<lparr>original_key = key, header_value = v\<rparr> (request_headers h)\<rparr>"

definition SetContent :: "string \<Rightarrow> 'c http_client \<Rightarrow> 'c http_client" where
  "SetContent c h = h\<lparr>content := Some c\<rparr>"

definition SetKeepAlive :: "bool \<Rightarrow> 'c http_client \<Rightarrow> 'c http_client" where
  "SetKeepAlive enable h = h\<lparr>keep_alive := enable\<rparr>"

section \<open>URLs\<close>

definition parse_port :: "string \<Rightarrow> int option" where
  "parse_port port_str =
    (let text = c_str port_str; (port, consumed) = strtol 10 text
     in if consumed \<noteq> 0 \<and> consumed = length text \<and> port > 0 \<and> port \<le> 65535 then Some port else None)"

definition ParseUrl :: "string \<Rightarrow> 'c http_client \<Rightarrow> bool \<times> 'c http_client" where
  "ParseUrl url h =
    (case str_find url ''://'' 0 of
       None \<Rightarrow> (False, h)
     | Some protocol_end \<Rightarrow>
         let h = h\<lparr>http_protocol := tolower (substr url 0 protocol_end)\<rparr>;
             host_start = protocol_end + 3;
             path_start = str_find url ''/'' host_start;
             port_start = str_find url '':'' host_start;
             h = h\<lparr>http_port := if http_protocol h = ''https'' then 443 else 80\<rparr>
         in case path_start of
              None \<Rightarrow>
                let h = h\<lparr>http_path := ''/''\<rparr>
                in (case port_start of
                      Some c \<Rightarrow>
                        let h = h\<lparr>http_host := substr url host_start (c - host_start)\<rparr>
                        in (case parse_port (drop (c + 1) url) of
                              Some p \<Rightarrow> (True, h\<lparr>http_port := p\<rparr>)
                            | None \<Rightarrow> (False, h))
                    | None \<Rightarrow> (True, h\<lparr>http_host := drop host_start url\<rparr>))
            | Some slash \<Rightarrow>
                let h = h\<lparr>http_path := drop slash url\<rparr>
                in (case port_start of
                      Some c \<Rightarrow>
                        if c < slash then
                          let h = h\<lparr>http_host := substr url host_start (c - host_start)\<rparr>
                          in (case parse_port (substr url (c + 1) (slash - c - 1)) of
                                Some p \<Rightarrow> (True, h\<lparr>http_port := p\<rparr>)
                              | None \<Rightarrow> (False, h))
                        else (True, h\<lparr>http_host := substr url host_start (slash - host_start)\<rparr>)
                    | None \<Rightarrow> (True, h\<lparr>http_host := substr url host_start (slash - host_start)\<rparr>)))"

section \<open>Requests\<close>

definition default_port :: "'c http_client \<Rightarrow> bool" where
  "default_port h \<longleftrightarrow> \<not> ((http_protocol h = ''http'' \<and> http_port h \<noteq> 80) \<or> (http_protocol h = ''https'' \<and> http_port h \<noteq> 443))"

definition request_header_line :: "string \<Rightarrow> string \<Rightarrow> string" where
  "request_header_line key v = key @ '': '' @ v @ crlf"

definition user_header :: "'c http_client \<Rightarrow> string \<Rightarrow> bool" where
  "user_header h key \<longleftrightarrow> map_of (request_headers h) key \<noteq> None"

definition has_content :: "'c http_client \<Rightarrow> bool" where
  "has_content h \<longleftrightarrow> (case content h of None \<Rightarrow> False | Some c \<Rightarrow> c \<noteq> [])"

definition content_headers :: "'c http_client \<Rightarrow> string" where
  "content_headers h =
    (if has_content h \<and> \<not> user_header h ''content-length''
     then request_header_line ''Content-Length'' (to_string (length (the (content h))))
     else if (http_method h = ''POST'' \<or> http_method h = ''PUT'') \<and> \<not> user_header h ''content-length''
          \<and> \<not> user_header h ''transfer-encoding''
     then (if request_chunked h then request_header_line ''Transfer-Encoding'' ''chunked''
           else request_header_line ''Content-Length'' ''0'')
     else [])"

definition BuildHttpRequest :: "'c http_client \<Rightarrow> string" where
  "BuildHttpRequest h =
    http_method h @ '' '' @ http_path h @ '' HTTP/1.1'' @ crlf
    @ ''Host: '' @ http_host h @ (if default_port h then [] else '':'' @ int_to_string (http_port h)) @ crlf
    @ concat (map (\<lambda>(k, e). request_header_line (original_key e) (header_value e)) (request_headers h))
    @ content_headers h
    @ (if user_header h ''connection'' then []
       else request_header_line ''Connection'' (if keep_alive h then ''keep-alive'' else ''close''))
    @ crlf
    @ (if has_content h then the (content h) else [])"

section \<open>Connections\<close>

definition IsDataComplete :: "'c http_client \<Rightarrow> bool" where
  "IsDataComplete h =
    (if response_chunked h then parse_state h = COMPLETE
     else if content_length h > 0 then total_body_received h \<ge> content_length h
     else True)"

definition IsConnectionReusable :: "string \<Rightarrow> int \<Rightarrow> 'c http_client \<Rightarrow> bool" where
  "IsConnectionReusable host port h \<longleftrightarrow>
     http_connected h \<and> http_host h = host \<and> http_port h = port \<and> \<not> connection_error h
     \<and> server_keep_alive h \<and> IsDataComplete h"

definition OnTcpDisconnected :: "'c http_client \<Rightarrow> 'c http_client" where
  "OnTcpDisconnected h =
    (let h = h\<lparr>http_connected := False, server_keep_alive := False\<rparr>
     in if headers_received h \<and> \<not> IsDataComplete h then h\<lparr>connection_error := True\<rparr> else h\<lparr>eof := True\<rparr>)"

text \<open>\<open>tcp_->Disconnect()\<close>: as in \<open>esp_tcp.cpp\<close>, an open connection is closed and its callback runs.\<close>

definition tcp_Disconnect :: "'c http_client \<Rightarrow> 'c http_client" where
  "tcp_Disconnect h =
    (if \<not> tcp_open h then h else OnTcpDisconnected (log_event HttpDisconnect (h\<lparr>tcp_open := False\<rparr>)))"

definition ResetRequestState :: "'c http_client \<Rightarrow> 'c http_client" where
  "ResetRequestState h = h\<lparr>status_code := - 1, response_headers := [], body_chunks := [], content_length := 0,
     total_body_received := 0, eof := False, headers_received := False, response_chunked := False,
     request_chunked := False, connection_error := False, parse_state := STATUS_LINE, chunk_size := 0,
     chunk_received := 0, rx_buffer := [], headers_bit := False, error_bit := False, complete_bit := False\<rparr>"

text \<open>Up to the connection: the result is \<open>False\<close> when \<open>Open\<close> returns \<open>false\<close> there.\<close>

definition Open_connection :: "http_net \<Rightarrow> 'c http_client \<Rightarrow> bool \<times> 'c http_client" where
  "Open_connection net h =
    (if IsConnectionReusable (http_host h) (http_port h) h then (True, ResetRequestState h)
     else
       let h = (if http_connected h then (tcp_Disconnect h)\<lparr>http_connected := False\<rparr> else h);
           h = ResetRequestState h;
           secure = (http_protocol h = ''https'');
           h = tcp_Disconnect h;
           h = log_event (HttpConnect secure (http_host h) (http_port h)) h
       in if \<not> http_connects net secure (http_host h) (http_port h) then (False, h)
          else (True, h\<lparr>http_connected := True, tcp_open := True\<rparr>))"

definition Open :: "http_net \<Rightarrow> string \<Rightarrow> string \<Rightarrow> 'c http_client \<Rightarrow> bool \<times> 'c http_client" where
  "Open net verb url h =
    (let (parsed, h) = ParseUrl url (h\<lparr>http_method := verb\<rparr>)
     in if \<not> parsed then (False, h)
        else
          let (ready, h) = Open_connection net h
          in if \<not> ready then (False, h)
             else
               let h = h\<lparr>request_chunked := (http_method h = ''POST'' \<or> http_method h = ''PUT'') \<and> content h = None\<rparr>;
                   http_request = BuildHttpRequest h;
                   h = log_event (HttpSend http_request) h
               in if http_sends net http_request \<le> 0 then (False, (tcp_Disconnect h)\<lparr>http_connected := False\<rparr>)
                  else (True, h\<lparr>content := None, request_headers := []\<rparr>))"

definition http_Close :: "'c http_client \<Rightarrow> 'c http_client" where
  "http_Close h =
    (if \<not> http_connected h then h
     else (tcp_Disconnect (h\<lparr>http_connected := False, server_keep_alive := False\<rparr>))\<lparr>eof := True\<rparr>)"

text \<open>\<open>Write\<close>; \<open>std::hex\<close> prints the size of a chunk.\<close>

definition request_chunk :: "string \<Rightarrow> string" where
  "request_chunk buffer = (if buffer = [] then ''0'' @ crlf @ crlf else to_hex (length buffer) @ crlf @ buffer @ crlf)"

definition http_Write :: "http_net \<Rightarrow> string \<Rightarrow> 'c http_client \<Rightarrow> int \<times> 'c http_client" where
  "http_Write net buffer h =
    (if \<not> http_connected h then (- 1, h)
     else if request_chunked h then
       (http_sends net (request_chunk buffer), log_event (HttpSend (request_chunk buffer)) h)
     else if buffer = [] then (0, h)
     else (http_sends net buffer, log_event (HttpSend buffer) h))"

end
