(* ===== verification/Http_Receive.thy ===== *)
theory Http_Receive
  imports Http_Client
begin

text \<open>
  The receiving half of \<open>http_client.cpp\<close>: \<open>ProcessReceivedData\<close> with its parsers, and what the caller reads.

  The loop of \<open>ProcessReceivedData\<close> is a partial function, for one of its branches does not consume
  anything (\<open>ParseChunkedBody\<close> is empty); that it returns is proved, from the invariant
  \<open>receiving\<close> of the parser's state.
\<close>

section \<open>Lines\<close>

abbreviation LF :: char where "LF \<equiv> CHR 0x0A"
abbreviation CR :: char where "CR \<equiv> CHR 0x0D"

definition HasCompleteLine :: "string \<Rightarrow> bool" where
  "HasCompleteLine buffer \<longleftrightarrow> str_find buffer [LF] 0 \<noteq> None"

definition GetNextLine :: "string \<Rightarrow> string \<times> string" where
  "GetNextLine buffer =
    (case str_find buffer [LF] 0 of
       None \<Rightarrow> ([], buffer)
     | Some pos \<Rightarrow>
         let line = substr buffer 0 pos; buffer = drop (pos + 1) buffer
         in (if line \<noteq> [] \<and> last line = CR then butlast line else line, buffer))"

lemma find_LF: "str_find (l @ LF # r) [LF] 0 = Some (length l)" if "LF \<notin> set l"
  using that by (auto simp: str_find_Some match_at_single nth_append in_set_conv_nth)

lemma line_split:
  obtains "LF \<notin> set b" "\<not> HasCompleteLine b"
  | l r where "b = l @ LF # r" "LF \<notin> set l" "HasCompleteLine b"
proof (cases "LF \<in> set b")
  case True
  then obtain l r where "b = l @ LF # r" "LF \<notin> set l" by (meson split_list_first)
  then show thesis using that(2) find_LF by (simp add: HasCompleteLine_def)
next
  case False
  then have "str_find b [LF] 0 = None" by (auto simp: str_find_None match_at_single in_set_conv_nth)
  then show thesis using that(1) False by (simp add: HasCompleteLine_def)
qed

definition chomp :: "string \<Rightarrow> string" where
  "chomp l = (if l \<noteq> [] \<and> last l = CR then butlast l else l)"

lemma next_line: "LF \<notin> set l \<Longrightarrow> GetNextLine (l @ LF # r) = (chomp l, r)"
  by (simp add: GetNextLine_def find_LF substr_def chomp_def Let_def)

lemma has_line: "HasCompleteLine (l @ LF # r)"
  by (rule line_split [of "l @ LF # r"]) auto

lemma GetNextLine_shorter: "HasCompleteLine b \<Longrightarrow> length (snd (GetNextLine b)) < length b"
  by (rule line_split [of b]) (auto simp: next_line)

section \<open>The parsers\<close>

text \<open>\<open>iss >> token\<close>: the token and what is left; an empty token is a failed extraction.\<close>

definition extract_token :: "string \<Rightarrow> string \<times> string" where
  "extract_token s =
    (let s = dropWhile isspace s in (takeWhile (\<lambda>c. \<not> isspace c) s, dropWhile (\<lambda>c. \<not> isspace c) s))"

definition ParseStatusLine :: "string \<Rightarrow> int option" where
  "ParseStatusLine line =
    (let (version, rest) = extract_token line; (status_str, reason) = extract_token rest
     in if version = [] \<or> status_str = [] then None
        else
          let status_text = c_str status_str; (status, consumed) = strtol 10 status_text
          in if consumed = 0 \<or> consumed \<noteq> length status_text \<or> status < 100 \<or> status > 999 then None else Some status)"

definition ParseHeaderLine :: "string \<Rightarrow> (string \<times> HeaderEntry) option" where
  "ParseHeaderLine line =
    (case str_find line '':'' 0 of
       None \<Rightarrow> None
     | Some colon_pos \<Rightarrow>
         let key = trim_right blank (trim_left blank (substr line 0 colon_pos));
             val = trim_right blank_or_eol (trim_left blank (drop (colon_pos + 1) line))
         in Some (tolower key, \<lparr>original_key = key, header_value = val\<rparr>))"

definition ParseChunkSize :: "string \<Rightarrow> u32" where
  "ParseChunkSize chunk_size_line =
    (let size_str = (case str_find chunk_size_line '';'' 0 of None \<Rightarrow> chunk_size_line | Some semi_pos \<Rightarrow> substr chunk_size_line 0 semi_pos);
         size_str = c_str (trim_right blank_or_eol size_str);
         (size, consumed) = strtoul 16 size_str
     in if consumed = 0 \<or> consumed \<noteq> length size_str then 0 else size)"

definition str_contains :: "string \<Rightarrow> string \<Rightarrow> bool" where
  "str_contains s pattern \<longleftrightarrow> str_find s pattern 0 \<noteq> None"

definition SetError :: "'c http_client \<Rightarrow> 'c http_client" where
  "SetError h = h\<lparr>error_bit := True\<rparr>"

definition AddBodyData :: "'c chunk_ops \<Rightarrow> string \<Rightarrow> 'c http_client \<Rightarrow> 'c http_client" where
  "AddBodyData C data h = (if data = [] then h else h\<lparr>body_chunks := body_chunks h @ [make_chunk C data]\<rparr>)"

definition ParseRegularBody :: "'c chunk_ops \<Rightarrow> string \<Rightarrow> 'c http_client \<Rightarrow> 'c http_client" where
  "ParseRegularBody C data h =
    (if data = [] then h
     else let h = AddBodyData C data h
       in h\<lparr>total_body_received := total_body_received h + of_nat (length data), rx_buffer := []\<rparr>)"

definition ParseChunkedBody :: "string \<Rightarrow> 'c http_client \<Rightarrow> 'c http_client" where
  "ParseChunkedBody data h = h"

definition response_header :: "string \<Rightarrow> 'c http_client \<Rightarrow> string option" where
  "response_header key h = map_option header_value (map_of (response_headers h) key)"

definition note_connection_header :: "'c http_client \<Rightarrow> 'c http_client" where
  "note_connection_header h =
    (case response_header ''connection'' h of
       None \<Rightarrow> h
     | Some v \<Rightarrow>
         if str_contains (tolower v) ''keep-alive'' then h\<lparr>server_keep_alive := True\<rparr>
         else if str_contains (tolower v) ''close'' then h\<lparr>server_keep_alive := False\<rparr> else h)"

definition parse_content_length :: "string \<Rightarrow> u32" where
  "parse_content_length v =
    (let text = c_str v; (length_value, consumed) = strtoul 10 text
     in if consumed \<noteq> 0 \<and> consumed = length text then length_value else 0)"

definition choose_body :: "'c http_client \<Rightarrow> 'c http_client" where
  "choose_body h =
    (if (case response_header ''transfer-encoding'' h of None \<Rightarrow> False | Some v \<Rightarrow> str_contains v ''chunked'')
     then h\<lparr>response_chunked := True, parse_state := CHUNK_SIZE\<rparr>
     else
       let h = h\<lparr>parse_state := BODY\<rparr>
       in case response_header ''content-length'' h of
            None \<Rightarrow> h
          | Some v \<Rightarrow> h\<lparr>content_length := parse_content_length v\<rparr>)"

definition end_of_headers :: "'c http_client \<Rightarrow> 'c http_client" where
  "end_of_headers h =
    (if status_code h \<ge> 100 \<and> status_code h < 200 \<and> status_code h \<noteq> 101
     then h\<lparr>response_headers := [], parse_state := STATUS_LINE\<rparr>
     else (choose_body (note_connection_header h))\<lparr>headers_received := True, headers_bit := True\<rparr>)"

text \<open>The inner loop over empty lines: \<open>None\<close> when it runs out of complete lines.\<close>

function next_nonempty_line :: "string \<Rightarrow> string option \<times> string" where
  "next_nonempty_line buffer =
    (if \<not> HasCompleteLine buffer then (None, buffer)
     else let (line, buffer) = GetNextLine buffer
       in if line = [] then next_nonempty_line buffer else (Some line, buffer))"
  by pat_completeness auto

termination
  by (relation "measure length") (simp, metis GetNextLine_shorter in_measure snd_conv)

declare next_nonempty_line.simps [simp del]

section \<open>ProcessReceivedData\<close>

text \<open>One round of the loop: \<open>Return\<close> leaves the function, \<open>Again\<close> is the \<open>break\<close> of the \<open>switch\<close>.\<close>

datatype 'c round = Return "'c http_client" | Again "'c http_client"

definition status_round :: "'c http_client \<Rightarrow> 'c round" where
  "status_round h =
    (if \<not> HasCompleteLine (rx_buffer h) then Return h
     else let (line, rest) = GetNextLine (rx_buffer h); h = h\<lparr>rx_buffer := rest\<rparr>
       in case ParseStatusLine line of
            Some status \<Rightarrow> Again (h\<lparr>status_code := status, parse_state := HEADERS\<rparr>)
          | None \<Rightarrow> Return (SetError h))"

definition headers_round :: "'c http_client \<Rightarrow> 'c round" where
  "headers_round h =
    (if \<not> HasCompleteLine (rx_buffer h) then Return h
     else let (line, rest) = GetNextLine (rx_buffer h); h = h\<lparr>rx_buffer := rest\<rparr>
       in if line = [] then Again (end_of_headers h)
          else case ParseHeaderLine line of
            None \<Rightarrow> Return (SetError h)
          | Some (key, entry) \<Rightarrow> Again (h\<lparr>response_headers := headers_assign key entry (response_headers h)\<rparr>))"

definition body_round :: "'c chunk_ops \<Rightarrow> 'c http_client \<Rightarrow> 'c round" where
  "body_round C h =
    Again (if response_chunked h then ParseChunkedBody (rx_buffer h) h else ParseRegularBody C (rx_buffer h) h)"

definition chunk_size_round :: "'c http_client \<Rightarrow> 'c round" where
  "chunk_size_round h =
    (let (line, rest) = next_nonempty_line (rx_buffer h); h = h\<lparr>rx_buffer := rest\<rparr>
     in case line of
          None \<Rightarrow> Return h
        | Some line \<Rightarrow>
            let h = h\<lparr>chunk_size := ParseChunkSize line, chunk_received := 0\<rparr>
            in Again (h\<lparr>parse_state := if chunk_size h = 0 then CHUNK_TRAILER else CHUNK_DATA\<rparr>))"

definition chunk_data_round :: "'c chunk_ops \<Rightarrow> 'c http_client \<Rightarrow> 'c round" where
  "chunk_data_round C h =
    (let available = min (length (rx_buffer h)) (unat (chunk_size h - chunk_received h))
     in if available > 0 then
          let h = AddBodyData C (substr (rx_buffer h) 0 available) h;
              h = h\<lparr>total_body_received := total_body_received h + of_nat available,
                    rx_buffer := drop available (rx_buffer h),
                    chunk_received := chunk_received h + of_nat available\<rparr>
          in Again (if chunk_received h = chunk_size h
                    then h\<lparr>rx_buffer := if length (rx_buffer h) \<ge> 2 \<and> substr (rx_buffer h) 0 2 = [CR, LF]
                                        then drop 2 (rx_buffer h) else rx_buffer h,
                           parse_state := CHUNK_SIZE\<rparr>
                    else h)
        else Return h)"

definition chunk_trailer_round :: "'c http_client \<Rightarrow> 'c round" where
  "chunk_trailer_round h =
    (if \<not> HasCompleteLine (rx_buffer h) then Return h
     else let (line, rest) = GetNextLine (rx_buffer h); h = h\<lparr>rx_buffer := rest\<rparr>
       in Again (if line = [] then h\<lparr>parse_state := COMPLETE, eof := True, complete_bit := True\<rparr> else h))"

definition receive_round :: "'c chunk_ops \<Rightarrow> 'c http_client \<Rightarrow> 'c round" where
  "receive_round C h =
    (case parse_state h of
       STATUS_LINE \<Rightarrow> status_round h
     | HEADERS \<Rightarrow> headers_round h
     | BODY \<Rightarrow> body_round C h
     | CHUNK_SIZE \<Rightarrow> chunk_size_round h
     | CHUNK_DATA \<Rightarrow> chunk_data_round C h
     | CHUNK_TRAILER \<Rightarrow> chunk_trailer_round h
     | COMPLETE \<Rightarrow> Return h)"

text \<open>After the loop: a body of known length may be complete.\<close>

definition check_length :: "'c http_client \<Rightarrow> 'c http_client" where
  "check_length h =
    (if parse_state h = BODY \<and> \<not> response_chunked h \<and> content_length h > 0
        \<and> total_body_received h \<ge> content_length h
     then h\<lparr>parse_state := COMPLETE, eof := True, complete_bit := True\<rparr> else h)"

partial_function (option) ProcessReceivedData :: "'c chunk_ops \<Rightarrow> 'c http_client \<Rightarrow> 'c http_client option" where
  "ProcessReceivedData C h =
    (if rx_buffer h \<noteq> [] \<and> parse_state h \<noteq> COMPLETE
     then (case receive_round C h of Return h' \<Rightarrow> Some h' | Again h' \<Rightarrow> ProcessReceivedData C h')
     else Some (check_length h))"

section \<open>What the callers see\<close>

text \<open>The wait of \<open>http_OnTcpData\<close> ends in a state with room in the queue, or when the connection is gone.\<close>

definition queued_bytes :: "'c chunk_ops \<Rightarrow> 'c http_client \<Rightarrow> nat" where
  "queued_bytes C h = sum_list (map (\<lambda>c. length (chunk_data C c)) (body_chunks h))"

definition OnTcpData_proceeds :: "'c chunk_ops \<Rightarrow> nat \<Rightarrow> string \<Rightarrow> 'c http_client \<Rightarrow> bool" where
  "OnTcpData_proceeds C MAX_BODY_CHUNKS_SIZE data h \<longleftrightarrow>
     length data + queued_bytes C h < MAX_BODY_CHUNKS_SIZE \<or> \<not> http_connected h"

definition http_OnTcpData :: "'c chunk_ops \<Rightarrow> string \<Rightarrow> 'c http_client \<Rightarrow> 'c http_client option" where
  "http_OnTcpData C data h = ProcessReceivedData C (h\<lparr>rx_buffer := rx_buffer h @ data\<rparr>)"

fun read_front :: "'c chunk_ops \<Rightarrow> nat \<Rightarrow> 'c list \<Rightarrow> string \<times> 'c list" where
  "read_front C buffer_size [] = ([], [])"
| "read_front C buffer_size (front_chunk # chunks) =
    (let (bytes, front_chunk) = chunk_read C buffer_size front_chunk
     in if bytes \<noteq> [] then (bytes, if chunk_empty C front_chunk then chunks else front_chunk # chunks)
        else read_front C buffer_size chunks)"

datatype read_result = Reads string | ReadEof | ReadFails | ReadWaits

definition Read :: "'c chunk_ops \<Rightarrow> nat \<Rightarrow> 'c http_client \<Rightarrow> read_result \<times> 'c http_client" where
  "Read C buffer_size h =
    (if connection_error h then (ReadFails, h)
     else if eof h \<and> body_chunks h = [] then (ReadEof, h)
     else
       let (bytes, chunks) = read_front C buffer_size (body_chunks h); h = h\<lparr>body_chunks := chunks\<rparr>
       in if bytes \<noteq> [] then (Reads bytes, h)
          else if \<not> http_connected h then (if connection_error h then ReadFails else ReadEof, h)
          else (ReadWaits, h))"

text \<open>When the wait of \<open>Read\<close> has ended, by its condition or by the timeout.\<close>

definition Read_resumed :: "'c chunk_ops \<Rightarrow> nat \<Rightarrow> 'c http_client \<Rightarrow> read_result \<times> 'c http_client" where
  "Read_resumed C buffer_size h =
    (if \<not> (body_chunks h \<noteq> [] \<or> eof h \<or> \<not> http_connected h \<or> connection_error h) then (ReadFails, h)
     else if connection_error h then (ReadFails, h)
     else
       let (bytes, chunks) = read_front C buffer_size (body_chunks h); h = h\<lparr>body_chunks := chunks\<rparr>
       in if bytes \<noteq> [] then (Reads bytes, h) else (ReadEof, h))"

text \<open>The remaining operations after their waits.\<close>

definition GetStatusCode :: "'c http_client \<Rightarrow> int" where
  "GetStatusCode h =
    (if \<not> headers_received h \<and> (error_bit h \<or> \<not> headers_bit h) then - 1 else status_code h)"

definition GetResponseHeader :: "string \<Rightarrow> 'c http_client \<Rightarrow> string" where
  "GetResponseHeader key h = (case response_header (tolower key) h of None \<Rightarrow> [] | Some v \<Rightarrow> v)"

definition GetBodyLength :: "'c http_client \<Rightarrow> u32" where
  "GetBodyLength h = (if response_chunked h then 0 else content_length h)"

definition body :: "'c chunk_ops \<Rightarrow> 'c http_client \<Rightarrow> string" where
  "body C h = concat (map (chunk_data C) (body_chunks h))"

definition ReadAll :: "'c chunk_ops \<Rightarrow> 'c http_client \<Rightarrow> string" where
  "ReadAll C h = (if \<not> (eof h \<or> connection_error h) then [] else if connection_error h then [] else body C h)"

section \<open>The loop ends\<close>

definition receiving :: "'c http_client \<Rightarrow> bool" where
  "receiving h \<longleftrightarrow>
    (case parse_state h of
       STATUS_LINE \<Rightarrow> \<not> response_chunked h
     | HEADERS \<Rightarrow> \<not> response_chunked h
     | BODY \<Rightarrow> \<not> response_chunked h
     | CHUNK_DATA \<Rightarrow> response_chunked h \<and> chunk_received h < chunk_size h
     | COMPLETE \<Rightarrow> True
     | _ \<Rightarrow> response_chunked h)"

lemmas receive_rounds = receive_round_def status_round_def headers_round_def body_round_def chunk_size_round_def
  chunk_data_round_def chunk_trailer_round_def

lemma next_nonempty_shorter:
  "next_nonempty_line b = (l, r) \<Longrightarrow> (l = None \<longrightarrow> length r \<le> length b) \<and> (l \<noteq> None \<longrightarrow> length r < length b)"
proof (induction b rule: next_nonempty_line.induct)
  case (1 b)
  show ?case
  proof (cases "HasCompleteLine b")
    case False
    with "1.prems" show ?thesis by (simp add: next_nonempty_line.simps [of b])
  next
    case True
    obtain line rest where g: "GetNextLine b = (line, rest)" by force
    with True GetNextLine_shorter [OF True] have "length rest < length b" by simp
    with True g "1.prems" "1.IH" [of "(line, rest)" line rest] show ?thesis
      by (simp add: next_nonempty_line.simps [of b] split: if_splits) fastforce
  qed
qed

lemma receiving_after_headers: "receiving h \<Longrightarrow> parse_state h = HEADERS \<Longrightarrow> receiving (end_of_headers h)"
  by (auto simp: end_of_headers_def choose_body_def note_connection_header_def receiving_def Let_def
      split: option.splits if_splits)

lemma receiving_frame [simp]:
  "receiving (h\<lparr>rx_buffer := r\<rparr>) = receiving h" "receiving (h\<lparr>response_headers := m\<rparr>) = receiving h"
  by (simp_all add: receiving_def split: ParseState.split)

lemma rx_after_headers [simp]: "rx_buffer (end_of_headers h) = rx_buffer h"
  by (simp add: end_of_headers_def choose_body_def note_connection_header_def Let_def split: option.split)

lemma unat_min_add:
  assumes "n \<le> unat (b - a)" "a \<le> (b :: u32)"
  shows "unat (a + of_nat n) = unat a + n"
proof -
  have "unat (b - a) = unat b - unat a" using assms(2) by (simp add: unat_sub)
  moreover have "unat b < 2 ^ 32" using unsigned_less [of b] by simp
  ultimately have "unat a + n < 2 ^ 32" using assms by (simp add: word_le_nat_alt)
  then show ?thesis by (simp add: unat_word_ariths unat_of_nat)
qed

lemma receiving_round:
  assumes "receiving h" "rx_buffer h \<noteq> []" "receive_round C h = Again h'"
  shows "receiving h' \<and> length (rx_buffer h') < length (rx_buffer h)"
proof (cases "parse_state h")
  case STATUS_LINE
  then show ?thesis using assms GetNextLine_shorter [of "rx_buffer h"]
    by (auto simp: receive_rounds receiving_def Let_def split: if_splits option.splits prod.splits)
next
  case HEADERS
  then show ?thesis using assms GetNextLine_shorter [of "rx_buffer h"]
      receiving_after_headers [of "h\<lparr>rx_buffer := snd (GetNextLine (rx_buffer h))\<rparr>"]
    by (auto simp: receive_rounds Let_def split: if_splits option.splits prod.splits)
next
  case BODY
  then show ?thesis using assms
    by (auto simp: receive_rounds receiving_def ParseRegularBody_def AddBodyData_def)
next
  case CHUNK_SIZE
  then show ?thesis using assms next_nonempty_shorter [of "rx_buffer h"]
    by (auto simp: receive_rounds receiving_def Let_def word_gt_0 split: if_splits option.splits prod.splits)
next
  case CHUNK_DATA
  define n where "n = min (length (rx_buffer h)) (unat (chunk_size h - chunk_received h))"
  have lt: "chunk_received h < chunk_size h" using assms(1) CHUNK_DATA by (simp add: receiving_def)
  have le: "n \<le> unat (chunk_size h - chunk_received h)" by (simp add: n_def)
  have r: "unat (chunk_received h + of_nat n) = unat (chunk_received h) + n"
    using unat_min_add [OF le] lt by simp
  moreover have "unat (chunk_size h - chunk_received h) = unat (chunk_size h) - unat (chunk_received h)"
    using lt by (simp add: unat_sub)
  ultimately have "chunk_received h + of_nat n \<le> chunk_size h"
    using le lt by (simp add: word_le_nat_alt word_less_nat_alt)
  then show ?thesis using assms CHUNK_DATA
    by (auto simp: receive_rounds receiving_def Let_def AddBodyData_def simp flip: n_def split: if_splits)
next
  case CHUNK_TRAILER
  then show ?thesis using assms GetNextLine_shorter [of "rx_buffer h"]
    by (auto simp: receive_rounds receiving_def Let_def split: if_splits prod.splits)
next
  case COMPLETE
  then show ?thesis using assms by (simp add: receive_round_def)
qed

lemma ProcessReceivedData_returns: "receiving h \<Longrightarrow> \<exists>h'. ProcessReceivedData C h = Some h'"
proof (induction "length (rx_buffer h)" arbitrary: h rule: less_induct)
  case less
  show ?case
  proof (cases "receive_round C h")
    case (Return h')
    then show ?thesis by (simp add: ProcessReceivedData.simps [of C h])
  next
    case (Again h')
    show ?thesis
    proof (cases "rx_buffer h = []")
      case True
      then show ?thesis by (simp add: ProcessReceivedData.simps [of C h])
    next
      case False
      with receiving_round [OF less.prems False Again] less.hyps [of h'] Again show ?thesis
        by (simp add: ProcessReceivedData.simps [of C h])
    qed
  qed
qed

end
