(* ===== verification/Http_Stream.thy ===== *)
theory Http_Stream
  imports Http_Receive
begin

text \<open>
  The response parser does not depend on how TCP cuts the stream: what \<open>http_OnTcpData\<close> makes of the segments is
  what it makes of their concatenation, up to the way the body is spread over the queue.
\<close>

section \<open>Up to the queue's elements\<close>

definition stores :: "'c chunk_ops \<Rightarrow> bool" where
  "stores C \<longleftrightarrow> (\<forall>s. chunk_data C (make_chunk C s) = s)"

definition same :: "'c chunk_ops \<Rightarrow> 'c http_client \<Rightarrow> 'c http_client \<Rightarrow> bool" where
  "same C h k \<longleftrightarrow> k = h\<lparr>body_chunks := body_chunks k\<rparr> \<and> body C k = body C h"

lemma same_refl [simp]: "same C h h"
  by (simp add: same_def)

lemma sameI: "concat (map (chunk_data C) cs) = body C h \<Longrightarrow> same C h (h\<lparr>body_chunks := cs\<rparr>)"
  by (simp add: same_def body_def)

lemma same_by:
  assumes "k\<lparr>body_chunks := []\<rparr> = h\<lparr>body_chunks := []\<rparr>" "body C k = body C h"
  shows "same C h k"
proof -
  have "k = k\<lparr>body_chunks := [], body_chunks := body_chunks k\<rparr>" by simp
  also have "\<dots> = h\<lparr>body_chunks := body_chunks k\<rparr>" unfolding assms(1) by simp
  finally show ?thesis using assms(2) by (simp add: same_def)
qed

lemma sameE:
  assumes "same C h k"
  obtains cs where "k = h\<lparr>body_chunks := cs\<rparr>" "concat (map (chunk_data C) cs) = body C h"
  using assms that [of "body_chunks k"] by (auto simp: same_def body_def)

lemma same_trans: "same C h k \<Longrightarrow> same C k l \<Longrightarrow> same C h l"
  by (elim sameE) (auto intro!: sameI simp: body_def)

lemma same_body: "same C h k \<Longrightarrow> body C k = body C h"
  by (simp add: same_def)

lemma body_AddBodyData: "stores C \<Longrightarrow> body C (AddBodyData C data h) = body C h @ data"
  by (simp add: AddBodyData_def body_def stores_def)

definition round_state :: "'c round \<Rightarrow> 'c http_client" where
  "round_state r = (case r of Return h \<Rightarrow> h | Again h \<Rightarrow> h)"

definition round_again :: "'c round \<Rightarrow> bool" where
  "round_again r = (case r of Return h \<Rightarrow> False | Again h \<Rightarrow> True)"

definition same_round :: "'c chunk_ops \<Rightarrow> 'c round \<Rightarrow> 'c round \<Rightarrow> bool" where
  "same_round C r s \<longleftrightarrow> (round_again r \<longleftrightarrow> round_again s) \<and> same C (round_state r) (round_state s)"

lemma same_round_simps [simp]:
  "same_round C (Return h) (Return k) = same C h k" "same_round C (Again h) (Again k) = same C h k"
  "\<not> same_round C (Return h) (Again k)" "\<not> same_round C (Again h) (Return k)"
  by (simp_all add: same_round_def round_again_def round_state_def)

lemma response_header_chunks [simp]: "response_header key (h\<lparr>body_chunks := cs\<rparr>) = response_header key h"
  by (simp add: response_header_def)

lemma note_connection_chunks [simp]:
  "note_connection_header (h\<lparr>body_chunks := cs\<rparr>) = (note_connection_header h)\<lparr>body_chunks := cs\<rparr>"
  by (simp add: note_connection_header_def split: option.split)

lemma choose_body_chunks [simp]: "choose_body (h\<lparr>body_chunks := cs\<rparr>) = (choose_body h)\<lparr>body_chunks := cs\<rparr>"
  by (simp add: choose_body_def response_header_def Let_def split: option.split)

lemma end_of_headers_chunks [simp]:
  "end_of_headers (h\<lparr>body_chunks := cs\<rparr>) = (end_of_headers h)\<lparr>body_chunks := cs\<rparr>"
  by (simp add: end_of_headers_def)

lemma note_connection_keeps [simp]: "body_chunks (note_connection_header h) = body_chunks h"
  by (simp add: note_connection_header_def split: option.split)

lemma choose_body_keeps [simp]: "body_chunks (choose_body h) = body_chunks h"
  by (simp add: choose_body_def Let_def split: option.split)

lemma end_of_headers_keeps [simp]: "body_chunks (end_of_headers h) = body_chunks h"
  by (simp add: end_of_headers_def)

definition strip_crlf :: "string \<Rightarrow> string" where
  "strip_crlf s = (if length s \<ge> 2 \<and> substr s 0 2 = [CR, LF] then drop 2 s else s)"

definition available :: "'c http_client \<Rightarrow> nat" where
  "available h = min (length (rx_buffer h)) (unat (chunk_size h - chunk_received h))"

definition took :: "'c chunk_ops \<Rightarrow> nat \<Rightarrow> 'c http_client \<Rightarrow> 'c http_client" where
  "took C n h = h\<lparr>body_chunks := body_chunks h @ [make_chunk C (take n (rx_buffer h))],
     total_body_received := total_body_received h + of_nat n, rx_buffer := drop n (rx_buffer h),
     chunk_received := chunk_received h + of_nat n\<rparr>"

definition end_chunk :: "'c http_client \<Rightarrow> 'c http_client" where
  "end_chunk h = (if chunk_received h = chunk_size h
     then h\<lparr>rx_buffer := strip_crlf (rx_buffer h), parse_state := CHUNK_SIZE\<rparr> else h)"

lemma data_round: "parse_state h = CHUNK_DATA \<Longrightarrow>
    receive_round C h = (if available h > 0 then Again (end_chunk (took C (available h) h)) else Return h)"
proof -
  assume s: "parse_state h = CHUNK_DATA"
  define n where "n = available h"
  have t: "substr (rx_buffer h) 0 n = take n (rx_buffer h)" by (simp add: substr_def)
  have ne: "n > 0 \<Longrightarrow> take n (rx_buffer h) \<noteq> []" by (auto simp: n_def available_def)
  show ?thesis
    unfolding receive_round_def s ParseState.case chunk_data_round_def Let_def available_def [symmetric]
      n_def [symmetric] t AddBodyData_def
    by (rule if_cong) (simp_all only: ne if_False end_chunk_def strip_crlf_def took_def, simp_all)
qed

lemma available_chunks [simp]: "available (h\<lparr>body_chunks := cs\<rparr>) = available h"
  by (simp add: available_def)

lemma took_chunks: "took C n (h\<lparr>body_chunks := cs\<rparr>)
    = (took C n h)\<lparr>body_chunks := cs @ [make_chunk C (take n (rx_buffer h))]\<rparr>"
  by (cases h) (simp add: took_def)

lemma end_chunk_chunks: "end_chunk (h\<lparr>body_chunks := cs\<rparr>) = (end_chunk h)\<lparr>body_chunks := cs\<rparr>"
  by (cases h) (simp add: end_chunk_def)

lemma same_rounds:
  assumes "same C h k"
  shows "same_round C (receive_round C h) (receive_round C k)"
proof -
  obtain cs where k: "k = h\<lparr>body_chunks := cs\<rparr>" and cs: "concat (map (chunk_data C) cs) = body C h"
    using assms by (rule sameE)
  show ?thesis
  proof (cases "parse_state h")
    case STATUS_LINE
    then show ?thesis
      using cs by (cases h) (auto simp: k receive_round_def status_round_def SetError_def Let_def same_def body_def
          split: option.split prod.split)
  next
    case HEADERS
    have m: "same C g (g\<lparr>body_chunks := cs\<rparr>)" if "body_chunks g = body_chunks h" for g
      using cs that by (intro sameI) (simp add: body_def)
    obtain line rest where g: "GetNextLine (rx_buffer h) = (line, rest)" by force
    have "same C (end_of_headers (h\<lparr>rx_buffer := rest\<rparr>)) ((end_of_headers (h\<lparr>rx_buffer := rest\<rparr>))\<lparr>body_chunks := cs\<rparr>)"
      by (rule m) simp
    moreover have "end_of_headers (h\<lparr>body_chunks := cs, rx_buffer := rest\<rparr>)
        = (end_of_headers (h\<lparr>rx_buffer := rest\<rparr>))\<lparr>body_chunks := cs\<rparr>"
      unfolding end_of_headers_chunks [symmetric] by (rule arg_cong [of _ _ end_of_headers]) (cases h, simp)
    ultimately have e: "same C (end_of_headers (h\<lparr>rx_buffer := rest\<rparr>)) (end_of_headers (h\<lparr>body_chunks := cs, rx_buffer := rest\<rparr>))"
      by simp
    show ?thesis
    proof (cases "HasCompleteLine (rx_buffer h) \<and> line = []")
      case True
      then show ?thesis using HEADERS e by (simp add: k g receive_round_def headers_round_def)
    next
      case False
      then show ?thesis using HEADERS cs g
        by (cases h) (auto simp: k receive_round_def headers_round_def SetError_def Let_def same_def body_def split: option.split)
    qed
  next
    case BODY
    then show ?thesis
      using cs by (cases h) (auto simp: k receive_round_def body_round_def ParseRegularBody_def ParseChunkedBody_def AddBodyData_def
          same_def body_def)
  next
    case CHUNK_SIZE
    then show ?thesis
      using cs by (cases h) (auto simp: k receive_round_def chunk_size_round_def Let_def same_def body_def
          split: option.split prod.split)
  next
    case CHUNK_DATA
    let ?n = "available h"
    have "same C (end_chunk (took C ?n h)) (end_chunk (took C ?n (h\<lparr>body_chunks := cs\<rparr>)))"
      unfolding took_chunks end_chunk_chunks using cs by (intro sameI) (simp add: body_def took_def end_chunk_def)
    then show ?thesis using CHUNK_DATA assms by (simp add: data_round k)
  next
    case CHUNK_TRAILER
    then show ?thesis
      using cs by (cases h) (auto simp: k receive_round_def chunk_trailer_round_def Let_def same_def body_def split: prod.split)
  next
    case COMPLETE
    then show ?thesis using assms by (simp add: k receive_round_def)
  qed
qed

lemma same_fields:
  "same C h k \<Longrightarrow> rx_buffer k = rx_buffer h \<and> parse_state k = parse_state h \<and> receiving k = receiving h
     \<and> error_bit k = error_bit h"
  by (erule sameE) (simp add: receiving_def cong: ParseState.case_cong)

lemma same_check_length: "same C h k \<Longrightarrow> same C (check_length h) (check_length k)"
  by (erule sameE) (cases h, auto simp: check_length_def same_def body_def)

lemma process_stop: "rx_buffer h = [] \<or> parse_state h = COMPLETE \<Longrightarrow> ProcessReceivedData C h = Some (check_length h)"
  by (subst ProcessReceivedData.simps) auto

lemma process_step: "rx_buffer h \<noteq> [] \<Longrightarrow> parse_state h \<noteq> COMPLETE \<Longrightarrow> ProcessReceivedData C h =
    (case receive_round C h of Return h' \<Rightarrow> Some h' | Again h' \<Rightarrow> ProcessReceivedData C h')"
  by (subst ProcessReceivedData.simps) auto

lemma same_process:
  assumes "receiving h" "same C h k" "ProcessReceivedData C h = Some h'"
  shows "\<exists>k'. ProcessReceivedData C k = Some k' \<and> same C h' k'"
  using assms
proof (induction "length (rx_buffer h)" arbitrary: h k rule: less_induct)
  case less
  have f: "rx_buffer k = rx_buffer h" "parse_state k = parse_state h" using same_fields [OF less.prems(2)] by auto
  show ?case
  proof (cases "rx_buffer h = [] \<or> parse_state h = COMPLETE")
    case True
    then show ?thesis using less.prems same_check_length [OF less.prems(2)] by (auto simp: process_stop f)
  next
    case False
    note r = same_rounds [OF less.prems(2)]
    show ?thesis
    proof (cases "receive_round C h")
      case (Return g)
      with r obtain g' where "receive_round C k = Return g'" "same C g g'" by (cases "receive_round C k") auto
      then show ?thesis using less.prems(3) False f Return by (simp add: process_step)
    next
      case (Again g)
      with r obtain g' where g': "receive_round C k = Again g'" "same C g g'" by (cases "receive_round C k") auto
      have "receiving g" "length (rx_buffer g) < length (rx_buffer h)"
        using receiving_round [OF less.prems(1) _ Again] False by auto
      then show ?thesis
        using less.hyps [of g g'] g' less.prems(3) False f Again by (simp add: process_step)
    qed
  qed
qed

section \<open>More input\<close>

definition more :: "string \<Rightarrow> 'c http_client \<Rightarrow> 'c http_client" where
  "more b h = h\<lparr>rx_buffer := rx_buffer h @ b\<rparr>"

lemma more_simps [simp]:
  "rx_buffer (more b h) = rx_buffer h @ b" "parse_state (more b h) = parse_state h" "receiving (more b h) = receiving h"
  "more b (h\<lparr>rx_buffer := r\<rparr>) = h\<lparr>rx_buffer := r @ b\<rparr>" "more [] h = h"
  by (simp_all add: more_def)

lemma complete_more: "HasCompleteLine r \<Longrightarrow> HasCompleteLine (r @ b)"
  by (rule line_split [of r]) (auto intro: has_line)

lemma next_line_more: "HasCompleteLine r \<Longrightarrow> GetNextLine (r @ b) = (fst (GetNextLine r), snd (GetNextLine r) @ b)"
  by (rule line_split [of r]) (auto simp: next_line)

lemma nonempty_line_more:
  "next_nonempty_line r = (Some l, r') \<Longrightarrow> next_nonempty_line (r @ b) = (Some l, r' @ b)"
  "next_nonempty_line r = (None, r') \<Longrightarrow> next_nonempty_line (r @ b) = next_nonempty_line (r' @ b)"
proof (induction r arbitrary: l r' rule: next_nonempty_line.induct)
  case (1 r)
  { case 1
    then have c: "HasCompleteLine r" by (subst (asm) next_nonempty_line.simps) (auto split: if_splits)
    obtain line rest where g: "GetNextLine r = (line, rest)" by force
    show ?case using 1 c complete_more [OF c, of b] next_line_more [OF c, of b] g "1.IH"(1) [OF _ g [symmetric]]
      by (simp add: next_nonempty_line.simps [of r] next_nonempty_line.simps [of "r @ b"] split: if_splits)
  next
    case 2
    obtain line rest where g: "GetNextLine r = (line, rest)" by force
    show ?case
    proof (cases "HasCompleteLine r")
      case True
      show ?thesis using 2 True complete_more [OF True, of b] next_line_more [OF True, of b] g "1.IH"(2) [OF _ g [symmetric]]
        by (simp add: next_nonempty_line.simps [of r] next_nonempty_line.simps [of "r @ b"] split: if_splits)
    next
      case False
      then show ?thesis using 2 by (simp add: next_nonempty_line.simps [of r])
    qed }
qed

lemma process_in_chunk_size:
  assumes "parse_state h = CHUNK_SIZE" "next_nonempty_line r = next_nonempty_line s" "r = [] \<longleftrightarrow> s = []"
  shows "ProcessReceivedData C (h\<lparr>rx_buffer := r\<rparr>) = ProcessReceivedData C (h\<lparr>rx_buffer := s\<rparr>)"
  using assms by (cases "r = []") (auto simp: process_step receive_round_def chunk_size_round_def)

lemma no_line_in_nil: "next_nonempty_line [] = (None, [])"
  by (subst next_nonempty_line.simps) (auto simp: HasCompleteLine_def str_find_None match_at_single)

text \<open>Blank lines before a chunk size make no difference.\<close>

lemma blank_lines_skipped:
  assumes "parse_state h = CHUNK_SIZE" "next_nonempty_line r = (None, r')"
  shows "ProcessReceivedData C (h\<lparr>rx_buffer := r @ b\<rparr>) = ProcessReceivedData C (h\<lparr>rx_buffer := r' @ b\<rparr>)"
proof (cases "r' @ b = []")
  case True
  then have b: "b = []" "r' = []" by auto
  with assms have "ProcessReceivedData C (h\<lparr>rx_buffer := r\<rparr>) = Some (h\<lparr>rx_buffer := []\<rparr>)"
    by (cases "r = []") (simp_all add: process_stop process_step receive_round_def chunk_size_round_def check_length_def)
  with assms(1) b show ?thesis by (simp add: process_stop check_length_def)
next
  case False
  then have "r @ b \<noteq> []" using assms(2) no_line_in_nil by auto
  with False show ?thesis
    using assms(1) nonempty_line_more(2) [OF assms(2), of b] by (intro process_in_chunk_size) auto
qed

lemma crlf_line: "next_nonempty_line (CR # LF # s) = next_nonempty_line s"
proof -
  have "GetNextLine ([CR] @ LF # s) = ([], s)" by (subst next_line) (auto simp: chomp_def)
  moreover have "HasCompleteLine ([CR] @ LF # s)" by (rule has_line)
  ultimately show ?thesis by (subst next_nonempty_line.simps) simp
qed

lemma strip_crlf_skipped:
  assumes "parse_state h = CHUNK_SIZE"
  shows "ProcessReceivedData C (h\<lparr>rx_buffer := strip_crlf s\<rparr>) = ProcessReceivedData C (h\<lparr>rx_buffer := s\<rparr>)"
proof (cases "length s \<ge> 2 \<and> substr s 0 2 = [CR, LF]")
  case True
  then obtain t where s: "s = CR # LF # t" by (cases s; cases "tl s") (auto simp: substr_def numeral_2_eq_2)
  then have "strip_crlf s = t" by (simp add: strip_crlf_def substr_def)
  moreover have "next_nonempty_line [CR, LF] = (None, [])" using crlf_line [of "[]"] no_line_in_nil by simp
  from blank_lines_skipped [OF assms this, of C t] have
    "ProcessReceivedData C (h\<lparr>rx_buffer := s\<rparr>) = ProcessReceivedData C (h\<lparr>rx_buffer := t\<rparr>)" by (simp add: s)
  ultimately show ?thesis by simp
next
  case False
  then have "strip_crlf s = s" unfolding strip_crlf_def by (rule if_not_P)
  then show ?thesis by simp
qed

section \<open>One round with more input\<close>

text \<open>What holds between two calls: no body byte before the headers' end, and a body of known length is
  \<open>COMPLETE\<close> as soon as it is there.\<close>

definition calm :: "'c http_client \<Rightarrow> bool" where
  "calm h \<longleftrightarrow> (parse_state h = STATUS_LINE \<or> parse_state h = HEADERS \<longrightarrow> total_body_received h = 0)
     \<and> (parse_state h = BODY \<longrightarrow> \<not> (0 < content_length h \<and> content_length h \<le> total_body_received h))"

text \<open>Fewer than \<open>2^32\<close> bytes, so that the counter of the body does not wrap around.\<close>

definition fits :: "string \<Rightarrow> 'c http_client \<Rightarrow> bool" where
  "fits b h \<longleftrightarrow> response_chunked h \<or> unat (total_body_received h) + length (rx_buffer h) + length b < 2 ^ 32"

definition no_surplus :: "'c http_client \<Rightarrow> bool" where
  "no_surplus h \<longleftrightarrow> response_chunked h \<or> content_length h = 0 \<or> total_body_received h \<le> content_length h"

definition round_more :: "string \<Rightarrow> 'c round \<Rightarrow> 'c round" where
  "round_more b r = (case r of Return h \<Rightarrow> Return (more b h) | Again h \<Rightarrow> Again (more b h))"

lemma response_header_rx [simp]: "response_header key (h\<lparr>rx_buffer := r\<rparr>) = response_header key h"
  by (simp add: response_header_def)

lemma note_connection_rx [simp]:
  "note_connection_header (h\<lparr>rx_buffer := r\<rparr>) = (note_connection_header h)\<lparr>rx_buffer := r\<rparr>"
  by (cases h) (simp add: note_connection_header_def response_header_def split: option.split)

lemma choose_body_rx [simp]: "choose_body (h\<lparr>rx_buffer := r\<rparr>) = (choose_body h)\<lparr>rx_buffer := r\<rparr>"
  by (cases h) (simp add: choose_body_def response_header_def Let_def split: option.split)

lemma end_of_headers_rx: "end_of_headers (h\<lparr>rx_buffer := r\<rparr>) = (end_of_headers h)\<lparr>rx_buffer := r\<rparr>"
  by (simp add: end_of_headers_def)

lemma end_of_headers_more: "end_of_headers (more b h) = more b (end_of_headers h)"
  by (simp add: more_def end_of_headers_rx)

lemma line_round_more:
  assumes "parse_state h = STATUS_LINE \<or> parse_state h = HEADERS \<or> parse_state h = CHUNK_TRAILER"
    and "HasCompleteLine (rx_buffer h)"
  shows "receive_round C (more b h) = round_more b (receive_round C h)"
proof -
  obtain line rest where g: "GetNextLine (rx_buffer h) = (line, rest)" by force
  have m: "HasCompleteLine (rx_buffer h @ b)" "GetNextLine (rx_buffer h @ b) = (line, rest @ b)"
    using complete_more [OF assms(2)] next_line_more [OF assms(2)] g by auto
  have u: "(more b h)\<lparr>rx_buffer := rest @ b\<rparr> = more b (h\<lparr>rx_buffer := rest\<rparr>)" by (simp add: more_def)
  show ?thesis
    using assms(1)
  proof (elim disjE)
    assume "parse_state h = STATUS_LINE"
    then show ?thesis using assms(2) m g u
      by (cases h) (simp add: receive_round_def status_round_def round_more_def SetError_def more_def Let_def split: option.split)
  next
    assume "parse_state h = HEADERS"
    then show ?thesis using assms(2) m g u
      by (simp add: receive_round_def headers_round_def round_more_def Let_def end_of_headers_more SetError_def
          split: option.split prod.split) (simp add: more_def end_of_headers_rx)
  next
    assume "parse_state h = CHUNK_TRAILER"
    then show ?thesis using assms(2) m g u
      by (cases h) (simp add: receive_round_def chunk_trailer_round_def round_more_def more_def Let_def)
  qed
qed

lemma line_round_error:
  assumes "parse_state h = STATUS_LINE \<or> parse_state h = HEADERS \<or> parse_state h = CHUNK_TRAILER"
    and "HasCompleteLine (rx_buffer h)" "receive_round C h = Return g"
  shows "error_bit g"
  using assms by (auto simp: receive_rounds Let_def SetError_def split: prod.splits option.splits if_splits)

lemma line_round_wait:
  assumes "parse_state h = STATUS_LINE \<or> parse_state h = HEADERS \<or> parse_state h = CHUNK_TRAILER"
    and "\<not> HasCompleteLine (rx_buffer h)"
  shows "receive_round C h = Return h"
  using assms by (auto simp: receive_rounds)

lemma headers_frame [simp]:
  "total_body_received (end_of_headers h) = total_body_received h"
  by (simp add: end_of_headers_def choose_body_def note_connection_header_def Let_def split: option.split)

lemma end_of_headers_state: "parse_state (end_of_headers h) = STATUS_LINE \<or> parse_state (end_of_headers h) = BODY
    \<or> parse_state (end_of_headers h) = CHUNK_SIZE"
  by (simp add: end_of_headers_def choose_body_def Let_def split: option.split)

lemma end_of_headers_calm: "total_body_received h = 0 \<Longrightarrow> calm (end_of_headers h)"
  using end_of_headers_state [of h] by (auto simp: calm_def)

lemma end_of_headers_fits: "fits b h \<Longrightarrow> fits b (end_of_headers h)"
  by (simp add: fits_def end_of_headers_def choose_body_def note_connection_header_def Let_def split: option.split)

lemma line_round_keeps:
  assumes "parse_state h = STATUS_LINE \<or> parse_state h = HEADERS \<or> parse_state h = CHUNK_TRAILER"
    and "calm h" "fits b h" "receive_round C h = Again g" "HasCompleteLine (rx_buffer h)"
  shows "calm g \<and> fits b g"
proof -
  obtain line rest where g: "GetNextLine (rx_buffer h) = (line, rest)" by force
  with GetNextLine_shorter [OF assms(5)] have s: "length rest < length (rx_buffer h)" by simp
  with assms(3) have f: "fits b (h\<lparr>rx_buffer := rest\<rparr>)" by (auto simp: fits_def)
  show ?thesis
    using assms(1)
  proof (elim disjE)
    assume "parse_state h = STATUS_LINE"
    then show ?thesis using assms(2,4,5) g f
      by (auto simp: receive_round_def status_round_def Let_def calm_def fits_def split: option.splits)
  next
    assume h: "parse_state h = HEADERS"
    show ?thesis
    proof (cases "line = []")
      case True
      with h assms(4,5) g have "g = end_of_headers (h\<lparr>rx_buffer := rest\<rparr>)"
        by (simp add: receive_round_def headers_round_def Let_def)
      then show ?thesis using assms(2) h f
        by (auto simp: calm_def [of h] intro!: end_of_headers_calm end_of_headers_fits)
    next
      case False
      with h show ?thesis using assms(2,4,5) g f
        by (auto simp: receive_round_def headers_round_def Let_def calm_def fits_def split: option.splits)
    qed
  next
    assume "parse_state h = CHUNK_TRAILER"
    then show ?thesis using assms(2,4,5) g f
      by (cases "line = []") (auto simp: receive_round_def chunk_trailer_round_def Let_def calm_def fits_def)
  qed
qed

section \<open>A call with all the input\<close>

text \<open>\<open>cut C b h\<close>: handling what is there and then \<open>b\<close> comes to the same as handling all at once.\<close>

definition cut :: "'c chunk_ops \<Rightarrow> string \<Rightarrow> 'c http_client \<Rightarrow> bool" where
  "cut C b h \<longleftrightarrow> (\<forall>h1 h2. ProcessReceivedData C h = Some h1 \<longrightarrow> ProcessReceivedData C (more b h) = Some h2
     \<longrightarrow> \<not> error_bit h2 \<longrightarrow> no_surplus h2
     \<longrightarrow> (\<exists>h3. ProcessReceivedData C (more b h1) = Some h3 \<and> same C h2 h3))"

lemma cut_stuck: "ProcessReceivedData C h = Some h \<Longrightarrow> cut C b h"
  unfolding cut_def by (metis option.inject same_refl)

lemma cut_equal:
  assumes "ProcessReceivedData C h = ProcessReceivedData C g" "ProcessReceivedData C (more b h) = ProcessReceivedData C (more b g)"
    and "cut C b g"
  shows "cut C b h"
  unfolding cut_def assms(1,2) by (rule assms(3) [unfolded cut_def])

lemma not_complete_by_length: "calm h \<Longrightarrow> check_length h = h"
proof -
  assume "calm h"
  then have "\<not> (parse_state h = BODY \<and> \<not> response_chunked h \<and> content_length h > 0
        \<and> total_body_received h \<ge> content_length h)" by (simp add: calm_def)
  then show ?thesis unfolding check_length_def by (rule if_not_P)
qed

lemma cut_line:
  assumes "parse_state h = STATUS_LINE \<or> parse_state h = HEADERS \<or> parse_state h = CHUNK_TRAILER"
    and "rx_buffer h \<noteq> []" "\<And>g. receive_round C h = Again g \<Longrightarrow> HasCompleteLine (rx_buffer h) \<Longrightarrow> cut C b g"
  shows "cut C b h"
proof (cases "HasCompleteLine (rx_buffer h)")
  case False
  with assms(1,2) show ?thesis by (intro cut_stuck) (auto simp: process_step line_round_wait)
next
  case True
  note m = line_round_more [OF assms(1) True, of C b]
  show ?thesis
  proof (cases "receive_round C h")
    case (Return g)
    then have "ProcessReceivedData C (more b h) = Some (more b g)" "error_bit (more b g)"
      using assms(1,2) m line_round_error [OF assms(1) True Return]
      by (auto simp: process_step round_more_def more_def)
    then show ?thesis by (simp add: cut_def)
  next
    case (Again g)
    then have "ProcessReceivedData C h = ProcessReceivedData C g"
      "ProcessReceivedData C (more b h) = ProcessReceivedData C (more b g)"
      using assms(1,2) m by (auto simp: process_step round_more_def)
    then show ?thesis using assms(3) [OF Again True] by (rule cut_equal)
  qed
qed

definition take_body :: "'c chunk_ops \<Rightarrow> 'c http_client \<Rightarrow> 'c http_client" where
  "take_body C h = h\<lparr>body_chunks := body_chunks h @ [make_chunk C (rx_buffer h)],
     total_body_received := total_body_received h + of_nat (length (rx_buffer h)), rx_buffer := []\<rparr>"

lemma process_body:
  assumes "parse_state h = BODY" "\<not> response_chunked h" "rx_buffer h \<noteq> []"
  shows "ProcessReceivedData C h = Some (check_length (take_body C h))"
proof -
  have "receive_round C h = Again (take_body C h)"
    using assms by (simp add: receive_round_def body_round_def ParseRegularBody_def AddBodyData_def take_body_def)
  then show ?thesis using assms by (simp add: process_step process_stop take_body_def)
qed

lemma take_body_more:
  assumes "stores C" "rx_buffer g = []" "take_body C h = g"
  shows "same C (take_body C (more b h)) (take_body C (more b g))"
  using assms by (intro same_by) (auto simp: take_body_def more_def body_def stores_def)

lemma of_nat_grows:
  assumes "unat t + n < 2 ^ 32" "0 < n"
  shows "(t :: u32) < t + of_nat n"
  using assms by (simp add: word_less_nat_alt unat_word_ariths unat_of_nat)

lemma cut_body:
  assumes "stores C" "parse_state h = BODY" "\<not> response_chunked h" "rx_buffer h \<noteq> []" "fits b h"
  shows "cut C b h"
  unfolding cut_def
proof (intro allI impI)
  fix h1 h2
  assume h1: "ProcessReceivedData C h = Some h1" and h2: "ProcessReceivedData C (more b h) = Some h2" "no_surplus h2"
  let ?g = "take_body C h"
  have p: "h1 = check_length ?g" using h1 assms by (simp add: process_body)
  show "\<exists>h3. ProcessReceivedData C (more b h1) = Some h3 \<and> same C h2 h3"
  proof (cases "b = []")
    case True
    have "ProcessReceivedData C h1 = Some h1"
      unfolding p by (cases "check_length ?g = ?g")
        (auto simp: process_stop check_length_def take_body_def)
    then show ?thesis using True h1 h2(1) by simp
  next
    case False
    have h2': "h2 = check_length (take_body C (more b h))"
      using h2(1) assms by (simp add: process_body more_def)
    define t where "t = total_body_received h + of_nat (length (rx_buffer h))"
    have "unat t + length b < 2 ^ 32"
      using assms(3,5) by (simp add: t_def fits_def unat_word_ariths unat_of_nat)
    then have lt: "t < t + of_nat (length b)" using False by (intro of_nat_grows) auto
    have "total_body_received h2 = t + of_nat (length b)" "content_length h2 = content_length h"
      "response_chunked h2 = response_chunked h"
      by (simp_all add: h2' check_length_def take_body_def more_def t_def algebra_simps)
    with h2(2) assms(3) lt have "\<not> (0 < content_length h \<and> content_length h \<le> t)"
      by (auto simp: no_surplus_def word_gt_0)
    then have "\<not> (parse_state ?g = BODY \<and> \<not> response_chunked ?g \<and> content_length ?g > 0
        \<and> total_body_received ?g \<ge> content_length ?g)" by (simp add: take_body_def t_def)
    then have "h1 = ?g" unfolding p check_length_def by (rule if_not_P)
    moreover have "ProcessReceivedData C (more b ?g) = Some (check_length (take_body C (more b ?g)))"
      using assms False by (intro process_body) (simp_all add: take_body_def more_def)
    ultimately show ?thesis
      using same_check_length [OF take_body_more [OF assms(1), of ?g h b]] h2' by (simp add: take_body_def)
  qed
qed

lemma cut_chunk_size:
  assumes "parse_state h = CHUNK_SIZE" "rx_buffer h \<noteq> []" "\<And>g. receive_round C h = Again g \<Longrightarrow> cut C b g"
  shows "cut C b h"
proof -
  obtain line rest where n: "next_nonempty_line (rx_buffer h) = (line, rest)" by force
  show ?thesis
  proof (cases line)
    case None
    have "ProcessReceivedData C h = Some (h\<lparr>rx_buffer := rest\<rparr>)"
      using assms(1,2) n None by (simp add: process_step receive_round_def chunk_size_round_def)
    moreover have "ProcessReceivedData C (more b h) = ProcessReceivedData C (more b (h\<lparr>rx_buffer := rest\<rparr>))"
      using blank_lines_skipped [OF assms(1), of "rx_buffer h" rest C b] n None by (simp add: more_def)
    ultimately show ?thesis unfolding cut_def by (metis option.inject same_refl)
  next
    case (Some l)
    define g where "g = h\<lparr>rx_buffer := rest, chunk_size := ParseChunkSize l, chunk_received := 0,
      parse_state := if ParseChunkSize l = 0 then CHUNK_TRAILER else CHUNK_DATA\<rparr>"
    have r: "receive_round C h = Again g"
      using assms(1) n Some by (simp add: receive_round_def chunk_size_round_def Let_def g_def)
    have "receive_round C (more b h) = Again (more b g)"
      using assms(1) nonempty_line_more(1) [of "rx_buffer h" l rest b] n Some
      by (cases h) (simp add: receive_round_def chunk_size_round_def Let_def g_def more_def)
    with r have "ProcessReceivedData C h = ProcessReceivedData C g"
      "ProcessReceivedData C (more b h) = ProcessReceivedData C (more b g)"
      using assms(1,2) by (simp_all add: process_step)
    then show ?thesis using assms(3) [OF r] by (rule cut_equal)
  qed
qed

text \<open>A chunk whose end is there: the line end after it may come with the next call.\<close>

lemma cut_chunk_end:
  assumes "parse_state h = CHUNK_DATA" "receiving h" "unat (chunk_size h - chunk_received h) \<le> length (rx_buffer h)"
    and "\<And>g. parse_state g = CHUNK_SIZE \<Longrightarrow> receiving g \<Longrightarrow> length (rx_buffer g) < length (rx_buffer h) \<Longrightarrow> response_chunked g
      \<Longrightarrow> cut C b g"
  shows "cut C b h"
proof -
  define n where "n = unat (chunk_size h - chunk_received h)"
  define k where "k = (took C n h)\<lparr>parse_state := CHUNK_SIZE\<rparr>"
  have lt: "chunk_received h < chunk_size h" and ch: "response_chunked h" using assms(1,2) by (auto simp: receiving_def)
  then have n: "0 < n" "n \<le> length (rx_buffer h)" using assms(3) by (auto simp: n_def unat_gt_0)
  have w: "chunk_received h + of_nat n = chunk_size h" by (simp add: n_def)
  have r: "rx_buffer k = drop n (rx_buffer h)" "parse_state k = CHUNK_SIZE" "response_chunked k"
    using ch by (simp_all add: k_def took_def)
  have e: "end_chunk (took C n h) = k\<lparr>rx_buffer := strip_crlf (drop n (rx_buffer h))\<rparr>"
    using w by (cases h) (simp add: end_chunk_def took_def k_def)
  have e': "end_chunk (took C n (more b h)) = k\<lparr>rx_buffer := strip_crlf (drop n (rx_buffer h) @ b)\<rparr>"
    using w n(2) by (cases h) (simp add: end_chunk_def took_def k_def more_def)
  have a: "available h = n" "available (more b h) = n" using n by (auto simp: available_def n_def more_def)
  have "rx_buffer h \<noteq> []" using n by auto
  then have "ProcessReceivedData C h = ProcessReceivedData C k"
    using data_round [OF assms(1), of C] a(1) n assms(1) strip_crlf_skipped [OF r(2), of C "rx_buffer k"]
    by (simp add: process_step e r flip: r(1))
  moreover have "ProcessReceivedData C (more b h) = ProcessReceivedData C (more b k)"
    using data_round [of "more b h" C] a(2) n assms(1) strip_crlf_skipped [OF r(2), of C "rx_buffer k @ b"]
      \<open>rx_buffer h \<noteq> []\<close>
    by (simp add: process_step e' r(1) more_def [of b k])
  moreover have "cut C b k"
    using n r by (intro assms(4)) (auto simp: receiving_def)
  ultimately show ?thesis by (rule cut_equal)
qed

text \<open>A chunk that goes on in the next call.\<close>

lemma cut_chunk_part:
  assumes "stores C" "parse_state h = CHUNK_DATA" "receiving h"
    and "length (rx_buffer h) < unat (chunk_size h - chunk_received h)" "rx_buffer h \<noteq> []"
  shows "cut C b h"
proof -
  let ?n = "length (rx_buffer h)" and ?need = "unat (chunk_size h - chunk_received h)"
  let ?g = "took C ?n h"
  have lt: "chunk_received h < chunk_size h" using assms(2,3) by (simp add: receiving_def)
  have need: "?need = unat (chunk_size h) - unat (chunk_received h)" using lt by (simp add: unat_sub)
  have u: "unat (chunk_received h + of_nat m) = unat (chunk_received h) + m" if "m \<le> ?need" for m
    using that order.strict_implies_order [OF lt] by (rule unat_min_add)
  have fields: "parse_state ?g = CHUNK_DATA" "rx_buffer ?g = []" "chunk_size ?g = chunk_size h"
    "chunk_received ?g = chunk_received h + of_nat ?n" "response_chunked ?g"
    using assms(2,3) by (auto simp: took_def receiving_def)
  have short: "chunk_received ?g < chunk_size ?g" and rem: "unat (chunk_size ?g - chunk_received ?g) = ?need - ?n"
    using u [of ?n] assms(4) need by (auto simp: fields word_less_nat_alt unat_sub word_le_nat_alt)
  have "available h = ?n" using assms(4) by (simp add: available_def)
  moreover have "end_chunk ?g = ?g" using short by (simp add: end_chunk_def)
  ultimately have p: "ProcessReceivedData C h = Some ?g"
    using assms(2,5) fields by (simp add: process_step data_round process_stop check_length_def)
  have "\<exists>h3. ProcessReceivedData C (more b ?g) = Some h3 \<and> same C h2 h3"
    if h2: "ProcessReceivedData C (more b h) = Some h2" for h2
  proof (cases "b = []")
    case True
    have "ProcessReceivedData C ?g = Some ?g" using fields by (simp add: process_stop check_length_def)
    with True h2 p show ?thesis by simp
  next
    case False
    define m where "m = available (more b h)"
    have m: "m \<le> ?need" "?n \<le> m" "0 < m" "m \<le> ?n + length b"
      using assms(4,5) by (auto simp: m_def available_def more_def)
    have a: "available (more b ?g) = m - ?n"
      using rem by (simp add: available_def m_def more_def fields)
    have pos: "0 < m - ?n" using False assms(4) by (auto simp: m_def available_def more_def)
    have "same C (took C m (more b h)) (took C (m - ?n) (more b ?g))"
    proof (rule same_by)
      have "of_nat ?n + of_nat (m - ?n) = (of_nat m :: u32)" using m(2) by (simp flip: of_nat_add)
      then show "(took C (m - ?n) (more b ?g))\<lparr>body_chunks := []\<rparr> = (took C m (more b h))\<lparr>body_chunks := []\<rparr>"
        using m(2) by (simp add: took_def more_def add.assoc)
      show "body C (took C (m - ?n) (more b ?g)) = body C (took C m (more b h))"
        using m(2) assms(1) by (simp add: took_def more_def body_def stores_def)
    qed
    then have s: "same C (end_chunk (took C m (more b h))) (end_chunk (took C (m - ?n) (more b ?g)))"
      by (elim sameE) (simp add: end_chunk_chunks, intro sameI, simp add: end_chunk_def body_def)
    have r1: "receive_round C (more b h) = Again (end_chunk (took C m (more b h)))"
      using data_round [of "more b h" C] assms(2) m(3) by (simp flip: m_def)
    have r2: "receive_round C (more b ?g) = Again (end_chunk (took C (m - ?n) (more b ?g)))"
      using data_round [of "more b ?g" C] fields pos by (simp add: a)
    have "receiving (end_chunk (took C m (more b h)))"
      using receiving_round [of "more b h" C, OF _ _ r1] assms(3) False by simp
    moreover have "ProcessReceivedData C (end_chunk (took C m (more b h))) = Some h2"
      using h2 r1 assms(2) False by (simp add: process_step)
    ultimately obtain h3 where "ProcessReceivedData C (end_chunk (took C (m - ?n) (more b ?g))) = Some h3" "same C h2 h3"
      using same_process [OF _ s] by blast
    then show ?thesis using r2 fields False by (auto simp: process_step)
  qed
  then show ?thesis unfolding cut_def p by simp
qed

lemma process_cut:
  assumes "stores C" "receiving h" "calm h" "fits b h"
  shows "cut C b h"
  using assms(2-)
proof (induction "length (rx_buffer h)" arbitrary: h rule: less_induct)
  case less
  show ?case
  proof (cases "rx_buffer h = [] \<or> parse_state h = COMPLETE")
    case True
    then show ?thesis using not_complete_by_length [OF less.prems(2)] by (intro cut_stuck) (simp add: process_stop)
  next
    case False
    have next_round: "cut C b g" if "receive_round C h = Again g" "calm g" "fits b g" for g
      using receiving_round [OF less.prems(1) _ that(1)] False that less.hyps by blast
    consider "parse_state h = STATUS_LINE \<or> parse_state h = HEADERS \<or> parse_state h = CHUNK_TRAILER"
      | "parse_state h = BODY" | "parse_state h = CHUNK_SIZE" | "parse_state h = CHUNK_DATA"
      using False by (cases "parse_state h") auto
    then show ?thesis
    proof cases
      case 1
      show ?thesis
      proof (rule cut_line [OF 1])
        show "rx_buffer h \<noteq> []" using False by simp
        fix g assume g: "receive_round C h = Again g" "HasCompleteLine (rx_buffer h)"
        with line_round_keeps [OF 1 less.prems(2,3) g] next_round show "cut C b g" by simp
      qed
    next
      case 2
      then show ?thesis using False less.prems by (intro cut_body assms(1)) (auto simp: receiving_def)
    next
      case 3
      have "response_chunked h" using less.prems(1) 3 by (simp add: receiving_def)
      then have "calm g \<and> fits b g" if "receive_round C h = Again g" for g
        using that 3
        by (auto simp: receive_round_def chunk_size_round_def Let_def calm_def fits_def
            split: prod.splits option.splits if_splits)
      with False next_round show ?thesis by (intro cut_chunk_size [OF 3]) simp_all
    next
      case 4
      show ?thesis
      proof (cases "unat (chunk_size h - chunk_received h) \<le> length (rx_buffer h)")
        case True
        then show ?thesis
        proof (rule cut_chunk_end [OF 4 less.prems(1)])
          fix g :: "'a http_client"
          assume "parse_state g = CHUNK_SIZE" "receiving g" "length (rx_buffer g) < length (rx_buffer h)" "response_chunked g"
          then show "cut C b g" by (intro less.hyps) (simp_all add: calm_def fits_def)
        qed
      next
        case part: False
        then show ?thesis using 4 less.prems(1) False by (intro cut_chunk_part assms(1)) auto
      qed
    qed
  qed
qed

section \<open>Segments\<close>

definition ready_for :: "string \<Rightarrow> 'c http_client \<Rightarrow> bool" where
  "ready_for b h \<longleftrightarrow> receiving h \<and> calm h \<and> fits b h"

lemma ready_check_length:
  assumes "receiving h" "fits b h" "parse_state h \<noteq> BODY \<longrightarrow> calm h"
  shows "ready_for b (check_length h)"
  using assms by (auto simp: ready_for_def check_length_def receiving_def calm_def fits_def)

lemma ready_round:
  assumes "ready_for b h" "rx_buffer h \<noteq> []" "parse_state h \<noteq> BODY" "parse_state h \<noteq> COMPLETE"
  shows "case receive_round C h of Return g \<Rightarrow> ready_for b g | Again g \<Rightarrow> ready_for b g"
proof -
  have r: "receiving h" "calm h" "fits b h" using assms(1) by (auto simp: ready_for_def)
  consider "parse_state h = STATUS_LINE \<or> parse_state h = HEADERS \<or> parse_state h = CHUNK_TRAILER" "HasCompleteLine (rx_buffer h)"
    | "parse_state h = STATUS_LINE \<or> parse_state h = HEADERS \<or> parse_state h = CHUNK_TRAILER" "\<not> HasCompleteLine (rx_buffer h)"
    | "parse_state h = CHUNK_SIZE" | "parse_state h = CHUNK_DATA" using assms(3,4) by (cases "parse_state h") auto
  then show ?thesis
  proof cases
    case 1
    show ?thesis
    proof (cases "receive_round C h")
      case (Return g)
      then have "\<exists>rest. g = SetError (h\<lparr>rx_buffer := rest\<rparr>) \<and> length rest < length (rx_buffer h)"
        using 1 GetNextLine_shorter [OF 1(2)]
        by (auto simp: receive_rounds Let_def split: prod.splits option.splits if_splits)
      then show ?thesis using r Return
        by (auto simp: ready_for_def SetError_def receiving_def calm_def fits_def split: ParseState.splits)
    next
      case (Again g)
      then show ?thesis using r receiving_round [OF r(1) assms(2) Again] line_round_keeps [OF 1(1) r(2,3) Again 1(2)]
        by (simp add: ready_for_def)
    qed
  next
    case 2
    then show ?thesis using assms(1) by (simp add: line_round_wait)
  next
    case 3
    then have "response_chunked h" using r(1) by (simp add: receiving_def)
    with 3 show ?thesis
      by (auto simp: receive_round_def chunk_size_round_def Let_def ready_for_def receiving_def calm_def fits_def word_gt_0
          split: prod.splits option.splits)
  next
    case 4
    then have c: "response_chunked h" using r(1) by (simp add: receiving_def)
    show ?thesis
    proof (cases "available h > 0")
      case True
      then have a: "receive_round C h = Again (end_chunk (took C (available h) h))" using 4 by (simp add: data_round)
      with receiving_round [OF r(1) assms(2) a] c 4 show ?thesis
        by (auto simp: ready_for_def calm_def fits_def end_chunk_def took_def)
    next
      case False
      then show ?thesis using 4 assms(1) by (simp add: data_round)
    qed
  qed
qed

lemma process_ready:
  assumes "ready_for b h" "ProcessReceivedData C h = Some g"
  shows "ready_for b g"
  using assms
proof (induction "length (rx_buffer h)" arbitrary: h rule: less_induct)
  case less
  have r: "receiving h" "calm h" "fits b h" using less.prems(1) by (auto simp: ready_for_def)
  show ?case
  proof (cases "rx_buffer h = [] \<or> parse_state h = COMPLETE")
    case True
    with less.prems(2) have "g = check_length h" by (simp add: process_stop)
    with ready_check_length [OF r(1,3)] r(2) show ?thesis by simp
  next
    case False
    show ?thesis
    proof (cases "parse_state h = BODY")
      case True
      then have nc: "\<not> response_chunked h" using r(1) by (simp add: receiving_def)
      with True False less.prems(2) have g: "g = check_length (take_body C h)" by (simp add: process_body)
      have "unat (total_body_received h + of_nat (length (rx_buffer h))) = unat (total_body_received h) + length (rx_buffer h)"
        using r(3) nc by (simp add: fits_def unat_word_ariths unat_of_nat)
      with r(3) nc have "fits b (take_body C h)" by (simp add: fits_def take_body_def)
      with True nc show ?thesis unfolding g by (intro ready_check_length) (auto simp: take_body_def receiving_def)
    next
      case body: False
      note rr = ready_round [OF less.prems(1) _ body, of C] False
      show ?thesis
      proof (cases "receive_round C h")
        case (Return k)
        then show ?thesis using rr less.prems(2) by (simp add: process_step)
      next
        case (Again k)
        then have "ready_for b k" "length (rx_buffer k) < length (rx_buffer h)" "ProcessReceivedData C k = Some g"
          using rr less.prems(2) receiving_round [OF r(1) _ Again] by (auto simp: process_step)
        then show ?thesis using less.hyps by blast
      qed
    qed
  qed
qed

fun receive_all :: "'c chunk_ops \<Rightarrow> string list \<Rightarrow> 'c http_client \<Rightarrow> 'c http_client option" where
  "receive_all C [] h = Some h"
| "receive_all C (segment # segments) h =
     (case http_OnTcpData C segment h of None \<Rightarrow> None | Some h' \<Rightarrow> receive_all C segments h')"

lemma OnTcpData_more: "http_OnTcpData C data h = ProcessReceivedData C (more data h)"
  by (simp add: http_OnTcpData_def more_def)

lemma ready_more: "ready_for (a @ b) h \<Longrightarrow> ready_for b (more a h)"
  by (auto simp: ready_for_def more_def calm_def fits_def)

lemma segments_same:
  assumes "segments \<noteq> []" "stores C" "ready_for (concat segments) h"
    and "http_OnTcpData C (concat segments) h = Some h2" "\<not> error_bit h2" "no_surplus h2"
  shows "\<exists>h3. receive_all C segments h = Some h3 \<and> same C h2 h3"
  using assms(1,3-)
proof (induction segments arbitrary: h h2 rule: list_nonempty_induct)
  case (single s)
  then show ?case by simp
next
  case (cons s segments)
  let ?b = "concat segments"
  have r: "ready_for ?b (more s h)" using cons.prems(1) by (simp add: ready_more)
  then obtain h1 where h1: "ProcessReceivedData C (more s h) = Some h1"
    using ProcessReceivedData_returns [of "more s h" C] unfolding ready_for_def by blast
  have "more ?b (more s h) = more (concat (s # segments)) h" by (simp add: more_def)
  then have "ProcessReceivedData C (more ?b (more s h)) = Some h2"
    using cons.prems(2) by (simp add: OnTcpData_more)
  moreover have "cut C ?b (more s h)"
    using process_cut [OF assms(2)] r by (simp add: ready_for_def)
  ultimately obtain h3 where h3: "ProcessReceivedData C (more ?b h1) = Some h3" "same C h2 h3"
    using h1 cons.prems(3,4) unfolding cut_def by blast
  have "\<not> error_bit h3" "no_surplus h3" using h3(2) cons.prems(3,4) by (auto elim!: sameE simp: no_surplus_def)
  moreover have "ready_for ?b h1" using process_ready [OF r h1] .
  moreover have "http_OnTcpData C ?b h1 = Some h3" using h3(1) by (simp add: OnTcpData_more)
  ultimately obtain h4 where "receive_all C segments h1 = Some h4" "same C h3 h4"
    using cons.IH by blast
  then show ?case using h1 same_trans [OF h3(2)] by (auto simp: OnTcpData_more)
qed

end
