(* ===== verification/Http_Response.thy ===== *)
theory Http_Response
  imports Http_Stream
begin

text \<open>
  What the client makes of a well-formed response, and the round trip of the chunked coding: \<open>http_Write\<close>
  of the same class is the encoder.
\<close>

section \<open>Numerals\<close>


lemma hex_value_cases:
  assumes "hex_value c = Some d"
  shows "(c = char_of (48 + d) \<and> d < 10) \<or> (c = char_of (87 + d) \<and> 10 \<le> d \<and> d < 16) \<or> (c = char_of (55 + d) \<and> 10 \<le> d \<and> d < 16)"
  using assms by (auto simp: hex_value_def less_eq_char_def split: if_splits)

lemma hex_char_plain:
  assumes "hex_value c = Some d"
  shows "\<not> isspace c" "c \<noteq> CHR ''-''" "c \<noteq> CHR ''+''" "c \<noteq> CHR ''x''" "c \<noteq> CHR ''X''" "c \<noteq> CHR '';''"
    "c \<noteq> CHR 0x00" "c \<notin> blank_or_eol" "c \<noteq> CHR '':''"
  using assms by (auto simp: hex_value_def less_eq_char_def isspace_def split: if_splits)

lemma base_digit_hex: "base_digit b c = Some d \<Longrightarrow> hex_value c = Some d"
  by (auto simp: base_digit_def split: option.splits if_splits)

lemma base_digit_plain:
  assumes "is_base_digit b c"
  shows "\<not> isspace c" "c \<noteq> CHR ''-''" "c \<noteq> CHR ''+''" "c \<noteq> CHR ''x''" "c \<noteq> CHR ''X''" "c \<noteq> CHR '';''"
    "c \<noteq> CHR 0x00" "c \<notin> blank_or_eol" "c \<noteq> CHR '':''"
proof -
  from assms obtain d where d: "hex_value c = Some d" using base_digit_hex by blast
  show "\<not> isspace c" "c \<noteq> CHR ''-''" "c \<noteq> CHR ''+''" "c \<noteq> CHR ''x''" "c \<noteq> CHR ''X''" "c \<noteq> CHR '';''"
    "c \<noteq> CHR 0x00" "c \<notin> blank_or_eol" "c \<noteq> CHR '':''"
    by (rule hex_char_plain [OF d])+
qed

lemma strto_digits:
  assumes "s \<noteq> []" "list_all (is_base_digit b) s"
  shows "strto_subject b s = (False, digits_value b s, length s)"
proof -
  have c: "c \<in> set s \<Longrightarrow> is_base_digit b c" for c using assms(2) by (simp add: list_all_iff)
  have "takeWhile isspace s = []" using assms(1) base_digit_plain(1) [OF c] by (cases s) auto
  moreover have "\<not> (hd s = CHR ''-'' \<or> hd s = CHR ''+'')" using assms(1) base_digit_plain(2,3) [OF c] by simp
  moreover have "2 \<le> length s \<Longrightarrow> s ! 1 \<noteq> CHR ''x'' \<and> s ! 1 \<noteq> CHR ''X''"
    using base_digit_plain(4,5) [OF c, of "s ! 1"] by simp
  ultimately show ?thesis using assms by (auto simp: strto_subject_def Let_def takeWhile_id)
qed

lemma digits_plain:
  assumes "list_all (is_base_digit b) s"
  shows "c_str s = s" "str_find s '';'' 0 = None" "trim_right blank_or_eol s = s"
proof -
  have c: "c \<in> set s \<Longrightarrow> is_base_digit b c" for c using assms by (simp add: list_all_iff)
  show "c_str s = s" using base_digit_plain(7) [OF c] by (intro takeWhile_id) (simp add: list_all_iff)
  show "str_find s '';'' 0 = None"
    using base_digit_plain(6) [OF c] by (auto simp: str_find_None match_at_single)
  have "dropWhile (\<lambda>c. c \<in> blank_or_eol) (rev s) = rev s"
    using base_digit_plain(8) [OF c] by (cases "rev s") (auto simp flip: set_rev [of s])
  then show "trim_right blank_or_eol s = s" by (simp add: trim_right_def)
qed

lemma hex_digit_value: "d < 16 \<Longrightarrow> base_digit 16 (''0123456789abcdef'' ! d) = Some d"
proof -
  have "list_all (\<lambda>d. base_digit 16 (''0123456789abcdef'' ! d) = Some d) [0..<16]" by code_simp
  then show "d < 16 \<Longrightarrow> base_digit 16 (''0123456789abcdef'' ! d) = Some d" by (simp add: list_all_iff)
qed

lemma to_hex_digits: "to_hex n \<noteq> [] \<and> list_all (is_base_digit 16) (to_hex n) \<and> digits_value 16 (to_hex n) = n"
proof (induction n rule: to_hex.induct)
  case (1 n)
  show ?case
  proof (cases "n < 16")
    case True
    then show ?thesis using hex_digit_value [of n] by (subst (1 2 3) to_hex.simps) (simp add: digits_value_def)
  next
    case False
    with 1 have IH: "to_hex (n div 16) \<noteq> []" "list_all (is_base_digit 16) (to_hex (n div 16))"
      "digits_value 16 (to_hex (n div 16)) = n div 16" by auto
    have e: "to_hex n = to_hex (n div 16) @ [''0123456789abcdef'' ! (n mod 16)]"
      using False by (subst to_hex.simps) simp
    show ?thesis using IH hex_digit_value [of "n mod 16"] unfolding e by (simp add: digits_value_def)
  qed
qed

lemma digit_base: "isdigit c \<Longrightarrow> base_digit 10 c = Some (digit_value c)"
  by (auto simp: isdigit_char base_digit_def hex_value_def less_eq_char_def digit_char)

lemma to_string_base: "list_all (is_base_digit 10) (to_string n) \<and> digits_value 10 (to_string n) = n"
proof -
  have d: "list_all isdigit (to_string n)" using to_string_digits by simp
  have "digits_value 10 s = decimal s" if "list_all isdigit s" for s
    unfolding digits_value_def decimal_def
    by (rule foldl_cong) (use that in \<open>auto simp: list_all_iff digit_base\<close>)
  with d show ?thesis using decimal_to_string [of n] by (auto simp: list_all_iff digit_base)
qed

lemma strtoul_to_string: "n < 2 ^ 32 \<Longrightarrow> strtoul 10 (to_string n) = (of_nat n, length (to_string n))"
  using to_string_base [of n] to_string_digits [of n] by (simp add: strtoul_def strto_digits)

lemma strtol_to_string: "n < 2 ^ 31 \<Longrightarrow> strtol 10 (to_string n) = (int n, length (to_string n))"
  using to_string_base [of n] to_string_digits [of n] by (simp add: strtol_def strto_digits)

lemma ParseChunkSize_to_hex: "n < 2 ^ 32 \<Longrightarrow> ParseChunkSize (to_hex n) = of_nat n"
proof -
  have d: "to_hex n \<noteq> []" "list_all (is_base_digit 16) (to_hex n)" "digits_value 16 (to_hex n) = n"
    using to_hex_digits [of n] by auto
  assume "n < 2 ^ 32"
  then show ?thesis using d(1)
    unfolding ParseChunkSize_def digits_plain(2) [OF d(2)] option.case Let_def digits_plain(3) [OF d(2)]
      digits_plain(1) [OF d(2)] strtoul_def strto_digits [OF d(1,2)] d(3) by simp
qed

section \<open>The chunked coding\<close>

definition chunked_text :: "string list \<Rightarrow> string" where
  "chunked_text pieces = concat (map request_chunk pieces) @ request_chunk []"

lemma hex_line: "LF \<notin> set (to_hex n @ [CR])" "chomp (to_hex n @ [CR]) = to_hex n"
  using to_hex_digits [of n] base_digit_plain(8) [of 16 LF] by (auto simp: list_all_iff chomp_def)

lemma size_line: "next_nonempty_line (to_hex n @ crlf @ r) = (Some (to_hex n), r)"
  using hex_line [of n] next_line [of "to_hex n @ [CR]" r] has_line [of "to_hex n @ [CR]" r] to_hex_digits [of n]
  by (subst next_nonempty_line.simps) simp

lemma strip_crlf_crlf: "strip_crlf (CR # LF # s) = s"
  by (simp add: strip_crlf_def substr_def)

lemma process_chunk:
  assumes "parse_state h = CHUNK_SIZE" "rx_buffer h = request_chunk p @ r" "p \<noteq> []" "length p < 2 ^ 32"
  shows "ProcessReceivedData C h = ProcessReceivedData C (h\<lparr>body_chunks := body_chunks h @ [make_chunk C p],
     total_body_received := total_body_received h + of_nat (length p), chunk_size := of_nat (length p),
     chunk_received := of_nat (length p), rx_buffer := r\<rparr>)"
proof -
  let ?n = "length p"
  have rx: "rx_buffer h = to_hex ?n @ crlf @ (p @ crlf @ r)" using assms(2,3) by (simp add: request_chunk_def)
  have u: "unat (of_nat ?n :: u32) = ?n" using assms(4) by (simp add: unat_of_nat)
  then have z: "(of_nat ?n :: u32) \<noteq> 0" using assms(3) by (metis length_0_conv unat_0)
  define g where "g = h\<lparr>rx_buffer := p @ crlf @ r, chunk_size := of_nat ?n, chunk_received := 0, parse_state := CHUNK_DATA\<rparr>"
  have "receive_round C h = Again g"
    using assms(1,4) z size_line [of ?n "p @ crlf @ r"]
    by (simp add: receive_round_def chunk_size_round_def rx Let_def ParseChunkSize_to_hex g_def)
  then have "ProcessReceivedData C h = ProcessReceivedData C g"
    using assms(1) rx to_hex_digits [of ?n] by (simp add: process_step)
  also have "available g = ?n" using u by (simp add: available_def g_def)
  then have "receive_round C g = Again (end_chunk (took C ?n g))"
    using assms(3) by (subst data_round) (simp_all add: g_def)
  then have "ProcessReceivedData C g = ProcessReceivedData C (end_chunk (took C ?n g))"
    using assms(3) by (simp add: process_step g_def)
  also have "end_chunk (took C ?n g) = h\<lparr>body_chunks := body_chunks h @ [make_chunk C p],
     total_body_received := total_body_received h + of_nat ?n, chunk_size := of_nat ?n,
     chunk_received := of_nat ?n, rx_buffer := r\<rparr>"
    using assms(1) by (cases h) (simp add: end_chunk_def took_def g_def strip_crlf_crlf)
  finally show ?thesis .
qed

lemma process_last_chunk:
  assumes "parse_state h = CHUNK_SIZE" "rx_buffer h = request_chunk []"
  shows "ProcessReceivedData C h = Some (h\<lparr>rx_buffer := [], chunk_size := 0, chunk_received := 0,
     parse_state := COMPLETE, eof := True, complete_bit := True\<rparr>)"
proof -
  define g where "g = h\<lparr>rx_buffer := crlf, chunk_size := 0, chunk_received := 0, parse_state := CHUNK_TRAILER\<rparr>"
  have z: "to_hex 0 = ''0''" by (subst to_hex.simps) simp
  have rx: "rx_buffer h = to_hex 0 @ crlf @ crlf" using assms(2) by (simp add: request_chunk_def z)
  have "receive_round C h = Again g"
    using assms(1) size_line [of 0 crlf] ParseChunkSize_to_hex [of 0]
    by (simp add: receive_round_def chunk_size_round_def rx Let_def g_def)
  then have "ProcessReceivedData C h = ProcessReceivedData C g" using assms(1)
    by (simp add: process_step rx z)
  also have "receive_round C g = Again (g\<lparr>rx_buffer := [], parse_state := COMPLETE, eof := True, complete_bit := True\<rparr>)"
    using next_line [of "[CR]" "[]"] has_line [of "[CR]" "[]"]
    by (simp add: receive_round_def chunk_trailer_round_def g_def chomp_def)
  then have "ProcessReceivedData C g = Some (g\<lparr>rx_buffer := [], parse_state := COMPLETE, eof := True, complete_bit := True\<rparr>)"
    by (simp add: process_step g_def process_stop check_length_def)
  finally show ?thesis by (simp add: g_def)
qed

lemma process_chunked:
  assumes "stores C" "parse_state h = CHUNK_SIZE" "rx_buffer h = chunked_text pieces"
    and "list_all (\<lambda>p. p \<noteq> [] \<and> length p < 2 ^ 32) pieces"
  shows "\<exists>h'. ProcessReceivedData C h = Some h' \<and> parse_state h' = COMPLETE \<and> eof h' \<and> rx_buffer h' = []
     \<and> body C h' = body C h @ concat pieces \<and> error_bit h' = error_bit h \<and> connection_error h' = connection_error h
     \<and> status_code h' = status_code h \<and> response_headers h' = response_headers h \<and> response_chunked h' = response_chunked h
     \<and> headers_received h' = headers_received h"
  using assms(2-)
proof (induction pieces arbitrary: h)
  case Nil
  then show ?case by (simp add: chunked_text_def process_last_chunk body_def)
next
  case (Cons p pieces)
  let ?g = "h\<lparr>body_chunks := body_chunks h @ [make_chunk C p],
     total_body_received := total_body_received h + of_nat (length p), chunk_size := of_nat (length p),
     chunk_received := of_nat (length p), rx_buffer := chunked_text pieces\<rparr>"
  have "ProcessReceivedData C h = ProcessReceivedData C ?g"
    using Cons.prems by (intro process_chunk) (simp_all add: chunked_text_def)
  moreover have "body C ?g = body C h @ p" using assms(1) by (simp add: body_def stores_def)
  ultimately show ?case using Cons.IH [of ?g] Cons.prems by simp
qed

end
