(* ===== verification/Http_Exchange.thy ===== *)
theory Http_Exchange
  imports Http_Response
begin

text \<open>
  A whole response: informational heads, the final head, and a body in the chunked coding or of a known
  length, received in any segmentation.
\<close>

section \<open>Heads\<close>

definition clean_header :: "string \<times> string \<Rightarrow> bool" where
  "clean_header kv \<longleftrightarrow> (case kv of (k, v) \<Rightarrow> k \<noteq> [] \<and> LF \<notin> set k \<and> CHR '':'' \<notin> set k \<and> LF \<notin> set v
     \<and> trim_right blank (trim_left blank k) = k \<and> trim_right blank_or_eol (trim_left blank v) = v)"

definition head_text :: "nat \<Rightarrow> string \<Rightarrow> (string \<times> string) list \<Rightarrow> string" where
  "head_text status reason hs =
     ''HTTP/1.1 '' @ to_string status @ '' '' @ reason @ crlf
     @ concat (map (\<lambda>(k, v). request_header_line k v) hs) @ crlf"

definition header_of :: "(string \<times> string) list \<Rightarrow> string \<Rightarrow> string option" where
  "header_of hs key = map_of (rev (map (\<lambda>(k, v). (tolower k, v)) hs)) key"

definition store_headers :: "(string \<times> string) list \<Rightarrow> (string \<times> HeaderEntry) list \<Rightarrow> (string \<times> HeaderEntry) list" where
  "store_headers hs m = fold (\<lambda>(k, v). headers_assign (tolower k) \<lparr>original_key = k, header_value = v\<rparr>) hs m"

lemma map_of_headers_assign: "map_of (headers_assign k v m) = (map_of m)(k \<mapsto> v)"
  by (induction k v m rule: headers_assign.induct) auto

lemma store_headers_lookup:
  "map_option header_value (map_of (store_headers hs m) key)
     = (case header_of hs key of None \<Rightarrow> map_option header_value (map_of m key) | Some v \<Rightarrow> Some v)"
proof (induction hs arbitrary: m)
  case Nil
  then show ?case by (simp add: store_headers_def header_of_def)
next
  case (Cons kv hs)
  obtain k v where kv: "kv = (k, v)" by force
  have "store_headers (kv # hs) m = store_headers hs (headers_assign (tolower k) \<lparr>original_key = k, header_value = v\<rparr> m)"
    by (simp add: store_headers_def kv)
  moreover have "header_of (kv # hs) key = (case header_of hs key of None \<Rightarrow> (if key = tolower k then Some v else None) | Some w \<Rightarrow> Some w)"
    by (simp add: header_of_def kv map_add_def split: option.split)
  ultimately show ?case by (auto simp: Cons.IH map_of_headers_assign split: option.split)
qed

lemma find_char: "c \<notin> set k \<Longrightarrow> str_find (k @ c # r) [c] 0 = Some (length k)"
  by (auto simp: str_find_Some match_at_single nth_append in_set_conv_nth)

lemma ParseHeaderLine_clean:
  "clean_header (k, v) \<Longrightarrow> ParseHeaderLine (k @ '': '' @ v) = Some (tolower k, \<lparr>original_key = k, header_value = v\<rparr>)"
  using find_char [of "CHR '':''" k "CHR '' '' # v"]
  by (simp add: ParseHeaderLine_def clean_header_def substr_def Let_def trim_left_def)

lemma token_of: "list_all (\<lambda>c. \<not> isspace c) t \<Longrightarrow> isspace c \<Longrightarrow> t \<noteq> [] \<Longrightarrow> extract_token (t @ c # r) = (t, c # r)"
proof -
  assume t: "list_all (\<lambda>c. \<not> isspace c) t" "isspace c" "t \<noteq> []"
  then have "dropWhile isspace (t @ c # r) = t @ c # r" by (cases t) auto
  moreover have "takeWhile (\<lambda>c. \<not> isspace c) (t @ c # r) = t" "dropWhile (\<lambda>c. \<not> isspace c) (t @ c # r) = c # r"
    using t(1,2) by (induction t) auto
  ultimately show ?thesis by (simp add: extract_token_def)
qed

lemma blank_is_space: "isspace (CHR '' '')"
  by (simp add: isspace_def)

lemma numeral_not_space: "list_all (\<lambda>c. \<not> isspace c) (to_string n)"
  using to_string_base [of n] base_digit_plain(1) [of 10] by (auto simp: list_all_iff)

lemma numeral_no_nul: "list_all (\<lambda>c. c \<noteq> CHR 0x00) (to_string n)"
  using to_string_base [of n] base_digit_plain(7) [of 10] by (auto simp: list_all_iff)

lemma extract_token_blank: "extract_token (CHR '' '' # s) = extract_token s"
  by (simp add: extract_token_def blank_is_space)

lemma ParseStatusLine_line:
  assumes "100 \<le> status" "status \<le> 999"
  shows "ParseStatusLine (''HTTP/1.1 '' @ to_string status @ '' '' @ reason) = Some (int status)"
proof -
  have d: "to_string status \<noteq> []" "list_all (is_base_digit 10) (to_string status)"
    using to_string_digits to_string_base by auto
  have "extract_token (''HTTP/1.1'' @ CHR '' '' # to_string status @ '' '' @ reason)
      = (''HTTP/1.1'', CHR '' '' # to_string status @ '' '' @ reason)"
    by (rule token_of) (simp_all add: isspace_def)
  moreover have "extract_token (CHR '' '' # to_string status @ '' '' @ reason) = (to_string status, '' '' @ reason)"
    using token_of [OF numeral_not_space blank_is_space d(1)] by (simp add: extract_token_blank)
  ultimately show ?thesis using assms d(1) numeral_no_nul [of status] by (simp add: ParseStatusLine_def Let_def takeWhile_id strtol_to_string)
qed

lemma chomp_CR: "chomp (l @ [CR]) = l"
  by (simp add: chomp_def)

lemma crlf_line_split: "LF \<notin> set l \<Longrightarrow> GetNextLine (l @ crlf @ r) = (l, r)" "HasCompleteLine (l @ crlf @ r)"
  using next_line [of "l @ [CR]" r] has_line [of "l @ [CR]" r] by (auto simp: chomp_CR)

lemma process_header:
  assumes "parse_state h = HEADERS" "rx_buffer h = request_header_line k v @ r" "clean_header (k, v)"
  shows "ProcessReceivedData C h = ProcessReceivedData C (h\<lparr>rx_buffer := r,
     response_headers := headers_assign (tolower k) \<lparr>original_key = k, header_value = v\<rparr> (response_headers h)\<rparr>)"
proof -
  let ?l = "k @ '': '' @ v"
  have rx: "rx_buffer h = ?l @ crlf @ r" using assms(2) by (simp add: request_header_line_def)
  have "LF \<notin> set ?l" using assms(3) by (simp add: clean_header_def)
  from crlf_line_split(1) [OF this, of r] have g: "GetNextLine (rx_buffer h) = (?l, r)" by (simp only: rx)
  have c: "HasCompleteLine (rx_buffer h)" unfolding rx by (rule crlf_line_split(2))
  have "receive_round C h = Again (h\<lparr>rx_buffer := r,
     response_headers := headers_assign (tolower k) \<lparr>original_key = k, header_value = v\<rparr> (response_headers h)\<rparr>)"
    using assms(1) ParseHeaderLine_clean [OF assms(3)] c
    by (simp add: receive_round_def headers_round_def g Let_def)
  moreover have "rx_buffer h \<noteq> []" by (simp add: rx)
  ultimately show ?thesis using assms(1) by (simp add: process_step)
qed

lemma process_headers:
  assumes "parse_state h = HEADERS" "rx_buffer h = concat (map (\<lambda>(k, v). request_header_line k v) hs) @ crlf @ r"
    and "list_all clean_header hs"
  shows "ProcessReceivedData C h = ProcessReceivedData C (end_of_headers (h\<lparr>rx_buffer := r,
     response_headers := store_headers hs (response_headers h)\<rparr>))"
  using assms
proof (induction hs arbitrary: h)
  case Nil
  have g: "GetNextLine (rx_buffer h) = ([], r)" "HasCompleteLine (rx_buffer h)"
    using crlf_line_split [of "[]" r] Nil.prems(2) by simp_all
  have u: "h\<lparr>rx_buffer := r, response_headers := response_headers h\<rparr> = h\<lparr>rx_buffer := r\<rparr>" by simp
  have "receive_round C h = Again (end_of_headers (h\<lparr>rx_buffer := r\<rparr>))"
    using Nil.prems(1) g by (simp add: receive_round_def headers_round_def)
  then show ?case using Nil.prems(1,2) by (simp add: process_step store_headers_def u)
next
  case (Cons kv hs)
  obtain k v where kv: "kv = (k, v)" by force
  let ?g = "h\<lparr>rx_buffer := concat (map (\<lambda>(k, v). request_header_line k v) hs) @ crlf @ r,
     response_headers := headers_assign (tolower k) \<lparr>original_key = k, header_value = v\<rparr> (response_headers h)\<rparr>"
  have "ProcessReceivedData C h = ProcessReceivedData C ?g"
    using Cons.prems by (intro process_header) (simp_all add: kv)
  also have "\<dots> = ProcessReceivedData C (end_of_headers (?g\<lparr>rx_buffer := r,
     response_headers := store_headers hs (response_headers ?g)\<rparr>))"
    using Cons.prems by (intro Cons.IH) simp_all
  finally show ?case by (simp add: kv store_headers_def)
qed

lemma process_head:
  assumes "parse_state h = STATUS_LINE" "rx_buffer h = head_text status reason hs @ r"
    and "100 \<le> status" "status \<le> 999" "LF \<notin> set reason" "list_all clean_header hs"
  shows "ProcessReceivedData C h = ProcessReceivedData C (end_of_headers (h\<lparr>rx_buffer := r, status_code := int status,
     parse_state := HEADERS, response_headers := store_headers hs (response_headers h)\<rparr>))"
proof -
  let ?l = "''HTTP/1.1 '' @ to_string status @ '' '' @ reason" and ?t = "concat (map (\<lambda>(k, v). request_header_line k v) hs) @ crlf @ r"
  have rx: "rx_buffer h = ?l @ crlf @ ?t" using assms(2) by (simp add: head_text_def)
  have "LF \<notin> set (to_string status)" using numeral_not_space [of status] by (auto simp: list_all_iff isspace_def)
  then have "LF \<notin> set ?l" using assms(5) by simp
  from crlf_line_split(1) [OF this, of ?t] have g: "GetNextLine (rx_buffer h) = (?l, ?t)" by (simp only: rx)
  have c: "HasCompleteLine (rx_buffer h)" unfolding rx by (rule crlf_line_split(2))
  let ?g = "h\<lparr>rx_buffer := ?t, status_code := int status, parse_state := HEADERS\<rparr>"
  have "receive_round C h = Again ?g"
    using assms(1) ParseStatusLine_line [OF assms(3,4), of reason] c
    by (simp add: receive_round_def status_round_def g Let_def)
  moreover have "rx_buffer h \<noteq> []" by (simp add: rx)
  ultimately have "ProcessReceivedData C h = ProcessReceivedData C ?g" using assms(1) by (simp add: process_step)
  also have "\<dots> = ProcessReceivedData C (end_of_headers (?g\<lparr>rx_buffer := r,
     response_headers := store_headers hs (response_headers ?g)\<rparr>))"
    using assms(6) by (intro process_headers) simp_all
  also have "?g\<lparr>rx_buffer := r, response_headers := store_headers hs (response_headers ?g)\<rparr>
      = h\<lparr>rx_buffer := r, status_code := int status,
     parse_state := HEADERS, response_headers := store_headers hs (response_headers h)\<rparr>" by simp
  finally show ?thesis .
qed

section \<open>Responses\<close>

type_synonym head = "nat \<times> string \<times> (string \<times> string) list"

definition clean_head :: "head \<Rightarrow> bool" where
  "clean_head m = (case m of (status, reason, hs) \<Rightarrow>
     100 \<le> status \<and> status \<le> 999 \<and> LF \<notin> set reason \<and> list_all clean_header hs)"

definition informational :: "head \<Rightarrow> bool" where
  "informational m = (case m of (status, reason, hs) \<Rightarrow> status < 200 \<and> status \<noteq> 101)"

definition heads_text :: "head list \<Rightarrow> string" where
  "heads_text hds = concat (map (\<lambda>(status, reason, hs). head_text status reason hs) hds)"

definition chunked :: "(string \<times> string) list \<Rightarrow> bool" where
  "chunked hs = (case header_of hs ''transfer-encoding'' of None \<Rightarrow> False | Some v \<Rightarrow> str_contains v ''chunked'')"

text \<open>\<open>coded\<close> is the body \<open>payload\<close> in the coding that the headers announce.\<close>

definition body_coding :: "(string \<times> string) list \<Rightarrow> string \<Rightarrow> string \<Rightarrow> bool" where
  "body_coding hs payload coded \<longleftrightarrow>
    (if chunked hs
     then \<exists>pieces. list_all (\<lambda>p. p \<noteq> []) pieces \<and> payload = concat pieces \<and> coded = chunked_text pieces
     else payload \<noteq> [] \<and> coded = payload \<and> header_of hs ''content-length'' = Some (to_string (length payload)))"

lemma process_interim:
  assumes "list_all (\<lambda>m. clean_head m \<and> informational m) interim"
    and "parse_state h = STATUS_LINE" "response_headers h = []" "rx_buffer h = heads_text interim @ r"
  shows "\<exists>status. ProcessReceivedData C h = ProcessReceivedData C (h\<lparr>rx_buffer := r, status_code := status\<rparr>)"
  using assms
proof (induction interim arbitrary: h)
  case Nil
  have "h = h\<lparr>rx_buffer := r, status_code := status_code h\<rparr>" using Nil.prems(4) by (simp add: heads_text_def)
  then show ?case by metis
next
  case (Cons i interim)
  obtain status reason hs where i: "i = (status, reason, hs)" by (cases i) auto
  let ?g = "h\<lparr>rx_buffer := heads_text interim @ r, status_code := int status,
     parse_state := HEADERS, response_headers := store_headers hs (response_headers h)\<rparr>"
  have "ProcessReceivedData C h = ProcessReceivedData C (end_of_headers ?g)"
    using Cons.prems by (intro process_head) (auto simp: i heads_text_def clean_head_def)
  also have "end_of_headers ?g = h\<lparr>rx_buffer := heads_text interim @ r, status_code := int status\<rparr>"
    using Cons.prems by (cases h) (auto simp: end_of_headers_def i clean_head_def informational_def)
  also obtain st where "ProcessReceivedData C (h\<lparr>rx_buffer := heads_text interim @ r, status_code := int status\<rparr>)
      = ProcessReceivedData C (h\<lparr>rx_buffer := r, status_code := st\<rparr>)"
    using Cons.IH [of "h\<lparr>rx_buffer := heads_text interim @ r, status_code := int status\<rparr>"] Cons.prems by auto
  finally show ?case by blast
qed

text \<open>What a complete response leaves behind.\<close>

definition holds_response :: "'c chunk_ops \<Rightarrow> nat \<Rightarrow> (string \<times> string) list \<Rightarrow> string \<Rightarrow> 'c http_client \<Rightarrow> bool" where
  "holds_response C status hs payload h \<longleftrightarrow>
     GetStatusCode h = int status \<and> ReadAll C h = payload \<and> parse_state h = COMPLETE \<and> eof h
     \<and> \<not> connection_error h \<and> \<not> error_bit h \<and> IsDataComplete h
     \<and> (\<forall>key. GetResponseHeader key h = (case header_of hs (tolower key) of None \<Rightarrow> [] | Some v \<Rightarrow> v))"

definition fresh :: "'c http_client \<Rightarrow> bool" where
  "fresh h \<longleftrightarrow> parse_state h = STATUS_LINE \<and> response_headers h = [] \<and> rx_buffer h = [] \<and> body_chunks h = []
     \<and> \<not> response_chunked h \<and> \<not> error_bit h \<and> \<not> connection_error h \<and> total_body_received h = 0 \<and> content_length h = 0"

lemma note_connection_frame [simp]:
  "response_headers (note_connection_header h) = response_headers h" "rx_buffer (note_connection_header h) = rx_buffer h"
  "status_code (note_connection_header h) = status_code h" "error_bit (note_connection_header h) = error_bit h"
  "connection_error (note_connection_header h) = connection_error h"
  "total_body_received (note_connection_header h) = total_body_received h"
  "response_chunked (note_connection_header h) = response_chunked h"
  "content_length (note_connection_header h) = content_length h" "eof (note_connection_header h) = eof h"
  by (simp_all add: note_connection_header_def split: option.split)

lemma response_header_note [simp]: "response_header key (note_connection_header h) = response_header key h"
  by (simp add: response_header_def)

lemma response_header_state [simp]: "response_header key (h\<lparr>parse_state := st\<rparr>) = response_header key h"
  by (simp add: response_header_def)

lemma GetResponseHeader_lookup:
  assumes "response_headers h = store_headers hs []"
  shows "GetResponseHeader key h = (case header_of hs (tolower key) of None \<Rightarrow> [] | Some v \<Rightarrow> v)"
    and "response_header key' h = header_of hs key'"
  using store_headers_lookup [of hs "[]" "tolower key"] store_headers_lookup [of hs "[]" key']
  by (simp_all add: GetResponseHeader_def response_header_def assms split: option.splits)

lemma parse_content_length_to_string: "n < 2 ^ 32 \<Longrightarrow> parse_content_length (to_string n) = of_nat n"
  using numeral_no_nul [of n] to_string_digits [of n]
  by (simp add: parse_content_length_def takeWhile_id strtoul_to_string Let_def)

lemma response_in_one_piece:
  assumes "stores C" "list_all (\<lambda>m. clean_head m \<and> informational m) interim"
    and "clean_head (status, reason, hs)" "\<not> informational (status, reason, hs)" "body_coding hs payload coded"
    and "length (heads_text interim @ head_text status reason hs @ coded) < 2 ^ 32" "fresh h"
  shows "\<exists>h'. http_OnTcpData C (heads_text interim @ head_text status reason hs @ coded) h = Some h'
     \<and> holds_response C status hs payload h' \<and> no_surplus h'"
proof -
  let ?w = "heads_text interim @ head_text status reason hs @ coded"
  have f: "parse_state h = STATUS_LINE" "response_headers h = []" "rx_buffer h = []" "body_chunks h = []"
    "\<not> response_chunked h" "\<not> error_bit h" "\<not> connection_error h" "total_body_received h = 0" "content_length h = 0"
    using assms(7) by (auto simp: fresh_def)
  obtain st where st: "http_OnTcpData C ?w h
      = ProcessReceivedData C (h\<lparr>rx_buffer := head_text status reason hs @ coded, status_code := st\<rparr>)"
    using process_interim [OF assms(2), of "h\<lparr>rx_buffer := ?w\<rparr>" "head_text status reason hs @ coded" C] f
    by (auto simp: http_OnTcpData_def)
  define g where "g = h\<lparr>rx_buffer := coded, status_code := int status, parse_state := HEADERS,
     response_headers := store_headers hs []\<rparr>"
  have "http_OnTcpData C ?w h = ProcessReceivedData C (end_of_headers g)"
    unfolding st g_def using f assms(3)
    by (subst process_head [where status = status and reason = reason and hs = hs and r = coded])
      (simp_all add: clean_head_def)
  also have e: "end_of_headers g = (choose_body (note_connection_header g))\<lparr>headers_received := True, headers_bit := True\<rparr>"
    using assms(3,4) by (auto simp: end_of_headers_def g_def informational_def clean_head_def)
  finally have run: "http_OnTcpData C ?w h = ProcessReceivedData C (end_of_headers g)" unfolding e .
  have lk: "response_header key g = header_of hs key" for key
    by (rule GetResponseHeader_lookup(2)) (simp add: g_def)
  have lc: "length coded < 2 ^ 32" using assms(6) by simp
  show ?thesis
  proof (cases "chunked hs")
    case True
    then obtain pieces where p: "list_all (\<lambda>p. p \<noteq> []) pieces" "payload = concat pieces" "coded = chunked_text pieces"
      using assms(5) by (auto simp: body_coding_def)
    have "length p \<le> length coded" if "p \<in> set pieces" for p
    proof -
      obtain xs ys where "pieces = xs @ p # ys" using \<open>p \<in> set pieces\<close> by (meson split_list)
      then show ?thesis by (simp add: p(3) chunked_text_def request_chunk_def)
    qed
    then have small: "list_all (\<lambda>p. p \<noteq> [] \<and> length p < 2 ^ 32) pieces"
      using p(1) lc by (auto simp: list_all_iff intro: le_less_trans)
    let ?k = "end_of_headers g"
    have k: "parse_state ?k = CHUNK_SIZE" "rx_buffer ?k = chunked_text pieces" "body C ?k = []" "\<not> error_bit ?k"
      "\<not> connection_error ?k" "status_code ?k = int status" "response_headers ?k = store_headers hs []"
      "response_chunked ?k" "headers_received ?k"
      using True f p(3) unfolding e choose_body_def
      by (auto simp: lk chunked_def body_def split: option.splits) (simp_all add: g_def)
    obtain h' where h': "ProcessReceivedData C ?k = Some h'" "parse_state h' = COMPLETE" "eof h'"
      "body C h' = concat pieces" "\<not> error_bit h'" "\<not> connection_error h'" "status_code h' = int status"
      "response_headers h' = store_headers hs []" "response_chunked h'" "headers_received h'"
      using process_chunked [OF assms(1) k(1,2) small] k(3-) by auto
    have "holds_response C status hs payload h'"
      unfolding holds_response_def
      using h' p(2) by (auto simp: GetStatusCode_def ReadAll_def IsDataComplete_def GetResponseHeader_lookup)
    then show ?thesis using run h' by (auto simp: no_surplus_def)
  next
    case False
    then have b: "payload \<noteq> []" "coded = payload" "header_of hs ''content-length'' = Some (to_string (length payload))"
      using assms(5) by (auto simp: body_coding_def)
    let ?k = "end_of_headers g"
    have len: "parse_content_length (to_string (length payload)) = of_nat (length payload)"
      using lc b(2) by (intro parse_content_length_to_string) simp
    have k: "parse_state ?k = BODY" "rx_buffer ?k = payload" "body C ?k = []" "\<not> error_bit ?k"
      "\<not> connection_error ?k" "status_code ?k = int status" "response_headers ?k = store_headers hs []"
      "\<not> response_chunked ?k" "headers_received ?k" "content_length ?k = of_nat (length payload)"
      "total_body_received ?k = 0"
      using False f b unfolding e choose_body_def
      by (auto simp: lk chunked_def body_def len Let_def split: option.splits) (simp_all add: g_def)
    have pos: "(of_nat (length payload) :: u32) > 0"
      using lc b(1,2) by (simp add: word_gt_0 word_of_nat_eq_0_iff nat_dvd_not_less)
    define h' where "h' = (take_body C ?k)\<lparr>parse_state := COMPLETE, eof := True, complete_bit := True\<rparr>"
    have "ProcessReceivedData C ?k = Some (check_length (take_body C ?k))"
      using k b(1) by (intro process_body) simp_all
    moreover have "check_length (take_body C ?k) = h'"
      using k pos by (simp add: check_length_def h'_def take_body_def)
    moreover have "holds_response C status hs payload h'"
      unfolding holds_response_def
      using k assms(1) by (auto simp: GetStatusCode_def ReadAll_def IsDataComplete_def GetResponseHeader_lookup h'_def
          take_body_def body_def stores_def)
    moreover have "no_surplus h'" using k by (simp add: no_surplus_def h'_def take_body_def)
    ultimately show ?thesis using run by simp
  qed
qed

lemma same_observes:
  "same C h k \<Longrightarrow> GetStatusCode k = GetStatusCode h \<and> ReadAll C k = ReadAll C h \<and> parse_state k = parse_state h
     \<and> eof k = eof h \<and> connection_error k = connection_error h \<and> error_bit k = error_bit h
     \<and> IsDataComplete k = IsDataComplete h \<and> GetResponseHeader key k = GetResponseHeader key h"
  by (elim sameE) (simp add: GetStatusCode_def ReadAll_def IsDataComplete_def GetResponseHeader_def body_def)


definition string_chunks :: "string chunk_ops" where
  "string_chunks = \<lparr>make_chunk = \<lambda>s. s, chunk_data = \<lambda>c. c, chunk_read = \<lambda>n c. (take n c, drop n c),
     chunk_empty = \<lambda>c. c = []\<rparr>"

definition new_http_client :: "'c http_client" where
  "new_http_client = \<lparr>timeout_ms = 30000, http_method = [], http_protocol = [], http_host = [], http_port = 0, http_path = [],
     request_headers = [], content = None, keep_alive = False, request_chunked = False, http_connected = False,
     tcp_open = False, server_keep_alive = False, connection_error = False, eof = False, headers_received = False,
     response_chunked = False, status_code = 0, response_headers = [], body_chunks = [], content_length = 0,
     total_body_received = 0, parse_state = STATUS_LINE, chunk_size = 0, chunk_received = 0, rx_buffer = [],
     headers_bit = False, error_bit = False, complete_bit = False, http_log = []\<rparr>"

definition example_headers :: "(string \<times> string) list" where
  "example_headers = [(''Transfer-Encoding'', ''chunked'')]"


end
