(* ===== verification/Http_Requests.thy ===== *)
theory Http_Requests
  imports Http_Exchange
begin

text \<open>
  URLs, the reuse of connections and the reading side of \<open>http_client.cpp\<close>: what the code promises, and two
  places where it does not do what it means to.
\<close>

section \<open>URLs\<close>

definition port_text :: "nat option \<Rightarrow> string" where
  "port_text port = (case port of None \<Rightarrow> [] | Some p \<Rightarrow> CHR '':'' # to_string p)"

definition url_text :: "string \<Rightarrow> string \<Rightarrow> nat option \<Rightarrow> string \<Rightarrow> string" where
  "url_text scheme host port path = scheme @ ''://'' @ host @ port_text port @ path"

definition url_parts :: "string \<Rightarrow> string \<Rightarrow> nat option \<Rightarrow> string \<Rightarrow> bool" where
  "url_parts scheme host port path \<longleftrightarrow> CHR '':'' \<notin> set scheme \<and> CHR '':'' \<notin> set host \<and> CHR ''/'' \<notin> set host
     \<and> (path = [] \<or> hd path = CHR ''/'')
     \<and> (case port of None \<Rightarrow> True | Some p \<Rightarrow> 0 < p \<and> p \<le> 65535)"

lemma find_char_from:
  assumes "c \<notin> set t"
  shows "str_find (pre @ t @ c # r) [c] (length pre) = Some (length pre + length t)"
  using assms by (auto simp: str_find_Some match_at_single nth_append in_set_conv_nth)

lemma find_char_absent:
  assumes "c \<notin> set t"
  shows "str_find (pre @ t) [c] (length pre) = None"
  using assms by (auto simp: str_find_None match_at_single nth_append in_set_conv_nth)

lemma find_scheme:
  assumes "CHR '':'' \<notin> set scheme"
  shows "str_find (scheme @ ''://'' @ r) ''://'' 0 = Some (length scheme)"
proof -
  have "match_at (scheme @ ''://'' @ r) ''://'' (length scheme)" by (rule match_at_append)
  moreover have "\<not> match_at (scheme @ ''://'' @ r) ''://'' k" if "k < length scheme" for k
  proof
    assume "match_at (scheme @ ''://'' @ r) ''://'' k"
    then obtain a b where ab: "scheme @ ''://'' @ r = a @ ''://'' @ b" "length a = k" unfolding match_at_iff by blast
    have "(a @ ''://'' @ b) ! length a = CHR '':''" by (simp only: nth_append_length append_Cons)
    then have "(scheme @ ''://'' @ r) ! k = CHR '':''" by (simp only: ab)
    then have "scheme ! k = CHR '':''" using that by (simp add: nth_append)
    with that assms show False by (auto simp: in_set_conv_nth)
  qed
  ultimately show ?thesis by (auto simp: str_find_Some)
qed

lemma parse_port_to_string:
  "0 < p \<Longrightarrow> p \<le> 65535 \<Longrightarrow> parse_port (to_string p) = Some (int p)"
  using numeral_no_nul [of p] to_string_digits [of p]
  by (simp add: parse_port_def takeWhile_id strtol_to_string Let_def)

text \<open>What \<open>ParseUrl\<close> is to store.\<close>

definition parsed_url :: "string \<Rightarrow> string \<Rightarrow> nat option \<Rightarrow> string \<Rightarrow> 'c http_client \<Rightarrow> 'c http_client" where
  "parsed_url scheme host port path h = h\<lparr>http_protocol := tolower scheme, http_host := host,
     http_port := (case port of Some p \<Rightarrow> int p | None \<Rightarrow> if tolower scheme = ''https'' then 443 else 80),
     http_path := if path = [] then ''/'' else path\<rparr>"

lemma no_slash_in_port: "CHR ''/'' \<notin> set (port_text port)"
proof -
  have "CHR ''/'' \<notin> set (to_string n)" for n
    using to_string_digits [of n] by (auto simp: list_all_iff isdigit_def less_eq_char_def)
  then show ?thesis by (simp add: port_text_def split: option.split)
qed

lemma url_split:
  "url_text scheme host port path = (scheme @ ''://'') @ (host @ port_text port) @ path"
  "url_text scheme host port path = (scheme @ ''://'') @ host @ (port_text port @ path)"
  by (simp_all add: url_text_def)

lemma url_scheme: "take (length scheme) (url_text scheme host port path) = scheme"
  by (simp add: url_text_def)

lemma url_slash:
  assumes "CHR ''/'' \<notin> set host" "path = [] \<or> hd path = CHR ''/''"
  shows "str_find (url_text scheme host port path) ''/'' (length (scheme @ ''://''))
    = (if path = [] then None else Some (length (scheme @ ''://'') + length host + length (port_text port)))"
proof (cases path)
  case Nil
  then show ?thesis unfolding url_split(1)
    using assms(1) no_slash_in_port find_char_absent [of "CHR ''/''" "host @ port_text port" "scheme @ ''://''"] by simp
next
  case (Cons c cs)
  then show ?thesis unfolding url_split(1)
    using assms no_slash_in_port find_char_from [of "CHR ''/''" "host @ port_text port" "scheme @ ''://''" cs] by simp
qed

text \<open>Without a port, a colon after the host is part of the path.\<close>

lemma colon_after_host:
  assumes "CHR '':'' \<notin> set host" "str_find (url_text scheme host port path) '':'' (length (scheme @ ''://'')) = Some k"
  shows "\<not> k < length (scheme @ ''://'') + length host"
proof
  let ?pre = "scheme @ ''://''"
  assume "k < length ?pre + length host"
  moreover from assms(2) have "length ?pre \<le> k" "url_text scheme host port path ! k = CHR '':''"
    by (auto simp: str_find_Some match_at_single)
  ultimately have "k - length ?pre < length host" "(?pre @ host @ port_text port @ path) ! k = CHR '':''" "\<not> k < length ?pre"
    unfolding url_split(2) by linarith+
  then have "host ! (k - length ?pre) = CHR '':''" "k - length ?pre < length host"
    by (simp_all only: nth_append if_True if_False)
  with assms(1) show False by (auto simp: in_set_conv_nth)
qed

lemma url_with_port:
  assumes "url_parts scheme host (Some n) path"
  shows "ParseUrl (url_text scheme host (Some n) path) h = (True, parsed_url scheme host (Some n) path h)"
proof -
  let ?pre = "scheme @ ''://''" and ?url = "url_text scheme host (Some n) path" and ?port = "port_text (Some n)"
  have p: "CHR '':'' \<notin> set scheme" "CHR '':'' \<notin> set host" "CHR ''/'' \<notin> set host" "path = [] \<or> hd path = CHR ''/''"
    "0 < n" "n \<le> 65535"
    using assms by (auto simp: url_parts_def)
  have scheme: "str_find ?url ''://'' 0 = Some (length scheme)" using find_scheme [OF p(1)] by (simp add: url_text_def)
  have colon: "str_find ?url '':'' (length ?pre) = Some (length ?pre + length host)"
    unfolding url_split(2) using find_char_from [OF p(2), of ?pre "to_string n @ path"] by (simp add: port_text_def)
  have len: "length scheme + 3 = length ?pre" by simp
  have d: "drop (length xs) (xs @ ys) = ys" for xs ys :: string by simp
  have "?url = (?pre @ host @ '':'') @ to_string n @ path" "length (?pre @ host @ '':'') = length ?pre + length host + 1"
    by (simp_all add: url_text_def port_text_def)
  with d [of "?pre @ host @ '':''" "to_string n @ path"]
  have "drop (length ?pre + length host + 1) ?url = to_string n @ path" by (simp only:)
  moreover have "drop (length ?pre) ?url = host @ ?port @ path"
    using d [of ?pre "host @ ?port @ path"] by (simp only: url_split(2) append_assoc)
  moreover have "drop (length ?pre + length host + length ?port) ?url = path"
    using d [of "?pre @ host @ ?port" path] by (simp add: url_text_def)
  ultimately show ?thesis
    using parse_port_to_string [OF p(5,6)] url_scheme [of scheme host "Some n" path]
    unfolding ParseUrl_def scheme option.case Let_def len url_slash [OF p(3,4)] colon
    by (cases "path = []"; cases h) (simp_all add: substr_def parsed_url_def port_text_def)
qed

lemma url_without_port:
  assumes "url_parts scheme host None path"
  shows "ParseUrl (url_text scheme host None path) h = (True, parsed_url scheme host None path h)"
proof -
  let ?pre = "scheme @ ''://''" and ?url = "url_text scheme host None path"
  have p: "CHR '':'' \<notin> set scheme" "CHR '':'' \<notin> set host" "CHR ''/'' \<notin> set host" "path = [] \<or> hd path = CHR ''/''"
    using assms by (auto simp: url_parts_def)
  have scheme: "str_find ?url ''://'' 0 = Some (length scheme)" using find_scheme [OF p(1)] by (simp add: url_text_def)
  have len: "length scheme + 3 = length ?pre" by simp
  have rest: "drop (length ?pre) ?url = host @ path" by (simp add: url_text_def port_text_def)
  show ?thesis
  proof (cases path)
    case Nil
    then have colon: "str_find ?url '':'' (length ?pre) = None"
      unfolding url_split(2) using find_char_absent [OF p(2), of ?pre] by (simp add: port_text_def)
    show ?thesis
      unfolding ParseUrl_def scheme option.case Let_def len url_slash [OF p(3,4)] colon
      using Nil rest url_scheme [of scheme host None path] by (cases h) (simp add: parsed_url_def substr_def)
  next
    case (Cons c cs)
    have path: "drop (length ?pre + length host) ?url = path"
      unfolding drop_drop [symmetric] add.commute [of "length ?pre"] rest by simp
    show ?thesis
      unfolding ParseUrl_def scheme option.case Let_def len url_slash [OF p(3,4)]
      using Cons rest colon_after_host [OF p(2)] url_scheme [of scheme host None path] path
      by (cases h) (auto simp: parsed_url_def port_text_def substr_def split: option.split)
  qed
qed

theorem url_roundtrip:
  assumes "url_parts scheme host port path"
  shows "ParseUrl (url_text scheme host port path) h = (True, parsed_url scheme host port path h)"
  using assms url_with_port [of scheme host "the port" path h] url_without_port [of scheme host path h]
  by (cases port) simp_all

lemma url_roundtrip_witness:
  "ParseUrl (url_text ''HTTPS'' ''bridge.local'' (Some 8443) ''/v1/x'') (new_http_client :: string http_client)
     = (True, parsed_url ''HTTPS'' ''bridge.local'' (Some 8443) ''/v1/x'' new_http_client)"
  by (rule url_roundtrip) (simp add: url_parts_def)

section \<open>Connections\<close>

text \<open>A connection that can be reused, as \<open>IsConnectionReusable\<close> means it, but for its host and port.\<close>

definition idle_connection :: "'c http_client \<Rightarrow> bool" where
  "idle_connection h \<longleftrightarrow> http_connected h \<and> server_keep_alive h \<and> \<not> connection_error h \<and> IsDataComplete h"

definition connects :: "'c http_client \<Rightarrow> http_event list" where
  "connects h = filter (\<lambda>e. case e of HttpConnect secure host port \<Rightarrow> True | _ \<Rightarrow> False) (http_log h)"

lemma connects_log [simp]:
  "connects (log_event (HttpSend r) h) = connects h" "connects (log_event HttpDisconnect h) = connects h"
  by (simp_all add: connects_def log_event_def)

lemma connects_frame:
  "http_log g = http_log h \<Longrightarrow> connects g = connects h"
  by (simp add: connects_def)

lemma connects_disconnect [simp]: "connects (tcp_Disconnect h) = connects h"
  by (auto simp: tcp_Disconnect_def OnTcpDisconnected_def Let_def connects_def log_event_def)

lemma ParseUrl_frame:
  "http_log (snd (ParseUrl url h)) = http_log h" "http_connected (snd (ParseUrl url h)) = http_connected h"
  "server_keep_alive (snd (ParseUrl url h)) = server_keep_alive h"
  "connection_error (snd (ParseUrl url h)) = connection_error h"
  "response_chunked (snd (ParseUrl url h)) = response_chunked h" "parse_state (snd (ParseUrl url h)) = parse_state h"
  "content_length (snd (ParseUrl url h)) = content_length h"
  "total_body_received (snd (ParseUrl url h)) = total_body_received h"
  by (simp_all add: ParseUrl_def Let_def split: option.split)

lemma ParseUrl_idle: "idle_connection (snd (ParseUrl url h)) = idle_connection h"
  by (simp add: idle_connection_def IsDataComplete_def ParseUrl_frame)

text \<open>\<open>Open\<close> parses the new URL into \<open>host_\<close> and \<open>port_\<close> before it compares them with themselves.\<close>

text \<open>C27: Open reuses an idle keep-alive connection whatever the URL asks for: it never connects to
  the host, the port or the protocol of the new URL (the code compares the new host and port
  with themselves).\<close>

theorem reuse_ignores_target:
  assumes "idle_connection h"
  shows "connects (snd (Open net verb url h)) = connects h"
proof -
  obtain parsed g where g: "ParseUrl url (h\<lparr>http_method := verb\<rparr>) = (parsed, g)" by force
  have "http_log g = http_log h" using ParseUrl_frame(1) [of url "h\<lparr>http_method := verb\<rparr>"] by (simp add: g)
  moreover have "idle_connection g"
    using ParseUrl_idle [of url "h\<lparr>http_method := verb\<rparr>"] assms by (simp add: g idle_connection_def IsDataComplete_def)
  ultimately have f: "connects g = connects h" "idle_connection g" by (simp_all add: connects_def)
  then have r: "Open_connection net g = (True, ResetRequestState g)"
    by (simp add: Open_connection_def IsConnectionReusable_def idle_connection_def)
  have "connects (ResetRequestState g) = connects h" using f(1) by (simp add: connects_def ResetRequestState_def)
  then show ?thesis using f(1) by (auto simp: Open_def g r Let_def connects_def tcp_Disconnect_def OnTcpDisconnected_def log_event_def)
qed

definition connected_to_a :: "string http_client" where
  "connected_to_a = new_http_client\<lparr>http_protocol := ''http'', http_host := ''a.example'', http_port := 80, http_path := ''/'',
     http_connected := True, tcp_open := True, server_keep_alive := True, http_log := [HttpConnect False ''a.example'' 80]\<rparr>"

lemma reuse_ignores_target_witness:
  "connects (snd (Open \<lparr>http_connects = \<lambda>secure host port. True, http_sends = \<lambda>r. 1\<rparr> ''GET'' ''https://b.example/'' connected_to_a))
     = [HttpConnect False ''a.example'' 80]"
  using reuse_ignores_target [of connected_to_a]
  by (simp add: idle_connection_def connected_to_a_def new_http_client_def IsDataComplete_def connects_def)

section \<open>A chunk size that is no numeral\<close>

text \<open>\<open>ParseChunkSize\<close> reports a malformed size as 0, the size that ends the body: a truncated body is delivered as
  complete, with no error.\<close>

definition size_numeral :: "string \<Rightarrow> bool" where
  "size_numeral l = (let text = c_str (trim_right blank_or_eol (takeWhile (\<lambda>c. c \<noteq> CHR '';'') l)); (n, consumed) = strtoul 16 text
     in consumed \<noteq> 0 \<and> consumed = length text)"

lemma before_extension:
  "(case str_find l '';'' 0 of None \<Rightarrow> l | Some p \<Rightarrow> substr l 0 p) = takeWhile (\<lambda>c. c \<noteq> CHR '';'') l"
proof (cases "CHR '';'' \<in> set l")
  case True
  then obtain a b where l: "l = a @ CHR '';'' # b" "CHR '';'' \<notin> set a" by (meson split_list_first)
  then have "takeWhile (\<lambda>c. c \<noteq> CHR '';'') l = a" by (simp add: takeWhile_append)
  with l find_char [of "CHR '';''" a b] show ?thesis by (simp add: substr_def)
next
  case False
  then have n: "str_find l '';'' 0 = None" by (auto simp: str_find_None match_at_single in_set_conv_nth)
  have t: "takeWhile (\<lambda>c. c \<noteq> CHR '';'') l = l" by (rule takeWhile_id) (use False in \<open>auto simp: list_all_iff\<close>)
  show ?thesis by (simp only: n option.case t)
qed

theorem malformed_size_ends_body:
  assumes "parse_state h = CHUNK_SIZE" "rx_buffer h = l @ crlf @ crlf" "l \<noteq> []" "LF \<notin> set l" "\<not> size_numeral l"
  shows "ProcessReceivedData C h = Some (h\<lparr>rx_buffer := [], chunk_size := 0, chunk_received := 0,
     parse_state := COMPLETE, eof := True, complete_bit := True\<rparr>)"
proof -
  define g where "g = h\<lparr>rx_buffer := crlf, chunk_size := 0, chunk_received := 0, parse_state := CHUNK_TRAILER\<rparr>"
  have z: "ParseChunkSize l = 0"
    using assms(5) unfolding ParseChunkSize_def before_extension size_numeral_def Let_def
    by (auto split: prod.splits)
  have n: "next_nonempty_line (rx_buffer h) = (Some l, crlf)"
    using crlf_line_split [of l crlf] assms(2-4) by (subst next_nonempty_line.simps) simp
  have "receive_round C h = Again g"
    using assms(1) n z by (simp add: receive_round_def chunk_size_round_def Let_def g_def)
  then have "ProcessReceivedData C h = ProcessReceivedData C g" using assms(1,2) by (simp add: process_step)
  also have "receive_round C g = Again (g\<lparr>rx_buffer := [], parse_state := COMPLETE, eof := True, complete_bit := True\<rparr>)"
    using crlf_line_split [of "[]" "[]"] by (simp add: receive_round_def chunk_trailer_round_def g_def)
  then have "ProcessReceivedData C g = Some (g\<lparr>rx_buffer := [], parse_state := COMPLETE, eof := True, complete_bit := True\<rparr>)"
    by (simp add: process_step g_def process_stop check_length_def)
  finally show ?thesis by (simp add: g_def)
qed

lemma strto_none:
  assumes "\<not> isspace c" "c \<noteq> CHR ''-''" "c \<noteq> CHR ''+''" "c \<noteq> CHR ''0''" "base_digit base c = None"
  shows "strto_subject base (c # s) = (False, 0, 0)"
  using assms by (simp add: strto_subject_def Let_def)

lemma malformed_size_ends_body_witness:
  "ProcessReceivedData string_chunks (new_http_client\<lparr>parse_state := CHUNK_SIZE, rx_buffer := ''xyz'' @ crlf @ crlf\<rparr>)
    = Some (new_http_client\<lparr>rx_buffer := [], parse_state := COMPLETE, eof := True, complete_bit := True\<rparr>)"
proof -
  have "\<not> size_numeral ''xyz''"
    using strto_none [of "CHR ''x''" 16 "''yz''"]
    by (simp add: size_numeral_def trim_right_def strtoul_def isspace_def base_digit_def hex_value_def less_eq_char_def)
  then show ?thesis
    using malformed_size_ends_body [of "new_http_client\<lparr>parse_state := CHUNK_SIZE, rx_buffer := ''xyz'' @ crlf @ crlf\<rparr>" "''xyz''" string_chunks]
    by (simp add: new_http_client_def)
qed

section \<open>Reading\<close>

text \<open>What \<open>DataChunk\<close> is to do: \<open>rest c\<close> is what has not been read of it.\<close>

definition reads_in_order :: "'c chunk_ops \<Rightarrow> ('c \<Rightarrow> string) \<Rightarrow> bool" where
  "reads_in_order C rest \<longleftrightarrow> (\<forall>s. rest (make_chunk C s) = s) \<and> (\<forall>c. chunk_empty C c \<longleftrightarrow> rest c = [])
     \<and> (\<forall>n c. fst (chunk_read C n c) = take n (rest c) \<and> rest (snd (chunk_read C n c)) = drop n (rest c))"

definition pending :: "('c \<Rightarrow> string) \<Rightarrow> 'c http_client \<Rightarrow> string" where
  "pending rest h = concat (map rest (body_chunks h))"

lemma read_front_drains:
  assumes "reads_in_order C rest" "0 < n" "read_front C n cs = (b, cs')"
  shows "concat (map rest cs) = b @ concat (map rest cs') \<and> length b \<le> n \<and> (b = [] \<longrightarrow> cs' = [])"
  using assms(3)
proof (induction cs)
  case (Cons c cs)
  obtain x c' where r: "chunk_read C n c = (x, c')" by force
  then have x: "x = take n (rest c)" "rest c' = drop n (rest c)"
    using assms(1) unfolding reads_in_order_def by (metis fst_conv snd_conv)+
  have e: "chunk_empty C c' \<longleftrightarrow> rest c' = []" using assms(1) by (simp add: reads_in_order_def)
  show ?case
  proof (cases "x = []")
    case True
    with x(1) assms(2) have "rest c = []" by simp
    with True Cons.IH Cons.prems r show ?thesis by simp
  next
    case False
    then have b: "b = x" "cs' = (if chunk_empty C c' then cs else c' # cs)" using Cons.prems r by (auto simp: Let_def)
    have "rest c = x @ rest c'" by (simp add: x)
    then show ?thesis using b e False by (auto simp: x(1))
  qed
qed simp

theorem reading_keeps_order:
  assumes "reads_in_order C rest" "0 < n"
  shows "case fst (Read C n h) of
      Reads b \<Rightarrow> pending rest h = b @ pending rest (snd (Read C n h)) \<and> b \<noteq> [] \<and> length b \<le> n
    | ReadEof \<Rightarrow> pending rest h = [] \<and> (eof h \<or> \<not> http_connected h)
    | ReadWaits \<Rightarrow> pending rest h = [] \<and> http_connected h
    | ReadFails \<Rightarrow> connection_error h"
proof -
  obtain b cs where r: "read_front C n (body_chunks h) = (b, cs)" by force
  from read_front_drains [OF assms r] show ?thesis
    by (auto simp: Read_def r pending_def Let_def)
qed

definition whole :: "string \<Rightarrow> string" where "whole c = c"

lemma reading_keeps_order_witness:
  "case fst (Read string_chunks 3 (new_http_client\<lparr>body_chunks := [''ab'', ''cdef'']\<rparr>)) of
      Reads b \<Rightarrow> pending whole (new_http_client\<lparr>body_chunks := [''ab'', ''cdef'']\<rparr>)
        = b @ pending whole (snd (Read string_chunks 3 (new_http_client\<lparr>body_chunks := [''ab'', ''cdef'']\<rparr>))) \<and> b \<noteq> [] \<and> length b \<le> 3
    | ReadEof \<Rightarrow> False | ReadWaits \<Rightarrow> False | ReadFails \<Rightarrow> False"
  using reading_keeps_order [of string_chunks whole 3 "new_http_client\<lparr>body_chunks := [''ab'', ''cdef'']\<rparr>"]
  by (simp add: reads_in_order_def string_chunks_def whole_def new_http_client_def Read_def pending_def)

section \<open>Whatever arrives\<close>

lemma receiving_return:
  assumes "receiving h" "receive_round C h = Return h'"
  shows "receiving h'"
  using assms receiving_after_headers [of "h\<lparr>rx_buffer := snd (GetNextLine (rx_buffer h))\<rparr>"]
  by (cases "parse_state h")
    (auto simp: receive_rounds receiving_def SetError_def Let_def split: if_splits option.splits prod.splits)

lemma receiving_processed: "receiving h \<Longrightarrow> \<exists>h'. ProcessReceivedData C h = Some h' \<and> receiving h'"
proof (induction "length (rx_buffer h)" arbitrary: h rule: less_induct)
  case less
  show ?case
  proof (cases "rx_buffer h = [] \<or> parse_state h = COMPLETE")
    case True
    then show ?thesis using less.prems by (auto simp: process_stop check_length_def receiving_def)
  next
    case False
    show ?thesis
    proof (cases "receive_round C h")
      case (Return h')
      then show ?thesis using False receiving_return [OF less.prems Return] by (simp add: ProcessReceivedData.simps [of C h])
    next
      case (Again h')
      with False receiving_round [OF less.prems _ Again] less.hyps [of h'] show ?thesis
        by (simp add: ProcessReceivedData.simps [of C h])
    qed
  qed
qed

text \<open>C26: Whatever bytes a server sends in whatever segments, the loop that processes them ends
  after every segment, in a state from which the next segment is processed.\<close>

theorem received_data_is_processed:
  assumes "receiving h"
  shows "\<exists>h'. receive_all C segments h = Some h' \<and> receiving h'"
  using assms
proof (induction segments arbitrary: h)
  case (Cons s segments)
  then have "receiving (h\<lparr>rx_buffer := rx_buffer h @ s\<rparr>)" by simp
  with receiving_processed [of "h\<lparr>rx_buffer := rx_buffer h @ s\<rparr>" C] Cons.IH show ?case
    by (fastforce simp: http_OnTcpData_def)
qed simp

lemma received_data_is_processed_witness:
  "\<exists>h'. receive_all string_chunks [''HTTP/1.1 200 OK'', [LF, LF], ''no framing''] (ResetRequestState (new_http_client :: string http_client)) = Some h'
     \<and> receiving h'"
  by (rule received_data_is_processed) (simp add: receiving_def ResetRequestState_def new_http_client_def)

end
