(* ===== verification/Websocket_Frame.thy ===== *)
theory Websocket_Frame
  imports Base64
begin

text \<open>
  \<open>websocket_frame_limits.h\<close>: the header of a frame that the server sends.  The reference is the
  encoder of RFC 6455, with the shortest length form; the inspection accepts exactly its outputs.
  A \<open>std::size_t\<close> has 32 bits on the device.
\<close>

section \<open>The inspection\<close>

datatype WebSocketFrameHeaderStatus = NeedMoreData | Complete | MessageTooLarge | ProtocolError

record WebSocketFrameHeader =
  status :: WebSocketFrameHeaderStatus
  headerBytes :: nat
  payloadBytes :: u64
  opcode :: u8
  final :: bool

definition size_max :: nat where
  "size_max = 2 ^ 32 - 1"

definition knownOpcode :: "u8 \<Rightarrow> bool" where
  "knownOpcode code \<longleftrightarrow> code \<le> 0x02 \<or> code = 0x08 \<or> code = 0x09 \<or> code = 0x0A"

text \<open>The last checks, which the three length forms share.\<close>

definition check_limits :: "nat \<Rightarrow> WebSocketFrameHeader \<Rightarrow> WebSocketFrameHeader" where
  "check_limits remainingMessageBytes result =
    (let controlFrame = opcode result \<ge> 0x08
     in if controlFrame \<and> (\<not> final result \<or> payloadBytes result > 125) then result\<lparr>status := ProtocolError\<rparr>
        else if unat (payloadBytes result) > remainingMessageBytes \<or> unat (payloadBytes result) > size_max
        then result\<lparr>status := MessageTooLarge\<rparr>
        else result\<lparr>status := Complete\<rparr>)"

definition inspectWebSocketFrameHeader :: "u8 list \<Rightarrow> nat \<Rightarrow> WebSocketFrameHeader" where
  "inspectWebSocketFrameHeader data remainingMessageBytes =
    (let result = \<lparr>status = NeedMoreData, headerBytes = 0, payloadBytes = 0, opcode = 0, final = False\<rparr>
     in if length data < 2 then result
        else
          let result = result\<lparr>final := data ! 0 AND 0x80 \<noteq> 0, opcode := data ! 0 AND 0x0F\<rparr>;
              reservedBitsSet = data ! 0 AND 0x70 \<noteq> 0;
              masked = data ! 1 AND 0x80 \<noteq> 0
          in if reservedBitsSet \<or> masked \<or> \<not> knownOpcode (opcode result) then result\<lparr>status := ProtocolError\<rparr>
             else
               let encodedLength = data ! 1 AND 0x7F;
                   result = result\<lparr>headerBytes := 2, payloadBytes := ucast encodedLength\<rparr>
               in if encodedLength = 126
                  then if length data < 4 then result
                       else let result = result\<lparr>headerBytes := 4,
                                  payloadBytes := push_bit 8 (ucast (data ! 2)) OR ucast (data ! 3)\<rparr>
                            in if payloadBytes result < 126 then result\<lparr>status := ProtocolError\<rparr>
                               else check_limits remainingMessageBytes result
                  else if encodedLength = 127
                  then if length data < 10 then result
                       else let result = result\<lparr>headerBytes := 10\<rparr>
                            in if data ! 2 AND 0x80 \<noteq> 0 then result\<lparr>status := ProtocolError\<rparr>
                               else let result = result\<lparr>payloadBytes :=
                                          fold (\<lambda>index bytes. push_bit 8 bytes OR ucast (data ! (2 + index))) [0..<8] 0\<rparr>
                                    in if payloadBytes result < 65536 then result\<lparr>status := ProtocolError\<rparr>
                                       else check_limits remainingMessageBytes result
                  else check_limits remainingMessageBytes result)"

section \<open>The encoder of RFC 6455\<close>

definition big_endian :: "nat \<Rightarrow> u64 \<Rightarrow> u8 list" where
  "big_endian k n = map (\<lambda>i. ucast (drop_bit (8 * (k - 1 - i)) n)) [0..<k]"

definition encode_header :: "bool \<Rightarrow> u8 \<Rightarrow> u64 \<Rightarrow> u8 list" where
  "encode_header fin code n =
    [(if fin then 0x80 else 0) OR code]
    @ (if n < 126 then [ucast n]
       else if n < 65536 then 126 # big_endian 2 n
       else 127 # big_endian 8 n)"

definition legal_frame :: "bool \<Rightarrow> u8 \<Rightarrow> u64 \<Rightarrow> bool" where
  "legal_frame fin code n \<longleftrightarrow>
    knownOpcode code \<and> n < 2 ^ 63 \<and> (if code \<ge> 8 then fin \<and> n \<le> 125 else True)"

section \<open>They agree\<close>

lemma unat_ucast_u8_u64 [simp]: "unat (ucast (x :: u8) :: u64) = unat x"
proof -
  have "unat x < 2 ^ 64" using unsigned_less [of x, where 'a = nat] by simp
  then show ?thesis by (simp add: unsigned_ucast_eq take_bit_nat_eq_self)
qed

lemma big_endian_Suc: "big_endian (Suc k) n = big_endian k (drop_bit 8 n) @ [ucast n]"
  by (auto simp: big_endian_def drop_bit_drop_bit algebra_simps Suc_diff_Suc)

definition from_bytes :: "u8 list \<Rightarrow> u64" where
  "from_bytes bytes = fold (\<lambda>b acc. push_bit 8 acc OR ucast b) bytes 0"

lemma from_bytes_snoc: "from_bytes (bs @ [b]) = push_bit 8 (from_bytes bs) OR ucast b"
  by (simp add: from_bytes_def)

lemma from_big_endian: "take_bit (8 * k) n = n \<Longrightarrow> from_bytes (big_endian k n) = n"
proof (induction k arbitrary: n)
  case 0
  then show ?case by (simp add: from_bytes_def big_endian_def)
next
  case (Suc k)
  have "take_bit (8 * k) (drop_bit 8 n) = drop_bit 8 n"
    using Suc.prems by (metis drop_bit_take_bit add_diff_cancel_left' mult_Suc_right)
  then have "from_bytes (big_endian (Suc k) n) = push_bit 8 (drop_bit 8 n) OR ucast (ucast n :: u8)"
    using Suc.IH by (simp add: big_endian_Suc from_bytes_snoc)
  also have "\<dots> = n" by (rule bit_word_eqI) (auto simp: bit_simps)
  finally show ?case .
qed

lemma from_bytes_bits: "take_bit (8 * length bs) (from_bytes bs) = from_bytes bs"
proof (induction bs rule: rev_induct)
  case (snoc b bs)
  have "bit (from_bytes bs) i \<Longrightarrow> i < 8 * length bs" for i
    using snoc by (metis bit_take_bit_iff)
  then show ?case
    by (intro bit_word_eqI) (fastforce simp: from_bytes_snoc bit_simps dest: bit_u8_less)
qed (simp add: from_bytes_def)

lemma big_endian_from: "length bs \<le> 8 \<Longrightarrow> big_endian (length bs) (from_bytes bs) = bs"
proof (induction bs rule: rev_induct)
  case (snoc b bs)
  have "8 * length bs \<le> 56" using snoc.prems by simp
  then have lt: "bit (from_bytes bs) i \<Longrightarrow> i < 56" for i
    using from_bytes_bits [of bs] by (metis bit_take_bit_iff less_le_trans)
  have "drop_bit 8 (from_bytes (bs @ [b])) = from_bytes bs" "ucast (from_bytes (bs @ [b])) = b"
    by (rule bit_word_eqI; auto simp: from_bytes_snoc bit_simps dest: bit_u8_less lt)+
  then show ?case using snoc by (simp add: big_endian_Suc)
qed (simp add: big_endian_def)

lemma small_word_le: "(x :: u8) \<le> 2 \<longleftrightarrow> x = 0 \<or> x = 1 \<or> x = 2"
proof
  assume "x \<le> 2"
  then have "unat x \<le> 2" by (simp add: word_le_nat_alt)
  then have "unat x = unat (0 :: u8) \<or> unat x = unat (1 :: u8) \<or> unat x = unat (2 :: u8)" by auto
  then show "x = 0 \<or> x = 1 \<or> x = 2" by (simp only: word_unat_eq_iff)
qed auto

lemma u8_eqI:
  assumes "bit a 0 = bit b 0" "bit a 1 = bit b 1" "bit a 2 = bit b 2" "bit a 3 = bit b 3"
    "bit a 4 = bit b 4" "bit a 5 = bit b 5" "bit a 6 = bit b 6" "bit a 7 = bit b 7"
  shows "a = (b :: u8)"
proof (rule bit_word_eqI)
  fix n :: nat
  assume "n < LENGTH(8)"
  then have "n \<in> {0, 1, 2, 3, 4, 5, 6, 7}" by auto
  then show "bit a n = bit b n" using assms by auto
qed

lemma high_bit: "b AND 0x80 = (if bit b 7 then 0x80 else (0 :: u8))"
  by (rule u8_eqI) (simp_all add: bit_simps)

lemma split_byte: "b = (b AND 0x80) OR (b AND 0x70) OR (b AND 0x0F :: u8)"
  by (rule u8_eqI) (simp_all add: bit_simps)

lemma split_length: "b = (b AND 0x80) OR (b AND 0x7F :: u8)" "(b AND 0x7F) AND 0x80 = (0 :: u8)"
  by (rule u8_eqI; simp add: bit_simps)+

lemma unmasked_length:
  "b AND 0x80 = 0 \<longleftrightarrow> b < (0x80 :: u8)"
  "b < 0x80 \<Longrightarrow> b AND 0x7F = b"
proof -
  have le: "b AND 0x7F \<le> (0x7F :: u8)" by (rule word_and_le1)
  have lt: "x \<le> 0x7F \<longleftrightarrow> x < (0x80 :: u8)" for x by (auto simp: word_le_nat_alt word_less_nat_alt)
  have "0x80 \<le> (0x80 OR x :: u8)" for x by (rule le_word_or2)
  then have "bit b 7 \<Longrightarrow> \<not> b < 0x80"
    using split_length(1) [of b] high_bit [of b] by (metis not_le)
  moreover have "\<not> bit b 7 \<Longrightarrow> b < 0x80 \<and> b AND 0x7F = b"
    using split_length(1) [of b] high_bit [of b] le lt by simp
  ultimately show "b AND 0x80 = 0 \<longleftrightarrow> b < 0x80" "b < 0x80 \<Longrightarrow> b AND 0x7F = b"
    using high_bit [of b] by (auto split: if_splits)
qed

lemma length_big_endian [simp]: "length (big_endian k n) = k"
  by (simp add: big_endian_def)

lemma big_endian_take: "k \<le> 8 \<Longrightarrow> k \<le> length bs \<Longrightarrow> big_endian k (from_bytes (take k bs)) = take k bs"
  using big_endian_from [of "take k bs"] by (simp add: min_absorb2)

lemma prefix_big_endian:
  assumes "k \<le> 8" "take_bit (8 * k) n = n"
  shows "prefix (big_endian k n) bs \<longleftrightarrow> k \<le> length bs \<and> from_bytes (take k bs) = n"
proof
  assume "prefix (big_endian k n) bs"
  then obtain r where "bs = big_endian k n @ r" by (auto simp: prefix_def)
  then show "k \<le> length bs \<and> from_bytes (take k bs) = n" using from_big_endian [OF assms(2)] by simp
next
  assume r: "k \<le> length bs \<and> from_bytes (take k bs) = n"
  then have "big_endian k n = take k bs" using big_endian_take [of k bs] assms(1) by auto
  then show "prefix (big_endian k n) bs" by (simp add: take_is_prefix)
qed

lemma take_bit_less: "take_bit k n = n \<longleftrightarrow> unat n < 2 ^ k" for n :: "'a::len word"
proof -
  have "take_bit k n = n \<longleftrightarrow> unat (take_bit k n) = unat n" by (simp add: word_unat_eq_iff)
  then show ?thesis by (simp add: unsigned_take_bit_eq take_bit_nat_eq_self_iff)
qed

lemma from_bytes_less: "unat (from_bytes bs) < 2 ^ (8 * length bs)"
  using from_bytes_bits [of bs] by (simp add: take_bit_less)

lemma two_bytes: "2 \<le> length bs \<Longrightarrow> push_bit 8 (ucast (bs ! 0)) OR ucast (bs ! 1) = from_bytes (take 2 bs)"
  by (cases bs; cases "tl bs") (auto simp: from_bytes_def)

lemma eight_bytes:
  assumes "8 \<le> length bs"
  shows "fold (\<lambda>index bytes. push_bit 8 bytes OR ucast (bs ! index)) [0..<8] 0 = from_bytes (take 8 bs)"
proof -
  have "take 8 bs = map ((!) bs) [0..<8]" using assms by (intro nth_equalityI) simp_all
  then show ?thesis by (simp add: from_bytes_def fold_map o_def)
qed

lemma top_bit:
  assumes "8 \<le> length bs"
  shows "bs ! 0 AND 0x80 = 0 \<longleftrightarrow> from_bytes (take 8 bs) < 2 ^ 63"
proof -
  define n where "n = from_bytes (take 8 bs)"
  have "take 8 bs = big_endian 8 n" using big_endian_take [of 8 bs] assms by (simp add: n_def)
  then have "take 8 bs ! 0 = ucast (drop_bit 56 n)" by (simp add: big_endian_def)
  then have "bit (bs ! 0) 7 = bit n 63" using assms by (simp add: bit_simps)
  moreover have "n < 2 ^ 63 \<longleftrightarrow> take_bit 63 n = n" by (simp add: take_bit_less word_less_nat_alt)
  moreover have "take_bit 63 n = n \<longleftrightarrow> \<not> bit n 63"
  proof
    assume "take_bit 63 n = n"
    then show "\<not> bit n 63" by (metis bit_take_bit_iff less_irrefl)
  next
    assume b: "\<not> bit n 63"
    have "bit n i \<Longrightarrow> i < 64 \<Longrightarrow> i < 63" for i using b by (cases "i = 63") auto
    then show "take_bit 63 n = n" by (intro bit_word_eqI) (auto simp: bit_simps)
  qed
  ultimately show ?thesis using high_bit [of "bs ! 0"] by (simp add: n_def)
qed

lemma knownOpcode_iff: "knownOpcode code \<longleftrightarrow> code \<in> {0, 1, 2, 8, 9, 10}"
  by (auto simp: knownOpcode_def small_word_le)

lemma length_byte:
  assumes "n < 126"
  shows "b = ucast (n :: u64) \<longleftrightarrow> (b :: u8) < 126 \<and> n = ucast b"
proof -
  have t: "take_bit 8 n = n" using assms by (simp add: take_bit_less word_less_nat_alt)
  then have "bit n i \<Longrightarrow> i < 8" for i by (metis bit_take_bit_iff)
  then have c: "ucast (ucast n :: u8) = n" by (intro bit_word_eqI) (auto simp: bit_simps)
  have "unat (ucast n :: u8) = unat n" 
    using assms by (simp add: unsigned_ucast_eq word_less_nat_alt take_bit_nat_eq_self)
  then have "ucast n < (126 :: u8)" using assms by (simp add: word_less_nat_alt)
  moreover have "ucast (ucast b :: u64) = b" by (rule bit_word_eqI) (auto simp: bit_simps dest: bit_u8_less)
  ultimately show ?thesis using c by auto
qed

lemma prefix_header:
  "prefix (encode_header fin code n) (b0 # b1 # rest) \<longleftrightarrow>
     b0 = (if fin then 0x80 else 0) OR code
     \<and> (if n < 126 then b1 < 126 \<and> n = ucast b1
        else if n < 65536 then b1 = 126 \<and> 2 \<le> length rest \<and> from_bytes (take 2 rest) = n
        else b1 = 127 \<and> 8 \<le> length rest \<and> from_bytes (take 8 rest) = n)"
proof -
  have "n < 65536 \<Longrightarrow> take_bit (8 * 2) n = n" "take_bit (8 * 8) n = n"
    using unsigned_less [of n, where 'a = nat] by (simp_all add: take_bit_less word_less_nat_alt)
  then have "126 \<le> n \<Longrightarrow> ?thesis" by (auto simp: encode_header_def prefix_big_endian simp del: mult_numeral_left)
  moreover have "n < 126 \<Longrightarrow> ?thesis" using length_byte [of n b1] by (simp add: encode_header_def) metis
  ultimately show ?thesis by (meson not_le)
qed


lemma check_limits_Complete:
  "check_limits remaining \<lparr>status = st, headerBytes = h', payloadBytes = n', opcode = code', final = fin'\<rparr>
      = \<lparr>status = Complete, headerBytes = h, payloadBytes = n, opcode = code, final = fin\<rparr>
    \<longleftrightarrow> h' = h \<and> n' = n \<and> code' = code \<and> fin' = fin
      \<and> (if code \<ge> 8 then fin \<and> n \<le> 125 else True) \<and> unat n \<le> remaining \<and> unat n \<le> size_max"
  by (auto simp: check_limits_def Let_def)

lemma first_byte:
  "(b AND 0x70 = 0 \<and> (b AND 0x80 \<noteq> 0) = fin \<and> b AND 0x0F = code \<and> knownOpcode code)
    \<longleftrightarrow> b = (if fin then 0x80 else 0) OR code \<and> knownOpcode code"
  unfolding knownOpcode_iff using split_byte [of b] high_bit [of b] by (auto split: if_splits)

definition first_ok :: "u8 \<Rightarrow> bool" where
  "first_ok b0 \<longleftrightarrow> b0 AND 0x70 = 0 \<and> knownOpcode (b0 AND 0x0F)"

lemma inspect_reject:
  assumes "\<not> first_ok b0 \<or> \<not> b1 < 0x80"
  shows "status (inspectWebSocketFrameHeader (b0 # b1 # rest) remaining) = ProtocolError"
  using assms by (auto simp: inspectWebSocketFrameHeader_def Let_def first_ok_def unmasked_length(1) [symmetric])

lemma inspect_forms:
  assumes "first_ok b0"
  defines "start h n \<equiv> \<lparr>status = NeedMoreData, headerBytes = h, payloadBytes = n, opcode = b0 AND 0x0F,
                        final = (b0 AND 0x80 \<noteq> 0)\<rparr>"
  shows "b1 < 126 \<Longrightarrow> inspectWebSocketFrameHeader (b0 # b1 # rest) remaining = check_limits remaining (start 2 (ucast b1))"
    "b1 = 126 \<Longrightarrow> inspectWebSocketFrameHeader (b0 # b1 # rest) remaining =
       (if length rest < 2 then start 2 126
        else if from_bytes (take 2 rest) < 126 then (start 4 (from_bytes (take 2 rest)))\<lparr>status := ProtocolError\<rparr>
        else check_limits remaining (start 4 (from_bytes (take 2 rest))))"
    "b1 = 127 \<Longrightarrow> inspectWebSocketFrameHeader (b0 # b1 # rest) remaining =
       (if length rest < 8 then start 2 127
        else if \<not> from_bytes (take 8 rest) < 2 ^ 63 then (start 10 127)\<lparr>status := ProtocolError\<rparr>
        else if from_bytes (take 8 rest) < 65536 then (start 10 (from_bytes (take 8 rest)))\<lparr>status := ProtocolError\<rparr>
        else check_limits remaining (start 10 (from_bytes (take 8 rest))))"
proof -
  have ok: "b0 AND 0x70 = 0" "knownOpcode (b0 AND 0x0F)"
    using assms(1) by (simp_all add: first_ok_def)
  show "inspectWebSocketFrameHeader (b0 # b1 # rest) remaining = check_limits remaining (start 2 (ucast b1))" if "b1 < 126"
  proof -
    have "b1 AND 0x80 = 0" "b1 AND 0x7F = b1" "b1 \<noteq> 126" "b1 \<noteq> 127"
      using that unmasked_length [of b1] by (auto simp: word_less_nat_alt)
    with ok show ?thesis by (simp add: inspectWebSocketFrameHeader_def Let_def start_def)
  qed
  show "inspectWebSocketFrameHeader (b0 # b1 # rest) remaining =
       (if length rest < 2 then start 2 126
        else if from_bytes (take 2 rest) < 126 then (start 4 (from_bytes (take 2 rest)))\<lparr>status := ProtocolError\<rparr>
        else check_limits remaining (start 4 (from_bytes (take 2 rest))))" if "b1 = 126"
    using that ok two_bytes [of rest] by (simp add: inspectWebSocketFrameHeader_def Let_def start_def not_less)
  show "inspectWebSocketFrameHeader (b0 # b1 # rest) remaining =
       (if length rest < 8 then start 2 127
        else if \<not> from_bytes (take 8 rest) < 2 ^ 63 then (start 10 127)\<lparr>status := ProtocolError\<rparr>
        else if from_bytes (take 8 rest) < 65536 then (start 10 (from_bytes (take 8 rest)))\<lparr>status := ProtocolError\<rparr>
        else check_limits remaining (start 10 (from_bytes (take 8 rest))))" if "b1 = 127"
    using that ok eight_bytes [of rest] top_bit [of rest]
    by (simp add: inspectWebSocketFrameHeader_def Let_def start_def not_less)
qed

lemma inspect_accepts:
  "inspectWebSocketFrameHeader data remaining
     = \<lparr>status = Complete, headerBytes = h, payloadBytes = n, opcode = code, final = fin\<rparr>
   \<longleftrightarrow> legal_frame fin code n \<and> unat n \<le> remaining \<and> unat n \<le> size_max
     \<and> prefix (encode_header fin code n) data \<and> h = length (encode_header fin code n)"
proof (cases data rule: two_cases)
  case (3 b0 b1 rest)
  have len: "length (encode_header fin code n) = (if n < 126 then 2 else if n < 65536 then 4 else 10)"
    by (simp add: encode_header_def)
  have small: "m < 65536" "m < 2 ^ 63" if "m < 126 \<or> m < 65536" for m :: u64
    using that by (auto simp: word_less_nat_alt)
  have "unat b1 < 126 \<or> unat b1 = 126 \<or> unat b1 = 127 \<or> 128 \<le> unat b1" by auto
  then consider "\<not> first_ok b0 \<or> \<not> b1 < 0x80" | "first_ok b0" "b1 < 126" | "first_ok b0" "b1 = 126"
    | "first_ok b0" "b1 = 127"
    by (auto simp: word_less_nat_alt word_unat_eq_iff)
  then show ?thesis
  proof cases
    case 1
    have "\<not> (legal_frame fin code n \<and> prefix (encode_header fin code n) data)"
      using 1 first_byte [of b0 fin code]
      by (auto simp: legal_frame_def 3 prefix_header first_ok_def word_less_nat_alt split: if_splits)
    moreover have "inspectWebSocketFrameHeader data remaining
        \<noteq> \<lparr>status = Complete, headerBytes = h, payloadBytes = n, opcode = code, final = fin\<rparr>"
      using inspect_reject [OF 1, of rest remaining] by (auto simp: 3)
    ultimately show ?thesis by blast
  next
    case 2
    have "(ucast b1 :: u64) < 126" using 2(2) by (simp add: word_less_nat_alt)
    moreover have "b1 \<noteq> 126" "b1 \<noteq> 127" using 2 by auto
    ultimately show ?thesis
      using first_byte [of b0 fin code] 2 small [of n]
      by (auto simp: legal_frame_def 3 prefix_header len inspect_forms check_limits_Complete first_ok_def)
  next
    case 3
    define m where "m = from_bytes (take 2 rest)"
    have "unat m < 2 ^ (8 * length (take 2 rest))" unfolding m_def by (rule from_bytes_less)
    then have "2 \<le> length rest \<Longrightarrow> m < 65536" by (simp add: word_less_nat_alt)
    moreover have "\<not> b1 < 126" "b1 \<noteq> 127" using 3 by simp_all
    ultimately show ?thesis
      using first_byte [of b0 fin code] 3 small [of m]
      unfolding legal_frame_def \<open>data = b0 # b1 # rest\<close> prefix_header len inspect_forms(2) [OF 3] m_def [symmetric]
      by (cases "length rest < 2"; cases "m < 126"; cases "m = n") (auto simp: check_limits_Complete first_ok_def)
  next
    case 4
    define m where "m = from_bytes (take 8 rest)"
    have "65536 \<le> m \<Longrightarrow> \<not> m < 126" by (auto simp: word_le_nat_alt word_less_nat_alt)
    moreover have "\<not> b1 < 126" "b1 \<noteq> 126" using 4 by simp_all
    ultimately show ?thesis
      using first_byte [of b0 fin code] 4
      unfolding legal_frame_def \<open>data = b0 # b1 # rest\<close> prefix_header len inspect_forms(3) [OF 4] m_def [symmetric]
      by (cases "length rest < 8"; cases "m < 65536"; cases "m = n"; cases "m < 2 ^ 63")
        (auto simp: check_limits_Complete first_ok_def not_less)
  qed
qed (auto simp: inspectWebSocketFrameHeader_def encode_header_def)

text \<open>C11: A frame header is accepted exactly when it is the shortest encoding of a legal unmasked
  frame whose payload fits, and then its fields are those encoded.\<close>

theorem frame_header_accepted:
  "inspectWebSocketFrameHeader data remaining
     = \<lparr>status = Complete, headerBytes = h, payloadBytes = n, opcode = code, final = fin\<rparr>
   \<longleftrightarrow> legal_frame fin code n \<and> unat n \<le> remaining \<and> unat n \<le> size_max
     \<and> prefix (encode_header fin code n) data \<and> h = length (encode_header fin code n)"
  by (rule inspect_accepts)

end
