(* ===== verification/Web_Socket.thy ===== *)
theory Web_Socket
  imports Websocket_Handshake Websocket_Frame "HOL-Library.List_Lexorder"
begin

text \<open>
  \<open>web_socket.cpp\<close>: the WebSocket client over a TCP stream.  \<open>OnTcpData\<close> is called with every chunk of
  the stream; it is a parser that keeps its place between the calls.  The state has the members of
  the class; what the class hands to its callbacks, to the TCP connection and to the event group is
  the list \<open>events\<close>, oldest first.  \<open>esp_fill_random\<close> takes the next bytes of \<open>entropy\<close>, any
  sequence of bytes, and \<open>tcpSends\<close> is the answer of the TCP connection to a \<open>Send\<close>.
\<close>

section \<open>State\<close>

datatype ws_event =
    OnData "u8 list" bool
  | OnConnected
  | OnDisconnected
  | OnError
  | TcpSend "u8 list"
  | NotifyPong
  | SetSuccessBit
  | SetFailedBit

record websocket =
  headers_map :: "(string \<times> string) list"
  receive_buffer_size :: nat
  receive_buffer :: "u8 list"
  current_message :: "u8 list"
  is_fragmented :: bool
  is_binary :: bool
  continuation :: bool
  handshake_completed :: bool
  connected :: bool
  has_tcp :: bool
  success_bit :: bool
  failed_bit :: bool
  entropy :: "nat \<Rightarrow> u8"
  entropy_used :: nat
  tcpSends :: "u8 list \<Rightarrow> bool"
  events :: "ws_event list"

definition emit :: "ws_event \<Rightarrow> websocket \<Rightarrow> websocket" where
  "emit e w = w\<lparr>events := events w @ [e]\<rparr>"

definition fill_random :: "nat \<Rightarrow> websocket \<Rightarrow> u8 list \<times> websocket" where
  "fill_random n w = (map (entropy w) [entropy_used w..<entropy_used w + n], w\<lparr>entropy_used := entropy_used w + n\<rparr>)"

text \<open>A \<open>std::map\<close>: ordered by the key.\<close>

fun map_assign :: "string \<Rightarrow> string \<Rightarrow> (string \<times> string) list \<Rightarrow> (string \<times> string) list" where
  "map_assign k v [] = [(k, v)]"
| "map_assign k v ((k', v') # m) =
    (if k = k' then (k, v) # m else if k < k' then (k, v) # (k', v') # m else (k', v') # map_assign k v m)"

definition SetHeader :: "string \<Rightarrow> string \<Rightarrow> websocket \<Rightarrow> websocket" where
  "SetHeader key val w = w\<lparr>headers_map := map_assign key val (headers_map w)\<rparr>"

definition SetReceiveBufferSize :: "nat \<Rightarrow> websocket \<Rightarrow> websocket" where
  "SetReceiveBufferSize n w = w\<lparr>receive_buffer_size := n\<rparr>"

section \<open>Sending\<close>

text \<open>The masked payload: byte by byte with \<open>mask[index % 4]\<close>.\<close>

definition mask_payload :: "u8 list \<Rightarrow> u8 list \<Rightarrow> u8 list" where
  "mask_payload key payload = map (\<lambda>index. payload ! index XOR key ! (index mod 4)) [0..<length payload]"

definition Send :: "u8 list \<Rightarrow> bool \<Rightarrow> bool \<Rightarrow> websocket \<Rightarrow> bool \<times> websocket" where
  "Send data binary fin w =
    (if \<not> has_tcp w \<or> length data > 65535 then (False, w)
     else
       let firstByte = (if fin then 0x80 else 0x00) OR (if binary then 0x02 else if continuation w then 0x00 else 0x01) :: u8;
           lengthBytes = (if length data < 126 then [0x80 OR of_nat (length data)]
             else [0x80 OR 126, of_nat (length data div 2 ^ 8 mod 256), of_nat (length data mod 256)]);
           (key, w) = fill_random 4 w;
           frame = firstByte # lengthBytes @ key @ mask_payload key data;
           w = w\<lparr>continuation := \<not> fin\<rparr>
       in (tcpSends w frame, emit (TcpSend frame) w))"

definition SendControlFrame :: "u8 \<Rightarrow> u8 list \<Rightarrow> websocket \<Rightarrow> bool \<times> websocket" where
  "SendControlFrame code data w =
    (if \<not> has_tcp w \<or> length data > 125 then (False, w)
     else
       let (key, w) = fill_random 4 w;
           frame = [0x80 OR code, 0x80 OR of_nat (length data)] @ key @ mask_payload key data
       in (tcpSends w frame, emit (TcpSend frame) w))"

definition Ping :: "websocket \<Rightarrow> websocket" where
  "Ping w = snd (SendControlFrame 0x09 [] w)"

definition Close :: "websocket \<Rightarrow> websocket" where
  "Close w =
    (let w = emit SetFailedBit (w\<lparr>failed_bit := True\<rparr>)
     in if connected w then snd (SendControlFrame 0x08 [] w) else w)"

section \<open>Receiving\<close>

definition to_char :: "u8 \<Rightarrow> char" where
  "to_char b = char_of (unat b)"

definition fail :: "bool \<Rightarrow> websocket \<Rightarrow> websocket" where
  "fail handshakeFailure w =
    (let w = w\<lparr>receive_buffer := [], current_message := [], is_fragmented := False, connected := False\<rparr>
     in if handshakeFailure then emit SetFailedBit (w\<lparr>failed_bit := True\<rparr>) else emit OnError w)"

text \<open>The first loop: the bytes of the server's response.  \<open>None\<close> is a \<open>return\<close> after \<open>fail\<close>; otherwise
  the rest of the chunk is left.\<close>

fun handshake_bytes :: "websocket \<Rightarrow> u8 list \<Rightarrow> websocket \<times> u8 list option" where
  "handshake_bytes w [] = (w, Some [])"
| "handshake_bytes w (byte # data) =
    (if handshake_completed w then (w, Some (byte # data))
     else if length (receive_buffer w) = receive_buffer_size w then (fail True w, None)
     else
       let w = w\<lparr>receive_buffer := receive_buffer w @ [byte]\<rparr>
       in if length (receive_buffer w) \<ge> 4
            \<and> map to_char (drop (length (receive_buffer w) - 4) (receive_buffer w)) = crlf @ crlf
          then (case map_of (headers_map w) ''Sec-WebSocket-Key'' of
              None \<Rightarrow> (fail True w, None)
            | Some clientKey \<Rightarrow>
                if \<not> validateWebSocketHandshakeResponse (map to_char (receive_buffer w)) clientKey
                then (fail True w, None)
                else handshake_bytes
                  (emit SetSuccessBit (w\<lparr>receive_buffer := [], handshake_completed := True, success_bit := True\<rparr>)) data)
          else handshake_bytes w data)"

text \<open>The loops that fill the receive buffer up to \<open>n\<close> bytes, byte by byte or in one copy.\<close>

fun fill_bytes :: "nat \<Rightarrow> u8 list \<Rightarrow> u8 list \<Rightarrow> u8 list \<times> u8 list" where
  "fill_bytes n buffer [] = (buffer, [])"
| "fill_bytes n buffer (byte # data) =
    (if length buffer < n then fill_bytes n (buffer @ [byte]) data else (buffer, byte # data))"

definition fill_copy :: "nat \<Rightarrow> u8 list \<Rightarrow> u8 list \<Rightarrow> u8 list \<times> u8 list" where
  "fill_copy n buffer data =
    (let needed = n - length buffer; copied = min needed (length data)
     in (buffer @ take copied data, drop copied data))"

definition size_sub :: "nat \<Rightarrow> nat \<Rightarrow> nat" where
  "size_sub a b = (if b \<le> a then a - b else a + (size_max + 1) - b)"

definition required_header :: "u8 list \<Rightarrow> nat" where
  "required_header buffer =
    (let encodedLength = buffer ! 1 AND 0x7F in if encodedLength = 126 then 4 else if encodedLength = 127 then 10 else 2)"

text \<open>The \<open>switch\<close> on a complete frame; \<open>False\<close> is its default branch.\<close>

definition handle_frame :: "u8 \<Rightarrow> bool \<Rightarrow> u8 list \<Rightarrow> websocket \<Rightarrow> websocket \<times> bool" where
  "handle_frame code fin payload w =
    (if code = 0x00
     then let w = w\<lparr>current_message := current_message w @ payload\<rparr>
          in if fin
             then ((emit (OnData (current_message w) (is_binary w)) w)\<lparr>current_message := [], is_fragmented := False\<rparr>, True)
             else (w, True)
     else if code = 0x01 \<or> code = 0x02
     then let w = w\<lparr>is_binary := (code = 0x02)\<rparr>
          in if fin then (emit (OnData payload (is_binary w)) w, True)
             else (w\<lparr>current_message := payload, is_fragmented := True\<rparr>, True)
     else if code = 0x08 then (emit OnDisconnected (w\<lparr>connected := False\<rparr>), True)
     else if code = 0x09 then (snd (SendControlFrame 0x0A payload w), True)
     else if code = 0x0A then (if payload = [] then emit NotifyPong w else w, True)
     else (fail False w, False))"

lemma fill_bytes_eq: "fill_bytes n buffer data = fill_copy n buffer data"
  by (induction n buffer data rule: fill_bytes.induct)
    (auto simp: fill_copy_def Let_def min_def Suc_diff_Suc [symmetric] not_le not_less less_Suc_eq_le)

lemma fill_copy_length:
  "fill_copy n buffer data = (b, d) \<Longrightarrow> length buffer \<le> length b \<and> length b + length d = length buffer + length data"
  by (auto simp: fill_copy_def Let_def)

function receive_frames :: "websocket \<Rightarrow> u8 list \<Rightarrow> websocket" where
  "receive_frames w data =
    (if data = [] \<and> receive_buffer w = [] then w
     else case fill_bytes 2 (receive_buffer w) data of (buffer, data) \<Rightarrow>
       if length buffer < 2 then w\<lparr>receive_buffer := buffer\<rparr>
       else case fill_bytes (required_header buffer) buffer data of (buffer, data) \<Rightarrow>
         if length buffer < required_header buffer then w\<lparr>receive_buffer := buffer\<rparr>
         else
           let code = buffer ! 0 AND 0x0F
           in if code = 0x00 \<and> \<not> is_fragmented w \<or> (code = 0x01 \<or> code = 0x02) \<and> is_fragmented w
              then fail False (w\<lparr>receive_buffer := buffer\<rparr>)
              else
                let remainingMessageBytes = (if code \<le> 0x02
                      then size_sub (receive_buffer_size w) (length (current_message w)) else receive_buffer_size w);
                    frameHeader = inspectWebSocketFrameHeader buffer remainingMessageBytes
                in if status frameHeader \<noteq> Complete then fail False (w\<lparr>receive_buffer := buffer\<rparr>)
                   else case fill_copy (headerBytes frameHeader + unat (payloadBytes frameHeader)) buffer data of
                     (buffer, data) \<Rightarrow>
                       if length buffer < headerBytes frameHeader + unat (payloadBytes frameHeader)
                       then w\<lparr>receive_buffer := buffer\<rparr>
                       else case handle_frame code (final frameHeader)
                                (take (unat (payloadBytes frameHeader)) (drop (headerBytes frameHeader) buffer))
                                (w\<lparr>receive_buffer := buffer\<rparr>) of
                              (w, False) \<Rightarrow> w
                            | (w, True) \<Rightarrow> receive_frames (w\<lparr>receive_buffer := []\<rparr>) data)"
  by pat_completeness auto
termination
proof (relation "measure (\<lambda>(w, data). length (receive_buffer w) + length data)", goal_cases)
  case (2 w data x y xa ya code remainingMessageBytes frameHeader xe yb xf yc)
  then have "2 \<le> length x" "length x \<le> length xa" "length xa \<le> length xe"
    "length x + length y = length (receive_buffer w) + length data" "length xa + length ya = length x + length y"
    "length xe + length yb = length xa + length ya"
    by (auto simp: fill_bytes_eq dest!: sym [of "(_, _)"] fill_copy_length)
  then show ?case by simp
qed simp

definition OnTcpData :: "u8 list \<Rightarrow> websocket \<Rightarrow> websocket" where
  "OnTcpData data w =
    (case handshake_bytes w data of
       (w, None) \<Rightarrow> w
     | (w, Some data) \<Rightarrow> if \<not> handshake_completed w then w else receive_frames w data)"

end
