(* ===== verification/Bridge_Websocket.thy ===== *)
theory Bridge_Websocket
  imports Web_Socket
begin

text \<open>
  \<open>main/hal/stackchan_bridge_websocket.cpp\<close>: \<open>OfficialWebSocketTransport\<close>, which lets the single-threaded
  bridge client use a WebSocket that is opened by a worker thread and calls back from the network
  task.  Callbacks go through a bounded queue; \<open>poll\<close>, in the client's thread, runs them unless the
  connection they belong to has been replaced or closed.

  The threads are interleaved step by step: every step below is what one thread does between two
  points at which another may intervene, and a run is any sequence of steps.  A socket object is a
  number; \<open>socket_calls\<close> lists what is called on it.  \<open>live\<close> are the sockets not yet destroyed, with the
  generation and the callbacks that their handlers captured.  \<open>accepted\<close>, \<open>runs\<close> and \<open>dropped\<close> only
  record history.  The 64-bit generation counter does not wrap around in the life of a device, and
  is a natural number.
\<close>

section \<open>State\<close>

datatype callback_kind = KConnected | KDisconnected | KData | KError | KPong

datatype client_callback =
    ConnectedCallback
  | DisconnectedCallback
  | DataCallback "u8 list option" nat bool
  | ErrorCallback int
  | PongCallback

record pending_callback =
  entry_generation :: nat
  requiresOpenConnection :: bool
  entry_callback :: client_callback

datatype socket_call =
    CallSetHeader string string
  | CallSetReceiveBufferSize nat
  | CallConnect string
  | CallSend "u8 list" bool bool
  | CallPing
  | CallClose

text \<open>Where the worker thread is in \<open>runConnection\<close>.\<close>

datatype worker_phase =
    NoWorker
  | Starting
  | Creating
  | Publishing nat
  | Deciding nat
  | Dialing nat
  | Cleaning nat bool
  | Ending bool

datatype run_record = Ran pending_callback bool | OverflowError

record transport =
  transport_headers :: "(string \<times> string) list"
  receiveBufferSize :: nat
  registered :: "callback_kind \<Rightarrow> bool"
  current_socket :: "nat option"
  connectionRunning :: bool
  closeRequested :: bool
  shuttingDown :: bool
  connectionGeneration :: nat
  pendingCallbacks :: "pending_callback list"
  pendingCallbackOverflow :: bool
  phase :: worker_phase
  worker_generation :: nat
  worker_url :: string
  worker_callbacks :: "callback_kind \<Rightarrow> bool"
  batch :: "pending_callback list"
  live :: "nat \<rightharpoonup> nat \<times> (callback_kind \<Rightarrow> bool)"
  next_socket :: nat
  socket_calls :: "(nat \<times> socket_call) list"
  accepted :: "pending_callback list"
  runs :: "run_record list"
  dropped :: bool

definition kMaxPendingCallbacks :: nat where
  "kMaxPendingCallbacks = 256"

definition on_socket :: "socket_call \<Rightarrow> transport \<Rightarrow> transport" where
  "on_socket call t =
    (case current_socket t of None \<Rightarrow> t | Some n \<Rightarrow> t\<lparr>socket_calls := socket_calls t @ [(n, call)]\<rparr>)"

section \<open>The operations of the client\<close>

definition setHeader :: "string \<Rightarrow> string \<Rightarrow> transport \<Rightarrow> transport" where
  "setHeader name val t =
    on_socket (CallSetHeader (c_str name) (c_str val)) (t\<lparr>transport_headers := map_assign name val (transport_headers t)\<rparr>)"

definition setReceiveBufferSize :: "nat \<Rightarrow> transport \<Rightarrow> transport" where
  "setReceiveBufferSize n t = on_socket (CallSetReceiveBufferSize n) (t\<lparr>receiveBufferSize := n\<rparr>)"

definition set_callback :: "callback_kind \<Rightarrow> bool \<Rightarrow> transport \<Rightarrow> transport" where
  "set_callback kind given t = t\<lparr>registered := (registered t)(kind := given)\<rparr>"

text \<open>\<open>connect\<close>: \<open>configured\<close> is whether the thread configuration could be applied, \<open>started\<close> whether the
  thread could be created.\<close>

definition connect :: "bool \<Rightarrow> bool \<Rightarrow> string \<Rightarrow> transport \<Rightarrow> bool \<times> transport" where
  "connect configured started url t =
    (if connectionRunning t then (False, t)
     else
       let t = t\<lparr>closeRequested := False\<rparr>
       in if \<not> configured then (False, t)
          else
            let generation = connectionGeneration t + 1;
                t = t\<lparr>connectionGeneration := generation\<rparr>
            in if \<not> started then (False, t)
               else (True, t\<lparr>connectionRunning := True, phase := Starting, worker_generation := generation,
                             worker_url := url, worker_callbacks := registered t\<rparr>))"

definition transport_sendText :: "(nat \<Rightarrow> bool) \<Rightarrow> u8 list \<Rightarrow> transport \<Rightarrow> transport" where
  "transport_sendText is_connected data t =
    (case current_socket t of
       Some n \<Rightarrow> if is_connected n then on_socket (CallSend data False True) t else t
     | None \<Rightarrow> t)"

definition transport_sendBinary :: "(nat \<Rightarrow> bool) \<Rightarrow> u8 list \<Rightarrow> transport \<Rightarrow> transport" where
  "transport_sendBinary is_connected data t =
    (case current_socket t of
       Some n \<Rightarrow> if is_connected n \<and> data \<noteq> [] then on_socket (CallSend data True True) t else t
     | None \<Rightarrow> t)"

definition ping :: "(nat \<Rightarrow> bool) \<Rightarrow> transport \<Rightarrow> transport" where
  "ping is_connected t =
    (case current_socket t of Some n \<Rightarrow> if is_connected n then on_socket CallPing t else t | None \<Rightarrow> t)"

definition close :: "transport \<Rightarrow> transport" where
  "close t = on_socket CallClose (t\<lparr>closeRequested := True\<rparr>)"

definition shut_down :: "transport \<Rightarrow> transport" where
  "shut_down t = close (t\<lparr>shuttingDown := True\<rparr>)"

section \<open>The queue\<close>

definition enqueueCallback :: "nat \<Rightarrow> bool \<Rightarrow> bool \<Rightarrow> client_callback \<Rightarrow> transport \<Rightarrow> transport" where
  "enqueueCallback generation requiresOpen given cb t =
    (if \<not> given \<or> shuttingDown t then t
     else if length (pendingCallbacks t) \<ge> kMaxPendingCallbacks then t\<lparr>pendingCallbackOverflow := True, dropped := True\<rparr>
     else
       let entry = \<lparr>entry_generation = generation, requiresOpenConnection = requiresOpen, entry_callback = cb\<rparr>
       in t\<lparr>pendingCallbacks := pendingCallbacks t @ [entry], accepted := accepted t @ [entry]\<rparr>)"

text \<open>\<open>poll\<close> reports an overflow and takes the queue; then it goes through what it took, and between two
  entries the callback that ran may call the operations above.\<close>

definition poll_begin :: "transport \<Rightarrow> transport" where
  "poll_begin t =
    (let t = (if pendingCallbackOverflow t
              then t\<lparr>pendingCallbackOverflow := False, dropped := False,
                     runs := runs t @ (if registered t KError then [OverflowError] else [])\<rparr>
              else t)
     in t\<lparr>batch := pendingCallbacks t, pendingCallbacks := []\<rparr>)"

definition poll_next :: "transport \<Rightarrow> transport" where
  "poll_next t =
    (case batch t of
       [] \<Rightarrow> t
     | entry # rest \<Rightarrow>
         let t = t\<lparr>batch := rest\<rparr>
         in if entry_generation entry \<noteq> connectionGeneration t \<or> shuttingDown t
              \<or> requiresOpenConnection entry \<and> closeRequested t then t
            else t\<lparr>runs := runs t @ [Ran entry (closeRequested t)]\<rparr>)"

section \<open>The worker\<close>

definition start_worker :: "transport \<Rightarrow> transport" where
  "start_worker t = (if phase t = Starting then t\<lparr>current_socket := None, phase := Creating\<rparr> else t)"

text \<open>\<open>created\<close>: the network made a socket; \<open>observed\<close>: its pong observer could be registered (otherwise an
  exception ends the attempt).\<close>

definition create_socket :: "bool \<Rightarrow> bool \<Rightarrow> transport \<Rightarrow> transport" where
  "create_socket created observed t =
    (if phase t \<noteq> Creating then t
     else if closeRequested t \<or> shuttingDown t then t\<lparr>phase := Ending False\<rparr>
     else if \<not> created \<or> \<not> observed then t\<lparr>phase := Ending True\<rparr>
     else
       let n = next_socket t
       in t\<lparr>next_socket := n + 1, live := (live t)(n \<mapsto> (worker_generation t, worker_callbacks t)),
            socket_calls := socket_calls t @ (n, CallSetReceiveBufferSize (receiveBufferSize t))
              # map (\<lambda>(name, val). (n, CallSetHeader (c_str name) (c_str val))) (transport_headers t),
            phase := Publishing n\<rparr>)"

definition publish_socket :: "transport \<Rightarrow> transport" where
  "publish_socket t =
    (case phase t of Publishing n \<Rightarrow> t\<lparr>current_socket := Some n, phase := Deciding n\<rparr> | _ \<Rightarrow> t)"

definition decide_connect :: "transport \<Rightarrow> transport" where
  "decide_connect t =
    (case phase t of
       Deciding n \<Rightarrow>
         if closeRequested t \<or> shuttingDown t
         then t\<lparr>socket_calls := socket_calls t @ [(n, CallClose)], phase := Cleaning n False\<rparr>
         else t\<lparr>socket_calls := socket_calls t @ [(n, CallConnect (c_str (worker_url t)))], phase := Dialing n\<rparr>
     | _ \<Rightarrow> t)"

text \<open>\<open>Connect\<close> returned \<open>ok\<close>, or ended in an exception, which leaves the socket where it is.\<close>

definition connect_returned :: "bool \<Rightarrow> transport \<Rightarrow> transport" where
  "connect_returned ok t = (case phase t of Dialing n \<Rightarrow> t\<lparr>phase := Cleaning n (\<not> ok)\<rparr> | _ \<Rightarrow> t)"

definition connect_threw :: "transport \<Rightarrow> transport" where
  "connect_threw t = (case phase t of Dialing n \<Rightarrow> t\<lparr>phase := Ending True\<rparr> | _ \<Rightarrow> t)"

definition clean_up :: "transport \<Rightarrow> transport" where
  "clean_up t =
    (case phase t of
       Cleaning n failed \<Rightarrow>
         let t = (if (failed \<or> closeRequested t \<or> shuttingDown t) \<and> current_socket t = Some n
                  then t\<lparr>current_socket := None\<rparr> else t)
         in t\<lparr>phase := Ending failed\<rparr>
     | _ \<Rightarrow> t)"

definition end_worker :: "transport \<Rightarrow> transport" where
  "end_worker t =
    (case phase t of
       Ending failed \<Rightarrow>
         let t = (if failed \<and> connectionGeneration t = worker_generation t \<and> \<not> closeRequested t \<and> \<not> shuttingDown t
                  then enqueueCallback (worker_generation t) True (worker_callbacks t KError) (ErrorCallback (-1)) t
                  else t)
         in t\<lparr>connectionRunning := False, phase := NoWorker\<rparr>
     | _ \<Rightarrow> t)"

section \<open>The sockets' handlers\<close>

definition socket_event :: "nat \<Rightarrow> client_callback \<Rightarrow> transport \<Rightarrow> transport" where
  "socket_event n event t =
    (case live t n of
       None \<Rightarrow> t
     | Some (generation, given) \<Rightarrow>
         (case event of
            ConnectedCallback \<Rightarrow> enqueueCallback generation True (given KConnected) event t
          | DisconnectedCallback \<Rightarrow> enqueueCallback generation False (given KDisconnected) event t
          | PongCallback \<Rightarrow> enqueueCallback generation True (given KPong) event t
          | DataCallback data bytes binary \<Rightarrow>
              if connectionGeneration t \<noteq> generation \<or> closeRequested t \<or> shuttingDown t \<or> \<not> given KData then t
              else enqueueCallback generation True True event t
          | ErrorCallback error \<Rightarrow> if given KError then enqueueCallback generation False True event t else t))"

text \<open>A socket is destroyed when the last reference to it is gone; the worker holds one while it uses it.\<close>

fun in_use :: "worker_phase \<Rightarrow> nat \<Rightarrow> bool" where
  "in_use (Publishing m) n = (m = n)"
| "in_use (Deciding m) n = (m = n)"
| "in_use (Dialing m) n = (m = n)"
| "in_use (Cleaning m failed) n = (m = n)"
| "in_use _ n = False"

definition destroy_socket :: "nat \<Rightarrow> transport \<Rightarrow> transport" where
  "destroy_socket n t =
    (if current_socket t = Some n \<or> in_use (phase t) n then t else t\<lparr>live := (live t)(n := None)\<rparr>)"

section \<open>Runs\<close>

datatype transport_step =
    SetHeaderStep string string
  | SetReceiveBufferSizeStep nat
  | SetCallbackStep callback_kind bool
  | ConnectStep bool bool string
  | SendTextStep "nat \<Rightarrow> bool" "u8 list"
  | SendBinaryStep "nat \<Rightarrow> bool" "u8 list"
  | PingStep "nat \<Rightarrow> bool"
  | CloseStep
  | ShutDownStep
  | PollBeginStep
  | PollNextStep
  | StartWorkerStep
  | CreateSocketStep bool bool
  | PublishStep
  | DecideStep
  | ConnectReturnedStep bool
  | ConnectThrewStep
  | CleanUpStep
  | EndWorkerStep
  | SocketEventStep nat client_callback
  | DestroyStep nat

fun perform_step :: "transport_step \<Rightarrow> transport \<Rightarrow> transport" where
  "perform_step (SetHeaderStep name val) t = setHeader name val t"
| "perform_step (SetReceiveBufferSizeStep n) t = setReceiveBufferSize n t"
| "perform_step (SetCallbackStep kind given) t = set_callback kind given t"
| "perform_step (ConnectStep configured started url) t = snd (connect configured started url t)"
| "perform_step (SendTextStep c data) t = transport_sendText c data t"
| "perform_step (SendBinaryStep c data) t = transport_sendBinary c data t"
| "perform_step (PingStep c) t = ping c t"
| "perform_step CloseStep t = close t"
| "perform_step ShutDownStep t = shut_down t"
| "perform_step PollBeginStep t = (if batch t = [] then poll_begin t else t)"
| "perform_step PollNextStep t = poll_next t"
| "perform_step StartWorkerStep t = start_worker t"
| "perform_step (CreateSocketStep created observed) t = create_socket created observed t"
| "perform_step PublishStep t = publish_socket t"
| "perform_step DecideStep t = decide_connect t"
| "perform_step (ConnectReturnedStep ok) t = connect_returned ok t"
| "perform_step ConnectThrewStep t = connect_threw t"
| "perform_step CleanUpStep t = clean_up t"
| "perform_step EndWorkerStep t = end_worker t"
| "perform_step (SocketEventStep n event) t = socket_event n event t"
| "perform_step (DestroyStep n) t = destroy_socket n t"

definition new_transport :: transport where
  "new_transport = \<lparr>transport_headers = [], receiveBufferSize = 2048, registered = (\<lambda>_. False), current_socket = None,
     connectionRunning = False, closeRequested = False, shuttingDown = False, connectionGeneration = 0,
     pendingCallbacks = [], pendingCallbackOverflow = False, phase = NoWorker, worker_generation = 0,
     worker_url = [], worker_callbacks = (\<lambda>_. False), batch = [], live = Map.empty, next_socket = 0,
     socket_calls = [], accepted = [], runs = [], dropped = False\<rparr>"

section \<open>The contract of the queue\<close>

primrec ran_entry :: "run_record \<Rightarrow> pending_callback option" where
  "ran_entry (Ran entry was_closed) = Some entry"
| "ran_entry OverflowError = None"

definition ran :: "transport \<Rightarrow> pending_callback list" where
  "ran t = List.map_filter ran_entry (runs t)"

primrec ran_open :: "run_record \<Rightarrow> bool" where
  "ran_open (Ran entry was_closed) = (requiresOpenConnection entry \<longrightarrow> \<not> was_closed)"
| "ran_open OverflowError = True"

definition queue_ok :: "transport \<Rightarrow> bool" where
  "queue_ok t \<longleftrightarrow>
    length (pendingCallbacks t) \<le> kMaxPendingCallbacks
    \<and> subseq (ran t @ batch t @ pendingCallbacks t) (accepted t)
    \<and> sorted (map entry_generation (ran t)) \<and> list_all (\<lambda>entry. entry_generation entry \<le> connectionGeneration t) (ran t)
    \<and> list_all ran_open (runs t)
    \<and> (dropped t \<longrightarrow> pendingCallbackOverflow t)
    \<and> connectionRunning t = (phase t \<noteq> NoWorker)
    \<and> (connectionRunning t \<longrightarrow> worker_generation t = connectionGeneration t)"

text \<open>The fields that the queue's contract is about.\<close>

definition same_queue :: "transport \<Rightarrow> transport \<Rightarrow> bool" where
  "same_queue s t \<longleftrightarrow> pendingCallbacks s = pendingCallbacks t \<and> runs s = runs t \<and> batch s = batch t
    \<and> accepted s = accepted t \<and> dropped s = dropped t \<and> pendingCallbackOverflow s = pendingCallbackOverflow t
    \<and> connectionGeneration s = connectionGeneration t \<and> worker_generation s = worker_generation t"

lemma same_queue_ok:
  assumes "queue_ok t" "same_queue s t" "connectionRunning s = (phase s \<noteq> NoWorker)"
    "connectionRunning s = connectionRunning t"
  shows "queue_ok s"
  using assms by (simp add: queue_ok_def same_queue_def ran_def)

lemma on_socket_queue: "same_queue (on_socket call t) t" "connectionRunning (on_socket call t) = connectionRunning t"
    "phase (on_socket call t) = phase t"
  by (auto simp: on_socket_def same_queue_def split: option.split)

lemma enqueue_ok: "queue_ok t \<Longrightarrow> queue_ok (enqueueCallback generation requiresOpen given cb t)"
  by (auto simp: queue_ok_def enqueueCallback_def ran_def Let_def kMaxPendingCallbacks_def
      simp flip: append_assoc)

lemma enqueue_fields:
  "connectionRunning (enqueueCallback generation requiresOpen given cb t) = connectionRunning t"
  "phase (enqueueCallback generation requiresOpen given cb t) = phase t"
  by (simp_all add: enqueueCallback_def Let_def)

lemma step_other_queue:
  assumes "\<And>configured started url. st \<noteq> ConnectStep configured started url" "st \<noteq> PollBeginStep" "st \<noteq> PollNextStep"
    "st \<noteq> EndWorkerStep" "\<And>n event. st \<noteq> SocketEventStep n event"
  shows "same_queue (perform_step st t) t \<and> connectionRunning (perform_step st t) = connectionRunning t
    \<and> (phase (perform_step st t) = NoWorker) = (phase t = NoWorker)"
  using assms on_socket_queue
  by (cases st)
    (auto simp: setHeader_def setReceiveBufferSize_def set_callback_def transport_sendText_def transport_sendBinary_def ping_def close_def
      shut_down_def start_worker_def create_socket_def publish_socket_def decide_connect_def connect_returned_def
      connect_threw_def clean_up_def destroy_socket_def same_queue_def Let_def
      split: option.split worker_phase.split)

lemma connect_ok:
  assumes "queue_ok t"
  shows "queue_ok (snd (connect configured started url t))"
proof -
  have "list_all (\<lambda>entry. entry_generation entry \<le> connectionGeneration t + 1) (ran t)"
    using assms by (auto simp: queue_ok_def list_all_iff)
  then show ?thesis using assms by (auto simp: connect_def queue_ok_def ran_def Let_def)
qed

lemma map_filter_append: "List.map_filter f (xs @ ys) = List.map_filter f xs @ List.map_filter f ys"
  by (simp add: List.map_filter_def)

lemma poll_begin_ok: "queue_ok t \<Longrightarrow> batch t = [] \<Longrightarrow> queue_ok (poll_begin t)"
  by (auto simp: poll_begin_def queue_ok_def ran_def map_filter_append Let_def)

lemma poll_next_ok:
  assumes "queue_ok t"
  shows "queue_ok (poll_next t)"
proof (cases "batch t")
  case (Cons entry rest)
  have "subseq (ran t @ rest @ pendingCallbacks t) (ran t @ batch t @ pendingCallbacks t)"
    unfolding Cons by (intro list_emb_append_mono) (auto intro: list_emb_Cons)
  then have skip: "subseq (ran t @ rest @ pendingCallbacks t) (accepted t)"
    using assms unfolding queue_ok_def by (meson subseq_order.trans)
  show ?thesis
  proof (cases "entry_generation entry \<noteq> connectionGeneration t \<or> shuttingDown t
      \<or> requiresOpenConnection entry \<and> closeRequested t")
    case True
    then show ?thesis using assms skip Cons by (auto simp: poll_next_def queue_ok_def ran_def Let_def)
  next
    case False
    have "List.map_filter ran_entry (runs t @ [Ran entry (closeRequested t)]) = ran t @ [entry]"
      by (simp add: ran_def map_filter_append List.map_filter_simps)
    then show ?thesis
      using assms False Cons
      by (auto simp: poll_next_def queue_ok_def ran_def Let_def sorted_append list_all_iff)
  qed
qed (use assms in \<open>simp add: poll_next_def\<close>)

lemma end_worker_ok: "queue_ok t \<Longrightarrow> queue_ok (end_worker t)"
  using enqueue_ok [of t "worker_generation t" True "worker_callbacks t KError" "ErrorCallback (- 1)"]
  by (auto simp: end_worker_def queue_ok_def ran_def Let_def split: worker_phase.split)

lemma socket_event_ok: "queue_ok t \<Longrightarrow> queue_ok (socket_event n event t)"
  by (auto simp: socket_event_def enqueue_ok split: option.split client_callback.split)

lemma step_ok: "queue_ok t \<Longrightarrow> queue_ok (perform_step st t)"
proof -
  assume q: "queue_ok t"
  show ?thesis
  proof (cases "(\<exists>configured started url. st = ConnectStep configured started url) \<or> st = PollBeginStep \<or> st = PollNextStep
      \<or> st = EndWorkerStep \<or> (\<exists>n event. st = SocketEventStep n event)")
    case True
    then show ?thesis
      using q connect_ok poll_begin_ok poll_next_ok end_worker_ok socket_event_ok by auto
  next
    case False
    then have "same_queue (perform_step st t) t \<and> connectionRunning (perform_step st t) = connectionRunning t
        \<and> (phase (perform_step st t) = NoWorker) = (phase t = NoWorker)"
      by (intro step_other_queue) auto
    with q show ?thesis by (intro same_queue_ok [OF q]) (auto simp: queue_ok_def)
  qed
qed

interpretation transports: invariant_machine perform_step queue_ok
  by unfold_locales (rule step_ok)

lemma reachable_ok: "queue_ok (fold perform_step steps new_transport)"
  by (rule transports.run_inv) (simp add: queue_ok_def new_transport_def ran_def List.map_filter_simps)


theorem lost_callbacks_are_reported:
  "let t = fold perform_step steps new_transport
   in if dropped t \<and> registered t KError
      then runs (poll_begin t) = runs t @ [OverflowError] \<and> \<not> dropped (poll_begin t)
      else True"
  using reachable_ok [of steps] by (simp add: queue_ok_def poll_begin_def Let_def)


end
