(* ===== verification/Web_Socket_Stream.thy ===== *)
theory Web_Socket_Stream
  imports Web_Socket
begin

text \<open>
  The receiving side of \<open>web_socket.cpp\<close> as a function of the byte stream: how TCP cuts the stream
  into chunks makes no difference, frames that a server encodes come out as the messages they
  carry, and the buffers stay within the configured size.
\<close>

section \<open>The header depends on its own bytes\<close>

lemma required_header_bounds: "2 \<le> required_header T" "required_header T \<le> 10"
  by (auto simp: required_header_def Let_def)

lemma required_header_append: "2 \<le> length A \<Longrightarrow> required_header (A @ B) = required_header A"
  by (simp add: required_header_def nth_append)

lemma inspect_reject_all:
  assumes "\<not> first_ok b0 \<or> \<not> b1 < 0x80"
  shows "inspectWebSocketFrameHeader (b0 # b1 # rest) remaining = inspectWebSocketFrameHeader [b0, b1] remaining"
  using assms by (auto simp: inspectWebSocketFrameHeader_def Let_def first_ok_def unmasked_length(1) [symmetric])

lemma byte_forms:
  obtains "\<not> b1 < (0x80 :: u8)" | "b1 < 126" "required_header (b0 # b1 # r) = 2"
  | "b1 = 126" "required_header (b0 # b1 # r) = 4" | "b1 = 127" "required_header (b0 # b1 # r) = 10"
proof -
  have u: "unat b1 < 126 \<or> unat b1 = 126 \<or> unat b1 = 127 \<or> 128 \<le> unat b1" by auto
  have "b1 < 0x80 \<Longrightarrow> required_header (b0 # b1 # r) = (if b1 = 126 then 4 else if b1 = 127 then 10 else 2)"
    using unmasked_length(2) [of b1] by (simp add: required_header_def Let_def)
  with u that show thesis by (auto simp: word_less_nat_alt word_unat_eq_iff split: if_splits)
qed

lemma inspect_append:
  assumes "2 \<le> length A" "required_header A \<le> length A"
  shows "inspectWebSocketFrameHeader (A @ B) remaining = inspectWebSocketFrameHeader A remaining"
proof -
  obtain b0 b1 r where A: "A = b0 # b1 # r" using assms(1) by (cases A rule: two_cases) auto
  show ?thesis
  proof (cases "first_ok b0 \<and> b1 < 0x80")
    case False
    then show ?thesis using inspect_reject_all [of b0 b1] unfolding A append_Cons by (metis)
  next
    case True
    then have ok: "first_ok b0" by simp
    show ?thesis
      using assms(2) True unfolding A
      by (cases rule: byte_forms [of b1 _ b0 r]) (simp_all add: inspect_forms [OF ok])
  qed
qed

lemma complete_header:
  assumes "2 \<le> length A" "status (inspectWebSocketFrameHeader A remaining) = Complete"
  shows "headerBytes (inspectWebSocketFrameHeader A remaining) = required_header A"
    "opcode (inspectWebSocketFrameHeader A remaining) = A ! 0 AND 0x0F"
    "unat (payloadBytes (inspectWebSocketFrameHeader A remaining)) \<le> remaining"
    "knownOpcode (A ! 0 AND 0x0F)"
proof -
  obtain b0 b1 r where A: "A = b0 # b1 # r" using assms(1) by (cases A rule: two_cases) auto
  have ok: "first_ok b0" "b1 < 0x80"
    using assms(2) inspect_reject [of b0 b1 r remaining] unfolding A by (metis WebSocketFrameHeaderStatus.distinct(10))+
  then show "knownOpcode (A ! 0 AND 0x0F)" by (simp add: first_ok_def A)
  show "headerBytes (inspectWebSocketFrameHeader A remaining) = required_header A"
    "opcode (inspectWebSocketFrameHeader A remaining) = A ! 0 AND 0x0F"
    "unat (payloadBytes (inspectWebSocketFrameHeader A remaining)) \<le> remaining"
    using assms(2) ok(2) unfolding A
    by (cases rule: byte_forms [of b1 _ b0 r];
        auto simp: inspect_forms [OF ok(1)] check_limits_def Let_def split: if_splits)+
qed

section \<open>One frame of the stream\<close>

datatype stream_item = Need | Bad | Frame nat u8 bool "u8 list"

definition remaining_bytes :: "websocket \<Rightarrow> u8 \<Rightarrow> nat" where
  "remaining_bytes w code =
    (if code \<le> 0x02 then size_sub (receive_buffer_size w) (length (current_message w)) else receive_buffer_size w)"

definition next_frame :: "websocket \<Rightarrow> u8 list \<Rightarrow> stream_item" where
  "next_frame w T =
    (if length T < 2 \<or> length T < required_header T then Need
     else let code = T ! 0 AND 0x0F; h = inspectWebSocketFrameHeader T (remaining_bytes w code);
              k = headerBytes h + unat (payloadBytes h)
          in if code = 0x00 \<and> \<not> is_fragmented w \<or> (code = 0x01 \<or> code = 0x02) \<and> is_fragmented w
                \<or> status h \<noteq> Complete then Bad
             else if length T < k then Need
             else Frame k code (final h) (take (unat (payloadBytes h)) (drop (headerBytes h) T)))"

definition pending :: "websocket \<Rightarrow> bool" where
  "pending w \<longleftrightarrow> next_frame w (receive_buffer w) = Need"

lemma remaining_bytes_buffer [simp]: "remaining_bytes (w\<lparr>receive_buffer := b\<rparr>) = remaining_bytes w"
  by (simp add: remaining_bytes_def fun_eq_iff)

lemma next_frame_buffer [simp]: "next_frame (w\<lparr>receive_buffer := b\<rparr>) T = next_frame w T"
  by (simp add: next_frame_def)

lemma FrameD:
  assumes "next_frame w T = Frame k code fin payload"
  defines "h \<equiv> inspectWebSocketFrameHeader T (remaining_bytes w (T ! 0 AND 0x0F))"
  shows "code = T ! 0 AND 0x0F" "status h = Complete" "k = required_header T + unat (payloadBytes h)" "fin = final h"
    "payload = take (unat (payloadBytes h)) (drop (required_header T) T)" "k \<le> length T" "required_header T \<le> k"
    "\<not> (code = 0x00 \<and> \<not> is_fragmented w \<or> (code = 0x01 \<or> code = 0x02) \<and> is_fragmented w)"
    "2 \<le> length T" "required_header T \<le> length T" "headerBytes h = required_header T"
proof -
  show "2 \<le> length T" "required_header T \<le> length T" "status h = Complete" "code = T ! 0 AND 0x0F" "fin = final h" "k \<le> length T"
    "\<not> (code = 0x00 \<and> \<not> is_fragmented w \<or> (code = 0x01 \<or> code = 0x02) \<and> is_fragmented w)"
    using assms(1) unfolding h_def by (auto simp: next_frame_def Let_def split: if_splits)
  moreover from this show hb: "headerBytes h = required_header T" unfolding h_def by (intro complete_header(1))
  show "k = required_header T + unat (payloadBytes h)"
    "payload = take (unat (payloadBytes h)) (drop (required_header T) T)"
    using assms(1) unfolding hb [symmetric] unfolding h_def by (auto simp: next_frame_def Let_def split: if_splits)
  then show "required_header T \<le> k" by simp
qed

lemma Frame_bounds:
  assumes "next_frame w T = Frame k code fin payload"
  shows "2 \<le> k" "knownOpcode code" "length payload \<le> remaining_bytes w code" "length payload + 2 \<le> k"
  using FrameD [OF assms] complete_header [of T "remaining_bytes w (T ! 0 AND 0x0F)"] required_header_bounds(1) [of T]
  by auto

text \<open>A frame once complete, or once known to be bad, stays so when more bytes follow.\<close>

lemma next_frame_append:
  assumes "next_frame w T \<noteq> Need"
  shows "next_frame w (T @ B) = next_frame w T"
proof -
  have l: "2 \<le> length T" "required_header T \<le> length T"
    using assms by (auto simp: next_frame_def split: if_splits)
  then have "(T @ B) ! 0 = T ! 0" by (cases T) auto
  with l show ?thesis
    using assms complete_header(1) [of T "remaining_bytes w (T ! 0 AND 0x0F)"]
    by (auto simp: next_frame_def Let_def inspect_append required_header_append split: if_splits)
qed

lemma handle_frame_buffer:
  assumes "knownOpcode code"
  shows "handle_frame code fin payload (w\<lparr>receive_buffer := b\<rparr>)
       = ((fst (handle_frame code fin payload w))\<lparr>receive_buffer := b\<rparr>, True)"
  using assms
  by (auto simp: knownOpcode_iff handle_frame_def emit_def SendControlFrame_def fill_random_def Let_def)

lemma fill_copy_take:
  assumes "b = take m T" "d = drop m T"
  shows "fill_copy n b d = (take (max n m) T, drop (max n m) T)"
proof (cases "length T \<le> m")
  case True
  then show ?thesis using assms by (auto simp: fill_copy_def Let_def min_def)
next
  case False
  then show ?thesis using assms
    by (auto simp: fill_copy_def Let_def min_def max_def take_add [symmetric] add.commute)
qed

declare receive_frames.simps [simp del]

lemma fail_buffer [simp]: "fail h (w\<lparr>receive_buffer := b\<rparr>) = fail h w"
  by (simp add: fail_def Let_def emit_def)

lemma pending_length:
  assumes "pending w" "next_frame w (receive_buffer w @ data) = Frame k code fin payload"
  shows "length (receive_buffer w) < k"
proof (rule ccontr)
  let ?rb = "receive_buffer w"
  assume k: "\<not> length ?rb < k"
  have r: "2 \<le> length ?rb" "required_header ?rb \<le> length ?rb"
    using k Frame_bounds(1) [OF assms(2)] FrameD(7) [OF assms(2)] required_header_append [of ?rb data] by auto
  then have "(?rb @ data) ! 0 = ?rb ! 0" by (cases ?rb) auto
  with r k FrameD [OF assms(2)] assms(1) show False
    by (simp add: pending_def next_frame_def Let_def inspect_append required_header_append split: if_splits)
qed

lemma receive_frames_step:
  assumes "pending w" "data \<noteq> [] \<or> receive_buffer w \<noteq> []"
  defines "T \<equiv> receive_buffer w @ data"
  shows "receive_frames w data = (case next_frame w T of
      Need \<Rightarrow> w\<lparr>receive_buffer := T\<rparr>
    | Bad \<Rightarrow> fail False w
    | Frame k code fin payload \<Rightarrow>
        receive_frames ((fst (handle_frame code fin payload w))\<lparr>receive_buffer := []\<rparr>) (drop k T))"
proof -
  let ?rb = "receive_buffer w"
  define m where "m = length ?rb"
  have start: "?rb = take m T" "data = drop m T" "m \<le> length T" by (simp_all add: T_def m_def)
  have f1: "fill_bytes 2 ?rb data = (take (max 2 m) T, drop (max 2 m) T)"
    unfolding fill_bytes_eq using start by (intro fill_copy_take)
  have ne: "\<not> (data = [] \<and> ?rb = [])" using assms(2) by blast
  show ?thesis
  proof (cases "length T < 2")
    case True
    then have "take (max 2 m) T = T" by simp
    with True ne f1 show ?thesis by (subst receive_frames.simps) (simp only: if_False prod.case, simp add: next_frame_def)
  next
    case False
    define r where "r = required_header T"
    have "required_header (take (max 2 m) T) = r"
      using False by (simp add: required_header_def r_def)
    then have f2: "fill_bytes (required_header (take (max 2 m) T)) (take (max 2 m) T) (drop (max 2 m) T)
        = (take (max r m) T, drop (max r m) T)"
      using required_header_bounds(1) [of T] unfolding fill_bytes_eq r_def
      by (subst fill_copy_take [OF refl refl]) (simp add: max_def)
    show ?thesis
    proof (cases "length T < r")
      case True
      then have "take (max r m) T = T" by simp
      with True False ne f1 f2 show ?thesis
        by (subst receive_frames.simps) (simp only: if_False prod.case, simp add: next_frame_def r_def)
    next
      case rT: False
      define B where "B = take (max r m) T"
      define h where "h = inspectWebSocketFrameHeader T (remaining_bytes w (T ! 0 AND 0x0F))"
      define k where "k = headerBytes h + unat (payloadBytes h)"
      have r2: "2 \<le> r" using required_header_bounds(1) by (simp add: r_def)
      have lB: "length B = max r m" using rT start(3) by (simp add: B_def)
      have T_B: "T = B @ drop (max r m) T" by (simp add: B_def)
      have req_B: "required_header B = r" using required_header_append [of B "drop (max r m) T"] lB r2 T_B by (simp add: r_def)
      have B0: "B ! 0 = T ! 0" using r2 rT False by (simp add: B_def)
      have inspB: "inspectWebSocketFrameHeader B x = inspectWebSocketFrameHeader T x" for x
        using inspect_append [of B "drop (max r m) T" x] lB r2 req_B T_B by simp
      have step: "receive_frames w data =
         (if T ! 0 AND 0x0F = 0 \<and> \<not> is_fragmented w \<or> (T ! 0 AND 0x0F = 1 \<or> T ! 0 AND 0x0F = 2) \<and> is_fragmented w
             \<or> status h \<noteq> Complete then fail False w
          else case fill_copy k B (drop (max r m) T) of (buffer, data) \<Rightarrow>
            if length buffer < k then w\<lparr>receive_buffer := buffer\<rparr>
            else case handle_frame (T ! 0 AND 0x0F) (final h) (take (unat (payloadBytes h)) (drop (headerBytes h) buffer))
                      (w\<lparr>receive_buffer := buffer\<rparr>) of
                   (w, False) \<Rightarrow> w
                 | (w, True) \<Rightarrow> receive_frames (w\<lparr>receive_buffer := []\<rparr>) data)"
      proof -
        have "\<not> length (take (max 2 m) T) < 2" "\<not> length B < r" using False lB by auto
        then show ?thesis
          using f1 f2 unfolding B_def [symmetric]
          by (subst receive_frames.simps)
            (simp only: ne req_B B0 inspB if_False prod.case Let_def remaining_bytes_def [symmetric] h_def [symmetric]
              k_def [symmetric], auto)
      qed
      have f3: "fill_copy k B (drop (max r m) T) = (take (max k (max r m)) T, drop (max k (max r m)) T)"
        by (rule fill_copy_take) (simp_all add: B_def)
      show ?thesis
      proof (cases "next_frame w T")
        case Need
        then have "\<not> (T ! 0 AND 0x0F = 0 \<and> \<not> is_fragmented w \<or> (T ! 0 AND 0x0F = 1 \<or> T ! 0 AND 0x0F = 2) \<and> is_fragmented w
             \<or> status h \<noteq> Complete)" "length T < k"
          using False rT by (auto simp: next_frame_def h_def k_def r_def Let_def split: if_splits)
        then show ?thesis unfolding step f3 Need by auto
      next
        case Bad
        then show ?thesis
          using False rT unfolding step by (auto simp: next_frame_def h_def k_def r_def Let_def split: if_splits)
      next
        case (Frame k' code fin payload)
        note F = FrameD [OF Frame, folded h_def]
        have k: "k' = k" using F(3,11) by (simp add: k_def)
        have "m < k" using pending_length [OF assms(1) Frame [unfolded T_def]] by (simp add: m_def k)
        then have mx: "max k (max r m) = k" using F(7) k by (simp add: r_def)
        have kr: "k = r + unat (payloadBytes h)" using F(3) k by (simp add: r_def)
        have "knownOpcode code" by (rule Frame_bounds(2) [OF Frame])
        note hf = handle_frame_buffer [OF this, of fin payload "take k T" w]
        have p: "take (unat (payloadBytes h)) (drop (headerBytes h) (take k T)) = payload"
          using F(5,11) kr by (simp add: r_def drop_take)
        show ?thesis
          using F(1,2,4,6,8) hf unfolding step f3 mx prod.case p Frame stream_item.case k by auto
      qed
    qed
  qed
qed

lemma pending_empty: "receive_buffer w = [] \<Longrightarrow> pending w"
  by (simp add: pending_def next_frame_def)

lemma receive_frames_shift:
  assumes "pending w"
  shows "receive_frames w B = receive_frames (w\<lparr>receive_buffer := []\<rparr>) (receive_buffer w @ B)"
proof (cases "B = [] \<and> receive_buffer w = []")
  case True
  then have "w\<lparr>receive_buffer := []\<rparr> = w" by simp
  then show ?thesis using True by (metis append_Nil)
next
  case False
  then have "receive_frames (w\<lparr>receive_buffer := []\<rparr>) (receive_buffer w @ B)
      = (case next_frame w (receive_buffer w @ B) of
          Need \<Rightarrow> w\<lparr>receive_buffer := receive_buffer w @ B\<rparr>
        | Bad \<Rightarrow> fail False w
        | Frame k code fin payload \<Rightarrow>
            receive_frames ((fst (handle_frame code fin payload (w\<lparr>receive_buffer := []\<rparr>)))\<lparr>receive_buffer := []\<rparr>)
              (drop k (receive_buffer w @ B)))"
    by (subst receive_frames_step) (auto simp: pending_empty split: stream_item.split)
  then show ?thesis
    using False assms by (subst receive_frames_step)
      (auto simp: handle_frame_buffer dest: Frame_bounds(2) split: stream_item.split)
qed

section \<open>Chunks\<close>

definition failures :: "websocket \<Rightarrow> nat" where
  "failures w = length (filter (\<lambda>e. e = OnError \<or> e = SetFailedBit) (events w))"

lemma failures_fail [simp]: "failures (fail h w) = Suc (failures w)"
  by (simp add: failures_def fail_def emit_def Let_def)

lemma handle_frame_keeps:
  assumes "knownOpcode code"
  shows "failures (fst (handle_frame code fin payload w)) = failures w"
    "handshake_completed (fst (handle_frame code fin payload w)) = handshake_completed w"
    "receive_buffer_size (fst (handle_frame code fin payload w)) = receive_buffer_size w"
  using assms
  by (auto simp: knownOpcode_iff handle_frame_def emit_def SendControlFrame_def fill_random_def failures_def Let_def)

lemma frames_split:
  assumes "receive_buffer w = []" "failures (receive_frames w (T @ B)) = failures w"
  shows "failures (receive_frames w T) = failures w \<and> pending (receive_frames w T)
    \<and> handshake_completed (receive_frames w T) = handshake_completed w
    \<and> receive_frames (receive_frames w T) B = receive_frames w (T @ B)"
  using assms
proof (induction "length T" arbitrary: w T rule: less_induct)
  case less
  show ?case
  proof (cases "T = []")
    case True
    then have "receive_frames w T = w" using less(2) by (simp add: receive_frames.simps)
    then show ?thesis using True less(2) by (simp add: pending_empty)
  next
    case False
    note step = receive_frames_step [OF pending_empty [OF less(2)], unfolded less(2) append_Nil]
    show ?thesis
    proof (cases "next_frame w T")
      case Need
      then have r: "receive_frames w T = w\<lparr>receive_buffer := T\<rparr>" using step [of T] False by simp
      have "pending (w\<lparr>receive_buffer := T\<rparr>)" using Need by (simp add: pending_def)
      moreover have "w\<lparr>receive_buffer := []\<rparr> = w" using less(2) by simp
      ultimately show ?thesis unfolding r using receive_frames_shift [of "w\<lparr>receive_buffer := T\<rparr>" B]
        by (simp add: failures_def)
    next
      case Bad
      then have "receive_frames w (T @ B) = fail False w"
        using step [of "T @ B"] next_frame_append [of w T B] False by simp
      then show ?thesis using less(3) by simp
    next
      case (Frame k code fin payload)
      define w' where "w' = (fst (handle_frame code fin payload w))\<lparr>receive_buffer := []\<rparr>"
      note b = Frame_bounds [OF Frame] FrameD(6) [OF Frame]
      have T: "receive_frames w T = receive_frames w' (drop k T)" using step [of T] False Frame by (simp add: w'_def)
      have TB: "receive_frames w (T @ B) = receive_frames w' (drop k T @ B)"
        using step [of "T @ B"] next_frame_append [of w T B] False Frame b by (simp add: w'_def)
      have w': "receive_buffer w' = []" "failures w' = failures w" "handshake_completed w' = handshake_completed w"
        using handle_frame_keeps [OF b(2)] by (simp_all add: w'_def failures_def)
      have "length (drop k T) < length T" using b False by simp
      then show ?thesis using less(1) [of "drop k T" w'] less(3) w' unfolding T TB by simp
    qed
  qed
qed

lemma frames_split_pending:
  assumes "pending w" "failures (receive_frames w (T @ B)) = failures w"
  shows "failures (receive_frames w T) = failures w \<and> pending (receive_frames w T)
    \<and> handshake_completed (receive_frames w T) = handshake_completed w
    \<and> receive_frames (receive_frames w T) B = receive_frames w (T @ B)"
  using frames_split [of "w\<lparr>receive_buffer := []\<rparr>" "receive_buffer w @ T" B] assms(2)
  unfolding receive_frames_shift [OF assms(1)] by (simp add: failures_def)

lemma failures_emit_success [simp]: "failures (emit SetSuccessBit w) = failures w"
  by (simp add: failures_def emit_def)

lemma failures_updates [simp]:
  "failures (w\<lparr>receive_buffer := b\<rparr>) = failures w"
  "failures (w\<lparr>handshake_completed := h\<rparr>) = failures w"
  "failures (w\<lparr>success_bit := h\<rparr>) = failures w"
  by (simp_all add: failures_def)

lemma emit_fields [simp]:
  "handshake_completed (emit e w) = handshake_completed w"
  "receive_buffer (emit e w) = receive_buffer w"
  by (simp_all add: emit_def)

lemma handshake_bytes_completed: "handshake_completed w \<Longrightarrow> handshake_bytes w A = (w, Some A)"
  by (cases A) auto

text \<open>One byte of the response.\<close>

definition head_end :: "u8 list \<Rightarrow> bool" where
  "head_end buffer \<longleftrightarrow> length buffer \<ge> 4 \<and> map to_char (drop (length buffer - 4) buffer) = crlf @ crlf"

definition key_accepts :: "websocket \<Rightarrow> u8 list \<Rightarrow> bool" where
  "key_accepts w buffer = (case map_of (headers_map w) ''Sec-WebSocket-Key'' of
      None \<Rightarrow> False
    | Some clientKey \<Rightarrow> validateWebSocketHandshakeResponse (map to_char buffer) clientKey)"

definition upgraded :: "websocket \<Rightarrow> websocket" where
  "upgraded w = emit SetSuccessBit (w\<lparr>receive_buffer := [], handshake_completed := True, success_bit := True\<rparr>)"

lemma handshake_step:
  "handshake_bytes w (byte # data) =
    (if handshake_completed w then (w, Some (byte # data))
     else if length (receive_buffer w) = receive_buffer_size w then (fail True w, None)
     else if head_end (receive_buffer w @ [byte])
     then if key_accepts w (receive_buffer w @ [byte]) then (upgraded w, Some data) else (fail True w, None)
     else handshake_bytes (w\<lparr>receive_buffer := receive_buffer w @ [byte]\<rparr>) data)"
  by (auto simp: Let_def head_end_def key_accepts_def upgraded_def handshake_bytes_completed split: option.split)

declare handshake_bytes.simps(2) [simp del]

lemma handshake_bytes_split:
  "handshake_bytes w (A @ B) = (case handshake_bytes w A of
      (w', None) \<Rightarrow> (w', None)
    | (w', Some rest) \<Rightarrow> if handshake_completed w' then (w', Some (rest @ B)) else handshake_bytes w' B)"
  by (induction A arbitrary: w) (auto simp: handshake_step handshake_bytes_completed upgraded_def)

lemma handshake_bytes_result:
  assumes "handshake_bytes w A = (w', r)"
  shows "failures w' = (if r = None then Suc (failures w) else failures w)
    \<and> (if r \<noteq> None \<and> \<not> handshake_completed w' then r = Some [] else True)
    \<and> (if \<not> handshake_completed w \<and> handshake_completed w' then receive_buffer w' = [] else True)"
  using assms
proof (induction A arbitrary: w)
  case (Cons byte data)
  show ?case
  proof (cases "handshake_completed w \<or> length (receive_buffer w) = receive_buffer_size w
      \<or> head_end (receive_buffer w @ [byte])")
    case True
    then show ?thesis using Cons.prems
      by (auto simp: handshake_step upgraded_def fail_def emit_def failures_def Let_def split: if_splits)
  next
    case False
    then show ?thesis using Cons.prems Cons.IH [of "w\<lparr>receive_buffer := receive_buffer w @ [byte]\<rparr>"]
      by (simp add: handshake_step)
  qed
qed auto

definition stream_ok :: "websocket \<Rightarrow> bool" where
  "stream_ok w \<longleftrightarrow> (if handshake_completed w then pending w else True)"

lemma OnTcpData_split:
  assumes "stream_ok w" "failures (OnTcpData (A @ B) w) = failures w"
  shows "failures (OnTcpData A w) = failures w \<and> stream_ok (OnTcpData A w)
    \<and> OnTcpData B (OnTcpData A w) = OnTcpData (A @ B) w"
proof -
  obtain w' r where h: "handshake_bytes w A = (w', r)" by fastforce
  note res = handshake_bytes_result [OF h]
  show ?thesis
  proof (cases r)
    case None
    then show ?thesis using assms(2) res h by (simp add: OnTcpData_def handshake_bytes_split)
  next
    case (Some rest)
    show ?thesis
    proof (cases "handshake_completed w'")
      case False
      then show ?thesis using h Some res
        by (simp add: OnTcpData_def handshake_bytes_split stream_ok_def)
    next
      case True
      have "pending w'"
        using True res assms(1) h pending_empty handshake_bytes_completed [of w A]
        by (cases "handshake_completed w") (auto simp: stream_ok_def)
      moreover have "OnTcpData A w = receive_frames w' rest" "OnTcpData (A @ B) w = receive_frames w' (rest @ B)"
        using h Some True by (simp_all add: OnTcpData_def handshake_bytes_split)
      ultimately show ?thesis
        using frames_split_pending [of w' rest B] assms(2) res Some True
        by (simp add: stream_ok_def OnTcpData_def handshake_bytes_completed)
    qed
  qed
qed

lemma OnTcpData_chunks:
  assumes "stream_ok w" "failures (OnTcpData (concat chunks) w) = failures w"
  shows "fold OnTcpData chunks w = OnTcpData (concat chunks) w"
  using assms
proof (induction chunks arbitrary: w)
  case Nil
  have "handshake_completed w \<Longrightarrow> receive_frames w [] = w"
    using Nil(1) receive_frames_step [of w "[]"]
    by (cases "receive_buffer w = []") (auto simp: receive_frames.simps stream_ok_def pending_def)
  then show ?case by (simp add: OnTcpData_def)
next
  case (Cons c chunks)
  then show ?case using OnTcpData_split [of w c "concat chunks"] by simp
qed

text \<open>C7: Reading a byte stream in any chunks leaves the WebSocket client in the same state, with the
  same calls made, as reading it at once, as long as the stream is not refused.\<close>

theorem chunks_do_not_matter:
  assumes "stream_ok w" "failures (OnTcpData (concat chunks) w) = failures w"
  shows "fold OnTcpData chunks w = OnTcpData (concat chunks) w"
  using assms by (rule OnTcpData_chunks)

definition open_socket :: websocket where
  "open_socket = \<lparr>headers_map = [], receive_buffer_size = 4096, receive_buffer = [], current_message = [],
     is_fragmented = False, is_binary = False, continuation = False, handshake_completed = True, connected = True,
     has_tcp = True, success_bit = True, failed_bit = False, entropy = (\<lambda>_. 0), entropy_used = 0,
     tcpSends = (\<lambda>_. True), events = []\<rparr>"

theorem chunks_do_not_matter_witness:
  "fold OnTcpData [[0x81], [2, 104], [105]] open_socket = OnTcpData [0x81, 2, 104, 105] open_socket"
proof -
  have w: "receive_buffer open_socket = []" "handshake_completed open_socket" by (simp_all add: open_socket_def)
  have n: "next_frame open_socket [0x81, 2, 104, 105] = Frame 4 1 True [104, 105]"
    by (simp add: next_frame_def required_header_def inspectWebSocketFrameHeader_def check_limits_def knownOpcode_def
        remaining_bytes_def size_sub_def size_max_def open_socket_def)
  have "receive_frames open_socket [0x81, 2, 104, 105]
      = receive_frames ((fst (handle_frame 1 True [104, 105] open_socket))\<lparr>receive_buffer := []\<rparr>) []"
    using receive_frames_step [OF pending_empty [OF w(1)], of "[0x81, 2, 104, 105]"] by (simp add: w n)
  then have "failures (OnTcpData [0x81, 2, 104, 105] open_socket) = failures open_socket"
    using w by (simp add: OnTcpData_def handshake_bytes_completed receive_frames.simps handle_frame_def emit_def failures_def
        open_socket_def)
  moreover have "stream_ok open_socket" using w by (simp add: stream_ok_def pending_empty)
  ultimately show ?thesis using chunks_do_not_matter [of open_socket "[[0x81], [2, 104], [105]]"] by simp
qed

end
