(* ===== verification/Web_Socket_Connect.thy ===== *)
theory Web_Socket_Connect
  imports Web_Socket_Stream Cpp_Library
begin

text \<open>
  \<open>WebSocket::Connect\<close> in \<open>web_socket.cpp\<close>, in its two halves: what it does up to the request, and what
  it makes of the event group's bits when it wakes up.  Between the two, \<open>OnTcpData\<close> runs in the
  task of the TCP connection.  \<open>NetworkInterface\<close> and the TCP class are not part of the repository:
  \<open>creates\<close> tells whether a (secure) connection object can be made, \<open>tcp_connects\<close> whether it connects.
\<close>

record network =
  creates :: "bool \<Rightarrow> bool"
  tcp_connects :: "string \<Rightarrow> int \<Rightarrow> bool"

section \<open>std::stoi\<close>

definition decimal_digit :: "char \<Rightarrow> bool" where
  "decimal_digit c \<longleftrightarrow> CHR ''0'' \<le> c \<and> c \<le> CHR ''9''"

definition decimal :: "string \<Rightarrow> int" where
  "decimal digits = foldl (\<lambda>n c. 10 * n + (of_char c - 48)) 0 digits"

text \<open>\<open>None\<close> is an exception, \<open>invalid_argument\<close> or \<open>out_of_range\<close>.\<close>

definition stoi :: "string \<Rightarrow> int option" where
  "stoi s =
    (let s = dropWhile isspace s;
         negative = (s \<noteq> [] \<and> hd s = CHR ''-'');
         s = (if s \<noteq> [] \<and> (hd s = CHR ''-'' \<or> hd s = CHR ''+'') then tl s else s);
         digits = takeWhile decimal_digit s;
         n = (if negative then - decimal digits else decimal digits)
     in if digits = [] \<or> n < - (2 ^ 31) \<or> n \<ge> 2 ^ 31 then None else Some n)"

section \<open>Connect\<close>

record target =
  protocol :: string
  host :: string
  port :: string
  path :: string

definition parse_uri :: "string \<Rightarrow> target option" where
  "parse_uri uriValue =
    (case str_find uriValue ''://'' 0 of
       None \<Rightarrow> None
     | Some schemeEnd \<Rightarrow>
         let protocol = substr uriValue 0 schemeEnd;
             hostStart = schemeEnd + 3;
             pathStart = str_find uriValue ''/'' hostStart;
             authority = (case pathStart of None \<Rightarrow> drop hostStart uriValue
               | Some p \<Rightarrow> substr uriValue hostStart (p - hostStart));
             path = (case pathStart of None \<Rightarrow> ''/'' | Some p \<Rightarrow> drop p uriValue);
             portSeparator = str_rfind authority '':'';
             host = (case portSeparator of None \<Rightarrow> authority | Some p \<Rightarrow> substr authority 0 p);
             port = (case portSeparator of
                 None \<Rightarrow> if protocol = ''wss'' then ''443'' else ''80''
               | Some p \<Rightarrow> drop (p + 1) authority)
         in if host = [] \<or> port = [] then None
            else Some \<lparr>protocol = protocol, host = host, port = port, path = path\<rparr>)"

definition request_text :: "target \<Rightarrow> (string \<times> string) list \<Rightarrow> string" where
  "request_text t hs =
    ''GET '' @ path t @ '' HTTP/1.1'' @ crlf
    @ (if map_of hs ''Host'' = None then ''Host: '' @ host t @ crlf else [])
    @ concat (map (\<lambda>(name, val). name @ '': '' @ val @ crlf) hs) @ crlf"

datatype connect_result = ConnectFailed | ConnectThrew | Waiting

definition Connect_request :: "network \<Rightarrow> string \<Rightarrow> websocket \<Rightarrow> connect_result \<times> websocket" where
  "Connect_request net uri w =
    (if receive_buffer_size w = 0 then (ConnectFailed, w)
     else case parse_uri uri of
       None \<Rightarrow> (ConnectFailed, w)
     | Some t \<Rightarrow>
         let w = SetHeader ''Upgrade'' ''websocket'' w;
             w = SetHeader ''Connection'' ''Upgrade'' w;
             w = SetHeader ''Sec-WebSocket-Version'' ''13'' w;
             (randomKey, w) = fill_random 16 w;
             encodedKey = socket_base64Encode randomKey;
             w = SetHeader ''Sec-WebSocket-Key'' (c_str encodedKey) w;
             secure = (protocol t = ''wss'' \<or> protocol t = ''https'');
             w = w\<lparr>has_tcp := creates net secure\<rparr>
         in if \<not> has_tcp w then (ConnectFailed, w)
            else
              let w = w\<lparr>connected := False, handshake_completed := False, success_bit := False, failed_bit := False,
                        receive_buffer := [], current_message := [], is_fragmented := False\<rparr>
              in case stoi (port t) of
                   None \<Rightarrow> (ConnectThrew, w)
                 | Some portNumber \<Rightarrow>
                     if \<not> tcp_connects net (host t) portNumber then (ConnectFailed, w)
                     else
                       let request = map of_char (request_text t (headers_map w));
                           sent = tcpSends w request;
                           w = emit (TcpSend request) w
                       in if \<not> sent then (ConnectFailed, w) else (Waiting, w))"

text \<open>After \<open>xEventGroupWaitBits\<close>, which returns the bits that are set when it wakes up or times out.\<close>

definition Connect_finish :: "websocket \<Rightarrow> bool \<times> websocket" where
  "Connect_finish w =
    (if success_bit w then (True, emit OnConnected (w\<lparr>connected := True\<rparr>)) else (False, w))"

definition tcp_disconnected :: "websocket \<Rightarrow> websocket" where
  "tcp_disconnected w =
    (let wasConnected = connected w; w = w\<lparr>connected := False\<rparr>
     in if wasConnected then emit OnDisconnected w else w)"

section \<open>Only the holder of the key is connected to\<close>

lemma map_of_assign: "map_of (map_assign k v m) = (map_of m)(k \<mapsto> v)"
  by (induction k v m rule: map_assign.induct) auto

lemma alphabet_no_NUL: "c \<in> set alphabet \<Longrightarrow> c \<noteq> CHR 0x00"
  by (auto simp: alphabet_def)

lemma socket_base64_chars: "set (socket_base64Encode data) \<subseteq> insert (CHR ''='') (set alphabet)"
proof (induction data rule: base64Encode.induct)
  case 1
  then show ?case by (simp add: socket_base64Encode.simps)
next
  case (2 a rest)
  have "alphabet ! unat (chunk_outputs a b c ! i) \<in> set alphabet" if "i < 4" for b c i
  proof -
    have "i \<in> {0, 1, 2, 3}" using that by auto
    then have "unat (chunk_outputs a b c ! i) < 64" using chunk_sextets [of a b c] by auto
    then show ?thesis by (simp add: distinct_alphabet)
  qed
  from this [of 0] this [of 1] this [of 2] this [of 3] 2 show ?case
    by (auto simp: socket_round Let_def simp del: socket_base64Encode.simps split: if_splits)
qed

lemma key_text: "c_str (socket_base64Encode data) = socket_base64Encode data"
  using socket_base64_chars [of data] alphabet_no_NUL
  by (auto simp: takeWhile_eq_all_conv simp del: socket_base64Encode.simps)

lemma handshake_bytes_origin:
  assumes "handshake_bytes w data = (v, r)"
  shows "headers_map v = headers_map w
    \<and> (if \<not> handshake_completed w \<and> handshake_completed v
       then \<exists>before response after. receive_buffer w @ data = before @ response @ after \<and> key_accepts w response
       else True)
    \<and> (if \<not> handshake_completed v then \<exists>before. receive_buffer w @ data = before @ receive_buffer v else True)
    \<and> (success_bit v \<longrightarrow> success_bit w \<or> handshake_completed v)"
  using assms
proof (induction data arbitrary: w)
  case Nil
  then show ?case by auto
next
  case (Cons byte data)
  let ?w = "w\<lparr>receive_buffer := receive_buffer w @ [byte]\<rparr>"
  have k: "key_accepts ?w = key_accepts w" by (simp add: key_accepts_def fun_eq_iff)
  consider "handshake_completed w" | "\<not> handshake_completed w" "length (receive_buffer w) = receive_buffer_size w"
    | "\<not> handshake_completed w" "length (receive_buffer w) \<noteq> receive_buffer_size w" "head_end (receive_buffer w @ [byte])"
    | "\<not> handshake_completed w" "length (receive_buffer w) \<noteq> receive_buffer_size w" "\<not> head_end (receive_buffer w @ [byte])"
    by blast
  then show ?case
  proof cases
    case 1
    then show ?thesis using Cons.prems by (auto simp: handshake_step)
  next
    case 2
    then show ?thesis using Cons.prems by (auto simp: handshake_step fail_def emit_def Let_def)
  next
    case 3
    have "key_accepts w (receive_buffer w @ [byte]) \<Longrightarrow>
        \<exists>before response after. receive_buffer w @ byte # data = before @ response @ after \<and> key_accepts w response"
      by (intro exI [of _ "[]"] exI [of _ "receive_buffer w @ [byte]"] exI [of _ data]) simp
    then show ?thesis using Cons.prems 3
      by (auto simp: handshake_step fail_def upgraded_def emit_def Let_def split: if_splits)
  next
    case 4
    then show ?thesis using Cons.prems Cons.IH [of ?w] by (simp add: handshake_step k split: if_splits)
  qed
qed

definition same_handshake :: "websocket \<Rightarrow> websocket \<Rightarrow> bool" where
  "same_handshake v w \<longleftrightarrow> headers_map v = headers_map w \<and> handshake_completed v = handshake_completed w
     \<and> success_bit v = success_bit w"

lemma handle_frame_handshake: "handle_frame code fin payload w = (v, ok) \<Longrightarrow> same_handshake v w"
  by (auto simp: same_handshake_def handle_frame_def fail_def emit_def SendControlFrame_def fill_random_def Let_def
      split: if_splits)

lemma receive_frames_keeps:
  "pending w \<Longrightarrow> same_handshake (receive_frames w data) w \<and> pending (receive_frames w data)"
proof (induction "length (receive_buffer w) + length data" arbitrary: w data rule: less_induct)
  case less
  let ?T = "receive_buffer w @ data"
  show ?case
  proof (cases "data \<noteq> [] \<or> receive_buffer w \<noteq> []")
    case True
    note step = receive_frames_step [OF less(2) True]
    show ?thesis
    proof (cases "next_frame w ?T")
      case Need
      then show ?thesis by (simp add: step pending_def same_handshake_def)
    next
      case Bad
      then show ?thesis by (simp add: step same_handshake_def pending_empty fail_def emit_def Let_def)
    next
      case (Frame k code fin payload)
      define v where "v = (fst (handle_frame code fin payload w))\<lparr>receive_buffer := []\<rparr>"
      have v: "pending v" "receive_buffer v = []" "same_handshake v w"
        using handle_frame_handshake [of code fin payload w] 
        by (cases "handle_frame code fin payload w"; simp add: v_def pending_empty same_handshake_def)+
      show ?thesis
        using less(1) [of v "drop k ?T"] v Frame_bounds(1) [OF Frame] FrameD(6) [OF Frame]
        by (simp add: step Frame v_def [symmetric] same_handshake_def)
    qed
  next
    case False
    then show ?thesis using less(2) by (simp add: receive_frames.simps same_handshake_def)
  qed
qed

text \<open>What the bytes read since the request say about the state.\<close>

definition authenticated :: "string \<Rightarrow> u8 list \<Rightarrow> bool" where
  "authenticated key bytes \<longleftrightarrow>
    (\<exists>before response after. bytes = before @ response @ after \<and> handshake_accepted (map to_char response) key)"

definition reading_from :: "string \<Rightarrow> u8 list \<Rightarrow> websocket \<Rightarrow> bool" where
  "reading_from key bytes w \<longleftrightarrow>
    map_of (headers_map w) ''Sec-WebSocket-Key'' = Some key
    \<and> (success_bit w \<longrightarrow> handshake_completed w) \<and> stream_ok w
    \<and> (if handshake_completed w then authenticated key bytes else \<exists>before. bytes = before @ receive_buffer w)"

lemma OnTcpData_reading:
  assumes "reading_from key bytes w"
  shows "reading_from key (bytes @ data) (OnTcpData data w)"
proof -
  obtain v r where h: "handshake_bytes w data = (v, r)" by fastforce
  note o = handshake_bytes_origin [OF h]
  have a: "authenticated key bytes \<Longrightarrow> authenticated key (bytes @ data)"
    unfolding authenticated_def by (metis append.assoc)
  have k: "key_accepts w response \<longleftrightarrow> handshake_accepted (map to_char response) key" for response
    using assms by (simp add: reading_from_def key_accepts_def validate_decides)
  have ok: "stream_ok v"
    using handshake_bytes_result [OF h] handshake_bytes_completed [of w data] h assms pending_empty [of v]
    by (auto simp: stream_ok_def reading_from_def split: if_splits)
  have "reading_from key (bytes @ data) v"
  proof (cases "handshake_completed w")
    case True
    then show ?thesis using h assms a ok by (simp add: handshake_bytes_completed reading_from_def)
  next
    case False
    then obtain before where b: "bytes = before @ receive_buffer w" using assms by (auto simp: reading_from_def)
    show ?thesis
    proof (cases "handshake_completed v")
      case True
      then obtain b2 response after where "receive_buffer w @ data = b2 @ response @ after" "key_accepts w response"
        using o False by auto
      then have "authenticated key (bytes @ data)"
        unfolding authenticated_def b k by (metis append.assoc)
      then show ?thesis using True o assms ok by (simp add: reading_from_def)
    next
      case v: False
      then obtain b2 where "receive_buffer w @ data = b2 @ receive_buffer v" using o by auto
      then have "\<exists>x. bytes @ data = x @ receive_buffer v" unfolding b by (metis append.assoc)
      then show ?thesis using v False o assms ok by (auto simp: reading_from_def)
    qed
  qed
  then show ?thesis using h receive_frames_keeps [of v]
    by (auto simp: OnTcpData_def reading_from_def same_handshake_def stream_ok_def split: option.split)
qed

lemma fold_reading:
  "reading_from key bytes w \<Longrightarrow> reading_from key (bytes @ concat chunks) (fold OnTcpData chunks w)"
proof (induction chunks arbitrary: bytes w)
  case (Cons c chunks)
  from Cons.IH [OF OnTcpData_reading [OF Cons.prems]] show ?case by simp
qed simp

text \<open>C8: Connect reports success only after the peer sent a response that answers the random key of
  this attempt as RFC 6455 demands.\<close>

theorem connected_peer_knows_key:
  "case Connect_request net uri w of
     (Waiting, v) \<Rightarrow>
       if fst (Connect_finish (fold OnTcpData chunks v))
       then \<exists>before response after. concat chunks = before @ response @ after
         \<and> handshake_accepted (map to_char response)
             (socket_base64Encode (map (entropy w) [entropy_used w..<entropy_used w + 16]))
       else True
   | _ \<Rightarrow> True"
proof (cases "Connect_request net uri w")
  case (Pair result v)
  show ?thesis
  proof (cases "result = Waiting")
    case True
    let ?key = "socket_base64Encode (map (entropy w) [entropy_used w..<entropy_used w + 16])"
    have "reading_from ?key [] v"
      using Pair True
      by (auto simp: Connect_request_def fill_random_def SetHeader_def map_of_assign key_text reading_from_def
          stream_ok_def emit_def Let_def simp del: socket_base64Encode.simps split: if_splits option.splits)
    from fold_reading [OF this, of chunks] show ?thesis
      using Pair True
      by (auto simp: Connect_finish_def reading_from_def authenticated_def simp del: socket_base64Encode.simps split: if_splits)
  qed (use Pair in \<open>auto split: connect_result.split\<close>)
qed

end
