(* ===== verification/Web_Socket_Messages.thy ===== *)
theory Web_Socket_Messages
  imports Web_Socket_Stream
begin

text \<open>
  What the WebSocket client delivers: the messages that a server sends, whole and in order, however
  the server fragments them, whatever control frames it puts between the fragments and however TCP
  cuts the stream; and what the client sends, decoded by the server's side of RFC 6455.
\<close>

section \<open>What a server sends\<close>

type_synonym frame = "bool \<times> u8 \<times> u8 list"

fun encode_frame :: "frame \<Rightarrow> u8 list" where
  "encode_frame (fin, code, payload) = encode_header fin code (of_nat (length payload)) @ payload"

text \<open>A message in fragments; before each fragment the server may send pings (\<open>True\<close>) and pongs.\<close>

type_synonym fragment = "(bool \<times> u8 list) list \<times> u8 list"

fun fragment_frames :: "u8 \<Rightarrow> fragment list \<Rightarrow> frame list" where
  "fragment_frames code [] = []"
| "fragment_frames code ((controls, payload) # rest) =
    map (\<lambda>(is_ping, p). (True, if is_ping then 9 else 10, p)) controls
    @ (rest = [], code, payload) # fragment_frames 0 rest"

fun encode_message :: "bool \<times> fragment list \<Rightarrow> u8 list" where
  "encode_message (binary, fragments) =
    concat (map encode_frame (fragment_frames (if binary then 2 else 1) fragments))"

fun content :: "bool \<times> fragment list \<Rightarrow> ws_event" where
  "content (binary, fragments) = OnData (concat (map snd fragments)) binary"

fun fits :: "nat \<Rightarrow> bool \<times> fragment list \<Rightarrow> bool" where
  "fits limit (binary, fragments) \<longleftrightarrow>
    fragments \<noteq> [] \<and> length (concat (map snd fragments)) \<le> limit
    \<and> list_all (\<lambda>(controls, payload). list_all (\<lambda>(is_ping, p). length p \<le> 125) controls) fragments"

definition data_events :: "websocket \<Rightarrow> ws_event list" where
  "data_events w = filter (\<lambda>e. case e of OnData payload binary \<Rightarrow> True | _ \<Rightarrow> False) (events w)"

definition idle :: "websocket \<Rightarrow> bool" where
  "idle w \<longleftrightarrow> handshake_completed w \<and> receive_buffer w = [] \<and> \<not> is_fragmented w \<and> current_message w = []"

section \<open>It arrives\<close>

fun apply_frame :: "frame \<Rightarrow> websocket \<Rightarrow> websocket" where
  "apply_frame (fin, code, payload) w = fst (handle_frame code fin payload w)"

fun acceptable :: "websocket \<Rightarrow> frame \<Rightarrow> bool" where
  "acceptable w (fin, code, payload) \<longleftrightarrow>
    knownOpcode code \<and> (code \<ge> 8 \<longrightarrow> fin \<and> length payload \<le> 125)
    \<and> length payload \<le> remaining_bytes w code \<and> length payload \<le> size_max
    \<and> (code = 0 \<longrightarrow> is_fragmented w) \<and> (code = 1 \<or> code = 2 \<longrightarrow> \<not> is_fragmented w)"

lemma unat_length: "length payload \<le> size_max \<Longrightarrow> unat (of_nat (length payload) :: u64) = length payload"
  by (simp add: unsigned_of_nat take_bit_nat_eq_self size_max_def)

lemma next_frame_encoded:
  assumes "acceptable w (fin, code, payload)"
  shows "next_frame w (encode_frame (fin, code, payload) @ rest)
    = Frame (length (encode_frame (fin, code, payload))) code fin payload"
proof -
  define n where "n = (of_nat (length payload) :: u64)"
  define T where "T = encode_frame (fin, code, payload) @ rest"
  define header where "header = encode_header fin code n"
  have u: "unat n = length payload" using assms unat_length [of payload] by (simp add: n_def)
  have T: "T = header @ payload @ rest" by (simp add: T_def header_def n_def)
  have "legal_frame fin code n"
    using assms u by (auto simp: legal_frame_def word_less_nat_alt word_le_nat_alt size_max_def)
  then have i: "inspectWebSocketFrameHeader T (remaining_bytes w code)
      = \<lparr>status = Complete, headerBytes = length header, payloadBytes = n, opcode = code, final = fin\<rparr>"
    using assms u unfolding inspect_accepts by (simp add: T header_def)
  have two: "2 \<le> length T" by (simp add: T header_def encode_header_def)
  have hb: "required_header T = length header" and code: "T ! 0 AND 0x0F = code"
    using complete_header(1,2) [OF two, of "remaining_bytes w code"] i by simp_all
  have "take (length payload) (drop (length header) T) = payload" "length header + length payload \<le> length T"
    by (simp_all add: T)
  moreover have "length (encode_frame (fin, code, payload)) = length header + length payload"
    by (simp add: header_def n_def)
  moreover have "\<not> (code = 0 \<and> \<not> is_fragmented w \<or> (code = 1 \<or> code = 2) \<and> is_fragmented w)"
    using assms by auto
  ultimately show ?thesis
    using two unfolding T_def [symmetric] next_frame_def Let_def hb code i by (simp add: u)
qed

lemma receive_encoded:
  assumes "receive_buffer w = []" "acceptable w f"
  shows "receive_frames w (encode_frame f @ rest) = receive_frames (apply_frame f w) rest"
    "receive_buffer (apply_frame f w) = []"
proof -
  obtain fin code payload where f: "f = (fin, code, payload)" by (cases f) auto
  have known: "knownOpcode code" using assms(2) f by simp
  have "w\<lparr>receive_buffer := []\<rparr> = w" using assms(1) by simp
  then have eq: "(apply_frame f w)\<lparr>receive_buffer := []\<rparr> = apply_frame f w"
    using arg_cong [OF handle_frame_buffer [OF known, of fin payload "[]" w], of fst] by (simp add: f)
  then show "receive_buffer (apply_frame f w) = []"
    by (metis websocket.select_convs(3) websocket.surjective websocket.update_convs(3))
  have "encode_frame f @ rest \<noteq> []" by (simp add: f encode_header_def)
  then have "receive_frames w (encode_frame f @ rest) = receive_frames ((apply_frame f w)\<lparr>receive_buffer := []\<rparr>) rest"
    using receive_frames_step [OF pending_empty [OF assms(1)], of "encode_frame f @ rest"]
      next_frame_encoded [of w fin code payload rest] assms
    by (simp add: f)
  then show "receive_frames w (encode_frame f @ rest) = receive_frames (apply_frame f w) rest"
    by (simp only: eq)
qed

text \<open>Control frames leave the message that is being received alone.\<close>

definition same_reception :: "websocket \<Rightarrow> websocket \<Rightarrow> bool" where
  "same_reception v w \<longleftrightarrow>
    receive_buffer v = receive_buffer w \<and> current_message v = current_message w
    \<and> is_fragmented v = is_fragmented w \<and> is_binary v = is_binary w
    \<and> receive_buffer_size v = receive_buffer_size w \<and> handshake_completed v = handshake_completed w
    \<and> data_events v = data_events w \<and> failures v = failures w"

lemma same_reception_trans: "same_reception u v \<Longrightarrow> same_reception v w \<Longrightarrow> same_reception u w"
  by (simp add: same_reception_def)

lemma control_frame_reception:
  "same_reception (apply_frame (True, if is_ping then 9 else 10, p) w) w"
  by (simp add: same_reception_def handle_frame_def SendControlFrame_def fill_random_def emit_def data_events_def
      failures_def Let_def)

lemma receive_controls:
  assumes "receive_buffer w = []" "list_all (\<lambda>(is_ping, p). length p \<le> 125) controls"
    "125 \<le> receive_buffer_size w" "receive_buffer_size w \<le> size_max"
  shows "\<exists>v. same_reception v w
    \<and> receive_frames w (concat (map encode_frame (map (\<lambda>(is_ping, p). (True, if is_ping then 9 else 10, p)) controls)) @ rest)
      = receive_frames v rest"
  using assms
proof (induction controls arbitrary: w)
  case Nil
  then show ?case by (auto simp: same_reception_def)
next
  case (Cons c controls)
  obtain is_ping p where c: "c = (is_ping, p)" by fastforce
  let ?f = "(True, if is_ping then 9 else 10 :: u8, p)"
  have "acceptable w ?f" using Cons.prems by (simp add: c remaining_bytes_def knownOpcode_def)
  note step = receive_encoded [OF Cons.prems(1) this]
  have s: "same_reception (apply_frame ?f w) w" by (rule control_frame_reception)
  then obtain v where "same_reception v (apply_frame ?f w)"
    "receive_frames (apply_frame ?f w) (concat (map encode_frame (map (\<lambda>(is_ping, p). (True, if is_ping then 9 else 10, p)) controls)) @ rest)
      = receive_frames v rest"
    using Cons.IH [of "apply_frame ?f w"] Cons.prems step(2) by (auto simp: same_reception_def)
  with s step(1) show ?case by (auto simp: c intro: same_reception_trans)
qed

lemma not_8_le_1: "\<not> (8 :: u8) \<le> 1"
  by (simp add: word_le_nat_alt)

lemma receive_fragments:
  assumes "receive_buffer w = []" "fragments \<noteq> []"
    "list_all (\<lambda>(controls, payload). list_all (\<lambda>(is_ping, p). length p \<le> 125) controls) fragments"
    "length (current_message w @ concat (map snd fragments)) \<le> receive_buffer_size w"
    "125 \<le> receive_buffer_size w" "receive_buffer_size w \<le> size_max"
    "if is_fragmented w then code = 0 \<and> is_binary w = binary
     else code = (if binary then 2 else 1) \<and> current_message w = []"
  shows "\<exists>v. receive_frames w (concat (map encode_frame (fragment_frames code fragments)) @ rest) = receive_frames v rest
    \<and> receive_buffer v = [] \<and> \<not> is_fragmented v \<and> current_message v = []
    \<and> receive_buffer_size v = receive_buffer_size w \<and> handshake_completed v = handshake_completed w
    \<and> failures v = failures w
    \<and> data_events v = data_events w @ [OnData (current_message w @ concat (map snd fragments)) binary]"
  using assms
proof (induction fragments arbitrary: w code)
  case (Cons f fragments)
  obtain controls p where f: "f = (controls, p)" by fastforce
  let ?f = "(fragments = [], code, p)"
  let ?bytes = "concat (map encode_frame (fragment_frames 0 fragments)) @ rest"
  obtain v where v: "same_reception v w"
    "receive_frames w (concat (map encode_frame (fragment_frames code (f # fragments))) @ rest)
      = receive_frames v (encode_frame ?f @ ?bytes)"
    using receive_controls [of w controls "encode_frame ?f @ ?bytes"] Cons.prems by (auto simp: f)
  have "acceptable v ?f" using v(1) Cons.prems
    by (auto simp: f same_reception_def remaining_bytes_def knownOpcode_def size_sub_def not_8_le_1 split: if_splits)
  note step = receive_encoded [OF _ this]
  let ?u = "apply_frame ?f v"
  have u: "receive_frames v (encode_frame ?f @ ?bytes) = receive_frames ?u ?bytes" "receive_buffer ?u = []"
    using step v(1) Cons.prems(1) by (simp_all add: same_reception_def)
  show ?case
  proof (cases "fragments = []")
    case True
    then show ?thesis using u v Cons.prems(7)
      by (intro exI [of _ ?u])
        (auto simp: f same_reception_def handle_frame_def emit_def data_events_def failures_def Let_def split: if_splits)
  next
    case False
    have k: "current_message ?u = current_message w @ p" "is_fragmented ?u" "is_binary ?u = binary"
      "receive_buffer_size ?u = receive_buffer_size w" "handshake_completed ?u = handshake_completed w"
      "failures ?u = failures w" "data_events ?u = data_events w"
      using False v(1) Cons.prems(7)
      by (auto simp: same_reception_def handle_frame_def data_events_def failures_def Let_def split: if_splits)
    then show ?thesis
      using Cons.IH [of ?u 0] False Cons.prems u v by (simp add: f)
  qed
qed simp

lemma receive_messages:
  assumes "idle w" "125 \<le> receive_buffer_size w" "receive_buffer_size w \<le> size_max"
    "list_all (fits (receive_buffer_size w)) messages"
  shows "let v = receive_frames w (concat (map encode_message messages))
    in idle v \<and> failures v = failures w \<and> data_events v = data_events w @ map content messages"
  using assms
proof (induction messages arbitrary: w)
  case Nil
  then show ?case by (simp add: receive_frames.simps idle_def)
next
  case (Cons m messages)
  obtain binary fragments where m: "m = (binary, fragments)" by fastforce
  let ?code = "if binary then 2 else 1 :: u8"
  obtain v where v: "receive_frames w (concat (map encode_frame (fragment_frames ?code fragments))
        @ concat (map encode_message messages)) = receive_frames v (concat (map encode_message messages))"
    "receive_buffer v = []" "\<not> is_fragmented v" "current_message v = []"
    "receive_buffer_size v = receive_buffer_size w" "handshake_completed v = handshake_completed w"
    "failures v = failures w"
    "data_events v = data_events w @ [OnData (current_message w @ concat (map snd fragments)) binary]"
    using receive_fragments [of w fragments ?code binary "concat (map encode_message messages)"] Cons.prems
    by (auto simp: m idle_def)
  then have "idle v" using Cons.prems(1) by (simp add: idle_def)
  then show ?case using Cons.IH [of v] Cons.prems v by (simp add: m idle_def)
qed

text \<open>C6: The messages a server sends are delivered whole and in order, however it fragments them,
  whatever pings and pongs it puts between the fragments, and however TCP cuts the stream into
  chunks.\<close>

theorem messages_arrive:
  assumes "idle w" "125 \<le> receive_buffer_size w" "receive_buffer_size w \<le> size_max"
    "list_all (fits (receive_buffer_size w)) messages"
    "concat chunks = concat (map encode_message messages)"
  shows "idle (fold OnTcpData chunks w)
    \<and> data_events (fold OnTcpData chunks w) = data_events w @ map content messages"
proof -
  have "OnTcpData (concat chunks) w = receive_frames w (concat chunks)" "stream_ok w"
    using assms(1) by (simp_all add: OnTcpData_def handshake_bytes_completed idle_def stream_ok_def pending_empty)
  then show ?thesis
    using receive_messages [OF assms(1-4)] OnTcpData_chunks [of w chunks] assms(5) by (simp add: Let_def)
qed

theorem messages_arrive_witness:
  "data_events (fold OnTcpData [[0x01, 2, 72], [105, 0x89, 0], [0x80, 1, 33, 0x82], [1, 7]] open_socket)
     = [OnData [72, 105, 33] False, OnData [7] True]"
proof -
  let ?messages = "[(False, [([], [72, 105]), ([(True, [])], [33])]), (True, [([], [7])])]"
  have "idle open_socket" "125 \<le> receive_buffer_size open_socket" "receive_buffer_size open_socket \<le> size_max"
    "list_all (fits (receive_buffer_size open_socket)) ?messages"
    by (simp_all add: idle_def open_socket_def size_max_def)
  moreover have "concat [[0x01, 2, 72], [105, 0x89, 0], [0x80, 1, 33, 0x82], [1, 7]] = concat (map encode_message ?messages)"
    by (simp add: encode_header_def)
  ultimately show ?thesis
    using messages_arrive [of open_socket ?messages "[[0x01, 2, 72], [105, 0x89, 0], [0x80, 1, 33, 0x82], [1, 7]]"]
    by (simp add: data_events_def open_socket_def)
qed

section \<open>The buffers are bounded\<close>

fun message_within :: "nat \<Rightarrow> ws_event \<Rightarrow> bool" where
  "message_within limit (OnData payload binary) = (length payload \<le> limit)"
| "message_within limit _ = True"

definition within_limits :: "websocket \<Rightarrow> bool" where
  "within_limits w \<longleftrightarrow> length (current_message w) \<le> receive_buffer_size w
    \<and> list_all (message_within (receive_buffer_size w)) (events w)
    \<and> (if handshake_completed w then pending w else length (receive_buffer w) \<le> receive_buffer_size w)"

lemma pending_bound:
  assumes "pending w" "length (current_message w) \<le> receive_buffer_size w"
  shows "length (receive_buffer w) < receive_buffer_size w + 10"
proof (rule ccontr)
  let ?T = "receive_buffer w"
  let ?h = "inspectWebSocketFrameHeader ?T (remaining_bytes w (?T ! 0 AND 0x0F))"
  assume l: "\<not> length ?T < receive_buffer_size w + 10"
  then have "2 \<le> length ?T" "required_header ?T \<le> length ?T" using required_header_bounds(2) [of ?T] by simp_all
  moreover have "remaining_bytes w (?T ! 0 AND 0x0F) \<le> receive_buffer_size w"
    using assms(2) by (simp add: remaining_bytes_def size_sub_def)
  ultimately show False
    using assms(1) l complete_header [of ?T "remaining_bytes w (?T ! 0 AND 0x0F)"] required_header_bounds(2) [of ?T]
    by (auto simp: pending_def next_frame_def Let_def split: if_splits)
qed

lemma handle_frame_limits:
  assumes "next_frame w T = Frame k code fin payload" "within_limits w" "handshake_completed w"
  shows "within_limits ((fst (handle_frame code fin payload w))\<lparr>receive_buffer := []\<rparr>)"
proof -
  have "length payload \<le> remaining_bytes w code" "knownOpcode code"
    using Frame_bounds [OF assms(1)] by blast+
  then show ?thesis
    using assms(2,3)
    by (auto simp: knownOpcode_iff within_limits_def handle_frame_def emit_def SendControlFrame_def fill_random_def
        remaining_bytes_def size_sub_def pending_empty Let_def split: if_splits)
qed

lemma fail_limits: "within_limits w \<Longrightarrow> within_limits (fail h w)"
  by (auto simp: within_limits_def fail_def emit_def Let_def pending_empty)

lemma receive_frames_limits:
  assumes "within_limits w" "handshake_completed w"
  shows "within_limits (receive_frames w data)"
  using assms
proof (induction "length (receive_buffer w) + length data" arbitrary: w data rule: less_induct)
  case less
  let ?T = "receive_buffer w @ data"
  have p: "pending w" using less(2,3) by (simp add: within_limits_def)
  show ?case
  proof (cases "data \<noteq> [] \<or> receive_buffer w \<noteq> []")
    case True
    note step = receive_frames_step [OF p True]
    show ?thesis
    proof (cases "next_frame w ?T")
      case Need
      then show ?thesis using less(2,3) by (simp add: step within_limits_def pending_def)
    next
      case Bad
      then show ?thesis using fail_limits [OF less(2)] by (simp add: step)
    next
      case (Frame k code fin payload)
      note b = Frame_bounds(1,2) [OF Frame] FrameD(6) [OF Frame]
      show ?thesis
        using less(1) [OF _ handle_frame_limits [OF Frame less(2,3)], of "drop k ?T"] b less(3)
          handle_frame_keeps(2) [OF b(2)]
        by (simp add: step Frame)
    qed
  qed (use less(2) in \<open>simp add: receive_frames.simps\<close>)
qed

lemma handshake_bytes_limits:
  assumes "within_limits w" "\<not> handshake_completed w" "handshake_bytes w data = (v, r)"
  shows "within_limits v"
  using assms
proof (induction data arbitrary: w)
  case (Cons byte data)
  let ?w = "w\<lparr>receive_buffer := receive_buffer w @ [byte]\<rparr>"
  have ok: "within_limits ?w" if "length (receive_buffer w) \<noteq> receive_buffer_size w"
    using Cons.prems(1,2) that by (simp add: within_limits_def)
  have up: "within_limits (upgraded w)"
    using Cons.prems(1) by (simp add: within_limits_def upgraded_def emit_def pending_empty)
  show ?case
    using Cons.prems Cons.IH [of ?w] ok up fail_limits [of w True] by (auto simp: handshake_step split: if_splits)
qed simp

lemma OnTcpData_limits: "within_limits w \<Longrightarrow> within_limits (OnTcpData data w)"
proof -
  assume w: "within_limits w"
  obtain v r where h: "handshake_bytes w data = (v, r)" by fastforce
  have "within_limits v"
    using h w handshake_bytes_limits [OF w _ h] handshake_bytes_completed [of w data]
    by (cases "handshake_completed w") auto
  then show ?thesis using h by (simp add: OnTcpData_def receive_frames_limits split: option.split)
qed

interpretation reading: invariant_machine OnTcpData within_limits
  by unfold_locales (rule OnTcpData_limits)

text \<open>C12: Whatever bytes arrive, the receive buffer stays within the configured size plus a header,
  and the message being assembled and every message delivered within the configured size.\<close>

theorem receive_bounded:
  assumes "within_limits w"
  shows "let v = fold OnTcpData chunks w
    in length (receive_buffer v) < receive_buffer_size v + 10 \<and> length (current_message v) \<le> receive_buffer_size v
      \<and> list_all (message_within (receive_buffer_size v)) (events v)"
  using reading.run_inv [OF assms, of chunks] pending_bound [of "fold OnTcpData chunks w"]
  unfolding Let_def within_limits_def by (auto split: if_splits)

theorem receive_bounded_witness:
  "length (receive_buffer (fold OnTcpData [[0x82, 0x7E, 0x40], [1]] open_socket))
     < receive_buffer_size (fold OnTcpData [[0x82, 0x7E, 0x40], [1]] open_socket) + 10"
proof -
  have "within_limits open_socket" by (simp add: within_limits_def open_socket_def pending_empty)
  from receive_bounded [OF this, of "[[0x82, 0x7E, 0x40], [1]]"] show ?thesis by (simp only: Let_def)
qed

section \<open>What the client sends\<close>

text \<open>The server's side of RFC 6455: a client's frame carries a mask; the payload is what is left after
  the mask is taken off.\<close>

definition decode_client_frame :: "u8 list \<Rightarrow> frame option" where
  "decode_client_frame bytes =
    (case bytes of
       b0 # b1 # rest \<Rightarrow>
         if b1 AND 0x80 = 0 then None
         else let len = b1 AND 0x7F;
                  k = (if len = 126 then 2 else if len = 127 then 8 else 0);
                  n = (if k = 0 then unat len else unat (from_bytes (take k rest)));
                  key = take 4 (drop k rest);
                  payload = drop (k + 4) rest
              in if length payload = n then Some (b0 AND 0x80 \<noteq> 0, b0 AND 0x0F, mask_payload key payload) else None
     | _ \<Rightarrow> None)"

lemma mask_mask: "length key = 4 \<Longrightarrow> mask_payload key (mask_payload key payload) = payload"
  by (auto simp: mask_payload_def xor.assoc intro: nth_equalityI)

lemma length_mask [simp]: "length (mask_payload key payload) = length payload"
  by (simp add: mask_payload_def)

lemma length_fill_random: "fill_random n w = (key, v) \<Longrightarrow> length key = n"
  by (auto simp: fill_random_def)

lemma masked_length_byte:
  assumes "n \<le> 126"
  shows "(0x80 OR of_nat n) AND 0x80 \<noteq> (0 :: u8)" "(0x80 OR of_nat n) AND 0x7F = (of_nat n :: u8)"
proof -
  have "(0x80 OR of_nat n) AND 0x80 = (0x80 :: u8)" by (simp only: word_ao_absorbs)
  then show "(0x80 OR of_nat n) AND 0x80 \<noteq> (0 :: u8)" by simp
  have "unat (of_nat n :: u8) = n" using assms by (simp add: unsigned_of_nat take_bit_nat_eq_self)
  then have "of_nat n < (0x80 :: u8)" using assms by (simp add: word_less_nat_alt)
  then show "(0x80 OR of_nat n) AND 0x7F = (of_nat n :: u8)"
    by (simp add: bit.conj_disj_distrib2 unmasked_length(2))
qed

lemma two_length_bytes:
  assumes "n \<le> 65535"
  shows "unat (from_bytes [of_nat (n div 2 ^ 8 mod 256), of_nat (n mod 256)]) = n"
proof -
  define m where "m = (of_nat n :: u64)"
  have m: "unat m = n" using assms by (simp add: m_def unsigned_of_nat take_bit_nat_eq_self)
  have "big_endian 2 m = [ucast (drop_bit 8 m), ucast m]" by (simp add: big_endian_def upt_rec)
  moreover have "ucast (drop_bit 8 m) = (of_nat (n div 2 ^ 8 mod 256) :: u8)" "ucast m = (of_nat (n mod 256) :: u8)"
    using m assms
    by (simp_all add: word_unat_eq_iff unsigned_ucast_eq unsigned_drop_bit_eq unsigned_of_nat take_bit_eq_mod drop_bit_eq_div
        unat_div_distrib)
  moreover have "take_bit (8 * 2) m = m" using m assms by (simp add: take_bit_less)
  ultimately show ?thesis using from_big_endian [of 2 m] m by simp
qed

lemma decode_encoded:
  assumes "length key = 4" "length data \<le> 65535" "knownOpcode code"
  shows "decode_client_frame (((if fin then 0x80 else 0) OR code)
      # (if length data < 126 then [0x80 OR of_nat (length data)]
         else [0x80 OR 126, of_nat (length data div 2 ^ 8 mod 256), of_nat (length data mod 256)])
      @ key @ mask_payload key data) = Some (fin, code, data)"
proof -
  let ?b = "(if fin then 0x80 else 0) OR code"
  have b: "(?b AND 0x80 \<noteq> 0) = fin" "?b AND 0x0F = code" using first_byte [of ?b fin code] assms(3) by blast+
  have "unat (of_nat n :: u8) = n" if "n < 126" for n using that by (simp add: unsigned_of_nat take_bit_nat_eq_self)
  note short = this masked_length_byte [of "length data"]
  have ne: "(of_nat n :: u8) \<noteq> 126" "(of_nat n :: u8) \<noteq> 127" if "n < 126" for n
    using short(1) [OF that] that by (auto dest: arg_cong [where f = unat])
  show ?thesis
  proof (cases "length data < 126")
    case True
    then show ?thesis using short ne [OF True] assms(1)
      by (simp add: decode_client_frame_def Let_def b mask_mask)
  next
    case False
    have "(0x80 OR 126) AND 0x80 \<noteq> (0 :: u8)" "(0x80 OR 126) AND 0x7F = (126 :: u8)"
      using masked_length_byte [of 126] by simp_all
    then show ?thesis using False two_length_bytes [OF assms(2)] assms(1)
      by (simp add: decode_client_frame_def Let_def b mask_mask)
  qed
qed

lemma Send_decodes:
  "if has_tcp w \<and> length data \<le> 65535
   then \<exists>bytes. events (snd (Send data binary fin w)) = events w @ [TcpSend bytes]
     \<and> fst (Send data binary fin w) = tcpSends w bytes
     \<and> decode_client_frame bytes = Some (fin, if binary then 2 else if continuation w then 0 else 1, data)
     \<and> continuation (snd (Send data binary fin w)) = (\<not> fin)
   else Send data binary fin w = (False, w)"
proof (cases "has_tcp w \<and> length data \<le> 65535")
  case True
  obtain key v where r: "fill_random 4 w = (key, v)" by fastforce
  then have v: "events v = events w" "tcpSends v = tcpSends w" and key: "length key = 4"
    by (auto simp: fill_random_def)
  let ?code = "if binary then 2 else if continuation w then 0 else 1 :: u8"
  have "knownOpcode ?code" by (simp add: knownOpcode_def)
  from decode_encoded [OF key _ this, of data fin] True show ?thesis
    by (simp add: Send_def r v emit_def Let_def del: decode_client_frame_def)
qed (auto simp: Send_def)

text \<open>C13: A frame that Send hands to TCP is masked and decodes on the server to the final bit, the
  opcode and the bytes given; otherwise nothing is sent.\<close>

theorem sent_frames_decode:
  "if has_tcp w \<and> length data \<le> 65535
   then \<exists>bytes. events (snd (Send data binary fin w)) = events w @ [TcpSend bytes]
     \<and> fst (Send data binary fin w) = tcpSends w bytes
     \<and> decode_client_frame bytes = Some (fin, if binary then 2 else if continuation w then 0 else 1, data)
     \<and> continuation (snd (Send data binary fin w)) = (\<not> fin)
   else Send data binary fin w = (False, w)"
  by (rule Send_decodes)

theorem control_frames_decode:
  "if has_tcp w \<and> length data \<le> 125 \<and> knownOpcode code
   then \<exists>bytes. events (snd (SendControlFrame code data w)) = events w @ [TcpSend bytes]
     \<and> decode_client_frame bytes = Some (True, code, data)
   else True"
proof (cases "has_tcp w \<and> length data \<le> 125 \<and> knownOpcode code")
  case True
  obtain key v where r: "fill_random 4 w = (key, v)" by fastforce
  then have v: "events v = events w" and key: "length key = 4" by (auto simp: fill_random_def)
  from decode_encoded [OF key, of data code True] True show ?thesis
    by (simp add: SendControlFrame_def r v emit_def Let_def)
qed auto

text \<open>A text message in fragments continues with opcode 0; a binary one does not: the second frame
  starts a new message.\<close>

lemma binary_fragments_restart:
  assumes "has_tcp w" "length a \<le> 65535" "length b \<le> 65535"
  shows "\<exists>x y. events (snd (Send b True True (snd (Send a True False w)))) = events w @ [TcpSend x, TcpSend y]
    \<and> decode_client_frame x = Some (False, 2, a) \<and> decode_client_frame y = Some (True, 2, b)"
proof -
  have t: "has_tcp (snd (Send a True False w))" using assms by (simp add: Send_def fill_random_def emit_def Let_def)
  obtain x where "events (snd (Send a True False w)) = events w @ [TcpSend x]" "decode_client_frame x = Some (False, 2, a)"
    using Send_decodes [of w a True False] assms by auto
  moreover obtain y where "events (snd (Send b True True (snd (Send a True False w))))
      = events (snd (Send a True False w)) @ [TcpSend y]" "decode_client_frame y = Some (True, 2, b)"
    using Send_decodes [of "snd (Send a True False w)" b True True] assms t by auto
  ultimately show ?thesis by auto
qed

end
