(* ===== verification/Websocket_Pong.thy ===== *)
theory Websocket_Pong
  imports Prelude
begin

text \<open>
  \<open>websocket_pong.cpp\<close>: which callback observes the pongs of which socket.  A pointer to a socket is a
  \<open>nat option\<close> (\<open>None\<close> is null) and a \<open>std::function\<close> an option.  The contract is a map of at most
  eight entries; the table of eight slots refines it.
\<close>

section \<open>The code\<close>

record 'cb observer =
  socket :: "nat option"
  callback :: "'cb option"

definition no_observer :: "'cb observer" where
  "no_observer = \<lparr>socket = None, callback = None\<rparr>"

definition no_observers :: "'cb observer list" where
  "no_observers = replicate 8 no_observer"

definition first_slot :: "('cb observer \<Rightarrow> bool) \<Rightarrow> 'cb observer list \<Rightarrow> nat option" where
  "first_slot P observers = List.find (\<lambda>i. P (observers ! i)) [0..<length observers]"

definition setWebSocketPongCallback ::
    "nat option \<Rightarrow> 'cb option \<Rightarrow> 'cb observer list \<Rightarrow> bool \<times> 'cb observer list" where
  "setWebSocketPongCallback s cb observers =
    (if s = None \<or> cb = None then (False, observers)
     else case first_slot (\<lambda>observer. socket observer = s) observers of
       Some i \<Rightarrow> (True, observers[i := (observers ! i)\<lparr>callback := cb\<rparr>])
     | None \<Rightarrow>
         (case first_slot (\<lambda>observer. socket observer = None) observers of
            Some i \<Rightarrow> (True, observers[i := \<lparr>socket = s, callback = cb\<rparr>])
          | None \<Rightarrow> (False, observers)))"

definition clearWebSocketPongCallback :: "nat option \<Rightarrow> 'cb observer list \<Rightarrow> 'cb observer list" where
  "clearWebSocketPongCallback s observers =
    map (\<lambda>observer. if socket observer = s then no_observer else observer) observers"

text \<open>The callback that \<open>notifyWebSocketPong\<close> calls, if any.\<close>

definition notifyWebSocketPong :: "nat option \<Rightarrow> 'cb observer list \<Rightarrow> 'cb option" where
  "notifyWebSocketPong s observers =
    (case first_slot (\<lambda>observer. socket observer = s) observers of
       Some i \<Rightarrow> callback (observers ! i)
     | None \<Rightarrow> None)"

section \<open>The contract\<close>

text \<open>A map from sockets to callbacks with a bounded number of entries.\<close>

locale bounded_registry =
  fixes register :: "nat option \<Rightarrow> 'cb option \<Rightarrow> 'st \<Rightarrow> bool \<times> 'st"
    and unregister :: "nat option \<Rightarrow> 'st \<Rightarrow> 'st"
    and look :: "nat option \<Rightarrow> 'st \<Rightarrow> 'cb option"
    and ok :: "'st \<Rightarrow> bool"
  assumes register_ok: "ok st \<Longrightarrow> ok (snd (register s cb st))"
    and unregister_ok: "ok st \<Longrightarrow> ok (unregister s st)"
    and look_register: "ok st \<Longrightarrow> fst (register (Some n) (Some f) st) \<Longrightarrow>
      look t (snd (register (Some n) (Some f) st)) = (if t = Some n then Some f else look t st)"
    and register_fails: "ok st \<Longrightarrow> \<not> fst (register s cb st) \<Longrightarrow> snd (register s cb st) = st"
    and look_unregister: "ok st \<Longrightarrow> look t (unregister s st) = (if t = s then None else look t st)"
begin

lemma gone: "ok st \<Longrightarrow> look s (unregister s st) = None"
  by (simp add: look_unregister)

lemma replaced:
  assumes "ok st" "fst (register (Some n) (Some f) st)" "fst (register (Some n) (Some g) (snd (register (Some n) (Some f) st)))"
  shows "look t (snd (register (Some n) (Some g) (snd (register (Some n) (Some f) st))))
    = (if t = Some n then Some g else look t st)"
  using assms by (simp add: look_register register_ok)

end

section \<open>The table keeps it\<close>

definition table_ok :: "'cb observer list \<Rightarrow> bool" where
  "table_ok observers \<longleftrightarrow> length observers = 8
    \<and> distinct (filter (\<lambda>s. s \<noteq> None) (map socket observers))
    \<and> list_all (\<lambda>observer. (socket observer = None) = (callback observer = None)) observers"

lemma find_index_Some:
  "first_slot P observers = Some i \<longleftrightarrow> i < length observers \<and> P (observers ! i) \<and> (\<forall>j<i. \<not> P (observers ! j))"
  unfolding first_slot_def find_upt_Some by auto

lemma find_index_None: "first_slot P observers = None \<longleftrightarrow> (\<forall>observer\<in>set observers. \<not> P observer)"
  unfolding first_slot_def find_upt_None by (fastforce simp: in_set_conv_nth)

lemma slot_unique:
  "distinct (filter (\<lambda>s. s \<noteq> None) xs) \<Longrightarrow> i < length xs \<Longrightarrow> j < length xs \<Longrightarrow> xs ! i = xs ! j
    \<Longrightarrow> xs ! i \<noteq> None \<Longrightarrow> i = j"
proof (induction xs arbitrary: i j)
  case (Cons x xs)
  then show ?case by (cases i; cases j) (auto split: if_splits dest!: nth_mem [of _ xs])
qed simp

lemma distinct_slots_update:
  "distinct (filter (\<lambda>s. s \<noteq> None) xs) \<Longrightarrow> Some n \<notin> set xs \<Longrightarrow> distinct (filter (\<lambda>s. s \<noteq> None) (xs[i := Some n]))"
proof (induction xs arbitrary: i)
  case (Cons x xs)
  have "set (filter (\<lambda>s. s \<noteq> None) (xs[j := Some n])) \<subseteq> insert (Some n) (set (filter (\<lambda>s. s \<noteq> None) xs))" for j
    using set_update_subset_insert [of xs j "Some n"] by auto
  with Cons show ?case by (cases i) (auto split: if_splits)
qed simp

lemma notify_iff:
  assumes "table_ok observers"
  shows "notifyWebSocketPong (Some n) observers = Some f \<longleftrightarrow> \<lparr>socket = Some n, callback = Some f\<rparr> \<in> set observers"
proof
  assume "notifyWebSocketPong (Some n) observers = Some f"
  then obtain i where "i < length observers" "socket (observers ! i) = Some n" "callback (observers ! i) = Some f"
    by (auto simp: notifyWebSocketPong_def find_index_Some split: option.splits)
  then show "\<lparr>socket = Some n, callback = Some f\<rparr> \<in> set observers"
    by (metis nth_mem observer.surjective old.unit.exhaust)
next
  assume "\<lparr>socket = Some n, callback = Some f\<rparr> \<in> set observers"
  then obtain j where j: "j < length observers" "observers ! j = \<lparr>socket = Some n, callback = Some f\<rparr>"
    by (auto simp: in_set_conv_nth)
  then obtain i where i: "first_slot (\<lambda>observer. socket observer = Some n) observers = Some i"
    using nth_mem [OF j(1)] by (cases "first_slot (\<lambda>observer. socket observer = Some n) observers") (auto simp: find_index_None)
  then have "i = j"
    using slot_unique [of "map socket observers" i j] j assms by (auto simp: table_ok_def find_index_Some)
  with i j show "notifyWebSocketPong (Some n) observers = Some f" by (simp add: notifyWebSocketPong_def)
qed

lemma notify_null:
  assumes "table_ok observers"
  shows "notifyWebSocketPong None observers = None"
  using assms
  by (auto simp: notifyWebSocketPong_def find_index_Some table_ok_def list_all_length split: option.split)

lemma registered_iff:
  assumes "table_ok observers"
  shows "notifyWebSocketPong (Some n) observers \<noteq> None \<longleftrightarrow> Some n \<in> socket ` set observers"
proof -
  have "socket x = Some n \<Longrightarrow> x \<in> set observers \<Longrightarrow> \<exists>f. x = \<lparr>socket = Some n, callback = Some f\<rparr>" for x
    using assms by (cases x; cases "callback x") (auto simp: table_ok_def list_all_iff)
  then have "Some n \<in> socket ` set observers \<longleftrightarrow> (\<exists>f. \<lparr>socket = Some n, callback = Some f\<rparr> \<in> set observers)"
    by force
  then show ?thesis using notify_iff [OF assms, of n] by auto
qed

lemma same_Some: "(\<And>g. x = Some g \<longleftrightarrow> y = Some g) \<Longrightarrow> x = y"
  by (cases x; cases y) auto

lemma distinct_filter_clear:
  "\<not> P y \<Longrightarrow> distinct (filter P xs) \<Longrightarrow> distinct (filter P (map (\<lambda>x. if x = s then y else x) xs))"
  by (induction xs) (auto split: if_splits)

lemma slot_assigned:
  fixes f :: 'cb
  assumes ok: "table_ok observers" and i: "i < length observers"
    and s: "socket (observers ! i) = Some n \<or> socket (observers ! i) = None \<and> Some n \<notin> socket ` set observers"
  defines "after \<equiv> observers[i := \<lparr>socket = Some n, callback = Some f\<rparr>]"
  shows "table_ok after"
    "notifyWebSocketPong t after = (if t = Some n then Some f else notifyWebSocketPong t observers)"
proof -
  have "distinct (filter (\<lambda>s. s \<noteq> None) (map socket after))"
  proof (cases "socket (observers ! i) = Some n")
    case True
    then have "map socket after = map socket observers" using i by (simp add: after_def map_update list_update_same_conv)
    then show ?thesis using ok by (simp add: table_ok_def)
  next
    case False
    then show ?thesis
      using distinct_slots_update [of "map socket observers" n i] ok s by (auto simp: after_def map_update table_ok_def)
  qed
  then show t: "table_ok after"
    using ok i by (auto simp: after_def table_ok_def list_all_length nth_list_update)
  have own: "j = i" if "j < length observers" "socket (observers ! j) = Some n" for j
  proof -
    have "Some n \<in> socket ` set observers" using that nth_mem by (metis imageI)
    then show ?thesis
      using s slot_unique [of "map socket observers" j i] ok that i by (auto simp: table_ok_def)
  qed
  have "\<lparr>socket = Some m, callback = Some g\<rparr> \<in> set after \<longleftrightarrow>
      (if m = n then g = f else \<lparr>socket = Some m, callback = Some g\<rparr> \<in> set observers)" for m g
  proof -
    have "\<lparr>socket = Some m, callback = Some g\<rparr> \<in> set after \<longleftrightarrow>
        (\<exists>j<length observers. after ! j = \<lparr>socket = Some m, callback = Some g\<rparr>)"
      by (simp add: in_set_conv_nth after_def)
    also have "\<dots> \<longleftrightarrow> (if m = n then g = f else \<lparr>socket = Some m, callback = Some g\<rparr> \<in> set observers)"
    proof (cases "m = n")
      case True
      have "j = i" if "j < length observers" "after ! j = \<lparr>socket = Some n, callback = Some g\<rparr>" for j
        using own [OF that(1)] that(2) by (cases "j = i") (auto simp: after_def)
      then have "(\<exists>j<length observers. after ! j = \<lparr>socket = Some n, callback = Some g\<rparr>)
          \<longleftrightarrow> after ! i = \<lparr>socket = Some n, callback = Some g\<rparr>" using i by blast
      then show ?thesis using True i by (simp add: after_def) blast
    next
      case False
      have "after ! j = \<lparr>socket = Some m, callback = Some g\<rparr> \<longleftrightarrow> observers ! j = \<lparr>socket = Some m, callback = Some g\<rparr>"
        if "j < length observers" for j
        using False s that by (cases "j = i") (auto simp: after_def)
      then show ?thesis using False by (auto simp: in_set_conv_nth)
    qed
    finally show ?thesis .
  qed
  then have "notifyWebSocketPong (Some m) after = Some g \<longleftrightarrow>
      (if m = n then g = f else notifyWebSocketPong (Some m) observers = Some g)" for m g
    by (simp add: notify_iff [OF ok] notify_iff [OF t])
  then have "notifyWebSocketPong (Some m) after = (if m = n then Some f else notifyWebSocketPong (Some m) observers)" for m
    by (intro same_Some) auto
  then show "notifyWebSocketPong t after = (if t = Some n then Some f else notifyWebSocketPong t observers)"
    using notify_null [OF t] notify_null [OF ok] by (cases t) auto
qed

lemma register_result:
  assumes "table_ok observers"
  shows "fst (setWebSocketPongCallback (Some n) (Some f) observers) \<longleftrightarrow>
      Some n \<in> socket ` set observers \<or> None \<in> socket ` set observers"
  using find_index_None [of "\<lambda>observer. socket observer = Some n" observers]
    find_index_None [of "\<lambda>observer. socket observer = None" observers]
  by (force simp: setWebSocketPongCallback_def image_iff split: option.split)

lemma register_effect:
  assumes "table_ok observers" "fst (setWebSocketPongCallback s cb observers)"
  shows "\<exists>n f i. s = Some n \<and> cb = Some f \<and> i < length observers
    \<and> (socket (observers ! i) = Some n \<or> socket (observers ! i) = None \<and> Some n \<notin> socket ` set observers)
    \<and> snd (setWebSocketPongCallback s cb observers) = observers[i := \<lparr>socket = Some n, callback = Some f\<rparr>]"
proof -
  obtain n f where sf: "s = Some n" "cb = Some f" using assms(2) by (auto simp: setWebSocketPongCallback_def split: if_splits)
  have r: "x\<lparr>callback := Some f\<rparr> = \<lparr>socket = Some n, callback = Some f\<rparr>" if "socket x = Some n" for x
    using that by (cases x) simp
  show ?thesis
  proof (cases "first_slot (\<lambda>observer. socket observer = Some n) observers")
    case (Some i)
    then have i: "i < length observers" "socket (observers ! i) = Some n" by (simp_all add: find_index_Some)
    from r [OF i(2)] have "observers[i := (observers ! i)\<lparr>callback := Some f\<rparr>]
        = observers[i := \<lparr>socket = Some n, callback = Some f\<rparr>]" by (rule arg_cong)
    with Some i show ?thesis using sf
      by (rule_tac x = n in exI, rule_tac x = f in exI, rule_tac x = i in exI)
        (simp add: setWebSocketPongCallback_def)
  next
    case None
    then obtain i where "first_slot (\<lambda>observer. socket observer = None) observers = Some i"
      using assms(2) sf by (auto simp: setWebSocketPongCallback_def split: option.splits)
    moreover from this have "i < length observers" "socket (observers ! i) = None" by (simp_all add: find_index_Some)
    moreover have "Some n \<notin> socket ` set observers" using None by (auto simp: find_index_None)
    ultimately show ?thesis using None sf
      by (rule_tac x = n in exI, rule_tac x = f in exI, rule_tac x = i in exI)
        (simp add: setWebSocketPongCallback_def)
  qed
qed

lemma cleared:
  assumes "table_ok observers"
  shows "table_ok (clearWebSocketPongCallback s observers)"
    "notifyWebSocketPong t (clearWebSocketPongCallback s observers)
      = (if t = s then None else notifyWebSocketPong t observers)"
proof -
  let ?after = "clearWebSocketPongCallback s observers"
  have "map socket ?after = map (\<lambda>x. if x = s then None else x) (map socket observers)"
    by (simp add: clearWebSocketPongCallback_def no_observer_def)
  then have "distinct (filter (\<lambda>s. s \<noteq> None) (map socket ?after))"
    using assms distinct_filter_clear [of "\<lambda>s. s \<noteq> None" None "map socket observers" s] by (simp only: table_ok_def) simp
  then show t: "table_ok ?after"
    using assms by (auto simp: table_ok_def clearWebSocketPongCallback_def list_all_iff no_observer_def)
  have "notifyWebSocketPong (Some m) ?after = Some g \<longleftrightarrow>
      (if Some m = s then False else notifyWebSocketPong (Some m) observers = Some g)" for m g
    unfolding notify_iff [OF t] notify_iff [OF assms]
    by (force simp: clearWebSocketPongCallback_def no_observer_def)
  then have "notifyWebSocketPong (Some m) ?after = (if Some m = s then None else notifyWebSocketPong (Some m) observers)" for m
    by (intro same_Some) auto
  then show "notifyWebSocketPong t ?after = (if t = s then None else notifyWebSocketPong t observers)"
    using notify_null [OF t] notify_null [OF assms] by (cases t) auto
qed

interpretation pongs: bounded_registry setWebSocketPongCallback clearWebSocketPongCallback notifyWebSocketPong table_ok
proof (unfold_locales, goal_cases)
  case (1 st s cb)
  then show ?case
    using register_effect [of st s cb] slot_assigned(1) [of st]
    by (cases "fst (setWebSocketPongCallback s cb st)") (auto simp: setWebSocketPongCallback_def split: option.splits if_splits)
next
  case (3 st n f t)
  then show ?case using register_effect [of st "Some n" "Some f"] slot_assigned(2) [of st] by auto
next
  case (4 st s cb)
  then show ?case by (auto simp: setWebSocketPongCallback_def split: option.splits if_splits)
qed (simp_all add: cleared)

section \<open>It is a map of at most eight entries\<close>

datatype 'cb pong_call = Observe "nat option" "'cb option" | Forget "nat option" | Pong "nat option"

datatype 'cb pong_answer = Registered bool | Forgotten | Calls "'cb option"

fun table_calls :: "'cb pong_call list \<Rightarrow> 'cb observer list \<Rightarrow> 'cb pong_answer list" where
  "table_calls [] observers = []"
| "table_calls (Observe s cb # calls) observers =
    (let r = setWebSocketPongCallback s cb observers in Registered (fst r) # table_calls calls (snd r))"
| "table_calls (Forget s # calls) observers =
    Forgotten # table_calls calls (clearWebSocketPongCallback s observers)"
| "table_calls (Pong s # calls) observers = Calls (notifyWebSocketPong s observers) # table_calls calls observers"

fun map_calls :: "'cb pong_call list \<Rightarrow> (nat \<rightharpoonup> 'cb) \<Rightarrow> 'cb pong_answer list" where
  "map_calls [] m = []"
| "map_calls (Observe (Some n) (Some f) # calls) m =
    (if n \<in> dom m \<or> card (dom m) < 8 then Registered True # map_calls calls (m(n \<mapsto> f))
     else Registered False # map_calls calls m)"
| "map_calls (Observe s cb # calls) m = Registered False # map_calls calls m"
| "map_calls (Forget s # calls) m =
    Forgotten # map_calls calls (case s of None \<Rightarrow> m | Some n \<Rightarrow> m(n := None))"
| "map_calls (Pong s # calls) m = Calls (case s of None \<Rightarrow> None | Some n \<Rightarrow> m n) # map_calls calls m"

definition entries :: "'cb observer list \<Rightarrow> nat \<rightharpoonup> 'cb" where
  "entries observers n = notifyWebSocketPong (Some n) observers"

lemma some_None: "length (filter (\<lambda>s. s \<noteq> None) xs) < length xs \<longleftrightarrow> None \<in> set xs"
  by (induction xs) (auto simp: less_Suc_eq_le)

lemma free_slot:
  assumes "table_ok observers"
  shows "None \<in> socket ` set observers \<longleftrightarrow> card (dom (entries observers)) < 8"
proof -
  let ?used = "filter (\<lambda>s. s \<noteq> None) (map socket observers)"
  have "Some ` dom (entries observers) = set ?used"
    using registered_iff [OF assms] by (force simp: entries_def dom_def image_iff)
  moreover have "card (Some ` dom (entries observers)) = card (dom (entries observers))" by (simp add: card_image)
  moreover have "card (set ?used) = length ?used" using assms by (intro distinct_card) (simp add: table_ok_def)
  moreover have "length ?used < 8 \<longleftrightarrow> None \<in> socket ` set observers"
    using some_None [of "map socket observers"] assms by (simp add: table_ok_def)
  ultimately show ?thesis by simp
qed

lemma table_simulates:
  "table_ok observers \<Longrightarrow> table_calls calls observers = map_calls calls (entries observers)"
proof (induction calls arbitrary: observers)
  case (Cons c calls)
  show ?case
  proof (cases c)
    case (Observe s cb)
    let ?r = "setWebSocketPongCallback s cb observers"
    have ok: "table_ok (snd ?r)" using pongs.register_ok [OF Cons.prems] .
    show ?thesis
    proof (cases "s = None \<or> cb = None")
      case True
      then show ?thesis using Cons.IH [OF Cons.prems] Observe
        by (cases s; cases cb) (auto simp: setWebSocketPongCallback_def)
    next
      case False
      then obtain n f where nf: "s = Some n" "cb = Some f" by auto
      have g: "fst ?r \<longleftrightarrow> n \<in> dom (entries observers) \<or> card (dom (entries observers)) < 8"
        using register_result [OF Cons.prems, of n f] free_slot [OF Cons.prems] registered_iff [OF Cons.prems, of n]
        by (simp add: nf entries_def dom_def)
      show ?thesis
      proof (cases "fst ?r")
        case True
        then have e: "entries (snd ?r) = (entries observers)(n \<mapsto> f)"
          using pongs.look_register [OF Cons.prems, of n f] by (auto simp: nf entries_def fun_eq_iff)
        show ?thesis using Cons.IH [OF ok, unfolded e] True g Observe nf by (simp add: Let_def fun_upd_def)
      next
        case False
        then have "snd ?r = observers" by (rule pongs.register_fails [OF Cons.prems])
        then show ?thesis using Cons.IH [OF Cons.prems] False g Observe nf by (simp add: Let_def)
      qed
    qed
  next
    case (Forget s)
    have "entries (clearWebSocketPongCallback s observers)
        = (case s of None \<Rightarrow> entries observers | Some n \<Rightarrow> (entries observers)(n := None))"
      using cleared(2) [OF Cons.prems] by (cases s) (auto simp: entries_def fun_eq_iff)
    then show ?thesis using Cons.IH [OF cleared(1) [OF Cons.prems]] Forget by simp
  next
    case (Pong s)
    then show ?thesis using Cons.IH [OF Cons.prems] notify_null [OF Cons.prems]
      by (cases s) (simp_all add: entries_def)
  qed
qed simp

lemma no_observers_ok: "table_ok (no_observers :: 'a observer list)" "entries (no_observers :: 'a observer list) = Map.empty"
proof -
  show t: "table_ok (no_observers :: 'a observer list)"
    by (simp add: table_ok_def no_observers_def no_observer_def list_all_iff)
  show "entries (no_observers :: 'a observer list) = Map.empty"
  proof
    fix n
    show "entries (no_observers :: 'a observer list) n = None"
      unfolding entries_def using notify_iff [OF t, of n]
      by (intro same_Some) (simp add: no_observers_def no_observer_def)
  qed
qed

theorem pong_table_is_a_map: "table_calls calls no_observers = map_calls calls Map.empty"
  using table_simulates [OF no_observers_ok(1)] by (simp add: no_observers_ok(2))

end
