(* ===== verification/Json_Interface.thy ===== *)
theory Json_Interface
  imports Prelude
begin

text \<open>
  ArduinoJson is a third-party library, so its reader and its serializer are parameters: a record
  of the calls the sources make.  \<open>'v\<close> is its \<open>JsonVariantConst\<close>.

  Documents that the firmware builds are values of \<open>json_doc\<close>, with the members in the order
  in which the code assigns them; the text is \<open>serializeJson\<close> of the value.  A \<open>const char*\<close> that
  the reader returns is the string up to the first NUL (\<open>as_cstring\<close>), \<open>None\<close> for a null
  pointer.
\<close>

datatype json_doc = JInt int | JBool bool | JDouble cpp_double | JString string
  | JArray "json_doc list" | JObject "(string \<times> json_doc) list"

record 'v json_lib =
  deserialize :: "nat \<Rightarrow> string \<Rightarrow> 'v option"   \<comment> \<open>nesting limit, text; \<open>None\<close> on a parse error\<close>
  serializeJson :: "json_doc \<Rightarrow> string"
  jmember :: "'v \<Rightarrow> string \<Rightarrow> 'v"
  jsize :: "'v \<Rightarrow> nat"
  jkeys :: "'v \<Rightarrow> string list"
  is_object :: "'v \<Rightarrow> bool"
  isUnbound :: "'v \<Rightarrow> bool"
  isNull :: "'v \<Rightarrow> bool"
  as_string :: "'v \<Rightarrow> string option"
  is_bool :: "'v \<Rightarrow> bool"
  as_bool :: "'v \<Rightarrow> bool"
  is_int :: "'v \<Rightarrow> bool"
  as_int :: "'v \<Rightarrow> int"
  is_int64 :: "'v \<Rightarrow> bool"
  is_uint64 :: "'v \<Rightarrow> bool"
  as_uint64 :: "'v \<Rightarrow> u64"
  is_uint32 :: "'v \<Rightarrow> bool"
  as_uint32 :: "'v \<Rightarrow> u32"
  is_uint8 :: "'v \<Rightarrow> bool"
  as_uint8 :: "'v \<Rightarrow> u8"
  is_double :: "'v \<Rightarrow> bool"
  as_double :: "'v \<Rightarrow> cpp_double"

definition as_cstring :: "('v, 'z) json_lib_scheme \<Rightarrow> 'v \<Rightarrow> string option" where
  "as_cstring J v = map_option (takeWhile (\<lambda>c. c \<noteq> CHR 0x00)) (as_string J v)"

lemma as_cstring_no_nul: "as_cstring J v = Some s \<Longrightarrow> CHR 0x00 \<notin> set s"
  by (auto simp: as_cstring_def dest: set_takeWhileD)

text \<open>The limit that every builder and parser of the sources applies to a message.\<close>

definition kMaxJsonBytes :: nat where
  "kMaxJsonBytes = 16384"

definition INT64_MAX :: u64 where
  "INT64_MAX = 0x7FFFFFFFFFFFFFFF"

record EnvelopeMetadata =
  messageId :: string
  sentAtMs :: u64

text \<open>The members that every message starts with.\<close>

definition envelope_members :: "string \<Rightarrow> EnvelopeMetadata \<Rightarrow> (string \<times> json_doc) list" where
  "envelope_members type envelope =
     [(''v'', JInt 1), (''type'', JString type), (''message_id'', JString (messageId envelope)),
      (''sent_at_ms'', JInt (uint (sentAtMs envelope)))]"

text \<open>A small concrete library for the witnesses: the reader knows a list of texts, and the
  serializer writes every document as two characters.\<close>

datatype toy_value = TMissing | TNull | TBool bool | TInt int | TStr string
  | TObj "(string \<times> toy_value) list"

fun toy_int :: "toy_value \<Rightarrow> int option" where
  "toy_int (TInt i) = Some i" | "toy_int _ = None"

fun toy_str :: "toy_value \<Rightarrow> string option" where
  "toy_str (TStr s) = Some s" | "toy_str _ = None"

fun toy_members :: "toy_value \<Rightarrow> (string \<times> toy_value) list" where
  "toy_members (TObj ms) = ms" | "toy_members _ = []"

fun toy_is_object :: "toy_value \<Rightarrow> bool" where
  "toy_is_object (TObj ms) = True" | "toy_is_object _ = False"

fun toy_bool :: "toy_value \<Rightarrow> bool option" where
  "toy_bool (TBool b) = Some b" | "toy_bool _ = None"

definition toy_range :: "int \<Rightarrow> int \<Rightarrow> toy_value \<Rightarrow> bool" where
  "toy_range lo hi v = (case toy_int v of None \<Rightarrow> False | Some i \<Rightarrow> lo \<le> i \<and> i \<le> hi)"

definition toy_the_int :: "toy_value \<Rightarrow> int" where
  "toy_the_int v = (case toy_int v of None \<Rightarrow> 0 | Some i \<Rightarrow> i)"

definition toy_json :: "(string \<times> toy_value) list \<Rightarrow> toy_value json_lib" where
  "toy_json texts =
     \<lparr>deserialize = (\<lambda>limit text. map_of texts text),
      serializeJson = (\<lambda>d. ''{}''),
      jmember = (\<lambda>v k. case map_of (toy_members v) k of None \<Rightarrow> TMissing | Some w \<Rightarrow> w),
      jsize = (\<lambda>v. length (toy_members v)),
      jkeys = (\<lambda>v. map fst (toy_members v)),
      is_object = toy_is_object,
      isUnbound = (\<lambda>v. v = TMissing),
      isNull = (\<lambda>v. v = TMissing \<or> v = TNull),
      as_string = toy_str,
      is_bool = (\<lambda>v. toy_bool v \<noteq> None),
      as_bool = (\<lambda>v. toy_bool v = Some True),
      is_int = toy_range (- (2 ^ 31)) (2 ^ 31 - 1),
      as_int = toy_the_int,
      is_int64 = toy_range (- (2 ^ 63)) (2 ^ 63 - 1),
      is_uint64 = toy_range 0 (2 ^ 64 - 1),
      as_uint64 = (\<lambda>v. word_of_int (toy_the_int v)),
      is_uint32 = toy_range 0 (2 ^ 32 - 1),
      as_uint32 = (\<lambda>v. word_of_int (toy_the_int v)),
      is_uint8 = toy_range 0 255,
      as_uint8 = (\<lambda>v. word_of_int (toy_the_int v)),
      is_double = (\<lambda>v. toy_int v \<noteq> None),
      as_double = (\<lambda>v. Finite (of_int (toy_the_int v)))\<rparr>"

end
