(* ===== verification/Protocol.thy ===== *)
theory Protocol
  imports Json_Interface Text_Validation
begin

text \<open>
  \<open>protocol.cpp\<close>: the hello message and its acknowledgement.  A function with an output
  parameter and an error code returns a sum: \<open>Inl\<close> the error (the output is then empty), or
  \<open>Inr\<close> the output.
\<close>

datatype ProtocolError = InvalidArgument | MessageTooLarge

record Capabilities =
  microphone :: bool
  speaker :: bool
  camera :: bool
  touch :: bool
  head :: bool
  display :: bool
  avatar :: bool
  ledCount :: u16

record AudioFormat =
  codec :: string
  sampleRate :: u32
  channels :: u8
  frameMs :: u8

record HelloPayload =
  deviceId :: string
  deviceName :: string
  firmwareVersion :: string
  hardwareModel :: string
  capabilities :: Capabilities
  audio :: AudioFormat

record HelloAck =
  connectionId :: string
  selectedProtocolVersion :: u8
  heartbeatIntervalMs :: u32
  maxCommandTimeoutMs :: u32
  serverVersion :: string

definition hello_document :: "EnvelopeMetadata \<Rightarrow> HelloPayload \<Rightarrow> json_doc" where
  "hello_document envelope hello =
     JObject (envelope_members ''hello'' envelope @
       [(''payload'', JObject
          [(''capture_protocol_version'', JInt 2),
           (''device_id'', JString (deviceId hello)),
           (''device_name'', JString (deviceName hello)),
           (''firmware_version'', JString (firmwareVersion hello)),
           (''hardware_model'', JString (hardwareModel hello)),
           (''protocol_versions'', JArray [JInt 1]),
           (''capabilities'', let c = capabilities hello in JObject
              [(''microphone'', JBool (microphone c)), (''speaker'', JBool (speaker c)),
               (''camera'', JBool (camera c)), (''touch'', JBool (touch c)),
               (''head'', JBool (head c)), (''display'', JBool (display c)),
               (''avatar'', JBool (avatar c)), (''led_count'', JInt (uint (ledCount c)))]),
           (''audio'', let a = audio hello in JObject
              [(''codec'', JString (codec a)), (''sample_rate'', JInt (uint (sampleRate a))),
               (''channels'', JInt (uint (channels a))), (''frame_ms'', JInt (uint (frameMs a)))])])])"

definition buildHelloJson ::
  "('v, 'z) json_lib_scheme \<Rightarrow> EnvelopeMetadata \<Rightarrow> HelloPayload \<Rightarrow> ProtocolError + string" where
  "buildHelloJson J envelope hello =
    (let validFrameDuration = frameMs (audio hello) = 20 \<or> frameMs (audio hello) = 40
           \<or> frameMs (audio hello) = 60 in
     if \<not> isValidUuid (messageId envelope) \<or> sentAtMs envelope > INT64_MAX
        \<or> \<not> isValidDeviceId (deviceId hello)
        \<or> \<not> isValidBoundedText (deviceName hello) 64
        \<or> \<not> isValidBoundedText (firmwareVersion hello) 32
        \<or> \<not> isValidBoundedText (hardwareModel hello) 64
        \<or> ledCount (capabilities hello) > 256
        \<or> codec (audio hello) \<noteq> ''opus'' \<or> sampleRate (audio hello) \<noteq> 16000
        \<or> channels (audio hello) \<noteq> 1 \<or> \<not> validFrameDuration
     then Inl InvalidArgument
     else let output = serializeJson J (hello_document envelope hello) in
       if length output > kMaxJsonBytes then Inl MessageTooLarge else Inr output)"

definition parseHelloAckJson :: "('v, 'z) json_lib_scheme \<Rightarrow> string \<Rightarrow> ProtocolError + HelloAck" where
  "parseHelloAckJson J input =
    (if length input > kMaxJsonBytes then Inl MessageTooLarge
     else case deserialize J 8 input of
       None \<Rightarrow> Inl InvalidArgument
     | Some document \<Rightarrow>
        let protocolVersion = jmember J document ''v'';
            sentAt = jmember J document ''sent_at_ms'';
            messageType = as_cstring J (jmember J document ''type'');
            message = as_cstring J (jmember J document ''message_id'')
        in if \<not> is_int J protocolVersion \<or> as_int J protocolVersion \<noteq> 1
              \<or> messageType \<noteq> Some ''hello_ack''
              \<or> (case message of None \<Rightarrow> True | Some m \<Rightarrow> \<not> isValidUuid m)
              \<or> \<not> is_uint64 J sentAt \<or> as_uint64 J sentAt > INT64_MAX
           then Inl InvalidArgument
           else let payload = jmember J document ''payload'' in
             if \<not> is_object J payload then Inl InvalidArgument
             else let connection = as_cstring J (jmember J payload ''connection_id'');
                      server = as_cstring J (jmember J payload ''server_version'');
                      heartbeatValue = jmember J payload ''heartbeat_interval_ms'';
                      selectedVersionValue = jmember J payload ''selected_protocol_version'';
                      commandTimeoutValue = jmember J payload ''max_command_timeout_ms'';
                      captureVersion = jmember J payload ''capture_protocol_version''
               in if \<not> is_int J captureVersion \<or> as_int J captureVersion \<noteq> 2
                     \<or> \<not> is_uint32 J heartbeatValue \<or> \<not> is_uint8 J selectedVersionValue
                     \<or> \<not> is_uint32 J commandTimeoutValue
                  then Inl InvalidArgument
                  else let heartbeat = as_uint32 J heartbeatValue;
                           selected = as_uint8 J selectedVersionValue;
                           timeout = as_uint32 J commandTimeoutValue
                    in case (connection, server) of
                         (Some c, Some sv) \<Rightarrow>
                           if \<not> isValidUuid c \<or> \<not> isValidBoundedText sv 32
                              \<or> heartbeat < 1000 \<or> heartbeat > 60000 \<or> selected \<noteq> 1
                              \<or> timeout < 100 \<or> timeout > 30000
                           then Inl InvalidArgument
                           else Inr \<lparr>connectionId = c, selectedProtocolVersion = selected,
                                     heartbeatIntervalMs = heartbeat,
                                     maxCommandTimeoutMs = timeout, serverVersion = sv\<rparr>
                       | _ \<Rightarrow> Inl InvalidArgument)"

definition valid_hello_ack :: "HelloAck \<Rightarrow> bool" where
  "valid_hello_ack ack \<longleftrightarrow> isValidUuid (connectionId ack) \<and> selectedProtocolVersion ack = 1
     \<and> 1000 \<le> heartbeatIntervalMs ack \<and> heartbeatIntervalMs ack \<le> 60000
     \<and> 100 \<le> maxCommandTimeoutMs ack \<and> maxCommandTimeoutMs ack \<le> 30000
     \<and> isValidBoundedText (serverVersion ack) 32"

lemma parse_hello_ack_valid:
  assumes "parseHelloAckJson J input = Inr ack"
  shows "valid_hello_ack ack \<and> length input \<le> kMaxJsonBytes"
  using assms unfolding parseHelloAckJson_def Let_def
  by (auto simp: valid_hello_ack_def not_less split: if_splits option.splits)

lemma build_hello_bounded:
  assumes "buildHelloJson J envelope hello = Inr output"
  shows "length output \<le> kMaxJsonBytes \<and> output = serializeJson J (hello_document envelope hello)
    \<and> frameMs (audio hello) \<in> {20, 40, 60} \<and> isValidDeviceId (deviceId hello)"
  using assms unfolding buildHelloJson_def Let_def by (auto split: if_splits)

end
