(* ===== verification/Protocol_Guard.thy ===== *)
theory Protocol_Guard
  imports Json_Interface Text_Validation
begin

text \<open>
  \<open>protocol_guard.cpp\<close>: the error message the device sends to its peer, the error messages it
  accepts, and the window that counts invalid messages.
\<close>

datatype PeerErrorCode = InvalidMessage | InvalidArgument | InvalidState

datatype PeerErrorBuildError = InvalidArgument | MessageTooLarge

datatype RemoteErrorCode = UnsupportedVersion | Unauthorized | UnknownDevice | InvalidMessage
  | InvalidArgument | InvalidState | CommandTimeout | DeviceBusy | AudioDecodeError
  | AudioEncodeError | CaptureFailed | InternalError

datatype RemoteErrorParseError = InvalidMessage | InvalidArgument | MessageTooLarge

record RemoteErrorMessage =
  remote_code :: RemoteErrorCode
  remote_messageId :: string
  remote_turnId :: string
  remote_streamId :: string

definition guard_isHexDigit :: "char \<Rightarrow> bool" where
  "guard_isHexDigit value = isHexDigit value"

definition guard_isValidUuid :: "string \<Rightarrow> bool" where
  "guard_isValidUuid value = isValidUuid value"

definition isValidText :: "string \<Rightarrow> nat \<Rightarrow> bool" where
  "isValidText value maximumCodePoints = isValidBoundedText value maximumCodePoints"

definition parseRemoteErrorCode :: "string option \<Rightarrow> RemoteErrorCode option" where
  "parseRemoteErrorCode value =
    (case value of None \<Rightarrow> None | Some code \<Rightarrow>
      if code = ''UNSUPPORTED_VERSION'' then Some UnsupportedVersion
      else if code = ''UNAUTHORIZED'' then Some Unauthorized
      else if code = ''UNKNOWN_DEVICE'' then Some UnknownDevice
      else if code = ''INVALID_MESSAGE'' then Some RemoteErrorCode.InvalidMessage
      else if code = ''INVALID_ARGUMENT'' then Some RemoteErrorCode.InvalidArgument
      else if code = ''INVALID_STATE'' then Some RemoteErrorCode.InvalidState
      else if code = ''COMMAND_TIMEOUT'' then Some CommandTimeout
      else if code = ''DEVICE_BUSY'' then Some DeviceBusy
      else if code = ''AUDIO_DECODE_ERROR'' then Some AudioDecodeError
      else if code = ''AUDIO_ENCODE_ERROR'' then Some AudioEncodeError
      else if code = ''CAPTURE_FAILED'' then Some CaptureFailed
      else if code = ''INTERNAL_ERROR'' then Some InternalError
      else None)"

text \<open>\<open>readOptionalUuid\<close>: \<open>None\<close> is the result \<open>false\<close>; an absent field reads as
  the empty string.\<close>

definition readOptionalUuid :: "('v, 'z) json_lib_scheme \<Rightarrow> 'v \<Rightarrow> string \<Rightarrow> string option" where
  "readOptionalUuid J rootObject name =
    (let field = jmember J rootObject name in
     if isUnbound J field then Some []
     else case as_cstring J field of
       None \<Rightarrow> None
     | Some value \<Rightarrow> if \<not> guard_isValidUuid value then None else Some value)"

fun peer_errorCode :: "PeerErrorCode \<Rightarrow> string" where
  "peer_errorCode PeerErrorCode.InvalidMessage = ''INVALID_MESSAGE''"
| "peer_errorCode PeerErrorCode.InvalidArgument = ''INVALID_ARGUMENT''"
| "peer_errorCode PeerErrorCode.InvalidState = ''INVALID_STATE''"

definition buildPeerErrorJson ::
  "('v, 'z) json_lib_scheme \<Rightarrow> EnvelopeMetadata \<Rightarrow> PeerErrorCode \<Rightarrow> string
     \<Rightarrow> PeerErrorBuildError + string" where
  "buildPeerErrorJson J envelope code message =
    (if \<not> guard_isValidUuid (messageId envelope) \<or> \<not> isValidText message 160
        \<or> sentAtMs envelope > INT64_MAX
     then Inl PeerErrorBuildError.InvalidArgument
     else let output = serializeJson J (JObject (envelope_members ''error'' envelope @
                [(''payload'', JObject [(''code'', JString (peer_errorCode code)),
                                        (''message'', JString message)])])) in
       if length output > kMaxJsonBytes then Inl PeerErrorBuildError.MessageTooLarge else Inr output)"

definition parseRemoteErrorJson ::
  "('v, 'z) json_lib_scheme \<Rightarrow> string \<Rightarrow> RemoteErrorParseError + RemoteErrorMessage" where
  "parseRemoteErrorJson J input =
    (if length input > kMaxJsonBytes then Inl RemoteErrorParseError.MessageTooLarge
     else case deserialize J 8 input of
       None \<Rightarrow> Inl RemoteErrorParseError.InvalidMessage
     | Some rootObject \<Rightarrow>
       if \<not> is_object J rootObject then Inl RemoteErrorParseError.InvalidMessage
       else let type = as_cstring J (jmember J rootObject ''type'');
                message_id = as_cstring J (jmember J rootObject ''message_id'');
                sentAt = jmember J rootObject ''sent_at_ms''
         in if \<not> is_int J (jmember J rootObject ''v'') \<or> as_int J (jmember J rootObject ''v'') \<noteq> 1
               \<or> type \<noteq> Some ''error''
               \<or> (case message_id of None \<Rightarrow> True | Some m \<Rightarrow> \<not> guard_isValidUuid m)
               \<or> \<not> is_uint64 J sentAt \<or> as_uint64 J sentAt > INT64_MAX
               \<or> \<not> is_object J (jmember J rootObject ''payload'')
            then Inl RemoteErrorParseError.InvalidMessage
            else let payload = jmember J rootObject ''payload'';
                     code = as_cstring J (jmember J payload ''code'');
                     message = as_cstring J (jmember J payload ''message'')
              in case (parseRemoteErrorCode code, message,
                       readOptionalUuid J rootObject ''turn_id'', readOptionalUuid J rootObject ''stream_id'') of
                (Some parsedCode, Some text, Some turn, Some stream) \<Rightarrow>
                  if \<not> isValidText text 160 then Inl RemoteErrorParseError.InvalidArgument
                  else let detailField = jmember J payload ''detail'' in
                    if \<not> isUnbound J detailField
                       \<and> (case as_cstring J detailField of None \<Rightarrow> True
                           | Some detail \<Rightarrow> \<not> isValidText detail 512)
                    then Inl RemoteErrorParseError.InvalidArgument
                    else Inr \<lparr>remote_code = parsedCode, remote_messageId = the message_id,
                              remote_turnId = turn, remote_streamId = stream\<rparr>
              | _ \<Rightarrow> Inl RemoteErrorParseError.InvalidArgument)"

section \<open>The window of invalid messages\<close>

definition kInvalidMessageWindowMs :: u32 where
  "kInvalidMessageWindowMs = 10000"

definition kInvalidMessageLimit :: u8 where
  "kInvalidMessageLimit = 3"

record InvalidMessageWindow =
  window_startedAtMs :: u32
  window_count :: u8

definition new_InvalidMessageWindow :: InvalidMessageWindow where
  "new_InvalidMessageWindow = \<lparr>window_startedAtMs = 0, window_count = 0\<rparr>"

definition observe :: "u32 \<Rightarrow> InvalidMessageWindow \<Rightarrow> bool \<times> InvalidMessageWindow" where
  "observe nowMs w =
    (if window_count w = 0 \<or> nowMs - window_startedAtMs w \<ge> kInvalidMessageWindowMs
     then (False, w\<lparr>window_startedAtMs := nowMs, window_count := 1\<rparr>)
     else let w = (if window_count w < kInvalidMessageLimit
                   then w\<lparr>window_count := window_count w + 1\<rparr> else w)
       in (window_count w \<ge> kInvalidMessageLimit, w))"

definition reset_window :: "InvalidMessageWindow \<Rightarrow> InvalidMessageWindow" where
  "reset_window w = w\<lparr>window_startedAtMs := 0, window_count := 0\<rparr>"

subsection \<open>The window over true time\<close>

text \<open>
  \<open>spec_observe\<close> counts with unbounded times: a window opens at the first message after the
  previous one has closed, lasts ten seconds, and the third message of a window is the prev.
\<close>

fun observe_all :: "u32 list \<Rightarrow> InvalidMessageWindow \<Rightarrow> bool list" where
  "observe_all [] w = []"
| "observe_all (t # ts) w = (let (terminal, w') = observe t w in terminal # observe_all ts w')"

fun spec_observe :: "nat list \<Rightarrow> (nat \<times> nat) option \<Rightarrow> bool list" where
  "spec_observe [] window = []"
| "spec_observe (now # ts) None = False # spec_observe ts (Some (now, 1))"
| "spec_observe (now # ts) (Some (start, n)) =
     (if now \<ge> start + 10000 then False # spec_observe ts (Some (now, 1))
      else (n + 1 \<ge> 3) # spec_observe ts (Some (start, n + 1)))"

fun clock_ok :: "nat list \<Rightarrow> bool" where
  "clock_ok (a # b # ts) = (a \<le> b \<and> b - a < 2 ^ 32 - 10000 \<and> clock_ok (b # ts))"
| "clock_ok ts = True"

lemma kInvalidMessageWindowMs_unat: "unat kInvalidMessageWindowMs = 10000"
  by (simp add: kInvalidMessageWindowMs_def)

lemma observe_all_open:
  assumes "clock_ok (prev # ts)" "start \<le> prev" "prev < start + 10000" "1 \<le> n"
    and "window_startedAtMs w = of_nat start" "window_count w = of_nat (min n 3)"
  shows "observe_all (map of_nat ts) w = spec_observe ts (Some (start, n))"
  using assms
proof (induction ts arbitrary: prev start n w)
  case (Cons now ts)
  then have le: "start \<le> now" "now - start < 2 ^ 32" by auto
  have tail: "clock_ok (now # ts)" using Cons.prems by simp
  have expired: "kInvalidMessageWindowMs \<le> of_nat now - window_startedAtMs w \<longleftrightarrow> start + 10000 \<le> now"
    using elapsed_le_u32 [OF le, of kInvalidMessageWindowMs] le(1) Cons.prems(5) kInvalidMessageWindowMs_unat
    by (metis add.commute le_diff_conv2)
  show ?case
  proof (cases "start + 10000 \<le> now")
    case True
    then show ?thesis using expired tail
      by (simp add: observe_def Cons.IH [OF tail, of now 1])
  next
    case False
    consider "n = 1" | "n = 2" | "3 \<le> n" using Cons.prems(4) by linarith
    then show ?thesis
    proof cases
    case 1 then show ?thesis using False expired Cons.prems le tail
      by (simp add: observe_def kInvalidMessageLimit_def Cons.IH [OF tail, of start "Suc (Suc 0)"])
    next
    case 2 then show ?thesis using False expired Cons.prems le tail
      by (simp add: observe_def kInvalidMessageLimit_def Cons.IH [OF tail, of start "Suc 2"])
    next
    case 3 then show ?thesis using False expired Cons.prems le tail
      by (simp add: observe_def kInvalidMessageLimit_def Cons.IH [OF tail, of start "Suc n"])
    qed
  qed
qed simp

theorem window_counts:
  assumes "clock_ok ts"
  shows "observe_all (map of_nat ts) (reset_window w) = spec_observe ts None"
proof (cases ts)
  case (Cons t ts')
  then show ?thesis using assms observe_all_open [of t ts' t 1]
    by (simp add: observe_def reset_window_def)
qed simp

lemma window_counts_witness:
  "observe_all (map of_nat [4294967000, 4294967290, 4294967300]) new_InvalidMessageWindow = [False, False, True]"
proof -
  have "reset_window new_InvalidMessageWindow = new_InvalidMessageWindow"
    by (simp add: reset_window_def new_InvalidMessageWindow_def)
  then show ?thesis
    using window_counts [of "[4294967000, 4294967290, 4294967300]" new_InvalidMessageWindow] by simp
qed

end
