(* ===== verification/Event.thy ===== *)
theory Event
  imports Json_Interface Text_Validation
begin

text \<open>\<open>event.cpp\<close>: the events the device reports, faults and touches.\<close>

datatype DeviceFaultEventType = DeviceError | ServoError

datatype DeviceFaultCode = AudioDecodeError | AudioEncodeError | InternalError

datatype EventBuildError = InvalidArgument | MessageTooLarge

definition event_isHexDigit :: "char \<Rightarrow> bool" where
  "event_isHexDigit value = isHexDigit value"

definition event_isValidUuid :: "string \<Rightarrow> bool" where
  "event_isValidUuid value = isValidUuid value"

definition event_isValidDeviceId :: "string \<Rightarrow> bool" where
  "event_isValidDeviceId value = isValidDeviceId value"

definition isValidMessage :: "string \<Rightarrow> bool" where
  "isValidMessage value = isValidBoundedText value 160"

fun eventName :: "DeviceFaultEventType \<Rightarrow> string" where
  "eventName DeviceError = ''device.error''"
| "eventName ServoError = ''servo.error''"

fun fault_errorCode :: "DeviceFaultCode \<Rightarrow> string" where
  "fault_errorCode AudioDecodeError = ''AUDIO_DECODE_ERROR''"
| "fault_errorCode AudioEncodeError = ''AUDIO_ENCODE_ERROR''"
| "fault_errorCode InternalError = ''INTERNAL_ERROR''"

definition buildDeviceFaultEventJson ::
  "('v, 'z) json_lib_scheme \<Rightarrow> EnvelopeMetadata \<Rightarrow> string \<Rightarrow> DeviceFaultEventType
     \<Rightarrow> DeviceFaultCode \<Rightarrow> string \<Rightarrow> EventBuildError + string" where
  "buildDeviceFaultEventJson J envelope deviceId type code message =
    (if \<not> event_isValidUuid (messageId envelope) \<or> \<not> event_isValidDeviceId deviceId
        \<or> \<not> isValidMessage message \<or> sentAtMs envelope > INT64_MAX
     then Inl InvalidArgument
     else let output = serializeJson J (JObject (envelope_members ''event'' envelope @
                [(''device_id'', JString deviceId),
                 (''payload'', JObject
                    [(''name'', JString (eventName type)),
                     (''data'', JObject [(''code'', JString (fault_errorCode code)),
                                         (''message'', JString message)])])])) in
       if length output > kMaxJsonBytes then Inl MessageTooLarge else Inr output)"

definition buildTouchTapEventJson ::
  "('v, 'z) json_lib_scheme \<Rightarrow> EnvelopeMetadata \<Rightarrow> string \<Rightarrow> int \<Rightarrow> int
     \<Rightarrow> EventBuildError + string" where
  "buildTouchTapEventJson J envelope deviceId x y =
    (if \<not> event_isValidUuid (messageId envelope) \<or> \<not> event_isValidDeviceId deviceId
        \<or> x < 0 \<or> x > 319 \<or> y < 0 \<or> y > 239 \<or> sentAtMs envelope > INT64_MAX
     then Inl InvalidArgument
     else let output = serializeJson J (JObject (envelope_members ''event'' envelope @
                [(''device_id'', JString deviceId),
                 (''payload'', JObject
                    [(''name'', JString ''touch.tap''),
                     (''data'', JObject [(''x'', JInt x), (''y'', JInt y)])])])) in
       if length output > kMaxJsonBytes then Inl MessageTooLarge else Inr output)"

end
