(* ===== verification/Reconnect.thy ===== *)
theory Reconnect
  imports Prelude
begin

text \<open>
  \<open>reconnect.cpp\<close>: the delays between connection attempts.  The state is the delay the next
  call returns.
\<close>

record ReconnectBackoff =
  m_nextDelaySeconds :: u32

definition new_ReconnectBackoff :: ReconnectBackoff where
  "new_ReconnectBackoff = \<lparr>m_nextDelaySeconds = 1\<rparr>"

definition nextDelaySeconds :: "ReconnectBackoff \<Rightarrow> u32 \<times> ReconnectBackoff" where
  "nextDelaySeconds b =
     (let delay = m_nextDelaySeconds b in
      (delay, b\<lparr>m_nextDelaySeconds :=
         (if m_nextDelaySeconds b \<ge> 16 then 30 else m_nextDelaySeconds b * 2)\<rparr>))"

definition observeStableConnection :: "u32 \<Rightarrow> ReconnectBackoff \<Rightarrow> ReconnectBackoff" where
  "observeStableConnection durationSeconds b =
     (if durationSeconds \<ge> 30 then b\<lparr>m_nextDelaySeconds := 1\<rparr> else b)"

section \<open>The sequence of delays\<close>

text \<open>The delays that \<open>n\<close> successive calls return.\<close>

fun delays :: "nat \<Rightarrow> ReconnectBackoff \<Rightarrow> u32 list" where
  "delays 0 b = []"
| "delays (Suc n) b = (let (d, b') = nextDelaySeconds b in d # delays n b')"

definition backoff_inv :: "ReconnectBackoff \<Rightarrow> bool" where
  "backoff_inv b \<longleftrightarrow> m_nextDelaySeconds b \<in> {1, 2, 4, 8, 16, 30}"

datatype backoff_op = Next_Delay | Observe u32

fun backoff_step :: "backoff_op \<Rightarrow> ReconnectBackoff \<Rightarrow> ReconnectBackoff" where
  "backoff_step Next_Delay b = snd (nextDelaySeconds b)"
| "backoff_step (Observe d) b = observeStableConnection d b"

lemma backoff_step_inv: "backoff_inv b \<Longrightarrow> backoff_inv (backoff_step op b)"
  by (cases op) (auto simp: backoff_inv_def nextDelaySeconds_def observeStableConnection_def Let_def)

interpretation backoff: invariant_machine backoff_step backoff_inv
  by unfold_locales (rule backoff_step_inv)

lemma backoff_inv_new [simp]: "backoff_inv new_ReconnectBackoff"
  by (simp add: backoff_inv_def new_ReconnectBackoff_def)

lemma delays_Cons:
  assumes "\<And>k. k \<le> n \<Longrightarrow> delays k (snd (nextDelaySeconds b)) = take k ds"
    and "m_nextDelaySeconds b = d"
  shows "delays n b = take n (d # ds)"
  using assms(1) [of "n - 1"] assms(2) by (cases n) (auto simp: nextDelaySeconds_def Let_def)

lemma delays_capped: "m_nextDelaySeconds b = 30 \<Longrightarrow> delays n b = replicate n 30"
  by (induction n arbitrary: b) (auto simp: nextDelaySeconds_def Let_def)

lemma delays_capped_take:
  "m_nextDelaySeconds b = 30 \<Longrightarrow> k \<le> n \<Longrightarrow> delays k b = take k (replicate n 30)"
  by (simp add: delays_capped min_def)

theorem reconnect_delays:
  "delays n (backoff_step (Observe 30) b) = take n ([1, 2, 4, 8, 16] @ replicate n 30)"
  unfolding append.simps
  by (intro delays_Cons delays_capped_take)
    (simp_all add: observeStableConnection_def nextDelaySeconds_def Let_def word_le_nat_alt)

theorem reconnect_delay_bounded:
  "let d = fst (nextDelaySeconds (fold backoff_step ops new_ReconnectBackoff))
   in 1 \<le> d \<and> d \<le> 30 \<and> unat (d * 1000) = unat d * 1000"
proof -
  have "backoff_inv (fold backoff_step ops new_ReconnectBackoff)" by (rule backoff.run_inv) simp
  then show ?thesis by (auto simp: backoff_inv_def nextDelaySeconds_def Let_def)
qed

end
