(* ===== verification/State_Machine.thy ===== *)
theory State_Machine
  imports Prelude
begin

text \<open>
  \<open>state_machine.cpp\<close>: the device states, the events and the transition function.  An error
  enum of the sources whose first member is \<open>None\<close> has the constructor \<open>NoError\<close> here.

  The specification \<open>doc_step\<close> is the table of \<open>docs/state-machines.md\<close>, one rule for each
  row.
\<close>

datatype DeviceState = Booting | ConnectingWifi | ConnectingBridge | Idle | Listening | Speaking
  | Error | Updating

datatype DeviceEvent = InitializationSucceeded | WifiConnected | HelloAcknowledged
  | BridgeDisconnected | HardwareOrConfigFailure | RetryableFailure | WifiLost
  | LocalInputAccepted | PlaybackStarted | ThinkingChanged | UpdateStarted | InputEnded
  | PlaybackEnded | BargeInTriggered | SafetyError | RecoverySucceeded | UpdateCompleted
  | UpdateFailed

datatype TransitionError = NoError | InvalidState

fun deviceStateName :: "DeviceState \<Rightarrow> string" where
  "deviceStateName Booting = ''BOOTING''"
| "deviceStateName ConnectingWifi = ''CONNECTING_WIFI''"
| "deviceStateName ConnectingBridge = ''CONNECTING_BRIDGE''"
| "deviceStateName Idle = ''IDLE''"
| "deviceStateName Listening = ''LISTENING''"
| "deviceStateName Speaking = ''SPEAKING''"
| "deviceStateName DeviceState.Error = ''ERROR''"
| "deviceStateName Updating = ''UPDATING''"

definition transition :: "DeviceState \<Rightarrow> DeviceEvent \<Rightarrow> TransitionError \<times> DeviceState" where
  "transition state event =
    (if event = SafetyError \<and> state \<noteq> Updating then (NoError, Error)
     else if state = Booting \<and> event = InitializationSucceeded then (NoError, ConnectingWifi)
     else if state = Booting \<and> event = HardwareOrConfigFailure then (NoError, Error)
     else if state = ConnectingWifi \<and> event = WifiConnected then (NoError, ConnectingBridge)
     else if state = ConnectingWifi \<and> event = RetryableFailure then (NoError, state)
     else if state = ConnectingWifi \<and> event = HardwareOrConfigFailure then (NoError, Error)
     else if state = ConnectingBridge \<and> event = HelloAcknowledged then (NoError, Idle)
     else if state = ConnectingBridge \<and> event = RetryableFailure then (NoError, state)
     else if state = ConnectingBridge \<and> event = WifiLost then (NoError, ConnectingWifi)
     else if state = Idle \<and> event = BridgeDisconnected then (NoError, ConnectingBridge)
     else if state = Idle \<and> event = LocalInputAccepted then (NoError, Listening)
     else if state = Idle \<and> event = PlaybackStarted then (NoError, Speaking)
     else if state = Idle \<and> event = ThinkingChanged then (NoError, state)
     else if state = Idle \<and> event = UpdateStarted then (NoError, Updating)
     else if state = Listening \<and> event = InputEnded then (NoError, Idle)
     else if state = Listening \<and> event = PlaybackStarted then (NoError, Speaking)
     else if state = Listening \<and> event = BridgeDisconnected then (NoError, ConnectingBridge)
     else if state = Speaking \<and> event = PlaybackEnded then (NoError, Idle)
     else if state = Speaking \<and> event = BargeInTriggered then (NoError, Listening)
     else if state = Speaking \<and> event = BridgeDisconnected then (NoError, ConnectingBridge)
     else if state = Error \<and> event = RecoverySucceeded then (NoError, ConnectingWifi)
     else if state = Updating \<and> event = UpdateCompleted then (NoError, Booting)
     else if state = Updating \<and> event = UpdateFailed then (NoError, Error)
     else (InvalidState, state))"

section \<open>The documented table\<close>

inductive doc_step :: "DeviceState \<Rightarrow> DeviceEvent \<Rightarrow> DeviceState \<Rightarrow> bool" where
  initialized: "doc_step Booting InitializationSucceeded ConnectingWifi"
| boot_failure: "doc_step Booting HardwareOrConfigFailure Error"
| wifi_up: "doc_step ConnectingWifi WifiConnected ConnectingBridge"
| wifi_retry: "doc_step ConnectingWifi RetryableFailure ConnectingWifi"
| wifi_fatal: "doc_step ConnectingWifi HardwareOrConfigFailure Error"
| hello: "doc_step ConnectingBridge HelloAcknowledged Idle"
| bridge_retry: "doc_step ConnectingBridge RetryableFailure ConnectingBridge"
| wifi_lost: "doc_step ConnectingBridge WifiLost ConnectingWifi"
| input: "doc_step Idle LocalInputAccepted Listening"
| output_start: "doc_step Idle PlaybackStarted Speaking"
| thinking: "doc_step Idle ThinkingChanged Idle"
| update: "doc_step Idle UpdateStarted Updating"
| input_end: "doc_step Listening InputEnded Idle"
| playback_start: "doc_step Listening PlaybackStarted Speaking"
| playback_end: "doc_step Speaking PlaybackEnded Idle"
| barge_in: "doc_step Speaking BargeInTriggered Listening"
| socket_lost: "s \<in> {Idle, Listening, Speaking} \<Longrightarrow> doc_step s BridgeDisconnected ConnectingBridge"
| safety: "s \<noteq> Updating \<Longrightarrow> doc_step s SafetyError Error"
| recovered: "doc_step Error RecoverySucceeded ConnectingWifi"
| updated: "doc_step Updating UpdateCompleted Booting"
| update_failed: "doc_step Updating UpdateFailed Error"

inductive_simps doc_step_simps: "doc_step s e t"

inductive_cases hello_only: "doc_step ConnectingBridge e Idle"

definition run_events :: "DeviceEvent list \<Rightarrow> DeviceState \<Rightarrow> DeviceState" where
  "run_events events state = fold (\<lambda>event state. snd (transition state event)) events state"

definition in_session :: "DeviceState \<Rightarrow> bool" where
  "in_session state \<longleftrightarrow> state \<in> {Idle, Listening, Speaking}"

theorem transition_matches_table:
  "transition state event = (NoError, next) \<longleftrightarrow> doc_step state event next"
  by (cases state; cases event; simp add: transition_def doc_step_simps; blast)

lemma transition_invalid: "fst (transition state event) = InvalidState \<Longrightarrow> snd (transition state event) = state"
  by (simp add: transition_def split: if_splits)

theorem transition_refused:
  "(\<forall>next. \<not> doc_step state event next) \<longleftrightarrow> transition state event = (InvalidState, state)"
  by (cases state; cases event; simp add: transition_def doc_step_simps; blast)

lemma run_events_Cons [simp]:
  "run_events [] s = s" "run_events (e # es) s = run_events es (snd (transition s e))"
  by (simp_all add: run_events_def)

text \<open>A session state is entered from outside only by the acknowledgement of the hello.\<close>

lemma enter_session:
  assumes "\<not> in_session s" "in_session (snd (transition s e))"
  shows "s = ConnectingBridge \<and> e = HelloAcknowledged"
  using assms by (cases s; cases e; simp add: transition_def in_session_def)

theorem session_needs_hello:
  assumes "\<not> in_session s" "in_session (run_events events s)"
  shows "HelloAcknowledged \<in> set events"
  using assms
proof (induction events arbitrary: s)
  case (Cons e es)
  then show ?case using enter_session [of s e] by (cases "in_session (snd (transition s e))") auto
qed simp

lemma session_needs_hello_witness:
  "in_session (run_events [InitializationSucceeded, WifiConnected, HelloAcknowledged] Booting)
   \<and> HelloAcknowledged \<in> set [InitializationSucceeded, WifiConnected, HelloAcknowledged]"
proof
  show s: "in_session (run_events [InitializationSucceeded, WifiConnected, HelloAcknowledged] Booting)"
    by (simp add: transition_def in_session_def)
  show "HelloAcknowledged \<in> set [InitializationSucceeded, WifiConnected, HelloAcknowledged]"
    by (rule session_needs_hello [OF _ s]) (simp add: in_session_def)
qed

definition way_to_idle :: "DeviceState \<Rightarrow> DeviceEvent list" where
  "way_to_idle state =
     (case state of
        Booting \<Rightarrow> [InitializationSucceeded, WifiConnected, HelloAcknowledged]
      | ConnectingWifi \<Rightarrow> [WifiConnected, HelloAcknowledged]
      | ConnectingBridge \<Rightarrow> [HelloAcknowledged]
      | Idle \<Rightarrow> []
      | Listening \<Rightarrow> [InputEnded]
      | Speaking \<Rightarrow> [PlaybackEnded]
      | DeviceState.Error \<Rightarrow> [RecoverySucceeded, WifiConnected, HelloAcknowledged]
      | Updating \<Rightarrow> [UpdateCompleted, InitializationSucceeded, WifiConnected, HelloAcknowledged])"

lemma no_dead_state: "run_events (way_to_idle (run_events events state)) (run_events events state) = Idle"
  by (cases "run_events events state") (simp_all add: way_to_idle_def transition_def)

end
