(* ===== verification/Audio_Input.thy ===== *)
theory Audio_Input
  imports Json_Interface Text_Validation
begin

text \<open>\<open>audio_input.cpp\<close>: the messages that open and close a microphone stream.\<close>

datatype AudioInputTrigger = Touch | Button | Wakeword | ControlApi | Simulator

datatype AudioInputEndReason = Silence | MaxDuration | UserCancel | DeviceError | Disconnect

datatype AudioInputBuildError = InvalidArgument | MessageTooLarge

datatype AudioInputError = NoError | InvalidArgument | InvalidState | PacketTooLarge | TransportFailure

fun triggerName :: "AudioInputTrigger \<Rightarrow> string" where
  "triggerName Touch = ''touch''"
| "triggerName Button = ''button''"
| "triggerName Wakeword = ''wakeword''"
| "triggerName ControlApi = ''control_api''"
| "triggerName Simulator = ''simulator''"

fun endReasonName :: "AudioInputEndReason \<Rightarrow> string" where
  "endReasonName Silence = ''silence''"
| "endReasonName MaxDuration = ''max_duration''"
| "endReasonName UserCancel = ''user_cancel''"
| "endReasonName DeviceError = ''device_error''"
| "endReasonName Disconnect = ''disconnect''"

definition validIdentity :: "EnvelopeMetadata \<Rightarrow> string \<Rightarrow> string \<Rightarrow> bool" where
  "validIdentity envelope turn stream \<longleftrightarrow> audio_input_isValidUuid (messageId envelope)
     \<and> sentAtMs envelope \<le> INT64_MAX \<and> audio_input_isValidUuid turn \<and> audio_input_isValidUuid stream"

definition addEnvelope :: "string \<Rightarrow> EnvelopeMetadata \<Rightarrow> string \<Rightarrow> string \<Rightarrow> (string \<times> json_doc) list" where
  "addEnvelope type envelope turn stream =
     [(''v'', JInt 1), (''type'', JString type), (''message_id'', JString (messageId envelope)),
      (''turn_id'', JString turn), (''stream_id'', JString stream),
      (''sent_at_ms'', JInt (uint (sentAtMs envelope)))]"

definition finishDocument ::
  "('v, 'z) json_lib_scheme \<Rightarrow> json_doc \<Rightarrow> AudioInputBuildError + string" where
  "finishDocument J document =
    (let output = serializeJson J document in
     if length output > kMaxJsonBytes then Inl MessageTooLarge else Inr output)"

definition buildAudioInputStartJson ::
  "('v, 'z) json_lib_scheme \<Rightarrow> EnvelopeMetadata \<Rightarrow> string \<Rightarrow> string \<Rightarrow> AudioInputTrigger
     \<Rightarrow> int \<Rightarrow> AudioInputBuildError + string" where
  "buildAudioInputStartJson J envelope turn stream trigger frameMs =
    (if \<not> validIdentity envelope turn stream \<or> (frameMs \<noteq> 20 \<and> frameMs \<noteq> 40 \<and> frameMs \<noteq> 60)
     then Inl AudioInputBuildError.InvalidArgument
     else finishDocument J (JObject (addEnvelope ''audio.input.start'' envelope turn stream @
            [(''payload'', JObject
                [(''codec'', JString ''opus''), (''sample_rate'', JInt 16000), (''channels'', JInt 1),
                 (''frame_ms'', JInt frameMs), (''trigger'', JString (triggerName trigger))])])))"

definition buildAudioInputEndJson ::
  "('v, 'z) json_lib_scheme \<Rightarrow> EnvelopeMetadata \<Rightarrow> string \<Rightarrow> string \<Rightarrow> AudioInputEndReason
     \<Rightarrow> AudioInputBuildError + string" where
  "buildAudioInputEndJson J envelope turn stream reason =
    (if \<not> validIdentity envelope turn stream then Inl AudioInputBuildError.InvalidArgument
     else finishDocument J (JObject (addEnvelope ''audio.input.end'' envelope turn stream @
            [(''payload'', JObject [(''reason'', JString (endReasonName reason))])])))"

lemma endReasonName_inj: "endReasonName r = endReasonName r' \<longleftrightarrow> r = r'"
  by (cases r; cases r') simp_all

end
