(* ===== verification/Audio_Output.thy ===== *)
theory Audio_Output
  imports Json_Interface Text_Validation
begin

text \<open>
  \<open>audio_output.cpp\<close>: the control messages of a playback stream, the events that report lost
  packets, and the bounded packet queue between the bridge and the speaker.

  The queue is the class \<open>AudioOutputBuffer\<close>: member \<open>x_\<close> is the record field \<open>m_x\<close>, and
  an operation returns the new buffer.  The two counters only grow by one per call, so they are
  natural numbers here.
\<close>

definition kMaxAudioPacketBytes :: nat where "kMaxAudioPacketBytes = 1275"
definition kAudioOutputQueuePackets :: nat where "kAudioOutputQueuePackets = 32"
definition kPlaybackPrerollMs :: int where "kPlaybackPrerollMs = 500"

record AudioOutputStream =
  turnId :: string
  streamId :: string
  stream_codec :: string
  stream_sampleRate :: int
  stream_channels :: int
  stream_frameMs :: int
  expectedDurationMs :: int

definition new_AudioOutputStream :: AudioOutputStream where
  "new_AudioOutputStream = \<lparr>turnId = [], streamId = [], stream_codec = [], stream_sampleRate = 0,
     stream_channels = 0, stream_frameMs = 0, expectedDurationMs = 0\<rparr>"

datatype AudioOutputEndReason = Completed | Cancelled | BargeIn | TtsError | DeviceError | Disconnect

datatype AudioOutputError = NoError | InvalidArgument | InvalidState | PacketTooLarge
  | QueueOverflow | WrongStream

datatype AudioOutputControlType = Start | End

datatype AudioOutputParseError = MessageTooLarge | InvalidMessage | InvalidArgument

datatype AudioBufferEventType = Underrun | Overflow

datatype AudioBufferEventBuildError = InvalidArgument | MessageTooLarge

record AudioOutputControl =
  control_type :: AudioOutputControlType
  control_messageId :: string
  control_stream :: AudioOutputStream
  control_reason :: AudioOutputEndReason

section \<open>Messages\<close>

definition audio_output_isAsciiAlphaNumeric :: "char \<Rightarrow> bool" where
  "audio_output_isAsciiAlphaNumeric value = isAsciiAlphaNumeric value"

definition audio_output_isValidDeviceId :: "string \<Rightarrow> bool" where
  "audio_output_isValidDeviceId value = isValidDeviceId value"

fun audioBufferEventName :: "AudioBufferEventType \<Rightarrow> string" where
  "audioBufferEventName Underrun = ''audio.underrun''"
| "audioBufferEventName Overflow = ''audio.overflow''"

definition hasValidEnvelope :: "('v, 'z) json_lib_scheme \<Rightarrow> 'v \<Rightarrow> string \<Rightarrow> bool" where
  "hasValidEnvelope J rootObject expectedType \<longleftrightarrow>
    (let type = as_cstring J (jmember J rootObject ''type'');
         message_id = as_cstring J (jmember J rootObject ''message_id'');
         turn_id = as_cstring J (jmember J rootObject ''turn_id'');
         stream_id = as_cstring J (jmember J rootObject ''stream_id'')
     in is_int J (jmember J rootObject ''v'') \<and> as_int J (jmember J rootObject ''v'') = 1
        \<and> type = Some expectedType \<and> audio_output_isValidUuid message_id = Some True
        \<and> audio_output_isValidUuid turn_id = Some True
        \<and> audio_output_isValidUuid stream_id = Some True
        \<and> is_uint64 J (jmember J rootObject ''sent_at_ms'')
        \<and> as_uint64 J (jmember J rootObject ''sent_at_ms'') \<le> INT64_MAX
        \<and> is_object J (jmember J rootObject ''payload''))"

definition parseEndReason :: "string option \<Rightarrow> AudioOutputEndReason option" where
  "parseEndReason value =
    (case value of None \<Rightarrow> None | Some reason \<Rightarrow>
      if reason = ''completed'' then Some Completed
      else if reason = ''cancelled'' then Some Cancelled
      else if reason = ''barge_in'' then Some BargeIn
      else if reason = ''tts_error'' then Some TtsError
      else if reason = ''device_error'' then Some DeviceError
      else if reason = ''disconnect'' then Some Disconnect
      else None)"

definition isAllowedFrameDuration :: "int \<Rightarrow> bool" where
  "isAllowedFrameDuration frameMs \<longleftrightarrow> frameMs = 20 \<or> frameMs = 40 \<or> frameMs = 60"

definition isValidStream :: "AudioOutputStream \<Rightarrow> bool" where
  "isValidStream stream \<longleftrightarrow> turnId stream \<noteq> [] \<and> streamId stream \<noteq> []
     \<and> stream_codec stream = ''opus'' \<and> stream_sampleRate stream = 16000
     \<and> stream_channels stream = 1 \<and> isAllowedFrameDuration (stream_frameMs stream)
     \<and> expectedDurationMs stream \<ge> 0 \<and> expectedDurationMs stream \<le> 120000"

definition buildAudioBufferEventJson ::
  "('v, 'z) json_lib_scheme \<Rightarrow> EnvelopeMetadata \<Rightarrow> string \<Rightarrow> string \<Rightarrow> AudioBufferEventType
     \<Rightarrow> u32 \<Rightarrow> AudioBufferEventBuildError + string" where
  "buildAudioBufferEventJson J envelope deviceId stream_id type dropped =
    (if audio_output_isValidUuid (Some (c_str (messageId envelope))) \<noteq> Some True
        \<or> \<not> audio_output_isValidDeviceId deviceId
        \<or> audio_output_isValidUuid (Some (c_str stream_id)) \<noteq> Some True
        \<or> dropped = 0 \<or> dropped > 65535 \<or> sentAtMs envelope > INT64_MAX
     then Inl AudioBufferEventBuildError.InvalidArgument
     else let output = serializeJson J (JObject (envelope_members ''event'' envelope @
                [(''device_id'', JString deviceId),
                 (''payload'', JObject
                    [(''name'', JString (audioBufferEventName type)),
                     (''data'', JObject [(''stream_id'', JString stream_id),
                                         (''dropped_packets'', JInt (uint dropped))])])])) in
       if length output > kMaxJsonBytes then Inl AudioBufferEventBuildError.MessageTooLarge
       else Inr output)"

definition parse_start_control ::
  "('v, 'z) json_lib_scheme \<Rightarrow> 'v \<Rightarrow> AudioOutputParseError + AudioOutputControl" where
  "parse_start_control J rootObject =
    (if \<not> hasValidEnvelope J rootObject ''audio.output.start'' then Inl InvalidMessage
     else let payload = jmember J rootObject ''payload'' in
       case as_cstring J (jmember J payload ''codec'') of
         None \<Rightarrow> Inl InvalidMessage
       | Some codec \<Rightarrow>
           if \<not> is_int J (jmember J payload ''sample_rate'') \<or> \<not> is_int J (jmember J payload ''channels'')
              \<or> \<not> is_int J (jmember J payload ''frame_ms'')
              \<or> \<not> is_int J (jmember J payload ''expected_duration_ms'')
           then Inl InvalidMessage
           else let stream =
                  \<lparr>turnId = the (as_cstring J (jmember J rootObject ''turn_id'')),
                   streamId = the (as_cstring J (jmember J rootObject ''stream_id'')),
                   stream_codec = codec,
                   stream_sampleRate = as_int J (jmember J payload ''sample_rate''),
                   stream_channels = as_int J (jmember J payload ''channels''),
                   stream_frameMs = as_int J (jmember J payload ''frame_ms''),
                   expectedDurationMs = as_int J (jmember J payload ''expected_duration_ms'')\<rparr> in
             if \<not> isValidStream stream then Inl AudioOutputParseError.InvalidArgument
             else Inr \<lparr>control_type = Start,
                       control_messageId = the (as_cstring J (jmember J rootObject ''message_id'')),
                       control_stream = stream, control_reason = Completed\<rparr>)"

definition parse_end_control ::
  "('v, 'z) json_lib_scheme \<Rightarrow> 'v \<Rightarrow> AudioOutputParseError + AudioOutputControl" where
  "parse_end_control J rootObject =
    (if \<not> hasValidEnvelope J rootObject ''audio.output.end'' then Inl InvalidMessage
     else case parseEndReason (as_cstring J (jmember J (jmember J rootObject ''payload'') ''reason'')) of
       None \<Rightarrow> Inl AudioOutputParseError.InvalidArgument
     | Some reason \<Rightarrow>
         Inr \<lparr>control_type = End,
              control_messageId = the (as_cstring J (jmember J rootObject ''message_id'')),
              control_stream = new_AudioOutputStream
                \<lparr>turnId := the (as_cstring J (jmember J rootObject ''turn_id'')),
                 streamId := the (as_cstring J (jmember J rootObject ''stream_id''))\<rparr>,
              control_reason = reason\<rparr>)"

definition parseAudioOutputControlJson ::
  "('v, 'z) json_lib_scheme \<Rightarrow> string \<Rightarrow> AudioOutputParseError + AudioOutputControl" where
  "parseAudioOutputControlJson J input =
    (if length input > kMaxJsonBytes then Inl AudioOutputParseError.MessageTooLarge
     else case deserialize J 8 input of
       None \<Rightarrow> Inl InvalidMessage
     | Some rootObject \<Rightarrow>
       if \<not> is_object J rootObject then Inl InvalidMessage
       else case as_cstring J (jmember J rootObject ''type'') of
         None \<Rightarrow> Inl InvalidMessage
       | Some type \<Rightarrow>
           if type = ''audio.output.start'' then parse_start_control J rootObject
           else if type = ''audio.output.end'' then parse_end_control J rootObject
           else Inl InvalidMessage)"

section \<open>The packet queue\<close>

record AudioOutputBuffer =
  m_stream :: AudioOutputStream
  m_playbackPrerollMs :: int
  m_queue :: "u8 list list"
  m_droppedPackets :: nat
  m_underflowCount :: nat
  m_contextActive :: bool
  m_open :: bool
  m_ended :: bool
  m_prerollSatisfied :: bool
  m_underflowActive :: bool

definition new_AudioOutputBuffer :: "int \<Rightarrow> AudioOutputBuffer" where
  "new_AudioOutputBuffer playbackPrerollMs =
     \<lparr>m_stream = new_AudioOutputStream, m_playbackPrerollMs = playbackPrerollMs, m_queue = [],
      m_droppedPackets = 0, m_underflowCount = 0, m_contextActive = False, m_open = False,
      m_ended = False, m_prerollSatisfied = False, m_underflowActive = False\<rparr>"

definition clearContext :: "AudioOutputBuffer \<Rightarrow> AudioOutputBuffer" where
  "clearContext b = b\<lparr>m_queue := [], m_stream := new_AudioOutputStream, m_contextActive := False,
     m_open := False, m_ended := False, m_prerollSatisfied := False, m_underflowActive := False\<rparr>"

definition start :: "AudioOutputStream \<Rightarrow> AudioOutputBuffer \<Rightarrow> AudioOutputError \<times> AudioOutputBuffer" where
  "start stream b =
    (if \<not> isValidStream stream \<or> m_playbackPrerollMs b < 0
        \<or> nat (m_playbackPrerollMs b) > kAudioOutputQueuePackets * nat (stream_frameMs stream)
     then (AudioOutputError.InvalidArgument, b)
     else if m_contextActive b then (InvalidState, b)
     else (NoError, b\<lparr>m_stream := stream, m_queue := [], m_contextActive := True, m_open := True,
             m_ended := False, m_prerollSatisfied := False, m_underflowActive := False\<rparr>))"

text \<open>\<open>push\<close>: \<open>None\<close> is a null data pointer.\<close>

definition push :: "u8 list option \<Rightarrow> AudioOutputBuffer \<Rightarrow> AudioOutputError \<times> AudioOutputBuffer" where
  "push data b =
    (let dropped = b\<lparr>m_droppedPackets := m_droppedPackets b + 1\<rparr> in
     if \<not> m_open b then (InvalidState, dropped)
     else case data of
       None \<Rightarrow> (AudioOutputError.InvalidArgument, dropped)
     | Some packet \<Rightarrow>
         if length packet = 0 then (AudioOutputError.InvalidArgument, dropped)
         else if length packet > kMaxAudioPacketBytes then (PacketTooLarge, dropped)
         else if length (m_queue b) \<ge> kAudioOutputQueuePackets then (QueueOverflow, dropped)
         else let b = b\<lparr>m_queue := m_queue b @ [packet], m_underflowActive := False\<rparr> in
           (NoError,
            if length (m_queue b) * nat (stream_frameMs (m_stream b)) \<ge> nat (m_playbackPrerollMs b)
            then b\<lparr>m_prerollSatisfied := True\<rparr> else b))"

definition finish ::
  "string \<Rightarrow> string \<Rightarrow> AudioOutputEndReason \<Rightarrow> AudioOutputBuffer \<Rightarrow> AudioOutputError \<times> AudioOutputBuffer" where
  "finish turn stream reason b =
    (if \<not> m_open b then (InvalidState, b)
     else if turnId (m_stream b) \<noteq> turn \<or> streamId (m_stream b) \<noteq> stream then (WrongStream, b)
     else let b = b\<lparr>m_open := False, m_ended := True\<rparr> in
       (NoError, if reason \<noteq> Completed then clearContext b else b))"

definition cancelTurn :: "string \<Rightarrow> AudioOutputBuffer \<Rightarrow> AudioOutputError \<times> AudioOutputBuffer" where
  "cancelTurn turn b =
    (if \<not> m_contextActive b then (InvalidState, b)
     else if turnId (m_stream b) \<noteq> turn then (WrongStream, b)
     else (NoError, clearContext b))"

definition deliveryComplete :: "AudioOutputBuffer \<Rightarrow> bool" where
  "deliveryComplete b \<longleftrightarrow> m_contextActive b \<and> m_ended b \<and> m_queue b = []"

definition acknowledgePlayback ::
  "string \<Rightarrow> string \<Rightarrow> AudioOutputBuffer \<Rightarrow> AudioOutputError \<times> AudioOutputBuffer" where
  "acknowledgePlayback turn stream b =
    (if \<not> m_contextActive b then (InvalidState, b)
     else if turnId (m_stream b) \<noteq> turn \<or> streamId (m_stream b) \<noteq> stream then (WrongStream, b)
     else if \<not> deliveryComplete b then (InvalidState, b)
     else (NoError, clearContext b))"

definition readyForPlayback :: "AudioOutputBuffer \<Rightarrow> bool" where
  "readyForPlayback b =
     (if \<not> m_contextActive b \<or> m_queue b = [] then False else m_ended b \<or> m_prerollSatisfied b)"

definition detectUnderflow :: "AudioOutputBuffer \<Rightarrow> bool \<times> AudioOutputBuffer" where
  "detectUnderflow b =
    (if \<not> m_contextActive b \<or> \<not> m_open b \<or> \<not> m_prerollSatisfied b \<or> m_queue b \<noteq> [] then (False, b)
     else if \<not> m_underflowActive b
     then (True, b\<lparr>m_underflowCount := m_underflowCount b + 1, m_underflowActive := True\<rparr>)
     else (True, b))"

definition pop :: "AudioOutputBuffer \<Rightarrow> u8 list option \<times> AudioOutputBuffer" where
  "pop b =
    (let (underflow, b) = detectUnderflow b in
     if underflow then (None, b)
     else if \<not> readyForPlayback b \<or> m_queue b = [] then (None, b)
     else (Some (hd (m_queue b)), b\<lparr>m_queue := tl (m_queue b)\<rparr>))"

text \<open>\<open>deliverNext\<close>: the consumer (\<open>None\<close> an empty function) sees the stream and the first
  packet, and the packet leaves the queue when the consumer takes it.\<close>

definition deliverNext ::
  "(AudioOutputStream \<Rightarrow> u8 list \<Rightarrow> bool) option \<Rightarrow> AudioOutputBuffer \<Rightarrow> bool \<times> AudioOutputBuffer" where
  "deliverNext consumer b =
    (case consumer of
       None \<Rightarrow> (False, b)
     | Some accepts \<Rightarrow>
        (let (underflow, b) = detectUnderflow b in
         if underflow \<or> \<not> readyForPlayback b \<or> m_queue b = [] then (False, b)
         else if \<not> accepts (m_stream b) (hd (m_queue b)) then (False, b)
         else (True, b\<lparr>m_queue := tl (m_queue b)\<rparr>)))"

definition reset :: "AudioOutputBuffer \<Rightarrow> AudioOutputBuffer" where
  "reset b = clearContext b"

definition isOpen :: "AudioOutputBuffer \<Rightarrow> bool" where
  "isOpen b = m_open b"

definition queuedPackets :: "AudioOutputBuffer \<Rightarrow> nat" where
  "queuedPackets b = length (m_queue b)"

definition droppedPackets :: "AudioOutputBuffer \<Rightarrow> nat" where
  "droppedPackets b = m_droppedPackets b"

definition underflowCount :: "AudioOutputBuffer \<Rightarrow> nat" where
  "underflowCount b = m_underflowCount b"

definition buffer_turnId :: "AudioOutputBuffer \<Rightarrow> string" where
  "buffer_turnId b = turnId (m_stream b)"

definition buffer_streamId :: "AudioOutputBuffer \<Rightarrow> string" where
  "buffer_streamId b = streamId (m_stream b)"

section \<open>The queue as a machine\<close>

datatype buffer_op = BStart AudioOutputStream | BPush "u8 list option"
  | BFinish string string AudioOutputEndReason | BCancel string | BAcknowledge string string
  | BPop | BDeliver "(AudioOutputStream \<Rightarrow> u8 list \<Rightarrow> bool) option" | BReset

fun buffer_step :: "buffer_op \<Rightarrow> AudioOutputBuffer \<Rightarrow> AudioOutputBuffer" where
  "buffer_step (BStart s) b = snd (start s b)"
| "buffer_step (BPush d) b = snd (push d b)"
| "buffer_step (BFinish t s r) b = snd (finish t s r b)"
| "buffer_step (BCancel t) b = snd (cancelTurn t b)"
| "buffer_step (BAcknowledge t s) b = snd (acknowledgePlayback t s b)"
| "buffer_step BPop b = snd (pop b)"
| "buffer_step (BDeliver c) b = snd (deliverNext c b)"
| "buffer_step BReset b = reset b"

text \<open>The packets an operation takes in, and those it hands to the player.\<close>

fun accepted :: "buffer_op \<Rightarrow> AudioOutputBuffer \<Rightarrow> u8 list list" where
  "accepted (BPush (Some d)) b = (if fst (push (Some d) b) = NoError then [d] else [])"
| "accepted _ b = []"

fun delivered :: "buffer_op \<Rightarrow> AudioOutputBuffer \<Rightarrow> u8 list list" where
  "delivered BPop b = (case fst (pop b) of None \<Rightarrow> [] | Some p \<Rightarrow> [p])"
| "delivered (BDeliver c) b = (if fst (deliverNext c b) then [hd (m_queue b)] else [])"
| "delivered _ b = []"

fun streaming :: "buffer_op \<Rightarrow> bool" where
  "streaming (BPush d) = True"
| "streaming (BFinish t s r) = (r = Completed)"
| "streaming BPop = True"
| "streaming (BDeliver c) = True"
| "streaming _ = False"

fun all_accepted :: "buffer_op list \<Rightarrow> AudioOutputBuffer \<Rightarrow> u8 list list" where
  "all_accepted [] b = []"
| "all_accepted (e # es) b = accepted e b @ all_accepted es (buffer_step e b)"

fun all_delivered :: "buffer_op list \<Rightarrow> AudioOutputBuffer \<Rightarrow> u8 list list" where
  "all_delivered [] b = []"
| "all_delivered (e # es) b = delivered e b @ all_delivered es (buffer_step e b)"

abbreviation run_buffer :: "buffer_op list \<Rightarrow> AudioOutputBuffer \<Rightarrow> AudioOutputBuffer" where
  "run_buffer es b \<equiv> fold buffer_step es b"

section \<open>Invariant\<close>

definition packet_ok :: "u8 list \<Rightarrow> bool" where
  "packet_ok p \<longleftrightarrow> 1 \<le> length p \<and> length p \<le> 1275"

definition buffer_inv :: "AudioOutputBuffer \<Rightarrow> bool" where
  "buffer_inv b \<longleftrightarrow> length (m_queue b) \<le> 32 \<and> list_all packet_ok (m_queue b)
     \<and> (if m_contextActive b
        then isValidStream (m_stream b) \<and> m_open b \<noteq> m_ended b \<and> 0 \<le> m_playbackPrerollMs b
             \<and> nat (m_playbackPrerollMs b) \<le> 32 * nat (stream_frameMs (m_stream b))
        else m_queue b = [] \<and> \<not> m_open b \<and> \<not> m_ended b \<and> \<not> m_prerollSatisfied b
             \<and> m_stream b = new_AudioOutputStream)"

lemmas buffer_constants = kMaxAudioPacketBytes_def kAudioOutputQueuePackets_def kPlaybackPrerollMs_def

lemma clearContext_inv [simp]: "buffer_inv (clearContext b)"
  by (simp add: buffer_inv_def clearContext_def)

lemma start_inv: "buffer_inv b \<Longrightarrow> buffer_inv (snd (start s b))"
  by (auto simp: start_def buffer_inv_def buffer_constants)

lemma push_inv: "buffer_inv b \<Longrightarrow> buffer_inv (snd (push d b))"
  by (cases d)
    (simp_all add: push_def buffer_inv_def Let_def packet_ok_def buffer_constants Suc_le_eq split: if_splits)

lemma finish_inv: "buffer_inv b \<Longrightarrow> buffer_inv (snd (finish t s r b))"
  by (auto simp: finish_def Let_def) (auto simp: buffer_inv_def split: if_splits)

lemma cancelTurn_inv: "buffer_inv b \<Longrightarrow> buffer_inv (snd (cancelTurn t b))"
  by (simp add: cancelTurn_def)

lemma acknowledgePlayback_inv: "buffer_inv b \<Longrightarrow> buffer_inv (snd (acknowledgePlayback t s b))"
  by (simp add: acknowledgePlayback_def)

lemma detectUnderflow_inv: "buffer_inv b \<Longrightarrow> buffer_inv (snd (detectUnderflow b))"
  by (auto simp: detectUnderflow_def buffer_inv_def split: if_splits)

lemma tl_inv:
  assumes "buffer_inv b" "m_contextActive b"
  shows "buffer_inv (b\<lparr>m_queue := tl (m_queue b)\<rparr>)"
  using assms by (cases "m_queue b") (auto simp: buffer_inv_def)

lemma ready_active: "readyForPlayback b \<Longrightarrow> m_contextActive b \<and> m_queue b \<noteq> []"
  by (simp add: readyForPlayback_def split: if_splits)

lemma pop_inv: "buffer_inv b \<Longrightarrow> buffer_inv (snd (pop b))"
  using detectUnderflow_inv [of b] by (auto simp: pop_def split_beta intro!: tl_inv dest: ready_active)

lemma deliverNext_inv: "buffer_inv b \<Longrightarrow> buffer_inv (snd (deliverNext c b))"
  using detectUnderflow_inv [of b]
  by (auto simp: deliverNext_def split_beta split: option.splits intro!: tl_inv dest: ready_active)

lemma buffer_step_inv: "buffer_inv b \<Longrightarrow> buffer_inv (buffer_step e b)"
  by (cases e) (simp_all add: start_inv push_inv finish_inv cancelTurn_inv acknowledgePlayback_inv
      pop_inv deliverNext_inv reset_def)

interpretation buffer: invariant_machine buffer_step buffer_inv
  by unfold_locales (rule buffer_step_inv)

lemma new_buffer_inv [simp]: "buffer_inv (new_AudioOutputBuffer p)"
  by (simp add: buffer_inv_def new_AudioOutputBuffer_def)

theorem buffer_bounded:
  "let b = run_buffer ops (new_AudioOutputBuffer p) in
   queuedPackets b \<le> 32 \<and> list_all (\<lambda>packet. 1 \<le> length packet \<and> length packet \<le> 1275) (m_queue b)
   \<and> (m_contextActive b \<or> m_queue b = [] \<and> \<not> isOpen b \<and> buffer_turnId b = [] \<and> buffer_streamId b = [])"
proof -
  have "buffer_inv (run_buffer ops (new_AudioOutputBuffer p))" by (rule buffer.run_inv) simp
  then show ?thesis
    by (simp add: buffer_inv_def queuedPackets_def isOpen_def buffer_turnId_def buffer_streamId_def
        new_AudioOutputStream_def packet_ok_def [abs_def] Let_def split: if_splits)
qed

section \<open>Order and preroll\<close>

lemma detectUnderflow_fields [simp]:
  "m_queue (snd (detectUnderflow b)) = m_queue b" "m_stream (snd (detectUnderflow b)) = m_stream b"
  "m_contextActive (snd (detectUnderflow b)) = m_contextActive b"
  "m_open (snd (detectUnderflow b)) = m_open b" "m_ended (snd (detectUnderflow b)) = m_ended b"
  "m_prerollSatisfied (snd (detectUnderflow b)) = m_prerollSatisfied b"
  "m_playbackPrerollMs (snd (detectUnderflow b)) = m_playbackPrerollMs b"
  "readyForPlayback (snd (detectUnderflow b)) = readyForPlayback b"
  by (simp_all add: detectUnderflow_def readyForPlayback_def)

lemma streaming_step_order:
  assumes "streaming e"
  shows "m_queue b @ accepted e b = delivered e b @ m_queue (buffer_step e b)"
  using assms
proof (cases e)
  case (BPush d)
  then show ?thesis by (cases d) (auto simp: push_def Let_def)
next
  case (BDeliver c)
  then show ?thesis by (cases "m_queue b") (auto simp: deliverNext_def split_beta split: option.splits)
next
  case BPop
  then show ?thesis by (cases "m_queue b") (auto simp: pop_def split_beta)
qed (auto simp: finish_def Let_def)

text \<open>C29: During a stream, whatever the interleaving of arrivals and playback, the packets delivered
  followed by those still queued are the packets queued before followed by those accepted: none
  is lost, duplicated or reordered.\<close>

theorem packets_in_order:
  assumes "list_all streaming ops"
  shows "m_queue b @ all_accepted ops b = all_delivered ops b @ m_queue (run_buffer ops b)"
  using assms
proof (induction ops arbitrary: b)
  case (Cons e es)
  then have "m_queue b @ accepted e b @ all_accepted es (buffer_step e b)
    = delivered e b @ m_queue (buffer_step e b) @ all_accepted es (buffer_step e b)"
    using streaming_step_order [of e b] by (metis append.assoc list.pred_inject(2))
  with Cons show ?case by simp
qed simp

definition prerolled :: "AudioOutputBuffer \<Rightarrow> bool" where
  "prerolled b \<longleftrightarrow> m_queue b \<noteq> []
     \<and> length (m_queue b) * nat (stream_frameMs (m_stream b)) \<ge> nat (m_playbackPrerollMs b)"

lemma streaming_step_preroll:
  assumes "streaming e" "delivered e b = []" "m_prerollSatisfied b \<longleftrightarrow> prerolled b"
  shows "(m_prerollSatisfied (buffer_step e b) \<longleftrightarrow> prerolled (buffer_step e b))
    \<and> m_stream (buffer_step e b) = m_stream b \<and> m_playbackPrerollMs (buffer_step e b) = m_playbackPrerollMs b
    \<and> m_contextActive (buffer_step e b) = m_contextActive b"
  using assms
proof (cases e)
  case (BPush d)
  have "nat p \<le> n * f \<Longrightarrow> nat p \<le> Suc n * f" for p n f by simp
  with assms BPush show ?thesis by (cases d) (auto simp: push_def Let_def prerolled_def)
next
  case (BDeliver c)
  then show ?thesis using assms
    by (cases c) (auto simp: deliverNext_def split_beta prerolled_def)
next
  case BPop
  then show ?thesis using assms by (auto simp: pop_def split_beta prerolled_def)
qed (auto simp: finish_def Let_def prerolled_def)

lemma streaming_preroll:
  assumes "list_all streaming ops" "all_delivered ops b = []" "m_prerollSatisfied b \<longleftrightarrow> prerolled b"
  shows "(m_prerollSatisfied (run_buffer ops b) \<longleftrightarrow> prerolled (run_buffer ops b))
    \<and> m_contextActive (run_buffer ops b) = m_contextActive b"
  using assms
proof (induction ops arbitrary: b)
  case (Cons e es)
  then show ?case using streaming_step_preroll [of e b] by simp
qed simp

lemma pop_Some_iff: "fst (pop b) \<noteq> None \<longleftrightarrow> readyForPlayback b"
  using ready_active [of b] by (auto simp: pop_def split_beta detectUnderflow_def)

theorem first_packet_after_preroll:
  assumes "fst (start stream b) = NoError" "list_all streaming ops"
    and "all_delivered ops (snd (start stream b)) = []"
  shows "fst (pop (run_buffer ops (snd (start stream b)))) \<noteq> None \<longleftrightarrow>
    (let b' = run_buffer ops (snd (start stream b)) in m_queue b' \<noteq> []
       \<and> (m_ended b' \<or> queuedPackets b' * nat (stream_frameMs (m_stream b')) \<ge> nat (m_playbackPrerollMs b')))"
proof -
  let ?b = "snd (start stream b)"
  have "m_contextActive ?b" "m_prerollSatisfied ?b \<longleftrightarrow> prerolled ?b"
    using assms(1) by (auto simp: start_def prerolled_def split: if_splits)
  with streaming_preroll [OF assms(2,3)] show ?thesis
    unfolding pop_Some_iff
    by (auto simp: readyForPlayback_def prerolled_def queuedPackets_def Let_def)
qed

text \<open>After a completed end the player can take every queued packet, and then playback is complete.\<close>

lemma drain:
  assumes "m_contextActive b" "m_ended b" "\<not> m_open b"
  shows "all_delivered (replicate (length (m_queue b)) BPop) b = m_queue b
    \<and> deliveryComplete (run_buffer (replicate (length (m_queue b)) BPop) b)"
  using assms
proof (induction "m_queue b" arbitrary: b)
  case Nil
  then show ?case by (simp add: deliveryComplete_def)
next
  case (Cons p ps)
  have pop: "pop b = (Some p, b\<lparr>m_queue := ps\<rparr>)"
    using Cons.prems Cons.hyps(2)[symmetric] by (simp add: pop_def detectUnderflow_def readyForPlayback_def)
  have "all_delivered (replicate (length ps) BPop) (b\<lparr>m_queue := ps\<rparr>) = ps
    \<and> deliveryComplete (run_buffer (replicate (length ps) BPop) (b\<lparr>m_queue := ps\<rparr>))"
    using Cons.hyps(1) [of "b\<lparr>m_queue := ps\<rparr>"] Cons.prems by simp
  then show ?case by (simp add: Cons.hyps(2)[symmetric] pop)
qed

section \<open>Witnesses\<close>

definition sample_stream :: AudioOutputStream where
  "sample_stream = \<lparr>turnId = ''t'', streamId = ''s'', stream_codec = ''opus'', stream_sampleRate = 16000,
     stream_channels = 1, stream_frameMs = 20, expectedDurationMs = 1000\<rparr>"

definition sample_buffer :: AudioOutputBuffer where
  "sample_buffer = new_AudioOutputBuffer 40"

lemma packets_in_order_witness:
  "all_delivered [BPush (Some [1]), BPush (Some [2]), BPop, BPush (Some [3])] (snd (start sample_stream sample_buffer))
     @ m_queue (run_buffer [BPush (Some [1]), BPush (Some [2]), BPop, BPush (Some [3])]
                 (snd (start sample_stream sample_buffer))) = [[1], [2], [3]]"
proof -
  have a: "m_queue (snd (start sample_stream sample_buffer))
     @ all_accepted [BPush (Some [1]), BPush (Some [2]), BPop, BPush (Some [3])]
         (snd (start sample_stream sample_buffer)) = [[1], [2], [3]]"
    by code_simp
  have s: "list_all streaming [BPush (Some [1]), BPush (Some [2]), BPop, BPush (Some [3])]" by simp
  show ?thesis using packets_in_order [OF s, of "snd (start sample_stream sample_buffer)"] unfolding a by simp
qed

lemma first_packet_after_preroll_witness:
  "fst (pop (run_buffer [BPush (Some [1])] (snd (start sample_stream sample_buffer)))) = None"
proof -
  have "fst (start sample_stream sample_buffer) = NoError"
    and "all_delivered [BPush (Some [1])] (snd (start sample_stream sample_buffer)) = []"
    and "\<not> (let b' = run_buffer [BPush (Some [1])] (snd (start sample_stream sample_buffer)) in m_queue b' \<noteq> []
       \<and> (m_ended b' \<or> queuedPackets b' * nat (stream_frameMs (m_stream b')) \<ge> nat (m_playbackPrerollMs b')))"
    by code_simp+
  with first_packet_after_preroll [of sample_stream sample_buffer "[BPush (Some [1])]"] show ?thesis
    by (simp only: list.pred_inject streaming.simps simp_thms)
qed

lemma drain_witness:
  "deliveryComplete (run_buffer [BPop] (run_buffer [BPush (Some [1]), BFinish ''t'' ''s'' Completed]
     (snd (start sample_stream sample_buffer))))"
proof -
  let ?b = "run_buffer [BPush (Some [1]), BFinish ''t'' ''s'' Completed] (snd (start sample_stream sample_buffer))"
  have "m_contextActive ?b" "m_ended ?b" "\<not> m_open ?b" "m_queue ?b = [[1]]" by code_simp+
  with drain [of ?b] show ?thesis by simp
qed

text \<open>What a parsed control message gives the session.\<close>

lemma scanned_uuid:
  assumes "audio_output_isValidUuid (as_cstring J v) = Some True"
  shows "isValidUuid (the (as_cstring J v))"
proof (cases "as_cstring J v")
  case None
  with assms show ?thesis by (simp add: audio_output_isValidUuid_def)
next
  case (Some s)
  with assms uuid_scan_in_bounds [OF as_cstring_no_nul [OF Some]] show ?thesis by simp
qed

lemma uuid_not_empty: "isValidUuid s \<Longrightarrow> s \<noteq> []"
  by (auto simp: isValidUuid_def)

lemma envelope_uuids:
  assumes "hasValidEnvelope J r type"
  shows "isValidUuid (the (as_cstring J (jmember J r ''message_id'')))"
    "isValidUuid (the (as_cstring J (jmember J r ''turn_id'')))"
    "isValidUuid (the (as_cstring J (jmember J r ''stream_id'')))"
  using assms by (auto simp: hasValidEnvelope_def Let_def intro: scanned_uuid)

theorem parse_control_valid:
  assumes "parseAudioOutputControlJson J input = Inr c"
  shows "isValidUuid (control_messageId c) \<and> isValidUuid (turnId (control_stream c))
    \<and> isValidUuid (streamId (control_stream c))
    \<and> (control_type c = Start \<longrightarrow> isValidStream (control_stream c)) \<and> length input \<le> kMaxJsonBytes"
  using assms envelope_uuids [of J]
  unfolding parseAudioOutputControlJson_def
  by (fastforce simp: parse_start_control_def parse_end_control_def Let_def
      split: if_split_asm option.split_asm)

definition sample_end_message :: toy_value where
  "sample_end_message =
     TObj [(''v'', TInt 1), (''type'', TStr ''audio.output.end''),
           (''message_id'', TStr ''123e4567-e89b-42d3-a456-426614174000''),
           (''turn_id'', TStr ''123e4567-e89b-42d3-a456-426614174001''),
           (''stream_id'', TStr ''123e4567-e89b-42d3-a456-426614174002''),
           (''sent_at_ms'', TInt 5), (''payload'', TObj [(''reason'', TStr ''cancelled'')])]"

definition sample_end_control :: AudioOutputControl where
  "sample_end_control = \<lparr>control_type = End, control_messageId = ''123e4567-e89b-42d3-a456-426614174000'',
     control_stream = new_AudioOutputStream\<lparr>turnId := ''123e4567-e89b-42d3-a456-426614174001'',
       streamId := ''123e4567-e89b-42d3-a456-426614174002''\<rparr>, control_reason = Cancelled\<rparr>"

lemma parse_control_valid_witness: "isValidUuid (turnId (control_stream sample_end_control))"
proof -
  have "parseAudioOutputControlJson (toy_json [(''end'', sample_end_message)]) ''end'' = Inr sample_end_control"
    by code_simp
  from parse_control_valid [OF this] show ?thesis by simp
qed

end
