(* ===== verification/Camera_Capture.thy ===== *)
theory Camera_Capture
  imports Json_Interface Text_Validation Settings
begin

text \<open>
  \<open>camera_capture.cpp\<close>: the multipart upload of one JPEG, the gate that admits one capture at a
  time, the retry budget, the upload URL and the messages about completed captures.

  The upload transport is an abstract class.  Its answers are functions of the calls made so far
  (\<open>upload_transport\<close>), so any behaviour of a connection is an instance, and the calls are the log
  of the state.
\<close>

definition kMaxCaptureUploadAttempts :: int where "kMaxCaptureUploadAttempts = 3"
definition kMaxJpegBytes :: nat where "kMaxJpegBytes = 2 * 1024 * 1024"
definition kMultipartBoundary :: string where "kMultipartBoundary = ''----StackChanHermesCapture''"

record CameraCaptureRequest =
  request_captureId :: string
  request_quality :: int
  timeoutMs :: int
  startedMs :: u64

definition new_CameraCaptureRequest :: CameraCaptureRequest where
  "new_CameraCaptureRequest =
     \<lparr>request_captureId = [], request_quality = 0, timeoutMs = 0, startedMs = 0\<rparr>"

datatype CameraRequestError = NoError | InvalidArgument | DeviceBusy

datatype CameraCompletionError = NoError | CaptureFailed | InternalError

datatype CameraEventBuildError = InvalidArgument | MessageTooLarge

datatype CameraUploadError = NoError | InvalidArgument | TransportFailure | PayloadTooLarge
  | InvalidJpeg | Rejected

definition camera_isAsciiAlphaNumeric :: "char \<Rightarrow> bool" where
  "camera_isAsciiAlphaNumeric value = isAsciiAlphaNumeric value"

definition camera_isValidDeviceId :: "string \<Rightarrow> bool" where
  "camera_isValidDeviceId value = isValidDeviceId value"

definition camera_isSafeHeaderValue :: "string \<Rightarrow> bool" where
  "camera_isSafeHeaderValue value = isSafeHeaderValue value"

fun completionErrorName :: "CameraCompletionError \<Rightarrow> string option" where
  "completionErrorName CaptureFailed = Some ''CAPTURE_FAILED''"
| "completionErrorName InternalError = Some ''INTERNAL_ERROR''"
| "completionErrorName CameraCompletionError.NoError = None"

section \<open>The upload\<close>

datatype upload_call = USetTimeoutMs int | USetHeader string string | UOpenPost string
  | UWrite "u8 list" | UStatusCode | UClose

record upload_transport =
  openPost_ok :: "upload_call list \<Rightarrow> string \<Rightarrow> bool"
  write_ok :: "upload_call list \<Rightarrow> u8 list \<Rightarrow> bool"
  status_of :: "upload_call list \<Rightarrow> int"

record CameraMultipartUpload =
  m_jpegBytes :: nat
  m_firstBytes :: "u8 list"
  m_firstByteCount :: nat
  m_lastBytes :: "u8 list"
  m_lastByteCount :: nat
  m_active :: bool
  upload_log :: "upload_call list"

definition new_CameraMultipartUpload :: CameraMultipartUpload where
  "new_CameraMultipartUpload = \<lparr>m_jpegBytes = 0, m_firstBytes = [0, 0], m_firstByteCount = 0,
     m_lastBytes = [0, 0], m_lastByteCount = 0, m_active = False, upload_log = []\<rparr>"

definition ucall :: "upload_call \<Rightarrow> CameraMultipartUpload \<Rightarrow> CameraMultipartUpload" where
  "ucall c u = u\<lparr>upload_log := upload_log u @ [c]\<rparr>"

definition upload_write :: "upload_transport \<Rightarrow> u8 list \<Rightarrow> CameraMultipartUpload \<Rightarrow> bool \<times> CameraMultipartUpload" where
  "upload_write T data u = (write_ok T (upload_log u) data, ucall (UWrite data) u)"

definition abort :: "CameraMultipartUpload \<Rightarrow> CameraMultipartUpload" where
  "abort u = (if m_active u then (ucall UClose u)\<lparr>m_active := False\<rparr> else u)"

definition ascii_bytes :: "string \<Rightarrow> u8 list" where
  "ascii_bytes s = map of_char s"

definition crlf :: string where "crlf = [CHR 0x0D, CHR 0x0A]"

definition upload_preamble :: string where
  "upload_preamble = ''--'' @ kMultipartBoundary @ crlf
     @ ''Content-Disposition: form-data; name='' @ [CHR 0x22] @ ''file'' @ [CHR 0x22] @ ''; filename=''
     @ [CHR 0x22] @ ''capture.jpg'' @ [CHR 0x22] @ crlf @ ''Content-Type: image/jpeg'' @ crlf @ crlf"

definition upload_footer :: string where
  "upload_footer = crlf @ ''--'' @ kMultipartBoundary @ ''--'' @ crlf"

definition upload_begin ::
  "upload_transport \<Rightarrow> string \<Rightarrow> string \<Rightarrow> string \<Rightarrow> int \<Rightarrow> CameraMultipartUpload
     \<Rightarrow> CameraUploadError \<times> CameraMultipartUpload" where
  "upload_begin T url deviceToken deviceId timeout u =
    (if timeout < 1 \<or> timeout > 120000 \<or> m_active u \<or> url = [] \<or> deviceToken = []
        \<or> length deviceToken > 512 \<or> \<not> camera_isSafeHeaderValue deviceToken
        \<or> \<not> camera_isValidDeviceId deviceId
     then (CameraUploadError.InvalidArgument, u)
     else let u = u\<lparr>m_jpegBytes := 0, m_firstByteCount := 0, m_lastByteCount := 0\<rparr>;
              u = ucall (USetTimeoutMs timeout) u;
              u = ucall (USetHeader ''Authorization'' (''Bearer '' @ deviceToken)) u;
              u = ucall (USetHeader ''X-StackChan-Device-Id'' deviceId) u;
              u = ucall (USetHeader ''Content-Type''
                           (''multipart/form-data; boundary='' @ kMultipartBoundary)) u;
              u = ucall (USetHeader ''Transfer-Encoding'' ''chunked'') u;
              opened = openPost_ok T (upload_log u) url;
              u = ucall (UOpenPost url) u
       in if \<not> opened then (TransportFailure, u)
          else let u = u\<lparr>m_active := True\<rparr>;
                   (ok, u) = upload_write T (ascii_bytes upload_preamble) u
            in if \<not> ok then (TransportFailure, abort u) else (CameraUploadError.NoError, u))"

definition track_byte :: "u8 \<Rightarrow> CameraMultipartUpload \<Rightarrow> CameraMultipartUpload" where
  "track_byte byte u =
    (let u = (if m_firstByteCount u < 2
              then u\<lparr>m_firstBytes := (m_firstBytes u)[m_firstByteCount u := byte],
                     m_firstByteCount := m_firstByteCount u + 1\<rparr> else u)
     in if m_lastByteCount u < 2
        then u\<lparr>m_lastBytes := (m_lastBytes u)[m_lastByteCount u := byte],
               m_lastByteCount := m_lastByteCount u + 1\<rparr>
        else u\<lparr>m_lastBytes := ((m_lastBytes u)[0 := m_lastBytes u ! 1])[1 := byte]\<rparr>)"

definition writeJpegChunk ::
  "upload_transport \<Rightarrow> u8 list option \<Rightarrow> CameraMultipartUpload \<Rightarrow> CameraUploadError \<times> CameraMultipartUpload" where
  "writeJpegChunk T data u =
    (case data of
       None \<Rightarrow> (CameraUploadError.InvalidArgument, u)
     | Some bytes \<Rightarrow>
        if \<not> m_active u \<or> length bytes = 0 then (CameraUploadError.InvalidArgument, u)
        else if length bytes > kMaxJpegBytes - m_jpegBytes u then (PayloadTooLarge, u)
        else let (ok, u) = upload_write T bytes (fold track_byte bytes u)
          in if \<not> ok then (TransportFailure, abort u)
             else (CameraUploadError.NoError, u\<lparr>m_jpegBytes := m_jpegBytes u + length bytes\<rparr>))"

definition upload_finish ::
  "upload_transport \<Rightarrow> CameraMultipartUpload \<Rightarrow> CameraUploadError \<times> CameraMultipartUpload" where
  "upload_finish T u =
    (if \<not> m_active u then (CameraUploadError.InvalidArgument, u)
     else if m_firstByteCount u \<noteq> 2 \<or> m_lastByteCount u \<noteq> 2
        \<or> m_firstBytes u ! 0 \<noteq> 0xFF \<or> m_firstBytes u ! 1 \<noteq> 0xD8
        \<or> m_lastBytes u ! 0 \<noteq> 0xFF \<or> m_lastBytes u ! 1 \<noteq> 0xD9
     then (InvalidJpeg, abort u)
     else let (ok, u) = upload_write T (ascii_bytes upload_footer) u
       in if \<not> ok then (TransportFailure, abort u)
          else let (ok, u) = upload_write T [] u
            in if \<not> ok then (TransportFailure, abort u)
               else let status = status_of T (upload_log u);
                        u = ucall UStatusCode u;
                        u = (ucall UClose u)\<lparr>m_active := False\<rparr>
                 in (if status = 201 then CameraUploadError.NoError else Rejected, u))"

definition jpegBytes :: "CameraMultipartUpload \<Rightarrow> nat" where
  "jpegBytes u = m_jpegBytes u"

section \<open>The gate and the retry budget\<close>

record CameraCaptureGate =
  m_current :: CameraCaptureRequest
  m_busy :: bool
  m_pending :: bool

definition new_CameraCaptureGate :: CameraCaptureGate where
  "new_CameraCaptureGate = \<lparr>m_current = new_CameraCaptureRequest, m_busy = False, m_pending = False\<rparr>"

definition tryStart :: "CameraCaptureRequest \<Rightarrow> CameraCaptureGate \<Rightarrow> CameraRequestError \<times> CameraCaptureGate" where
  "tryStart request g =
    (if \<not> camera_isValidUuid (request_captureId request) \<or> request_quality request < 10
        \<or> request_quality request > 95 \<or> timeoutMs request < 1 \<or> timeoutMs request > 120000
     then (CameraRequestError.InvalidArgument, g)
     else if m_busy g then (DeviceBusy, g)
     else (CameraRequestError.NoError, g\<lparr>m_current := request, m_busy := True, m_pending := True\<rparr>))"

definition takePending :: "CameraCaptureGate \<Rightarrow> CameraCaptureRequest option \<times> CameraCaptureGate" where
  "takePending g =
    (if \<not> m_busy g \<or> \<not> m_pending g then (None, g)
     else (Some (m_current g), g\<lparr>m_pending := False\<rparr>))"

definition complete :: "CameraCaptureGate \<Rightarrow> CameraCaptureGate" where
  "complete g = g\<lparr>m_current := new_CameraCaptureRequest, m_busy := False, m_pending := False\<rparr>"

record CaptureRetryBudget =
  m_maximumAttempts :: int
  m_attempts :: int

definition new_CaptureRetryBudget :: "int \<Rightarrow> CaptureRetryBudget" where
  "new_CaptureRetryBudget maximumAttempts =
     \<lparr>m_maximumAttempts = (if maximumAttempts > 0 then maximumAttempts else 0), m_attempts = 0\<rparr>"

definition takeAttempt :: "CaptureRetryBudget \<Rightarrow> int option \<times> CaptureRetryBudget" where
  "takeAttempt b =
    (if m_attempts b \<ge> m_maximumAttempts b then (None, b)
     else let b = b\<lparr>m_attempts := m_attempts b + 1\<rparr> in (Some (m_attempts b), b))"

section \<open>Messages\<close>

definition resolveCaptureUploadUrl :: "string \<Rightarrow> string \<Rightarrow> string option" where
  "resolveCaptureUploadUrl bridgeWebSocketUrl captureId =
    (if \<not> camera_isValidUuid captureId then None
     else case str_rfind bridgeWebSocketUrl kPath of
       None \<Rightarrow> None
     | Some pathPosition \<Rightarrow>
        if pathPosition + length kPath \<noteq> length bridgeWebSocketUrl then None
        else
          let target = (\<lambda>scheme authorityStart.
                if pathPosition \<le> authorityStart then None
                else Some (scheme @ substr bridgeWebSocketUrl authorityStart (pathPosition - authorityStart)
                       @ ''/v1/device/captures/'' @ captureId))
          in if match_at bridgeWebSocketUrl ''ws://'' 0 then target ''http://'' 5
             else if match_at bridgeWebSocketUrl ''wss://'' 0 then target ''https://'' 6
             else None)"

definition buildCameraCompletedEventJson ::
  "('v, 'z) json_lib_scheme \<Rightarrow> EnvelopeMetadata \<Rightarrow> string \<Rightarrow> string \<Rightarrow> bool
     \<Rightarrow> CameraCompletionError \<Rightarrow> string \<Rightarrow> nat \<Rightarrow> CameraEventBuildError + string" where
  "buildCameraCompletedEventJson J envelope deviceId captureId ok error digest sizeBytes =
    (let errorName = completionErrorName error;
         validDigest = length digest = 64 \<and> list_all (\<lambda>c. c \<in> set ''0123456789abcdef'') digest
     in if ok \<and> (\<not> validDigest \<or> sizeBytes = 0 \<or> sizeBytes > kMaxJpegBytes)
        then Inl CameraEventBuildError.InvalidArgument
        else if \<not> camera_isValidUuid (messageId envelope) \<or> \<not> camera_isValidDeviceId deviceId
          \<or> \<not> camera_isValidUuid captureId \<or> sentAtMs envelope > INT64_MAX
          \<or> (ok \<and> error \<noteq> CameraCompletionError.NoError) \<or> (\<not> ok \<and> errorName = None)
        then Inl CameraEventBuildError.InvalidArgument
        else let output = serializeJson J (JObject (envelope_members ''event'' envelope @
               [(''device_id'', JString deviceId),
                (''payload'', JObject
                   [(''name'', JString ''camera.completed''),
                    (''data'', JObject ([(''capture_id'', JString captureId), (''ok'', JBool ok)]
                       @ (if ok then [(''sha256'', JString digest), (''size_bytes'', JInt (int sizeBytes))]
                          else [(''error_code'', JString (the errorName))])))])]))
          in if length output > kMaxJsonBytes then Inl CameraEventBuildError.MessageTooLarge
             else Inr output)"

definition parseCameraCompletedAck :: "('v, 'z) json_lib_scheme \<Rightarrow> string \<Rightarrow> string option" where
  "parseCameraCompletedAck J input =
    (if length input > kMaxJsonBytes then None
     else case deserialize J 8 input of
       None \<Rightarrow> None
     | Some document \<Rightarrow>
        let type = as_cstring J (jmember J document ''type'');
            payload = jmember J document ''payload'';
            captureId = as_cstring J (jmember J payload ''capture_id'');
            message_id = as_cstring J (jmember J document ''message_id'')
        in if \<not> is_int J (jmember J document ''v'') \<or> as_int J (jmember J document ''v'') \<noteq> 1
              \<or> type = None \<or> \<not> is_uint64 J (jmember J document ''sent_at_ms'')
              \<or> as_uint64 J (jmember J document ''sent_at_ms'') > INT64_MAX
              \<or> type \<noteq> Some ''camera.completed_ack'' \<or> captureId = None \<or> message_id = None
              \<or> \<not> camera_isValidUuid (the captureId) \<or> \<not> camera_isValidUuid (the message_id)
              \<or> \<not> is_bool J (jmember J payload ''accepted'')
           then None else captureId)"

section \<open>The upload sends one complete JPEG\<close>

definition tracks :: "CameraMultipartUpload \<Rightarrow> u8 list \<Rightarrow> bool" where
  "tracks u js \<longleftrightarrow> length (m_firstBytes u) = 2 \<and> length (m_lastBytes u) = 2
     \<and> m_firstByteCount u = min 2 (length js) \<and> m_lastByteCount u = min 2 (length js)
     \<and> take (m_firstByteCount u) (m_firstBytes u) = take 2 js
     \<and> take (m_lastByteCount u) (m_lastBytes u) = drop (length js - 2) js"

lemma length_2: "length xs = 2 \<longleftrightarrow> (\<exists>a b. xs = [a, b])"
  by (auto simp: numeral_2_eq_2 length_Suc_conv)

lemma track_byte_tracks:
  assumes "tracks u js"
  shows "tracks (track_byte x u) (js @ [x])"
proof -
  from assms obtain a b c d where v: "m_firstBytes u = [a, b]" "m_lastBytes u = [c, d]"
    by (auto simp: tracks_def length_2)
  consider "js = []" | y where "js = [y]" | y z ys where "js = ys @ [y, z]"
    by (metis append_Cons append_Nil append_assoc rev_exhaust)
  then show ?thesis
  proof cases
    case 3
    then have "m_firstByteCount u = 2" "m_lastByteCount u = 2" using assms by (auto simp: tracks_def)
    moreover have "take (2 - min (length ys) 2) [y, z] = take (2 - length ys) [y, z, x]"
      by (cases "length ys"; cases "length ys - 1") auto
    ultimately show ?thesis using v 3 assms by (auto simp: tracks_def track_byte_def Let_def)
  qed (use v assms in \<open>auto simp: tracks_def track_byte_def Let_def\<close>)
qed

lemma track_bytes_tracks: "tracks u js \<Longrightarrow> tracks (fold track_byte xs u) (js @ xs)"
proof (induction xs arbitrary: u js)
  case (Cons x xs)
  then show ?case using track_byte_tracks [of u js x] by fastforce
qed simp

lemma track_byte_other [simp]:
  "upload_log (track_byte x u) = upload_log u" "m_active (track_byte x u) = m_active u"
  "m_jpegBytes (track_byte x u) = m_jpegBytes u"
  by (simp_all add: track_byte_def Let_def)

lemma fold_track_byte_other [simp]:
  "upload_log (fold track_byte xs u) = upload_log u" "m_active (fold track_byte xs u) = m_active u"
  "m_jpegBytes (fold track_byte xs u) = m_jpegBytes u"
  by (induction xs arbitrary: u) simp_all

lemma ucall_other [simp]:
  "upload_log (ucall c u) = upload_log u @ [c]" "m_active (ucall c u) = m_active u"
  "m_jpegBytes (ucall c u) = m_jpegBytes u" "tracks (ucall c u) js = tracks u js"
  "m_firstByteCount (ucall c u) = m_firstByteCount u" "m_lastByteCount (ucall c u) = m_lastByteCount u"
  "m_firstBytes (ucall c u) = m_firstBytes u" "m_lastBytes (ucall c u) = m_lastBytes u"
  by (simp_all add: ucall_def tracks_def)

fun write_chunks ::
  "upload_transport \<Rightarrow> u8 list list \<Rightarrow> CameraMultipartUpload \<Rightarrow> CameraUploadError \<times> CameraMultipartUpload" where
  "write_chunks T [] u = (CameraUploadError.NoError, u)"
| "write_chunks T (c # cs) u =
    (let (e, u) = writeJpegChunk T (Some c) u in
     if e = CameraUploadError.NoError then write_chunks T cs u else (e, u))"

definition upload_image ::
  "upload_transport \<Rightarrow> string \<Rightarrow> string \<Rightarrow> string \<Rightarrow> int \<Rightarrow> u8 list list \<Rightarrow> CameraMultipartUpload
     \<Rightarrow> CameraUploadError \<times> CameraMultipartUpload" where
  "upload_image T url token deviceId timeout chunks u =
    (let (e, u) = upload_begin T url token deviceId timeout u in
     if e \<noteq> CameraUploadError.NoError then (e, u)
     else let (e, u) = write_chunks T chunks u in
       if e \<noteq> CameraUploadError.NoError then (e, u) else upload_finish T u)"

lemma writeJpegChunk_ok:
  assumes "writeJpegChunk T (Some c) u = (CameraUploadError.NoError, u')" "tracks u js" "m_jpegBytes u = length js"
  shows "tracks u' (js @ c) \<and> m_jpegBytes u' = length (js @ c) \<and> upload_log u' = upload_log u @ [UWrite c]
    \<and> m_active u' = m_active u \<and> length (js @ c) \<le> max (length js) kMaxJpegBytes"
  using assms track_bytes_tracks [OF assms(2), of c]
  by (auto simp: writeJpegChunk_def upload_write_def tracks_def split: if_splits)

lemma write_chunks_ok:
  assumes "write_chunks T cs u = (CameraUploadError.NoError, u')" "tracks u js" "m_jpegBytes u = length js"
    "length js \<le> kMaxJpegBytes"
  shows "tracks u' (js @ concat cs) \<and> length (js @ concat cs) \<le> kMaxJpegBytes
    \<and> upload_log u' = upload_log u @ map UWrite cs"
  using assms
proof (induction cs arbitrary: u js)
  case (Cons c cs)
  then obtain v where v: "writeJpegChunk T (Some c) u = (CameraUploadError.NoError, v)"
    "write_chunks T cs v = (CameraUploadError.NoError, u')"
    by (auto split: prod.splits if_splits)
  note w = writeJpegChunk_ok [OF v(1) Cons.prems(2,3)]
  then have "length (js @ c) \<le> kMaxJpegBytes" using Cons.prems(4) by (auto simp: max_def split: if_splits)
  with Cons.IH [OF v(2), of "js @ c"] w show ?case by simp
qed simp

definition upload_headers :: "string \<Rightarrow> string \<Rightarrow> int \<Rightarrow> upload_call list" where
  "upload_headers token deviceId timeout =
     [USetTimeoutMs timeout, USetHeader ''Authorization'' (''Bearer '' @ token),
      USetHeader ''X-StackChan-Device-Id'' deviceId,
      USetHeader ''Content-Type'' (''multipart/form-data; boundary='' @ kMultipartBoundary),
      USetHeader ''Transfer-Encoding'' ''chunked'']"

lemma upload_begin_ok:
  assumes "upload_begin T url token deviceId timeout u = (CameraUploadError.NoError, u')"
    and "length (m_firstBytes u) = 2" "length (m_lastBytes u) = 2"
  shows "tracks u' [] \<and> m_jpegBytes u' = 0
    \<and> upload_log u' = upload_log u @ upload_headers token deviceId timeout
         @ [UOpenPost url, UWrite (ascii_bytes upload_preamble)]"
  using assms by (auto simp: upload_begin_def Let_def upload_write_def upload_headers_def tracks_def split: if_splits)

lemma upload_finish_ok:
  assumes "upload_finish T u = (CameraUploadError.NoError, u')" "tracks u js"
  shows "2 \<le> length js \<and> take 2 js = [0xFF, 0xD8] \<and> drop (length js - 2) js = [0xFF, 0xD9] \<and> \<not> m_active u'
    \<and> upload_log u' = upload_log u @ [UWrite (ascii_bytes upload_footer), UWrite [], UStatusCode, UClose]
    \<and> status_of T (upload_log u @ [UWrite (ascii_bytes upload_footer), UWrite []]) = 201"
proof -
  obtain a b c d where v: "m_firstBytes u = [a, b]" "m_lastBytes u = [c, d]"
    using assms(2) by (auto simp: tracks_def length_2)
  show ?thesis using assms v
    by (auto simp: upload_finish_def Let_def upload_write_def tracks_def split: if_splits)
qed

text \<open>C31: A multipart upload that reports success has sent exactly the headers, the preamble, the
  chunks of one JPEG image of at most 2 MiB, the footer and the terminating chunk, got status
  201 and closed the connection.\<close>

theorem upload_sends_jpeg:
  assumes "upload_image T url token deviceId timeout chunks new_CameraMultipartUpload = (CameraUploadError.NoError, u)"
  shows "let jpeg = concat chunks in
    take 2 jpeg = [0xFF, 0xD8] \<and> drop (length jpeg - 2) jpeg = [0xFF, 0xD9]
    \<and> 2 \<le> length jpeg \<and> length jpeg \<le> 2097152
    \<and> upload_log u = upload_headers token deviceId timeout
         @ [UOpenPost url, UWrite (ascii_bytes upload_preamble)] @ map UWrite chunks
         @ [UWrite (ascii_bytes upload_footer), UWrite [], UStatusCode, UClose]
    \<and> status_of T (butlast (butlast (upload_log u))) = 201 \<and> \<not> m_active u"
proof -
  obtain v w where v: "upload_begin T url token deviceId timeout new_CameraMultipartUpload = (CameraUploadError.NoError, v)"
    and w: "write_chunks T chunks v = (CameraUploadError.NoError, w)"
    and u: "upload_finish T w = (CameraUploadError.NoError, u)"
    using assms by (auto simp: upload_image_def split: prod.splits if_splits)
  note b = upload_begin_ok [OF v]
  then have b: "tracks v []" "m_jpegBytes v = length ([] :: u8 list)"
    "upload_log v = upload_headers token deviceId timeout @ [UOpenPost url, UWrite (ascii_bytes upload_preamble)]"
    by (simp_all add: new_CameraMultipartUpload_def)
  note c = write_chunks_ok [OF w b(1,2)]
  note f = upload_finish_ok [OF u, of "concat chunks"]
  show ?thesis using c f b(3) by (simp add: Let_def kMaxJpegBytes_def butlast_append)
qed

section \<open>The upload's use of its connection\<close>

datatype upload_op = OBegin string string string int | OChunk "u8 list option" | OFinish | OAbort

fun upload_step :: "upload_transport \<Rightarrow> upload_op \<Rightarrow> CameraMultipartUpload \<Rightarrow> CameraMultipartUpload" where
  "upload_step T (OBegin url token deviceId timeout) u = snd (upload_begin T url token deviceId timeout u)"
| "upload_step T (OChunk c) u = snd (writeJpegChunk T c u)"
| "upload_step T OFinish u = snd (upload_finish T u)"
| "upload_step T OAbort u = abort u"

text \<open>Whether the connection is open after a log, given newest call first.\<close>

fun open_after :: "upload_transport \<Rightarrow> upload_call list \<Rightarrow> bool" where
  "open_after T [] = False"
| "open_after T (UOpenPost url # r) = openPost_ok T (rev r) url"
| "open_after T (UClose # r) = False"
| "open_after T (c # r) = open_after T r"

text \<open>Writing, asking for the status and closing need an open connection, opening a closed one.\<close>

fun call_allowed :: "bool \<Rightarrow> upload_call \<Rightarrow> bool" where
  "call_allowed is_open (UOpenPost url) = (\<not> is_open)"
| "call_allowed is_open (USetHeader n v) = (\<not> is_open)"
| "call_allowed is_open (USetTimeoutMs t) = (\<not> is_open)"
| "call_allowed is_open c = is_open"

fun calls_allowed :: "upload_transport \<Rightarrow> upload_call list \<Rightarrow> bool" where
  "calls_allowed T [] = True"
| "calls_allowed T (c # r) = (call_allowed (open_after T r) c \<and> calls_allowed T r)"

definition upload_inv :: "upload_transport \<Rightarrow> CameraMultipartUpload \<Rightarrow> bool" where
  "upload_inv T u \<longleftrightarrow> calls_allowed T (rev (upload_log u))
     \<and> m_active u = open_after T (rev (upload_log u))"

lemma abort_inv: "upload_inv T u \<Longrightarrow> upload_inv T (abort u)"
  by (auto simp: upload_inv_def abort_def)

lemma upload_write_inv:
  "upload_inv T u \<Longrightarrow> m_active u \<Longrightarrow> upload_inv T (snd (upload_write T d u)) \<and> m_active (snd (upload_write T d u))"
  by (auto simp: upload_inv_def upload_write_def)

lemma upload_begin_inv: "upload_inv T u \<Longrightarrow> upload_inv T (snd (upload_begin T url token deviceId timeout u))"
  by (auto simp: upload_begin_def Let_def upload_write_def upload_inv_def abort_def)

lemma writeJpegChunk_inv: "upload_inv T u \<Longrightarrow> upload_inv T (snd (writeJpegChunk T c u))"
  by (auto simp: writeJpegChunk_def Let_def upload_write_def upload_inv_def abort_def split: option.splits)

lemma upload_finish_inv: "upload_inv T u \<Longrightarrow> upload_inv T (snd (upload_finish T u))"
  by (auto simp: upload_finish_def Let_def upload_write_def upload_inv_def abort_def)

lemma upload_step_inv: "upload_inv T u \<Longrightarrow> upload_inv T (upload_step T e u)"
  by (cases e) (simp_all add: upload_begin_inv writeJpegChunk_inv upload_finish_inv abort_inv)

interpretation upload: invariant_machine "upload_step T" "upload_inv T" for T
  by unfold_locales (rule upload_step_inv)

text \<open>Whatever the calls, ending with \<open>abort\<close> (the destructor) leaves no connection open.\<close>

theorem upload_never_leaks:
  "let u = abort (fold (upload_step T) ops new_CameraMultipartUpload) in
   calls_allowed T (rev (upload_log u)) \<and> \<not> open_after T (rev (upload_log u))"
proof -
  have "upload_inv T (fold (upload_step T) ops new_CameraMultipartUpload)"
    by (rule upload.run_inv) (simp add: upload_inv_def new_CameraMultipartUpload_def)
  from abort_inv [OF this] show ?thesis by (auto simp: upload_inv_def abort_def)
qed

definition sample_transport :: upload_transport where
  "sample_transport = \<lparr>openPost_ok = (\<lambda>log url. True), write_ok = (\<lambda>log d. True), status_of = (\<lambda>log. 201)\<rparr>"

lemma upload_sends_jpeg_witness:
  "\<not> m_active (snd (upload_image sample_transport ''http://h'' ''t'' ''d'' 3000
     [[0xFF, 0xD8, 1], [0xFF, 0xD9]] new_CameraMultipartUpload))"
proof -
  have "fst (upload_image sample_transport ''http://h'' ''t'' ''d'' 3000
     [[0xFF, 0xD8, 1], [0xFF, 0xD9]] new_CameraMultipartUpload) = CameraUploadError.NoError"
    by (simp add: upload_image_def upload_begin_def writeJpegChunk_def upload_finish_def upload_write_def
        sample_transport_def new_CameraMultipartUpload_def ucall_def track_byte_def Let_def kMaxJpegBytes_def
        camera_isSafeHeaderValue_def isSafeHeaderValue_def camera_isValidDeviceId_def isValidDeviceId_def
        isAsciiAlphaNumeric_def)
  then have "upload_image sample_transport ''http://h'' ''t'' ''d'' 3000
     [[0xFF, 0xD8, 1], [0xFF, 0xD9]] new_CameraMultipartUpload
     = (CameraUploadError.NoError, snd (upload_image sample_transport ''http://h'' ''t'' ''d'' 3000
     [[0xFF, 0xD8, 1], [0xFF, 0xD9]] new_CameraMultipartUpload))"
    by (simp add: prod_eq_iff)
  from upload_sends_jpeg [OF this] show ?thesis by (simp add: Let_def)
qed

section \<open>One capture at a time\<close>

datatype gate_op = GTryStart CameraCaptureRequest | GTake | GComplete

fun gate_step :: "gate_op \<Rightarrow> CameraCaptureGate \<Rightarrow> CameraCaptureGate" where
  "gate_step (GTryStart r) g = snd (tryStart r g)"
| "gate_step GTake g = snd (takePending g)"
| "gate_step GComplete g = complete g"

text \<open>The events an observer sees: a request admitted, handed to the worker, a capture ended.\<close>

datatype gate_event = Admitted CameraCaptureRequest | Taken CameraCaptureRequest | Ended

fun gate_events :: "gate_op \<Rightarrow> CameraCaptureGate \<Rightarrow> gate_event list" where
  "gate_events (GTryStart r) g = (if fst (tryStart r g) = CameraRequestError.NoError then [Admitted r] else [])"
| "gate_events GTake g = (case fst (takePending g) of None \<Rightarrow> [] | Some r \<Rightarrow> [Taken r])"
| "gate_events GComplete g = [Ended]"

fun gate_trace :: "gate_op list \<Rightarrow> CameraCaptureGate \<Rightarrow> gate_event list" where
  "gate_trace [] g = []"
| "gate_trace (e # es) g = gate_events e g @ gate_trace es (gate_step e g)"

text \<open>Specification: between two \<open>Ended\<close> at most one valid request is admitted, and then handed out
  at most once.  The state is the request of the capture in progress and whether it is waiting.\<close>

fun one_at_a_time :: "(CameraCaptureRequest \<times> bool) option \<Rightarrow> gate_event list \<Rightarrow> bool" where
  "one_at_a_time c [] = True"
| "one_at_a_time c (Admitted r # t) =
     (c = None \<and> isValidUuid (request_captureId r) \<and> 10 \<le> request_quality r \<and> request_quality r \<le> 95
      \<and> 1 \<le> timeoutMs r \<and> timeoutMs r \<le> 120000 \<and> one_at_a_time (Some (r, True)) t)"
| "one_at_a_time c (Taken r # t) = (c = Some (r, True) \<and> one_at_a_time (Some (r, False)) t)"
| "one_at_a_time c (Ended # t) = one_at_a_time None t"

definition gate_abs :: "CameraCaptureGate \<Rightarrow> (CameraCaptureRequest \<times> bool) option" where
  "gate_abs g = (if m_busy g then Some (m_current g, m_pending g) else None)"

lemma gate_refines: "one_at_a_time (gate_abs g) (gate_trace ops g)"
proof (induction ops arbitrary: g)
  case (Cons e es)
  show ?case
  proof (cases e)
    case (GTryStart r)
    then show ?thesis using Cons.IH [of "snd (tryStart r g)"]
      by (auto simp: tryStart_def gate_abs_def uuid_copies_agree split: if_splits)
  next
    case GTake
    then show ?thesis using Cons.IH [of "snd (takePending g)"]
      by (auto simp: takePending_def gate_abs_def split: if_splits)
  next
    case GComplete
    then show ?thesis using Cons.IH [of "complete g"] by (simp add: complete_def gate_abs_def)
  qed
qed simp

theorem captures_are_exclusive: "one_at_a_time None (gate_trace ops new_CameraCaptureGate)"
  using gate_refines [of new_CameraCaptureGate ops] by (simp add: gate_abs_def new_CameraCaptureGate_def)

text \<open>The retry budget numbers the attempts from one and stops at its maximum.\<close>

fun take_attempts :: "nat \<Rightarrow> CaptureRetryBudget \<Rightarrow> int option list" where
  "take_attempts 0 b = []"
| "take_attempts (Suc n) b = fst (takeAttempt b) # take_attempts n (snd (takeAttempt b))"

lemma take_attempts_from:
  "take_attempts n b = map (\<lambda>i. let k = m_attempts b + int (Suc i) in
      if k \<le> m_maximumAttempts b then Some k else None) [0..<n]"
proof (induction n arbitrary: b)
  case (Suc n)
  show ?case
    by (simp add: Suc.IH takeAttempt_def Let_def map_upt_Suc del: upt_Suc)
qed simp

theorem retry_budget:
  "take_attempts n (new_CaptureRetryBudget m) =
     map (\<lambda>i. if int (Suc i) \<le> m then Some (int (Suc i)) else None) [0..<n]"
  by (auto simp: take_attempts_from new_CaptureRetryBudget_def Let_def)

section \<open>The upload URL\<close>

lemma str_rfind_suffix: "str_rfind (s @ p) p = Some (length s)"
proof -
  have m: "match_at (s @ p) p (length s)" using match_at_append [of s p "[]"] by simp
  have "rev [0..<Suc (length (s @ p))] = rev [Suc (length s)..<Suc (length (s @ p))] @ rev [0..<Suc (length s)]"
    by (metis add_Suc le_add1 length_append rev_append upt_add_eq_append zero_le)
  moreover have "List.find (match_at (s @ p) p) (rev [Suc (length s)..<Suc (length (s @ p))]) = None"
    by (auto simp: find_None_iff match_at_def)
  moreover have "List.find P (xs @ ys) = (case List.find P xs of None \<Rightarrow> List.find P ys | Some x \<Rightarrow> Some x)" for P :: "nat \<Rightarrow> bool" and xs ys
    by (induction xs) auto
  ultimately show ?thesis using m by (simp add: str_rfind_def)
qed

theorem upload_url:
  assumes "isBridgeWebSocketUrl url" "isValidUuid captureId"
  shows "\<exists>authority. authority_grammar authority \<and>
    ((url = ''ws://'' @ authority @ ''/v1/device/ws''
       \<and> resolveCaptureUploadUrl url captureId = Some (''http://'' @ authority @ ''/v1/device/captures/'' @ captureId))
     \<or> (url = ''wss://'' @ authority @ ''/v1/device/ws''
       \<and> resolveCaptureUploadUrl url captureId = Some (''https://'' @ authority @ ''/v1/device/captures/'' @ captureId)))"
proof -
  obtain s a where u: "s \<in> {''ws://'', ''wss://''}" "authority_grammar a" "url = s @ a @ kPath"
    using assms(1) unfolding bridge_url_grammar kPath_def by blast
  have r: "str_rfind url kPath = Some (length s + length a)"
    using str_rfind_suffix [of "s @ a" kPath] u(3) by simp
  have len: "length url = length s + length a + length kPath" using u(3) by simp
  have t: "take (length a) (drop (length s) url) = a" using u(3) by simp
  have a: "a \<noteq> []" using u(2) authority_not_empty isValidAuthority_iff by blast
  have m: "match_at url s 0" using u(3) unfolding match_at_0 by blast
  have v: "camera_isValidUuid captureId" using assms(2) by (simp add: uuid_copies_agree)
  from u(1) show ?thesis
  proof (elim insertE emptyE)
    assume s: "s = ''ws://''"
    then have l: "length s = 5" and m': "match_at url ''ws://'' 0" using m by auto
    have "resolveCaptureUploadUrl url captureId = Some (''http://'' @ a @ ''/v1/device/captures/'' @ captureId)"
      unfolding resolveCaptureUploadUrl_def r Let_def using a len l m' t v by (simp add: substr_def del: append.simps)
    with u s show ?thesis unfolding kPath_def by blast
  next
    assume s: "s = ''wss://''"
    then have l: "length s = 6" and m': "\<not> match_at url ''ws://'' 0" "match_at url ''wss://'' 0"
      using m schemes_differ by auto
    have "resolveCaptureUploadUrl url captureId = Some (''https://'' @ a @ ''/v1/device/captures/'' @ captureId)"
      unfolding resolveCaptureUploadUrl_def r Let_def using a len l m' t v by (simp add: substr_def del: append.simps)
    with u s show ?thesis unfolding kPath_def by blast
  qed
qed

lemma upload_url_witness:
  "resolveCaptureUploadUrl ''ws://h/v1/device/ws'' ''123e4567-e89b-42d3-a456-426614174000''
     = Some ''http://h/v1/device/captures/123e4567-e89b-42d3-a456-426614174000''"
proof -
  have "isBridgeWebSocketUrl ''ws://h/v1/device/ws''" "isValidUuid ''123e4567-e89b-42d3-a456-426614174000''"
    by code_simp+
  from upload_url [OF this] obtain a where
    a: "''ws://h/v1/device/ws'' = ''ws://'' @ a @ ''/v1/device/ws''"
      "resolveCaptureUploadUrl ''ws://h/v1/device/ws'' ''123e4567-e89b-42d3-a456-426614174000''
       = Some (''http://'' @ a @ ''/v1/device/captures/'' @ ''123e4567-e89b-42d3-a456-426614174000'')"
    by auto
  have "''h'' @ ''/v1/device/ws'' = a @ ''/v1/device/ws''" using a(1) by simp
  then have "a = ''h''" by (simp only: append_same_eq)
  with a(2) show ?thesis by simp
qed

end
