(* ===== verification/Command.thy ===== *)
theory Command
  imports Json_Interface Text_Validation
begin

text \<open>
  \<open>command.cpp\<close>: the command messages the bridge sends, their arguments, the comparison that
  tells a retry from a reused request identifier, and the result message.

  A C \<open>int\<close> is an \<open>int\<close>: every value the parser stores is within 32 bits because the library
  said so (\<open>is_int\<close>) and the code then compares it against small bounds.
\<close>

datatype CommandName = Unknown | DeviceGetStatus | DeviceGetInfo | AudioSetVolume
  | DisplaySetBrightness | DisplayShowText | AvatarSetExpression | AvatarSetBlink | HeadGetAngles
  | HeadSetAngles | HeadHome | LedSet | LedSetAll | LedClear | CameraCapture | CameraCancel
  | SpeechCancel

datatype CommandParseError = MessageTooLarge | InvalidMessage | InvalidArgument

datatype CommandErrorCode = NoError | InvalidArgument | InvalidState | DeviceBusy

datatype CommandResultBuildError = InvalidArgument | MessageTooLarge

datatype CommandResultValue = RBool bool | RInt int | RDouble cpp_double | RString string

record CommandResultField =
  field_name :: string
  field_value :: CommandResultValue

record CommandExecutionResult =
  result_ok :: bool
  errorCode :: CommandErrorCode
  errorMessage :: string
  resultFields :: "CommandResultField list"

definition new_CommandExecutionResult :: CommandExecutionResult where
  "new_CommandExecutionResult =
     \<lparr>result_ok = False, errorCode = CommandErrorCode.NoError, errorMessage = [], resultFields = []\<rparr>"

record CommandArguments =
  volume :: int
  brightness :: int
  showText :: string
  durationMs :: int
  priority :: int
  expression :: string
  enabled :: bool
  yaw :: cpp_double
  pitch :: cpp_double
  hasSpeed :: bool
  speed :: int
  index :: int
  red :: int
  green :: int
  blue :: int
  captureId :: string
  quality :: int
  captureTimeoutMs :: int

record Command =
  command_name :: CommandName
  command_messageId :: string
  requestId :: string
  command_turnId :: string
  command_streamId :: string
  command_deviceId :: string
  command_sentAtMs :: u64
  arguments :: CommandArguments

definition new_CommandArguments :: CommandArguments where
  "new_CommandArguments =
     \<lparr>volume = 0, brightness = 0, showText = [], durationMs = 0, priority = 0, expression = [],
      enabled = False, yaw = Finite 0, pitch = Finite 0, hasSpeed = False, speed = 0, index = 0,
      red = 0, green = 0, blue = 0, captureId = [], quality = 0, captureTimeoutMs = 0\<rparr>"

section \<open>Parsing\<close>

definition hasKey :: "('v, 'z) json_lib_scheme \<Rightarrow> 'v \<Rightarrow> string \<Rightarrow> bool" where
  "hasKey J object key \<longleftrightarrow> list_ex (\<lambda>k. takeWhile (\<lambda>c. c \<noteq> CHR 0x00) k = key) (jkeys J object)"

definition isValidExpression :: "string \<Rightarrow> bool" where
  "isValidExpression value \<longleftrightarrow> value = ''idle'' \<or> value = ''happy'' \<or> value = ''thinking''
     \<or> value = ''sad'' \<or> value = ''surprised'' \<or> value = ''embarrassed''"

definition command_isValidBoundedText :: "string \<Rightarrow> nat \<Rightarrow> bool" where
  "command_isValidBoundedText value maximumCodePoints = isValidBoundedText value maximumCodePoints"

definition readProtocolAngle :: "('v, 'z) json_lib_scheme \<Rightarrow> 'v \<Rightarrow> cpp_double option" where
  "readProtocolAngle J value =
    (if is_bool J value \<or> (\<not> is_int64 J value \<and> \<not> is_double J value) then None
     else let parsed = as_double J value in
       if \<not> isfinite parsed \<or> dlt parsed (Finite (- 90)) \<or> dlt (Finite 90) parsed then None
       else Some parsed)"

definition readByte :: "('v, 'z) json_lib_scheme \<Rightarrow> 'v \<Rightarrow> int option" where
  "readByte J value =
    (if \<not> is_int J value \<or> as_int J value < 0 \<or> as_int J value > 255 then None
     else Some (as_int J value))"

text \<open>The chain of comparisons with the command name, one definition for each group of commands;
  \<open>None\<close> is the result \<open>InvalidArgument\<close>.\<close>

definition parse_setting ::
  "('v, 'z) json_lib_scheme \<Rightarrow> string \<Rightarrow> 'v \<Rightarrow> int option" where
  "parse_setting J key args =
    (let v = jmember J args key in
     if jsize J args \<noteq> 1 \<or> \<not> is_int J v \<or> as_int J v < 0 \<or> as_int J v > 100 then None
     else Some (as_int J v))"

definition parse_show_text ::
  "('v, 'z) json_lib_scheme \<Rightarrow> 'v \<Rightarrow> CommandArguments option" where
  "parse_show_text J args =
    (let duration = jmember J args ''duration_ms''; prio = jmember J args ''priority'' in
     case as_cstring J (jmember J args ''text'') of
       None \<Rightarrow> None
     | Some txt \<Rightarrow>
        if jsize J args \<noteq> 3 \<or> \<not> command_isValidBoundedText txt 256
           \<or> \<not> is_int J duration \<or> as_int J duration < 100 \<or> as_int J duration > 30000
           \<or> \<not> is_int J prio \<or> as_int J prio < 0 \<or> as_int J prio > 10 then None
        else Some (new_CommandArguments\<lparr>showText := txt, durationMs := as_int J duration,
                                        priority := as_int J prio\<rparr>))"

definition parse_set_angles ::
  "('v, 'z) json_lib_scheme \<Rightarrow> 'v \<Rightarrow> CommandArguments option" where
  "parse_set_angles J args =
    (let spd = jmember J args ''speed'' in
     if jsize J args \<noteq> 2 \<and> jsize J args \<noteq> 3 then None
     else case (readProtocolAngle J (jmember J args ''yaw''), readProtocolAngle J (jmember J args ''pitch'')) of
       (Some y, Some p) \<Rightarrow>
         (let parsed = new_CommandArguments\<lparr>yaw := y, pitch := p\<rparr> in
          if \<not> isNull J spd
          then (if jsize J args \<noteq> 3 \<or> \<not> is_int J spd \<or> as_int J spd < 1 \<or> as_int J spd > 100 then None
                else Some (parsed\<lparr>hasSpeed := True, speed := as_int J spd\<rparr>))
          else if jsize J args \<noteq> 2 then None
          else Some parsed)
     | _ \<Rightarrow> None)"

definition parse_home :: "('v, 'z) json_lib_scheme \<Rightarrow> 'v \<Rightarrow> CommandArguments option" where
  "parse_home J args =
    (let spd = jmember J args ''speed'' in
     if jsize J args > 1 \<or> (\<not> isNull J spd
          \<and> (\<not> is_int J spd \<or> as_int J spd < 1 \<or> as_int J spd > 100)) then None
     else if \<not> isNull J spd
     then Some (new_CommandArguments\<lparr>hasSpeed := True, speed := as_int J spd\<rparr>)
     else Some new_CommandArguments)"

definition parse_led_set :: "('v, 'z) json_lib_scheme \<Rightarrow> 'v \<Rightarrow> CommandArguments option" where
  "parse_led_set J args =
    (if jsize J args \<noteq> 4 then None
     else case (readByte J (jmember J args ''index''), readByte J (jmember J args ''r''),
                readByte J (jmember J args ''g''), readByte J (jmember J args ''b'')) of
       (Some i, Some r, Some g, Some b) \<Rightarrow>
         Some (new_CommandArguments\<lparr>index := i, red := r, green := g, blue := b\<rparr>)
     | _ \<Rightarrow> None)"

definition parse_led_set_all :: "('v, 'z) json_lib_scheme \<Rightarrow> 'v \<Rightarrow> CommandArguments option" where
  "parse_led_set_all J args =
    (if jsize J args \<noteq> 3 then None
     else case (readByte J (jmember J args ''r''), readByte J (jmember J args ''g''),
                readByte J (jmember J args ''b'')) of
       (Some r, Some g, Some b) \<Rightarrow> Some (new_CommandArguments\<lparr>red := r, green := g, blue := b\<rparr>)
     | _ \<Rightarrow> None)"

definition parse_capture :: "('v, 'z) json_lib_scheme \<Rightarrow> 'v \<Rightarrow> CommandArguments option" where
  "parse_capture J args =
    (let captureIdText = as_cstring J (jmember J args ''capture_id'');
         q = jmember J args ''quality''; timeout = jmember J args ''timeout_ms'' in
     if jsize J args \<noteq> 3 \<or> \<not> is_int J timeout \<or> as_int J timeout < 1 \<or> as_int J timeout > 120000
        \<or> \<not> command_isValidUuid captureIdText \<or> \<not> is_int J q \<or> as_int J q < 10 \<or> as_int J q > 95
     then None
     else Some (new_CommandArguments\<lparr>captureId := the captureIdText, quality := as_int J q,
                                     captureTimeoutMs := as_int J timeout\<rparr>))"

definition no_arguments :: "('v, 'z) json_lib_scheme \<Rightarrow> 'v \<Rightarrow> CommandArguments option" where
  "no_arguments J args = (if jsize J args \<noteq> 0 then None else Some new_CommandArguments)"

definition parse_arguments ::
  "('v, 'z) json_lib_scheme \<Rightarrow> string \<Rightarrow> string option \<Rightarrow> 'v \<Rightarrow> (CommandName \<times> CommandArguments) option" where
  "parse_arguments J name turnId args =
    (let cmd = (\<lambda>n. map_option (Pair n)) in
     if name = ''device.get_status'' then cmd DeviceGetStatus (no_arguments J args)
     else if name = ''device.get_info'' then cmd DeviceGetInfo (no_arguments J args)
     else if name = ''audio.set_volume'' then
       cmd AudioSetVolume (map_option (\<lambda>v. new_CommandArguments\<lparr>volume := v\<rparr>) (parse_setting J ''volume'' args))
     else if name = ''display.set_brightness'' then
       cmd DisplaySetBrightness
         (map_option (\<lambda>v. new_CommandArguments\<lparr>brightness := v\<rparr>) (parse_setting J ''brightness'' args))
     else if name = ''display.show_text'' then cmd DisplayShowText (parse_show_text J args)
     else if name = ''avatar.set_expression'' then
       (case as_cstring J (jmember J args ''expression'') of
          None \<Rightarrow> None
        | Some e \<Rightarrow> if jsize J args \<noteq> 1 \<or> \<not> isValidExpression e then None
            else Some (AvatarSetExpression, new_CommandArguments\<lparr>expression := e\<rparr>))
     else if name = ''avatar.set_blink'' then
       (let e = jmember J args ''enabled'' in
        if jsize J args \<noteq> 1 \<or> \<not> is_bool J e then None
        else Some (AvatarSetBlink, new_CommandArguments\<lparr>enabled := as_bool J e\<rparr>))
     else if name = ''head.set_angles'' then cmd HeadSetAngles (parse_set_angles J args)
     else if name = ''head.get_angles'' then cmd HeadGetAngles (no_arguments J args)
     else if name = ''head.home'' then cmd HeadHome (parse_home J args)
     else if name = ''led.set'' then cmd LedSet (parse_led_set J args)
     else if name = ''led.set_all'' then cmd LedSetAll (parse_led_set_all J args)
     else if name = ''led.clear'' then cmd LedClear (no_arguments J args)
     else if name = ''camera.capture'' then cmd CameraCapture (parse_capture J args)
     else if name = ''camera.cancel'' then
       (let c = as_cstring J (jmember J args ''capture_id'') in
        if jsize J args \<noteq> 1 \<or> \<not> command_isValidUuid c then None
        else Some (CameraCancel, new_CommandArguments\<lparr>captureId := the c\<rparr>))
     else if name = ''speech.cancel'' then
       (if jsize J args \<noteq> 0 \<or> turnId = None then None else Some (SpeechCancel, new_CommandArguments))
     else None)"

text \<open>The checks of the envelope, and the fields that are copied when they are present.\<close>

definition rejects_command_envelope :: "('v, 'z) json_lib_scheme \<Rightarrow> 'v \<Rightarrow> bool" where
  "rejects_command_envelope J document \<longleftrightarrow>
    (let version = jmember J document ''v'';
         sentAt = jmember J document ''sent_at_ms'';
         type = as_cstring J (jmember J document ''type'');
         message_id = as_cstring J (jmember J document ''message_id'');
         request_id = as_cstring J (jmember J document ''request_id'');
         turn_id = as_cstring J (jmember J document ''turn_id'');
         stream_id = as_cstring J (jmember J document ''stream_id'');
         device_id = as_cstring J (jmember J document ''device_id'');
         hasTurnId = hasKey J document ''turn_id'';
         hasStreamId = hasKey J document ''stream_id'';
         hasDeviceId = hasKey J document ''device_id''
     in \<not> is_int J version \<or> as_int J version \<noteq> 1 \<or> type \<noteq> Some ''command''
        \<or> \<not> command_isValidUuid message_id \<or> \<not> command_isValidUuid request_id
        \<or> (hasTurnId \<and> \<not> command_isValidUuid turn_id)
        \<or> (hasStreamId \<and> \<not> command_isValidUuid stream_id)
        \<or> (hasDeviceId \<and> \<not> command_isValidDeviceId device_id)
        \<or> \<not> is_uint64 J sentAt \<or> as_uint64 J sentAt > INT64_MAX
        \<or> \<not> is_object J (jmember J document ''payload''))"

definition or_empty :: "string option \<Rightarrow> string" where
  "or_empty value = (case value of None \<Rightarrow> [] | Some s \<Rightarrow> s)"

definition parsed_command ::
  "('v, 'z) json_lib_scheme \<Rightarrow> 'v \<Rightarrow> CommandName \<Rightarrow> CommandArguments \<Rightarrow> Command" where
  "parsed_command J document parsedName parsedArguments =
     \<lparr>command_name = parsedName,
      command_messageId = the (as_cstring J (jmember J document ''message_id'')),
      requestId = the (as_cstring J (jmember J document ''request_id'')),
      command_turnId = or_empty (as_cstring J (jmember J document ''turn_id'')),
      command_streamId = or_empty (as_cstring J (jmember J document ''stream_id'')),
      command_deviceId = or_empty (as_cstring J (jmember J document ''device_id'')),
      command_sentAtMs = as_uint64 J (jmember J document ''sent_at_ms''),
      arguments = parsedArguments\<rparr>"

definition parseCommandJson :: "('v, 'z) json_lib_scheme \<Rightarrow> string \<Rightarrow> CommandParseError + Command" where
  "parseCommandJson J input =
    (if length input > kMaxJsonBytes then Inl CommandParseError.MessageTooLarge
     else case deserialize J 8 input of
       None \<Rightarrow> Inl CommandParseError.InvalidMessage
     | Some document \<Rightarrow>
       if \<not> is_object J document then Inl CommandParseError.InvalidMessage
       else if rejects_command_envelope J document then Inl CommandParseError.InvalidMessage
       else
        let payload = jmember J document ''payload'';
            args = jmember J payload ''args'' in
        case as_cstring J (jmember J payload ''name'') of
          None \<Rightarrow> Inl CommandParseError.InvalidArgument
        | Some name \<Rightarrow>
           if \<not> is_object J args \<or> jsize J payload \<noteq> 2 then Inl CommandParseError.InvalidArgument
           else case parse_arguments J name (as_cstring J (jmember J document ''turn_id'')) args of
             None \<Rightarrow> Inl CommandParseError.InvalidArgument
           | Some (parsedName, parsedArguments) \<Rightarrow>
               Inr (parsed_command J document parsedName parsedArguments))"

section \<open>Retries\<close>

definition isSameCommandRequest :: "Command \<Rightarrow> Command \<Rightarrow> bool" where
  "isSameCommandRequest left right \<longleftrightarrow>
     command_name left = command_name right \<and> requestId left = requestId right
     \<and> command_turnId left = command_turnId right \<and> command_streamId left = command_streamId right
     \<and> command_deviceId left = command_deviceId right
     \<and> volume (arguments left) = volume (arguments right)
     \<and> brightness (arguments left) = brightness (arguments right)
     \<and> showText (arguments left) = showText (arguments right)
     \<and> durationMs (arguments left) = durationMs (arguments right)
     \<and> priority (arguments left) = priority (arguments right)
     \<and> expression (arguments left) = expression (arguments right)
     \<and> enabled (arguments left) = enabled (arguments right)
     \<and> deq (yaw (arguments left)) (yaw (arguments right))
     \<and> deq (pitch (arguments left)) (pitch (arguments right))
     \<and> hasSpeed (arguments left) = hasSpeed (arguments right)
     \<and> speed (arguments left) = speed (arguments right)
     \<and> index (arguments left) = index (arguments right)
     \<and> red (arguments left) = red (arguments right)
     \<and> green (arguments left) = green (arguments right)
     \<and> blue (arguments left) = blue (arguments right)
     \<and> captureId (arguments left) = captureId (arguments right)
     \<and> quality (arguments left) = quality (arguments right)
     \<and> captureTimeoutMs (arguments left) = captureTimeoutMs (arguments right)"

section \<open>The result message\<close>

definition isResultFieldName :: "string \<Rightarrow> bool" where
  "isResultFieldName value \<longleftrightarrow>
    (if value = [] \<or> length value > 64
        \<or> \<not> ((CHR ''A'' \<le> hd value \<and> hd value \<le> CHR ''Z'') \<or> (CHR ''a'' \<le> hd value \<and> hd value \<le> CHR ''z'')
             \<or> hd value = CHR ''_'')
     then False
     else list_all (\<lambda>character. (CHR ''A'' \<le> character \<and> character \<le> CHR ''Z'')
            \<or> (CHR ''a'' \<le> character \<and> character \<le> CHR ''z'')
            \<or> (CHR ''0'' \<le> character \<and> character \<le> CHR ''9'') \<or> character = CHR ''_'') value)"

fun commandErrorCodeName :: "CommandErrorCode \<Rightarrow> string option" where
  "commandErrorCodeName CommandErrorCode.InvalidArgument = Some ''INVALID_ARGUMENT''"
| "commandErrorCodeName CommandErrorCode.InvalidState = Some ''INVALID_STATE''"
| "commandErrorCodeName CommandErrorCode.DeviceBusy = Some ''DEVICE_BUSY''"
| "commandErrorCodeName CommandErrorCode.NoError = None"

fun result_value :: "CommandResultValue \<Rightarrow> json_doc option" where
  "result_value (RBool b) = Some (JBool b)"
| "result_value (RInt i) = Some (JInt i)"
| "result_value (RDouble d) = (if isfinite d then Some (JDouble d) else None)"
| "result_value (RString s) = (if command_isValidBoundedText s 512 then Some (JString s) else None)"

fun result_fields :: "CommandResultField list \<Rightarrow> string list \<Rightarrow> (string \<times> json_doc) list option" where
  "result_fields [] fieldNames = Some []"
| "result_fields (field # rest) fieldNames =
    (if \<not> isResultFieldName (field_name field) \<or> field_name field \<in> set fieldNames then None
     else case result_value (field_value field) of
       None \<Rightarrow> None
     | Some value \<Rightarrow>
         (case result_fields rest (fieldNames @ [field_name field]) of
            None \<Rightarrow> None
          | Some members \<Rightarrow> Some ((field_name field, value) # members)))"

definition result_payload :: "CommandExecutionResult \<Rightarrow> json_doc option" where
  "result_payload result =
    (if result_ok result
     then (if errorCode result \<noteq> CommandErrorCode.NoError \<or> errorMessage result \<noteq> []
              \<or> length (resultFields result) > 32 then None
           else map_option (\<lambda>members. JObject [(''ok'', JBool True), (''result'', JObject members)])
                  (result_fields (resultFields result) []))
     else case commandErrorCodeName (errorCode result) of
       None \<Rightarrow> None
     | Some code \<Rightarrow>
         if \<not> command_isValidBoundedText (errorMessage result) 160 then None
         else Some (JObject [(''ok'', JBool False),
                (''error'', JObject [(''code'', JString code), (''message'', JString (errorMessage result))])]))"

definition buildCommandResultJson ::
  "('v, 'z) json_lib_scheme \<Rightarrow> EnvelopeMetadata \<Rightarrow> string \<Rightarrow> CommandExecutionResult
     \<Rightarrow> CommandResultBuildError + string" where
  "buildCommandResultJson J envelope request_id result =
    (if \<not> command_isValidUuid (Some (takeWhile (\<lambda>c. c \<noteq> CHR 0x00) (messageId envelope)))
        \<or> \<not> command_isValidUuid (Some (takeWhile (\<lambda>c. c \<noteq> CHR 0x00) request_id))
        \<or> sentAtMs envelope > INT64_MAX
     then Inl CommandResultBuildError.InvalidArgument
     else case result_payload result of
       None \<Rightarrow> Inl CommandResultBuildError.InvalidArgument
     | Some payload \<Rightarrow>
        let output = serializeJson J (JObject
              [(''v'', JInt 1), (''type'', JString ''command_result''),
               (''message_id'', JString (messageId envelope)), (''request_id'', JString request_id),
               (''sent_at_ms'', JInt (uint (sentAtMs envelope))), (''payload'', payload)]) in
        if length output > kMaxJsonBytes then Inl CommandResultBuildError.MessageTooLarge
        else Inr output)"

section \<open>What the parser accepts\<close>

definition angle_in_range :: "cpp_double \<Rightarrow> bool" where
  "angle_in_range d \<longleftrightarrow> dle (Finite (- 90)) d \<and> dle d (Finite 90)"

definition byte_range :: "int \<Rightarrow> bool" where
  "byte_range i \<longleftrightarrow> 0 \<le> i \<and> i \<le> 255"

definition arguments_in_range :: "CommandName \<Rightarrow> CommandArguments \<Rightarrow> bool" where
  "arguments_in_range name a =
    (case name of
       Unknown \<Rightarrow> False
     | AudioSetVolume \<Rightarrow> 0 \<le> volume a \<and> volume a \<le> 100
     | DisplaySetBrightness \<Rightarrow> 0 \<le> brightness a \<and> brightness a \<le> 100
     | DisplayShowText \<Rightarrow> isValidBoundedText (showText a) 256 \<and> 100 \<le> durationMs a
         \<and> durationMs a \<le> 30000 \<and> 0 \<le> priority a \<and> priority a \<le> 10
     | AvatarSetExpression \<Rightarrow> isValidExpression (expression a)
     | HeadSetAngles \<Rightarrow> angle_in_range (yaw a) \<and> angle_in_range (pitch a)
         \<and> (hasSpeed a \<longrightarrow> 1 \<le> speed a \<and> speed a \<le> 100)
     | HeadHome \<Rightarrow> hasSpeed a \<longrightarrow> 1 \<le> speed a \<and> speed a \<le> 100
     | LedSet \<Rightarrow> byte_range (index a) \<and> byte_range (red a) \<and> byte_range (green a) \<and> byte_range (blue a)
     | LedSetAll \<Rightarrow> byte_range (red a) \<and> byte_range (green a) \<and> byte_range (blue a)
     | CameraCapture \<Rightarrow> isValidUuid (captureId a) \<and> 10 \<le> quality a \<and> quality a \<le> 95
         \<and> 1 \<le> captureTimeoutMs a \<and> captureTimeoutMs a \<le> 120000
     | CameraCancel \<Rightarrow> isValidUuid (captureId a)
     | _ \<Rightarrow> True)"

definition optional_uuid :: "string \<Rightarrow> bool" where
  "optional_uuid s \<longleftrightarrow> s = [] \<or> isValidUuid s"

definition valid_command :: "Command \<Rightarrow> bool" where
  "valid_command c \<longleftrightarrow> isValidUuid (command_messageId c) \<and> isValidUuid (requestId c)
     \<and> optional_uuid (command_turnId c) \<and> optional_uuid (command_streamId c)
     \<and> (command_deviceId c = [] \<or> isValidDeviceId (command_deviceId c))
     \<and> command_sentAtMs c \<le> INT64_MAX
     \<and> angle_in_range (yaw (arguments c)) \<and> angle_in_range (pitch (arguments c))
     \<and> arguments_in_range (command_name c) (arguments c)"

text \<open>What the parser relies on of the library: a member that reads as a string is a member of
  the object's key list.\<close>

definition members_are_keys :: "('v, 'z) json_lib_scheme \<Rightarrow> bool" where
  "members_are_keys J \<longleftrightarrow>
     (\<forall>v k s. as_string J (jmember J v k) = Some s \<longrightarrow> k \<in> set (jkeys J v))"

lemma hasKey_of_member:
  assumes "members_are_keys J" "as_cstring J (jmember J v k) = Some s" "CHR 0x00 \<notin> set k"
  shows "hasKey J v k"
proof -
  have "k \<in> set (jkeys J v)" using assms(1,2) by (auto simp: members_are_keys_def as_cstring_def)
  moreover have "\<forall>c\<in>set k. c \<noteq> CHR 0x00" using assms(3) by blast
  then have "takeWhile (\<lambda>c. c \<noteq> CHR 0x00) k = k" by (simp only: takeWhile_eq_all_conv)
  ultimately show ?thesis unfolding hasKey_def list_ex_iff by blast
qed

lemma angle_in_range_0 [simp]: "angle_in_range (Finite 0)"
  by (simp add: angle_in_range_def)

lemma new_arguments_simps [simp]:
  "yaw new_CommandArguments = Finite 0" "pitch new_CommandArguments = Finite 0"
  "hasSpeed new_CommandArguments = False"
  by (simp_all add: new_CommandArguments_def)

lemma readProtocolAngle_range: "readProtocolAngle J v = Some d \<Longrightarrow> angle_in_range d"
  by (cases d) (auto simp: readProtocolAngle_def angle_in_range_def Let_def split: if_splits)

lemma readByte_range: "readByte J v = Some i \<Longrightarrow> byte_range i"
  by (auto simp: readByte_def byte_range_def split: if_splits)

lemma parse_setting_range: "parse_setting J k args = Some i \<Longrightarrow> 0 \<le> i \<and> i \<le> 100"
  by (auto simp: parse_setting_def Let_def split: if_splits)

definition angles_ok :: "CommandArguments \<Rightarrow> bool" where
  "angles_ok a \<longleftrightarrow> angle_in_range (yaw a) \<and> angle_in_range (pitch a)"

lemma parse_show_text_range:
  "parse_show_text J args = Some a \<Longrightarrow> angles_ok a \<and> arguments_in_range DisplayShowText a"
  by (auto simp: parse_show_text_def Let_def arguments_in_range_def angles_ok_def command_isValidBoundedText_def
      split: if_splits option.splits)

lemma parse_set_angles_range:
  "parse_set_angles J args = Some a \<Longrightarrow> angles_ok a \<and> arguments_in_range HeadSetAngles a"
  by (auto simp: parse_set_angles_def Let_def arguments_in_range_def angles_ok_def
      dest!: readProtocolAngle_range split: if_splits option.splits)

lemma parse_home_range:
  "parse_home J args = Some a \<Longrightarrow> angles_ok a \<and> arguments_in_range HeadHome a"
  by (auto simp: parse_home_def Let_def arguments_in_range_def angles_ok_def split: if_splits)

lemma parse_led_set_range:
  "parse_led_set J args = Some a \<Longrightarrow> angles_ok a \<and> arguments_in_range LedSet a"
  by (auto simp: parse_led_set_def Let_def arguments_in_range_def angles_ok_def
      dest!: readByte_range split: if_splits option.splits)

lemma parse_led_set_all_range:
  "parse_led_set_all J args = Some a \<Longrightarrow> angles_ok a \<and> arguments_in_range LedSetAll a"
  by (auto simp: parse_led_set_all_def Let_def arguments_in_range_def angles_ok_def
      dest!: readByte_range split: if_splits option.splits)

lemma parse_capture_range:
  "parse_capture J args = Some a \<Longrightarrow> angles_ok a \<and> arguments_in_range CameraCapture a"
  by (auto simp: parse_capture_def Let_def arguments_in_range_def angles_ok_def command_isValidUuid_def
      split: if_splits option.splits)

lemma no_arguments_range: "no_arguments J args = Some a \<Longrightarrow> angles_ok a"
  by (auto simp: no_arguments_def angles_ok_def split: if_splits)

lemmas argument_ranges = parse_show_text_range parse_set_angles_range parse_home_range parse_led_set_range
  parse_led_set_all_range parse_capture_range no_arguments_range parse_setting_range

lemma name_Some_elim:
  assumes "(if name = (s :: string) then x else y) = Some z" "x = Some z \<Longrightarrow> P" "y = Some z \<Longrightarrow> P"
  shows P
  using assms by (simp split: if_splits)

lemma parse_arguments_range:
  assumes "parse_arguments J name turnId args = Some (n, a)"
  shows "angles_ok a \<and> arguments_in_range n a"
  using assms unfolding parse_arguments_def Let_def
  by (elim name_Some_elim)
    (auto simp: arguments_in_range_def angles_ok_def command_isValidUuid_def
      split: if_splits option.splits dest!: argument_ranges)

lemma optional_field:
  assumes "members_are_keys J" "CHR 0x00 \<notin> set k"
    and "hasKey J d k \<longrightarrow> command_isValidUuid (as_cstring J (jmember J d k))"
  shows "optional_uuid (or_empty (as_cstring J (jmember J d k)))"
  using assms hasKey_of_member [OF assms(1) _ assms(2)]
  by (cases "as_cstring J (jmember J d k)") (auto simp: optional_uuid_def or_empty_def command_isValidUuid_def)

lemma optional_device:
  assumes "members_are_keys J" "CHR 0x00 \<notin> set k"
    and "hasKey J d k \<longrightarrow> command_isValidDeviceId (as_cstring J (jmember J d k))"
  shows "or_empty (as_cstring J (jmember J d k)) = [] \<or> isValidDeviceId (or_empty (as_cstring J (jmember J d k)))"
  using assms hasKey_of_member [OF assms(1) _ assms(2)]
  by (cases "as_cstring J (jmember J d k)") (auto simp: or_empty_def command_isValidDeviceId_def)

lemma command_uuid_the: "command_isValidUuid v \<Longrightarrow> isValidUuid (the v)"
  by (cases v) (auto simp: command_isValidUuid_def)

lemma parsed_command_valid:
  assumes "members_are_keys J" "\<not> rejects_command_envelope J d" "angles_ok a \<and> arguments_in_range n a"
  shows "valid_command (parsed_command J d n a)"
  using assms optional_field [OF assms(1), of "''turn_id''" d] optional_field [OF assms(1), of "''stream_id''" d]
    optional_device [OF assms(1), of "''device_id''" d]
  by (simp add: rejects_command_envelope_def Let_def valid_command_def parsed_command_def angles_ok_def
      command_uuid_the not_less)

text \<open>C28: A command accepted by parseCommandJson has valid identifiers, a timestamp within int64 and
  arguments within the range of its name; its text was at most 16384 bytes.\<close>

theorem parse_command_valid:
  assumes "members_are_keys J" "parseCommandJson J input = Inr c"
  shows "valid_command c \<and> length input \<le> kMaxJsonBytes"
  using assms(2) parsed_command_valid [OF assms(1)] parse_arguments_range
  unfolding parseCommandJson_def Let_def
  by (fastforce split: if_split_asm option.split_asm prod.split_asm)

text \<open>A concrete message for the witnesses.\<close>

definition sample_uuid :: string where
  "sample_uuid = ''123e4567-e89b-42d3-a456-426614174000''"

definition sample_volume_message :: toy_value where
  "sample_volume_message =
     TObj [(''v'', TInt 1), (''type'', TStr ''command''), (''message_id'', TStr sample_uuid),
           (''request_id'', TStr sample_uuid), (''sent_at_ms'', TInt 5),
           (''payload'', TObj [(''name'', TStr ''audio.set_volume''),
                               (''args'', TObj [(''volume'', TInt 40)])])]"

definition sample_json :: "toy_value json_lib" where
  "sample_json = toy_json [(''volume'', sample_volume_message)]"

definition sample_volume_command :: Command where
  "sample_volume_command =
     \<lparr>command_name = AudioSetVolume, command_messageId = sample_uuid, requestId = sample_uuid,
      command_turnId = [], command_streamId = [], command_deviceId = [], command_sentAtMs = 5,
      arguments = new_CommandArguments\<lparr>volume := 40\<rparr>\<rparr>"

lemma toy_members_are_keys: "members_are_keys (toy_json texts)"
  by (auto simp: members_are_keys_def toy_json_def split: option.splits dest!: map_of_SomeD
      intro: rev_image_eqI)

lemma sample_uuid_valid: "isValidUuid sample_uuid"
  by (simp add: isValidUuid_chars sample_uuid_def uuid_char_ok_def uuid_separator_def isHexDigit_def)

lemma sample_parses: "parseCommandJson sample_json ''volume'' = Inr sample_volume_command"
  by code_simp

lemma parse_command_valid_witness: "valid_command sample_volume_command"
  using parse_command_valid [OF toy_members_are_keys sample_parses [unfolded sample_json_def]] by simp

section \<open>Retries are recognised by their content\<close>

lemma deq_finite: "isfinite x \<Longrightarrow> deq x y \<longleftrightarrow> x = y"
  by (cases x) auto

lemma angle_in_range_finite: "angle_in_range d \<Longrightarrow> isfinite d"
  by (cases d) (auto simp: angle_in_range_def)

lemma CommandArguments_eqI:
  assumes "volume a = volume b" "brightness a = brightness b" "showText a = showText b"
    "durationMs a = durationMs b" "priority a = priority b" "expression a = expression b"
    "enabled a = enabled b" "yaw a = yaw b" "pitch a = pitch b" "hasSpeed a = hasSpeed b"
    "speed a = speed b" "index a = index b" "red a = red b" "green a = green b" "blue a = blue b"
    "captureId a = captureId b" "quality a = quality b" "captureTimeoutMs a = captureTimeoutMs b"
  shows "a = (b :: CommandArguments)"
  using assms by simp

theorem same_request_iff:
  assumes "valid_command a"
  shows "isSameCommandRequest a b \<longleftrightarrow>
    a = b\<lparr>command_messageId := command_messageId a, command_sentAtMs := command_sentAtMs a\<rparr>"
proof
  have fin: "isfinite (yaw (arguments a))" "isfinite (pitch (arguments a))"
    using assms by (auto simp: valid_command_def intro: angle_in_range_finite)
  {
    assume s: "isSameCommandRequest a b"
    then have "arguments a = arguments b"
      by (intro CommandArguments_eqI) (simp_all add: isSameCommandRequest_def deq_finite fin)
    with s show "a = b\<lparr>command_messageId := command_messageId a, command_sentAtMs := command_sentAtMs a\<rparr>"
      by (simp add: isSameCommandRequest_def)
  next
    assume e: "a = b\<lparr>command_messageId := command_messageId a, command_sentAtMs := command_sentAtMs a\<rparr>"
    have "arguments a = arguments b" "command_name a = command_name b" "requestId a = requestId b"
      "command_turnId a = command_turnId b" "command_streamId a = command_streamId b"
      "command_deviceId a = command_deviceId b"
      by (subst e, simp)+
    then show "isSameCommandRequest a b" using fin by (simp add: isSameCommandRequest_def deq_finite)
  }
qed

lemma same_request_iff_witness:
  "isSameCommandRequest sample_volume_command (sample_volume_command\<lparr>command_sentAtMs := 9\<rparr>)
   \<and> \<not> isSameCommandRequest sample_volume_command
        (sample_volume_command\<lparr>arguments := (arguments sample_volume_command)\<lparr>volume := 41\<rparr>\<rparr>)"
  using same_request_iff [OF parse_command_valid_witness]
  by (simp add: sample_volume_command_def new_CommandArguments_def)

section \<open>Results are well-formed objects\<close>

definition valid_result_value :: "CommandResultValue \<Rightarrow> bool" where
  "valid_result_value v =
    (case v of RDouble d \<Rightarrow> isfinite d | RString s \<Rightarrow> isValidBoundedText s 512 | _ \<Rightarrow> True)"

definition valid_result :: "CommandExecutionResult \<Rightarrow> bool" where
  "valid_result r \<longleftrightarrow>
    (if result_ok r
     then errorCode r = CommandErrorCode.NoError \<and> errorMessage r = [] \<and> length (resultFields r) \<le> 32
          \<and> distinct (map field_name (resultFields r))
          \<and> list_all (\<lambda>f. isResultFieldName (field_name f) \<and> valid_result_value (field_value f)) (resultFields r)
     else errorCode r \<noteq> CommandErrorCode.NoError \<and> isValidBoundedText (errorMessage r) 160)"

lemma result_value_valid: "result_value v \<noteq> None \<longleftrightarrow> valid_result_value v"
  by (cases v) (auto simp: valid_result_value_def command_isValidBoundedText_def)

lemma result_fields_Some:
  "result_fields fs seen \<noteq> None \<longleftrightarrow> distinct (map field_name fs)
     \<and> field_name ` set fs \<inter> set seen = {}
     \<and> list_all (\<lambda>f. isResultFieldName (field_name f) \<and> valid_result_value (field_value f)) fs"
proof (induction fs arbitrary: seen)
  case (Cons f fs)
  show ?case
    using Cons.IH [of "seen @ [field_name f]"] result_value_valid [of "field_value f"]
    by (auto split: option.splits)
qed simp

lemma result_fields_members:
  "result_fields fs seen = Some members \<Longrightarrow> map fst members = map field_name fs
     \<and> map (Some \<circ> snd) members = map (result_value \<circ> field_value) fs"
  by (induction fs arbitrary: seen members) (auto split: if_splits option.splits)

lemma result_payload_Some: "result_payload r \<noteq> None \<longleftrightarrow> valid_result r"
proof -
  have e: "commandErrorCodeName e \<noteq> None \<longleftrightarrow> e \<noteq> CommandErrorCode.NoError" for e by (cases e) auto
  show ?thesis
    using result_fields_Some [of "resultFields r" "[]"] e [of "errorCode r"]
    by (auto simp: result_payload_def valid_result_def command_isValidBoundedText_def split: option.splits)
qed

end
