(* ===== verification/Session.thy ===== *)
theory Session
  imports Protocol Protocol_Guard Event Reconnect State_Machine Settings Audio_Input Audio_Output
    Camera_Capture Command
begin

text \<open>
  \<open>session.cpp\<close>: the client of the bridge.  The state is the record \<open>BridgeClient\<close> (member \<open>x_\<close> is
  \<open>m_x\<close>) with one more field, \<open>m_io\<close>: the calls it has made on the transport and on the callbacks
  of its configuration, in order.

  The transport, the clock of the envelopes and the callbacks are outside: what they answer is a
  function of the calls made so far (\<open>world\<close>), so every behaviour of the environment is an
  instance.  The transport delivers its callbacks from \<open>poll()\<close> only (the adapter queues them), so
  \<open>update\<close> takes the list of callbacks that this poll delivers.  The mutex guards the playback
  queue against the audio task; each critical section is one step here.
\<close>

section \<open>Configuration, environment and state\<close>

datatype Effect = SetHeader string string | SetReceiveBufferSize nat | Connect string
  | SendText string | SendBinary "u8 list" | Ping | Close | MakeEnvelope | Execute Command
  | FlushPlayback | NotifyState DeviceState | NotifyCameraAck string | ResolveUrl
  | NotifyUrl string

record BridgeClientConfig =
  bridgeUrl :: string
  bridgeUrlResolver :: "(Effect list \<Rightarrow> string) option"
  bridgeUrlChanged :: bool
  deviceToken :: string
  audioInputMaxDurationMs :: u32
  audioOutputPrerollMs :: u32
  helloEnvelope :: EnvelopeMetadata
  config_hello :: HelloPayload
  commandHandler :: "(Effect list \<Rightarrow> Command \<Rightarrow> CommandExecutionResult) option"
  envelopeFactory :: "(Effect list \<Rightarrow> EnvelopeMetadata) option"
  playbackFlushHandler :: bool
  stateChanged :: bool
  cameraCompletedAcknowledged :: bool

record 'v world =
  json :: "'v json_lib"
  config :: BridgeClientConfig
  connect_ok :: "Effect list \<Rightarrow> string \<Rightarrow> bool"
  sendText_ok :: "Effect list \<Rightarrow> string \<Rightarrow> bool"
  sendBinary_ok :: "Effect list \<Rightarrow> u8 list \<Rightarrow> bool"
  sizeof_CachedCommandResult :: nat

datatype ClientError = NoError | InvalidConfig | InvalidState | TransportFailure | ProtocolFailure

record PendingAudioBufferEvent =
  pending_streamId :: string
  pending_droppedPackets :: u32

definition new_PendingAudioBufferEvent :: PendingAudioBufferEvent where
  "new_PendingAudioBufferEvent = \<lparr>pending_streamId = [], pending_droppedPackets = 0\<rparr>"

record CachedCommandResult =
  cached_command :: Command
  cached_response :: string

definition kSeenMessageIdLimit :: nat where "kSeenMessageIdLimit = 256"
definition kCommandResultCacheLimit :: nat where "kCommandResultCacheLimit = kSeenMessageIdLimit"
definition kCommandResultCacheByteLimit :: nat where "kCommandResultCacheByteLimit = 256 * 1024"

record BridgeClient =
  m_bridgeUrl :: string
  m_state :: DeviceState
  m_audioOutput :: AudioOutputBuffer
  m_pendingUnderrun :: PendingAudioBufferEvent
  m_pendingOverflow :: PendingAudioBufferEvent
  m_helloJson :: string
  m_helloAcknowledgement :: "HelloAck option"
  m_reconnectBackoff :: ReconnectBackoff
  m_invalidMessageWindow :: InvalidMessageWindow
  m_seenMessageIds :: "string list"
  m_commandResultCache :: "CachedCommandResult list"
  m_commandResultCacheBytes :: nat
  m_lastUpdateMs :: u32
  m_reconnectPending :: bool
  m_reconnectScheduled :: bool
  m_reconnectScheduledAtMs :: u32
  m_reconnectDelayMs :: u32
  m_stableTimerArmed :: bool
  m_stableTimerStarted :: bool
  m_stableStartedAtMs :: u32
  m_handshakeTimerArmed :: bool
  m_handshakeTimerStarted :: bool
  m_handshakeStartedAtMs :: u32
  m_heartbeatTimerArmed :: bool
  m_heartbeatTimerStarted :: bool
  m_lastHeartbeatAtMs :: u32
  m_awaitingPong :: bool
  m_firstUnansweredPingAtMs :: u32
  m_audioInputTurnId :: string
  m_audioInputStreamId :: string
  m_recentlyCancelledAudioOutputTurnId :: string
  m_locallyCancelledAudioOutputTurnId :: string
  m_locallyCancelledAudioOutputStreamId :: string
  m_audioInputOpen :: bool
  m_audioInputTimerArmed :: bool
  m_audioInputTimerStarted :: bool
  m_audioInputStartedAtMs :: u32
  m_io :: "Effect list"

definition new_BridgeClient :: "('v, 'z) world_scheme \<Rightarrow> BridgeClient" where
  "new_BridgeClient W =
     \<lparr>m_bridgeUrl = bridgeUrl (config W), m_state = Booting,
      m_audioOutput = new_AudioOutputBuffer (sint (audioOutputPrerollMs (config W))),
      m_pendingUnderrun = new_PendingAudioBufferEvent, m_pendingOverflow = new_PendingAudioBufferEvent,
      m_helloJson = [], m_helloAcknowledgement = None, m_reconnectBackoff = new_ReconnectBackoff,
      m_invalidMessageWindow = new_InvalidMessageWindow, m_seenMessageIds = [],
      m_commandResultCache = [], m_commandResultCacheBytes = 0, m_lastUpdateMs = 0,
      m_reconnectPending = False, m_reconnectScheduled = False, m_reconnectScheduledAtMs = 0,
      m_reconnectDelayMs = 0, m_stableTimerArmed = False, m_stableTimerStarted = False,
      m_stableStartedAtMs = 0, m_handshakeTimerArmed = False, m_handshakeTimerStarted = False,
      m_handshakeStartedAtMs = 0, m_heartbeatTimerArmed = False, m_heartbeatTimerStarted = False,
      m_lastHeartbeatAtMs = 0, m_awaitingPong = False, m_firstUnansweredPingAtMs = 0,
      m_audioInputTurnId = [], m_audioInputStreamId = [], m_recentlyCancelledAudioOutputTurnId = [],
      m_locallyCancelledAudioOutputTurnId = [], m_locallyCancelledAudioOutputStreamId = [],
      m_audioInputOpen = False, m_audioInputTimerArmed = False, m_audioInputTimerStarted = False,
      m_audioInputStartedAtMs = 0, m_io = []\<rparr>"

section \<open>Calls on the environment\<close>

definition emit :: "Effect \<Rightarrow> BridgeClient \<Rightarrow> BridgeClient" where
  "emit e s = s\<lparr>m_io := m_io s @ [e]\<rparr>"

definition sendText :: "('v, 'z) world_scheme \<Rightarrow> string \<Rightarrow> BridgeClient \<Rightarrow> bool \<times> BridgeClient" where
  "sendText W message s = (sendText_ok W (m_io s) message, emit (SendText message) s)"

definition sendBinary :: "('v, 'z) world_scheme \<Rightarrow> u8 list \<Rightarrow> BridgeClient \<Rightarrow> bool \<times> BridgeClient" where
  "sendBinary W data s = (sendBinary_ok W (m_io s) data, emit (SendBinary data) s)"

text \<open>The statements \<open>reconnectPending_ = true; transport_.close();\<close> after a failed send, and the
  same with \<open>reconnectScheduled_ = false\<close> between them.\<close>

definition fail_transport :: "BridgeClient \<Rightarrow> BridgeClient" where
  "fail_transport s = emit Close (s\<lparr>m_reconnectPending := True\<rparr>)"

definition drop_connection :: "BridgeClient \<Rightarrow> BridgeClient" where
  "drop_connection s = emit Close (s\<lparr>m_reconnectPending := True, m_reconnectScheduled := False\<rparr>)"

definition transitionState ::
  "('v, 'z) world_scheme \<Rightarrow> DeviceEvent \<Rightarrow> BridgeClient \<Rightarrow> TransitionError \<times> BridgeClient" where
  "transitionState W event s =
    (let previous = m_state s;
         (error, state) = transition (m_state s) event;
         s = s\<lparr>m_state := state\<rparr>
     in (error, if error = TransitionError.NoError \<and> state \<noteq> previous \<and> stateChanged (config W)
                then emit (NotifyState state) s else s))"

definition hasSeenMessageId :: "string \<Rightarrow> BridgeClient \<Rightarrow> bool" where
  "hasSeenMessageId message_id s \<longleftrightarrow> message_id \<in> set (m_seenMessageIds s)"

definition rememberMessageId :: "string \<Rightarrow> BridgeClient \<Rightarrow> BridgeClient" where
  "rememberMessageId message_id s =
    (if hasSeenMessageId message_id s then s
     else let s = (if length (m_seenMessageIds s) = kSeenMessageIdLimit
                   then s\<lparr>m_seenMessageIds := tl (m_seenMessageIds s)\<rparr> else s)
       in s\<lparr>m_seenMessageIds := m_seenMessageIds s @ [message_id]\<rparr>)"

definition reportPeerError ::
  "('v, 'z) world_scheme \<Rightarrow> PeerErrorCode \<Rightarrow> string \<Rightarrow> BridgeClient \<Rightarrow> BridgeClient" where
  "reportPeerError W code message s =
    (let (sent, s) =
       (case (m_helloAcknowledgement s, envelopeFactory (config W)) of
          (Some ack, Some factory) \<Rightarrow>
            (let envelope = factory (m_io s); s = emit MakeEnvelope s in
             case buildPeerErrorJson (json W) envelope code message of
               Inl e \<Rightarrow> (False, s)
             | Inr response \<Rightarrow> sendText W response s)
        | _ \<Rightarrow> (False, s));
       (terminal, window) = observe (m_lastUpdateMs s) (m_invalidMessageWindow s);
       s = s\<lparr>m_invalidMessageWindow := window\<rparr>
     in if \<not> sent \<or> terminal then drop_connection s else s)"

section \<open>Starting and connecting\<close>

text \<open>The condition of \<open>initialize\<close> up to the call of \<open>buildHelloJson\<close>, which is evaluated last and
  writes \<open>helloJson_\<close>.\<close>

definition rejects_config :: "('v, 'z) world_scheme \<Rightarrow> BridgeClient \<Rightarrow> bool" where
  "rejects_config W s =
    (let cfg = config W;
         endpointIsValid = (if m_bridgeUrl s = [] then bridgeUrlResolver cfg \<noteq> None
           else endpoint_ok (resolveBridgeEndpoint (new_BridgeEndpointSources\<lparr>nvsUrl := m_bridgeUrl s\<rparr>)))
     in deviceToken cfg = [] \<or> length (deviceToken cfg) > 512
        \<or> \<not> isSafeHeaderValue (deviceToken cfg) \<or> \<not> endpointIsValid
        \<or> audioInputMaxDurationMs cfg < 1000 \<or> audioInputMaxDurationMs cfg > 15000
        \<or> unat (audioOutputPrerollMs cfg) > kAudioOutputQueuePackets * unat (frameMs (audio (config_hello cfg))))"

definition initialize :: "('v, 'z) world_scheme \<Rightarrow> BridgeClient \<Rightarrow> ClientError \<times> BridgeClient" where
  "initialize W s =
    (if rejects_config W s then (InvalidConfig, snd (transitionState W HardwareOrConfigFailure s))
     else case buildHelloJson (json W) (helloEnvelope (config W)) (config_hello (config W)) of
       Inl e \<Rightarrow> (InvalidConfig, snd (transitionState W HardwareOrConfigFailure (s\<lparr>m_helloJson := []\<rparr>)))
     | Inr output \<Rightarrow>
        let (error, s) = transitionState W InitializationSucceeded (s\<lparr>m_helloJson := output\<rparr>) in
        if error \<noteq> TransitionError.NoError then (ClientError.InvalidState, s)
        else (ClientError.NoError, emit (SetReceiveBufferSize kMaxJsonBytes) s))"

definition resolveBridgeUrl :: "('v, 'z) world_scheme \<Rightarrow> BridgeClient \<Rightarrow> ClientError \<times> BridgeClient" where
  "resolveBridgeUrl W s =
    (case bridgeUrlResolver (config W) of
       None \<Rightarrow> ((if m_bridgeUrl s = [] then InvalidConfig else ClientError.NoError), s)
     | Some resolver \<Rightarrow>
        let resolved = resolveBridgeEndpoint (new_BridgeEndpointSources\<lparr>nvsUrl := resolver (m_io s)\<rparr>);
            s = emit ResolveUrl s
        in if \<not> endpoint_ok resolved then (ClientError.TransportFailure, s)
           else let changed = m_bridgeUrl s \<noteq> endpoint_url resolved;
                    s = s\<lparr>m_bridgeUrl := endpoint_url resolved\<rparr>
             in (ClientError.NoError,
                 if changed \<and> bridgeUrlChanged (config W) then emit (NotifyUrl (m_bridgeUrl s)) s else s))"

definition connect_url :: "('v, 'z) world_scheme \<Rightarrow> BridgeClient \<Rightarrow> ClientError \<times> BridgeClient" where
  "connect_url W s =
    (let ok = connect_ok W (m_io s) (m_bridgeUrl s);
         s = emit (Connect (m_bridgeUrl s)) s
     in if \<not> ok then (ClientError.TransportFailure, s\<lparr>m_reconnectPending := True\<rparr>)
        else (ClientError.NoError, s))"

definition wifiConnected :: "('v, 'z) world_scheme \<Rightarrow> BridgeClient \<Rightarrow> ClientError \<times> BridgeClient" where
  "wifiConnected W s =
    (if m_state s \<noteq> ConnectingWifi then (ClientError.InvalidState, s)
     else let (error, s) = transitionState W WifiConnected s in
       if error \<noteq> TransitionError.NoError then (ClientError.InvalidState, s)
       else let s = emit (SetHeader ''Authorization'' (''Bearer '' @ deviceToken (config W))) s;
                s = emit (SetHeader ''X-StackChan-Device-Id'' (deviceId (config_hello (config W)))) s;
                (resolution, s) = resolveBridgeUrl W s
         in if resolution \<noteq> ClientError.NoError
            then (resolution, s\<lparr>m_reconnectPending := True, m_reconnectScheduled := False\<rparr>)
            else connect_url W (s\<lparr>m_reconnectPending := False, m_reconnectScheduled := False\<rparr>))"

definition reconnect :: "('v, 'z) world_scheme \<Rightarrow> BridgeClient \<Rightarrow> ClientError \<times> BridgeClient" where
  "reconnect W s =
    (if m_state s \<noteq> ConnectingBridge then (ClientError.InvalidState, s)
     else let (resolution, s) = resolveBridgeUrl W s in
       if resolution \<noteq> ClientError.NoError then (resolution, s\<lparr>m_reconnectPending := True\<rparr>)
       else connect_url W (s\<lparr>m_reconnectPending := False, m_reconnectScheduled := False\<rparr>))"

definition handleTransportDisconnected :: "('v, 'z) world_scheme \<Rightarrow> BridgeClient \<Rightarrow> BridgeClient" where
  "handleTransportDisconnected W s =
    (let s = s\<lparr>m_helloAcknowledgement := None,
               m_audioOutput := reset (m_audioOutput s),
               m_pendingUnderrun := new_PendingAudioBufferEvent,
               m_pendingOverflow := new_PendingAudioBufferEvent,
               m_audioInputTurnId := [], m_audioInputStreamId := [],
               m_audioInputOpen := False, m_audioInputTimerArmed := False,
               m_audioInputTimerStarted := False,
               m_recentlyCancelledAudioOutputTurnId := [],
               m_locallyCancelledAudioOutputTurnId := [],
               m_locallyCancelledAudioOutputStreamId := [],
               m_stableTimerArmed := False, m_stableTimerStarted := False,
               m_handshakeTimerArmed := False, m_handshakeTimerStarted := False,
               m_heartbeatTimerArmed := False, m_heartbeatTimerStarted := False,
               m_invalidMessageWindow := reset_window (m_invalidMessageWindow s),
               m_awaitingPong := False, m_seenMessageIds := [],
               m_commandResultCache := [], m_commandResultCacheBytes := 0\<rparr>;
         s = snd (transitionState W BridgeDisconnected s)
     in s\<lparr>m_reconnectPending := True, m_reconnectScheduled := False\<rparr>)"

section \<open>Local operations\<close>

definition endAudioInput ::
  "('v, 'z) world_scheme \<Rightarrow> AudioInputEndReason \<Rightarrow> BridgeClient \<Rightarrow> AudioInputError \<times> BridgeClient" where
  "endAudioInput W reason s =
    (if \<not> m_audioInputOpen s \<or> m_state s \<noteq> Listening then (AudioInputError.InvalidState, s)
     else case envelopeFactory (config W) of
       None \<Rightarrow> (AudioInputError.InvalidState, s)
     | Some factory \<Rightarrow>
        let envelope = factory (m_io s); s = emit MakeEnvelope s in
        case buildAudioInputEndJson (json W) envelope (m_audioInputTurnId s) (m_audioInputStreamId s) reason of
          Inl e \<Rightarrow> (AudioInputError.InvalidArgument, s)
        | Inr message \<Rightarrow>
           let (sent, s) = sendText W message s in
           if \<not> sent then (AudioInputError.TransportFailure, fail_transport s)
           else let s = s\<lparr>m_audioInputTurnId := [], m_audioInputStreamId := [], m_audioInputOpen := False,
                          m_audioInputTimerArmed := False, m_audioInputTimerStarted := False\<rparr>;
                    (error, s) = transitionState W InputEnded s
             in if error \<noteq> TransitionError.NoError then (AudioInputError.InvalidState, s)
                else (AudioInputError.NoError, s))"

definition beginAudioInput ::
  "('v, 'z) world_scheme \<Rightarrow> string \<Rightarrow> string \<Rightarrow> AudioInputTrigger \<Rightarrow> BridgeClient
     \<Rightarrow> AudioInputError \<times> BridgeClient" where
  "beginAudioInput W turn stream trigger s =
    (let bargeIn = m_state s = Speaking in
     if (m_state s \<noteq> Idle \<and> \<not> bargeIn) \<or> m_audioInputOpen s then (AudioInputError.InvalidState, s)
     else case envelopeFactory (config W) of
       None \<Rightarrow> (AudioInputError.InvalidState, s)
     | Some factory \<Rightarrow>
        let envelope = factory (m_io s); s = emit MakeEnvelope s in
        case buildAudioInputStartJson (json W) envelope turn stream trigger
               (uint (frameMs (audio (config_hello (config W))))) of
          Inl e \<Rightarrow> (AudioInputError.InvalidArgument, s)
        | Inr message \<Rightarrow>
           let (bargeError, s) =
             (if bargeIn then
                let s = (if playbackFlushHandler (config W) then emit FlushPlayback s else s);
                    s = s\<lparr>m_locallyCancelledAudioOutputTurnId := buffer_turnId (m_audioOutput s),
                          m_locallyCancelledAudioOutputStreamId := buffer_streamId (m_audioOutput s),
                          m_recentlyCancelledAudioOutputTurnId := buffer_turnId (m_audioOutput s),
                          m_audioOutput := reset (m_audioOutput s),
                          m_pendingUnderrun := new_PendingAudioBufferEvent,
                          m_pendingOverflow := new_PendingAudioBufferEvent\<rparr>
                in transitionState W BargeInTriggered s
              else (TransitionError.NoError, s))
           in if bargeError \<noteq> TransitionError.NoError then (AudioInputError.InvalidState, s)
              else let (sent, s) = sendText W message s in
                if \<not> sent then (AudioInputError.TransportFailure, fail_transport s)
                else let (error, s) = (if \<not> bargeIn then transitionState W LocalInputAccepted s
                                       else (TransitionError.NoError, s))
                  in if error \<noteq> TransitionError.NoError then (AudioInputError.InvalidState, s)
                     else (AudioInputError.NoError,
                       s\<lparr>m_audioInputTurnId := turn, m_audioInputStreamId := stream,
                         m_audioInputOpen := True, m_audioInputTimerArmed := True,
                         m_audioInputTimerStarted := False\<rparr>))"

definition sendAudioInputPacket ::
  "('v, 'z) world_scheme \<Rightarrow> u8 list option \<Rightarrow> nat \<Rightarrow> BridgeClient \<Rightarrow> AudioInputError \<times> BridgeClient" where
  "sendAudioInputPacket W data sz s =
    (if \<not> m_audioInputOpen s \<or> m_state s \<noteq> Listening then (AudioInputError.InvalidState, s)
     else if sz > kMaxAudioPacketBytes then (AudioInputError.PacketTooLarge, s)
     else case data of
       None \<Rightarrow> (AudioInputError.InvalidArgument, s)
     | Some bytes \<Rightarrow>
        if sz = 0 then (AudioInputError.InvalidArgument, s)
        else let (sent, s) = sendBinary W (take sz bytes) s in
          if \<not> sent then (AudioInputError.TransportFailure, fail_transport s)
          else (AudioInputError.NoError, s))"

text \<open>\<open>in_session\<close> is the test for the three states of a session that the operations repeat.  A
  built message is sent, and a failed send closes the connection.\<close>

definition send_event :: "('v, 'z) world_scheme \<Rightarrow> ('e + string) \<Rightarrow> BridgeClient \<Rightarrow> ClientError \<times> BridgeClient" where
  "send_event W built s =
    (case built of
       Inl e \<Rightarrow> (ProtocolFailure, s)
     | Inr message \<Rightarrow>
        let (sent, s) = sendText W message s in
        if \<not> sent then (ClientError.TransportFailure, fail_transport s)
        else (ClientError.NoError, s))"

definition sendTouchTap ::
  "('v, 'z) world_scheme \<Rightarrow> int \<Rightarrow> int \<Rightarrow> BridgeClient \<Rightarrow> ClientError \<times> BridgeClient" where
  "sendTouchTap W x y s =
    (case (m_helloAcknowledgement s, envelopeFactory (config W)) of
       (Some ack, Some factory) \<Rightarrow>
         if \<not> in_session (m_state s) \<or> \<not> touch (capabilities (config_hello (config W)))
         then (ClientError.InvalidState, s)
         else let envelope = factory (m_io s); s = emit MakeEnvelope s in
           send_event W (buildTouchTapEventJson (json W) envelope (deviceId (config_hello (config W))) x y) s
     | _ \<Rightarrow> (ClientError.InvalidState, s))"

definition sendCameraCompleted ::
  "('v, 'z) world_scheme \<Rightarrow> string \<Rightarrow> bool \<Rightarrow> CameraCompletionError \<Rightarrow> string \<Rightarrow> nat \<Rightarrow> BridgeClient
     \<Rightarrow> ClientError \<times> BridgeClient" where
  "sendCameraCompleted W capture ok error digest sizeBytes s =
    (case (m_helloAcknowledgement s, envelopeFactory (config W)) of
       (Some ack, Some factory) \<Rightarrow>
         if \<not> in_session (m_state s) then (ClientError.InvalidState, s)
         else let envelope = factory (m_io s); s = emit MakeEnvelope s in
           send_event W (buildCameraCompletedEventJson (json W) envelope
             (deviceId (config_hello (config W))) capture ok error digest sizeBytes) s
     | _ \<Rightarrow> (ClientError.InvalidState, s))"

definition reportAudioDecodeFailure :: "('v, 'z) world_scheme \<Rightarrow> BridgeClient \<Rightarrow> ClientError \<times> BridgeClient" where
  "reportAudioDecodeFailure W s =
    (let s = s\<lparr>m_audioOutput := reset (m_audioOutput s),
               m_pendingUnderrun := new_PendingAudioBufferEvent,
               m_pendingOverflow := new_PendingAudioBufferEvent\<rparr>;
         s = (if m_state s = Speaking then snd (transitionState W PlaybackEnded s) else s)
     in case (m_helloAcknowledgement s, envelopeFactory (config W)) of
          (Some ack, Some factory) \<Rightarrow>
            if m_state s \<noteq> Idle \<and> m_state s \<noteq> Listening then (ClientError.InvalidState, s)
            else let envelope = factory (m_io s); s = emit MakeEnvelope s in
              send_event W (buildDeviceFaultEventJson (json W) envelope
                (deviceId (config_hello (config W))) DeviceFaultEventType.DeviceError
                DeviceFaultCode.AudioDecodeError ''Audio playback could not be decoded'') s
        | _ \<Rightarrow> (ClientError.InvalidState, s))"

definition popAudioOutputPacket :: "BridgeClient \<Rightarrow> u8 list option \<times> BridgeClient" where
  "popAudioOutputPacket s =
    (let (packet, buffer) = pop (m_audioOutput s) in (packet, s\<lparr>m_audioOutput := buffer\<rparr>))"

definition deliverAudioOutputPacket ::
  "bool \<Rightarrow> (int \<Rightarrow> int \<Rightarrow> u8 list \<Rightarrow> bool) option \<Rightarrow> BridgeClient \<Rightarrow> bool \<times> BridgeClient" where
  "deliverAudioOutputPacket downstreamPlaybackIdle consumer s =
    (let previousUnderflows = underflowCount (m_audioOutput s);
         stream = buffer_streamId (m_audioOutput s);
         (delivered, buffer) =
           (if downstreamPlaybackIdle \<or> queuedPackets (m_audioOutput s) > 0
            then deliverNext (Some (\<lambda>st packet. case consumer of
                   None \<Rightarrow> False
                 | Some accepts \<Rightarrow> accepts (stream_sampleRate st) (stream_frameMs st) packet)) (m_audioOutput s)
            else (False, m_audioOutput s));
         s = s\<lparr>m_audioOutput := buffer\<rparr>;
         currentUnderflows = underflowCount buffer
     in (delivered,
         if currentUnderflows > previousUnderflows \<and> stream \<noteq> []
         then let pending = (if pending_streamId (m_pendingUnderrun s) \<noteq> stream
                             then \<lparr>pending_streamId = stream, pending_droppedPackets = 0\<rparr>
                             else m_pendingUnderrun s);
                  added = currentUnderflows - previousUnderflows
           in s\<lparr>m_pendingUnderrun := pending\<lparr>pending_droppedPackets :=
                  of_nat (min 65535 (unat (pending_droppedPackets pending) + added))\<rparr>\<rparr>
         else s))"

definition audioOutputDeliveryComplete :: "BridgeClient \<Rightarrow> bool" where
  "audioOutputDeliveryComplete s = deliveryComplete (m_audioOutput s)"

definition acknowledgeAudioOutputPlayback ::
  "('v, 'z) world_scheme \<Rightarrow> BridgeClient \<Rightarrow> ClientError \<times> BridgeClient" where
  "acknowledgeAudioOutputPlayback W s =
    (if m_state s \<noteq> Speaking \<or> \<not> deliveryComplete (m_audioOutput s) then (ClientError.InvalidState, s)
     else let (error, buffer) = acknowledgePlayback (buffer_turnId (m_audioOutput s))
                                  (buffer_streamId (m_audioOutput s)) (m_audioOutput s);
              s = s\<lparr>m_audioOutput := buffer\<rparr>
       in if error \<noteq> AudioOutputError.NoError then (ClientError.InvalidState, s)
          else let (e, s) = transitionState W PlaybackEnded s in
            (if e = TransitionError.NoError then ClientError.NoError else ClientError.InvalidState, s))"

section \<open>Messages from the bridge\<close>

definition on_hello_ack :: "('v, 'z) world_scheme \<Rightarrow> string option \<Rightarrow> bool \<Rightarrow> BridgeClient \<Rightarrow> BridgeClient" where
  "on_hello_ack W data binary s =
    (if binary \<or> data = None then emit Close s
     else case parseHelloAckJson (json W) (the data) of
       Inl e \<Rightarrow> emit Close s
     | Inr acknowledgement \<Rightarrow>
        let (error, s) = transitionState W HelloAcknowledged s in
        if error \<noteq> TransitionError.NoError then emit Close s
        else s\<lparr>m_helloAcknowledgement := Some acknowledgement,
               m_handshakeTimerArmed := False, m_handshakeTimerStarted := False,
               m_stableTimerArmed := True, m_stableTimerStarted := False,
               m_heartbeatTimerArmed := True, m_heartbeatTimerStarted := False\<rparr>)"

definition on_binary :: "('v, 'z) world_scheme \<Rightarrow> u8 list \<Rightarrow> BridgeClient \<Rightarrow> BridgeClient" where
  "on_binary W packet s =
    (let stream = buffer_streamId (m_audioOutput s);
         (pushError, buffer) = push (Some packet) (m_audioOutput s);
         s = s\<lparr>m_audioOutput := buffer\<rparr>;
         s = (if pushError = QueueOverflow \<and> stream \<noteq> []
              then let pending = (if pending_streamId (m_pendingOverflow s) \<noteq> stream
                                  then \<lparr>pending_streamId = stream, pending_droppedPackets = 0\<rparr>
                                  else m_pendingOverflow s)
                in s\<lparr>m_pendingOverflow := (if pending_droppedPackets pending < 65535
                       then pending\<lparr>pending_droppedPackets := pending_droppedPackets pending + 1\<rparr>
                       else pending)\<rparr>
              else s)
     in if pushError = AudioOutputError.InvalidState
        then reportPeerError W PeerErrorCode.InvalidState ''Audio output stream is not active'' s
        else if pushError = AudioOutputError.PacketTooLarge \<or> pushError = AudioOutputError.InvalidArgument
        then reportPeerError W PeerErrorCode.InvalidMessage ''Invalid audio output packet'' s
        else s)"

definition on_audio_start :: "('v, 'z) world_scheme \<Rightarrow> AudioOutputStream \<Rightarrow> BridgeClient \<Rightarrow> BridgeClient" where
  "on_audio_start W stream s =
    (let (ended, s) = (if m_audioInputOpen s then endAudioInput W Silence s else (AudioInputError.NoError, s))
     in if ended \<noteq> AudioInputError.NoError then s
        else let (startError, buffer) = Audio_Output.start stream (m_audioOutput s);
                 s = s\<lparr>m_audioOutput := buffer\<rparr>;
                 (accepted, s) =
                   (if startError = AudioOutputError.NoError
                    then let (error, s) = transitionState W PlaybackStarted s in
                      if error \<noteq> TransitionError.NoError
                      then (False, s\<lparr>m_audioOutput := reset (m_audioOutput s)\<rparr>)
                      else (True, s\<lparr>m_recentlyCancelledAudioOutputTurnId := []\<rparr>)
                    else (False, s))
          in if \<not> accepted
             then reportPeerError W PeerErrorCode.InvalidState ''Audio output stream is already active'' s
             else s)"

definition on_audio_end ::
  "('v, 'z) world_scheme \<Rightarrow> AudioOutputStream \<Rightarrow> AudioOutputEndReason \<Rightarrow> BridgeClient \<Rightarrow> BridgeClient" where
  "on_audio_end W stream reason s =
    (if turnId stream = m_locallyCancelledAudioOutputTurnId s
        \<and> streamId stream = m_locallyCancelledAudioOutputStreamId s then s
     else
       let flushPlayback = reason \<noteq> Completed \<and> isOpen (m_audioOutput s)
             \<and> buffer_turnId (m_audioOutput s) = turnId stream
             \<and> buffer_streamId (m_audioOutput s) = streamId stream;
           s = (if flushPlayback \<and> playbackFlushHandler (config W) then emit FlushPlayback s else s);
           (finishError, buffer) = finish (turnId stream) (streamId stream) reason (m_audioOutput s);
           s = s\<lparr>m_audioOutput := buffer\<rparr>;
           accepted = finishError = AudioOutputError.NoError;
           s = (if accepted \<and> reason = Cancelled
                then s\<lparr>m_recentlyCancelledAudioOutputTurnId := turnId stream\<rparr> else s)
       in if \<not> accepted
          then reportPeerError W PeerErrorCode.InvalidState ''Audio output stream does not match'' s
          else if reason \<noteq> Completed then snd (transitionState W PlaybackEnded s)
          else s)"

definition on_audio_control :: "('v, 'z) world_scheme \<Rightarrow> AudioOutputControl \<Rightarrow> BridgeClient \<Rightarrow> BridgeClient" where
  "on_audio_control W control s =
    (if hasSeenMessageId (control_messageId control) s then s
     else let s = rememberMessageId (control_messageId control) s in
       if control_type control = Start then on_audio_start W (control_stream control) s
       else on_audio_end W (control_stream control) (control_reason control) s)"

definition on_remote_error :: "('v, 'z) world_scheme \<Rightarrow> RemoteErrorMessage \<Rightarrow> BridgeClient \<Rightarrow> BridgeClient" where
  "on_remote_error W remoteError s =
    (if hasSeenMessageId (remote_messageId remoteError) s then s
     else let s = rememberMessageId (remote_messageId remoteError) s in
       if remote_code remoteError = RemoteErrorCode.AudioDecodeError \<and> m_audioInputOpen s
          \<and> remote_turnId remoteError = m_audioInputTurnId s
          \<and> remote_streamId remoteError = m_audioInputStreamId s
       then snd (transitionState W InputEnded
              (s\<lparr>m_audioInputTurnId := [], m_audioInputStreamId := [], m_audioInputOpen := False,
                 m_audioInputTimerArmed := False, m_audioInputTimerStarted := False\<rparr>))
       else s)"

text \<open>The execution of a new command: \<open>speech.cancel\<close> first cancels the playback of its turn.\<close>

definition run_handler ::
  "(Effect list \<Rightarrow> Command \<Rightarrow> CommandExecutionResult) \<Rightarrow> Command \<Rightarrow> BridgeClient
     \<Rightarrow> CommandExecutionResult \<times> BridgeClient" where
  "run_handler handler command s = (handler (m_io s) command, emit (Execute command) s)"

definition execute_command ::
  "('v, 'z) world_scheme \<Rightarrow> (Effect list \<Rightarrow> Command \<Rightarrow> CommandExecutionResult) \<Rightarrow> Command \<Rightarrow> BridgeClient
     \<Rightarrow> CommandExecutionResult \<times> BridgeClient" where
  "execute_command W handler command s =
    (if command_name command = SpeechCancel
     then let (cancelError, buffer) = cancelTurn (command_turnId command) (m_audioOutput s);
              s = s\<lparr>m_audioOutput := buffer\<rparr>;
              repeatedCancellation = cancelError = AudioOutputError.InvalidState
                \<and> m_recentlyCancelledAudioOutputTurnId s = command_turnId command
       in if cancelError \<noteq> AudioOutputError.NoError \<and> \<not> repeatedCancellation
          then (new_CommandExecutionResult\<lparr>errorCode := CommandErrorCode.InvalidState,
                  errorMessage := ''Speech turn is not active''\<rparr>, s)
          else let s = s\<lparr>m_recentlyCancelledAudioOutputTurnId := []\<rparr>;
                   (result, s) = run_handler handler command s
            in (result, if m_state s = Speaking then snd (transitionState W PlaybackEnded s) else s)
     else run_handler handler command s)"

definition answer_command ::
  "('v, 'z) world_scheme \<Rightarrow> (Effect list \<Rightarrow> EnvelopeMetadata) \<Rightarrow> Command \<Rightarrow> nat \<Rightarrow> CommandExecutionResult
     \<Rightarrow> BridgeClient \<Rightarrow> BridgeClient" where
  "answer_command W factory command commandStorageBytes result s =
    (let envelope = factory (m_io s); s = emit MakeEnvelope s in
     case buildCommandResultJson (json W) envelope (requestId command) result of
       Inl e \<Rightarrow> fail_transport s
     | Inr response \<Rightarrow>
        let (sent, s) = sendText W response s in
        if \<not> sent then fail_transport s
        else s\<lparr>m_commandResultCacheBytes := m_commandResultCacheBytes s + commandStorageBytes + length response,
               m_commandResultCache := m_commandResultCache s
                 @ [\<lparr>cached_command = command, cached_response = response\<rparr>]\<rparr>)"

definition on_command ::
  "('v, 'z) world_scheme \<Rightarrow> (Effect list \<Rightarrow> Command \<Rightarrow> CommandExecutionResult)
     \<Rightarrow> (Effect list \<Rightarrow> EnvelopeMetadata) \<Rightarrow> string \<Rightarrow> Command \<Rightarrow> BridgeClient \<Rightarrow> BridgeClient" where
  "on_command W handler factory input command s =
    (case List.find (\<lambda>entry. requestId (cached_command entry) = requestId command) (m_commandResultCache s) of
       Some cached \<Rightarrow>
         (let s = rememberMessageId (command_messageId command) s in
          if \<not> isSameCommandRequest (cached_command cached) command
          then reportPeerError W PeerErrorCode.InvalidMessage
                 ''Request ID was reused with different command content'' s
          else let (sent, s) = sendText W (cached_response cached) s in
            if \<not> sent then drop_connection s else s)
     | None \<Rightarrow>
        if m_reconnectPending s \<or> hasSeenMessageId (command_messageId command) s then s
        else let commandStorageBytes = length input + sizeof_CachedCommandResult W in
          if length (m_commandResultCache s) \<ge> kCommandResultCacheLimit
             \<or> m_commandResultCacheBytes s + commandStorageBytes + kMaxJsonBytes > kCommandResultCacheByteLimit
          then drop_connection (reportPeerError W PeerErrorCode.InvalidState
                 ''Command replay history is full; reconnect required'' s)
          else let s = rememberMessageId (command_messageId command) s;
                   (result, s) = execute_command W handler command s
            in answer_command W factory command commandStorageBytes result s)"

definition on_text :: "('v, 'z) world_scheme \<Rightarrow> string \<Rightarrow> BridgeClient \<Rightarrow> BridgeClient" where
  "on_text W input s =
    (case parseCameraCompletedAck (json W) input of
       Some acknowledgedCapture \<Rightarrow>
         if cameraCompletedAcknowledged (config W) then emit (NotifyCameraAck acknowledgedCapture) s else s
     | None \<Rightarrow>
        case parseAudioOutputControlJson (json W) input of
          Inr control \<Rightarrow> on_audio_control W control s
        | Inl audioParseError \<Rightarrow>
           case parseRemoteErrorJson (json W) input of
             Inr remoteError \<Rightarrow> on_remote_error W remoteError s
           | Inl remoteErrorParseError \<Rightarrow>
              case parseCommandJson (json W) input of
                Inl commandParseError \<Rightarrow>
                  (if audioParseError = AudioOutputParseError.InvalidArgument
                      \<or> remoteErrorParseError = RemoteErrorParseError.InvalidArgument
                      \<or> commandParseError = CommandParseError.InvalidArgument
                   then reportPeerError W PeerErrorCode.InvalidArgument ''Invalid protocol arguments'' s
                   else reportPeerError W PeerErrorCode.InvalidMessage ''Invalid protocol message'' s)
              | Inr command \<Rightarrow>
                  (case (commandHandler (config W), envelopeFactory (config W)) of
                     (Some handler, Some factory) \<Rightarrow> on_command W handler factory input command s
                   | _ \<Rightarrow> reportPeerError W PeerErrorCode.InvalidState
                            ''Command handling is unavailable'' s))"

definition onData :: "('v, 'z) world_scheme \<Rightarrow> string option \<Rightarrow> bool \<Rightarrow> BridgeClient \<Rightarrow> BridgeClient" where
  "onData W data binary s =
    (if m_state s = ConnectingBridge then on_hello_ack W data binary s
     else if \<not> in_session (m_state s) then s
     else case data of
       None \<Rightarrow> reportPeerError W PeerErrorCode.InvalidMessage ''Invalid protocol message'' s
     | Some bytes \<Rightarrow>
         if binary then on_binary W (map of_char bytes) s else on_text W bytes s)"

definition onConnected :: "('v, 'z) world_scheme \<Rightarrow> BridgeClient \<Rightarrow> BridgeClient" where
  "onConnected W s =
    (let (sent, s) = sendText W (m_helloJson s) s in
     if \<not> sent then fail_transport s
     else s\<lparr>m_handshakeTimerArmed := True, m_handshakeTimerStarted := False\<rparr>)"

definition onPong :: "BridgeClient \<Rightarrow> BridgeClient" where
  "onPong s = (if m_heartbeatTimerArmed s then s\<lparr>m_awaitingPong := False\<rparr> else s)"

datatype TransportEvent = Connected | Disconnected | TransportError int | Pong | Data "string option" bool

fun deliver :: "('v, 'z) world_scheme \<Rightarrow> TransportEvent \<Rightarrow> BridgeClient \<Rightarrow> BridgeClient" where
  "deliver W Connected s = onConnected W s"
| "deliver W Disconnected s = handleTransportDisconnected W s"
| "deliver W (TransportError code) s = emit Close (handleTransportDisconnected W s)"
| "deliver W Pong s = onPong s"
| "deliver W (Data data binary) s = onData W data binary s"

section \<open>The periodic update\<close>

definition get_pending :: "AudioBufferEventType \<Rightarrow> BridgeClient \<Rightarrow> PendingAudioBufferEvent" where
  "get_pending type s = (case type of Underrun \<Rightarrow> m_pendingUnderrun s | Overflow \<Rightarrow> m_pendingOverflow s)"

definition set_pending :: "AudioBufferEventType \<Rightarrow> PendingAudioBufferEvent \<Rightarrow> BridgeClient \<Rightarrow> BridgeClient" where
  "set_pending type p s =
     (case type of Underrun \<Rightarrow> s\<lparr>m_pendingUnderrun := p\<rparr> | Overflow \<Rightarrow> s\<lparr>m_pendingOverflow := p\<rparr>)"

definition sendPendingAudioBufferEvent ::
  "('v, 'z) world_scheme \<Rightarrow> AudioBufferEventType \<Rightarrow> BridgeClient \<Rightarrow> BridgeClient" where
  "sendPendingAudioBufferEvent W type s =
    (case (m_helloAcknowledgement s, envelopeFactory (config W)) of
       (Some ack, Some factory) \<Rightarrow>
         if \<not> in_session (m_state s) then s
         else let snapshot = get_pending type s in
           if pending_streamId snapshot = [] \<or> pending_droppedPackets snapshot = 0 then s
           else let envelope = factory (m_io s); s = emit MakeEnvelope s in
             (case buildAudioBufferEventJson (json W) envelope (deviceId (config_hello (config W)))
                     (pending_streamId snapshot) type (pending_droppedPackets snapshot) of
                Inl e \<Rightarrow>
                  (if pending_streamId (get_pending type s) = pending_streamId snapshot
                   then set_pending type new_PendingAudioBufferEvent s else s)
              | Inr message \<Rightarrow>
                  let (sent, s) = sendText W message s in
                  if \<not> sent then fail_transport s
                  else let pending = get_pending type s in
                    if pending_streamId pending \<noteq> pending_streamId snapshot then s
                    else if pending_droppedPackets pending \<le> pending_droppedPackets snapshot
                    then set_pending type new_PendingAudioBufferEvent s
                    else set_pending type (pending\<lparr>pending_droppedPackets :=
                           pending_droppedPackets pending - pending_droppedPackets snapshot\<rparr>) s)
     | _ \<Rightarrow> s)"

definition update_audio_input :: "('v, 'z) world_scheme \<Rightarrow> u32 \<Rightarrow> BridgeClient \<Rightarrow> BridgeClient" where
  "update_audio_input W nowMs s =
    (if m_audioInputTimerArmed s
     then if \<not> m_audioInputTimerStarted s
          then s\<lparr>m_audioInputStartedAtMs := nowMs, m_audioInputTimerStarted := True\<rparr>
          else if nowMs - m_audioInputStartedAtMs s \<ge> audioInputMaxDurationMs (config W)
          then snd (endAudioInput W MaxDuration s) else s
     else s)"

definition update_handshake :: "u32 \<Rightarrow> BridgeClient \<Rightarrow> BridgeClient" where
  "update_handshake nowMs s =
    (if m_handshakeTimerArmed s
     then if \<not> m_handshakeTimerStarted s
          then s\<lparr>m_handshakeStartedAtMs := nowMs, m_handshakeTimerStarted := True\<rparr>
          else if nowMs - m_handshakeStartedAtMs s \<ge> 5000
          then drop_connection (s\<lparr>m_handshakeTimerArmed := False, m_handshakeTimerStarted := False\<rparr>) else s
     else s)"

definition update_heartbeat :: "u32 \<Rightarrow> BridgeClient \<Rightarrow> BridgeClient" where
  "update_heartbeat nowMs s =
    (case m_helloAcknowledgement s of
       None \<Rightarrow> s
     | Some ack \<Rightarrow>
        if \<not> m_heartbeatTimerArmed s then s
        else if \<not> m_heartbeatTimerStarted s
        then s\<lparr>m_lastHeartbeatAtMs := nowMs, m_heartbeatTimerStarted := True\<rparr>
        else if m_awaitingPong s \<and> nowMs - m_firstUnansweredPingAtMs s \<ge> 45000
        then drop_connection (s\<lparr>m_heartbeatTimerArmed := False, m_awaitingPong := False\<rparr>)
        else if nowMs - m_lastHeartbeatAtMs s \<ge> heartbeatIntervalMs ack
        then let s = (if \<not> m_awaitingPong s
                      then s\<lparr>m_firstUnansweredPingAtMs := nowMs, m_awaitingPong := True\<rparr> else s)
          in (emit Ping s)\<lparr>m_lastHeartbeatAtMs := nowMs\<rparr>
        else s)"

definition update_stable :: "u32 \<Rightarrow> BridgeClient \<Rightarrow> BridgeClient" where
  "update_stable nowMs s =
    (if m_stableTimerArmed s \<and> m_helloAcknowledgement s \<noteq> None
     then if \<not> m_stableTimerStarted s
          then s\<lparr>m_stableStartedAtMs := nowMs, m_stableTimerStarted := True\<rparr>
          else if nowMs - m_stableStartedAtMs s \<ge> 30000
          then s\<lparr>m_reconnectBackoff := observeStableConnection 30 (m_reconnectBackoff s),
                 m_stableTimerArmed := False, m_stableTimerStarted := False\<rparr>
          else s
     else s)"

definition update_reconnect :: "('v, 'z) world_scheme \<Rightarrow> u32 \<Rightarrow> BridgeClient \<Rightarrow> BridgeClient" where
  "update_reconnect W nowMs s =
    (if \<not> m_reconnectPending s then s
     else if \<not> m_reconnectScheduled s
     then let (delay, backoff) = nextDelaySeconds (m_reconnectBackoff s) in
       s\<lparr>m_reconnectBackoff := backoff, m_reconnectDelayMs := delay * 1000,
         m_reconnectScheduledAtMs := nowMs, m_reconnectScheduled := True\<rparr>
     else if nowMs - m_reconnectScheduledAtMs s < m_reconnectDelayMs s then s
     else snd (reconnect W (s\<lparr>m_reconnectScheduled := False\<rparr>)))"

definition update :: "('v, 'z) world_scheme \<Rightarrow> u32 \<Rightarrow> TransportEvent list \<Rightarrow> BridgeClient \<Rightarrow> BridgeClient" where
  "update W nowMs events s =
    (let s = s\<lparr>m_lastUpdateMs := nowMs\<rparr>;
         s = fold (deliver W) events s;
         s = sendPendingAudioBufferEvent W Underrun s;
         s = sendPendingAudioBufferEvent W Overflow s;
         s = update_audio_input W nowMs s;
         s = update_handshake nowMs s;
         s = update_heartbeat nowMs s;
         s = update_stable nowMs s
     in update_reconnect W nowMs s)"

section \<open>The client as a machine\<close>

datatype ClientOp = Initialize | WifiConnected_op | Reconnect_op | Update u32 "TransportEvent list"
  | BeginAudioInput string string AudioInputTrigger | SendAudioInputPacket "u8 list option" nat
  | EndAudioInput AudioInputEndReason | SendTouchTap int int
  | SendCameraCompleted string bool CameraCompletionError string nat | ReportAudioDecodeFailure
  | PopAudioOutputPacket | DeliverAudioOutputPacket bool "(int \<Rightarrow> int \<Rightarrow> u8 list \<Rightarrow> bool) option"
  | AcknowledgeAudioOutputPlayback

fun client_step :: "('v, 'z) world_scheme \<Rightarrow> ClientOp \<Rightarrow> BridgeClient \<Rightarrow> BridgeClient" where
  "client_step W Initialize s = snd (initialize W s)"
| "client_step W WifiConnected_op s = snd (wifiConnected W s)"
| "client_step W Reconnect_op s = snd (reconnect W s)"
| "client_step W (Update nowMs events) s = update W nowMs events s"
| "client_step W (BeginAudioInput turn stream trigger) s = snd (beginAudioInput W turn stream trigger s)"
| "client_step W (SendAudioInputPacket data sz) s = snd (sendAudioInputPacket W data sz s)"
| "client_step W (EndAudioInput reason) s = snd (endAudioInput W reason s)"
| "client_step W (SendTouchTap x y) s = snd (sendTouchTap W x y s)"
| "client_step W (SendCameraCompleted capture ok error digest sz) s =
     snd (sendCameraCompleted W capture ok error digest sz s)"
| "client_step W ReportAudioDecodeFailure s = snd (reportAudioDecodeFailure W s)"
| "client_step W PopAudioOutputPacket s = snd (popAudioOutputPacket s)"
| "client_step W (DeliverAudioOutputPacket idle consumer) s = snd (deliverAudioOutputPacket idle consumer s)"
| "client_step W AcknowledgeAudioOutputPlayback s = snd (acknowledgeAudioOutputPlayback W s)"

definition run_client :: "('v, 'z) world_scheme \<Rightarrow> ClientOp list \<Rightarrow> BridgeClient \<Rightarrow> BridgeClient" where
  "run_client W ops s = fold (client_step W) ops s"

end
