(* ===== verification/Session_Invariant.thy ===== *)
theory Session_Invariant
  imports Session
begin

text \<open>
  What every operation of the client keeps: the playback context is active exactly in the state
  SPEAKING, the microphone is open only in LISTENING, an acknowledgement of the hello is held
  exactly during a session, and the histories of messages and results are bounded.

  The lemmas named \<open>_frame\<close> say which fields an operation leaves alone.
\<close>

section \<open>Frames\<close>

lemma emit_frame [simp]:
  "m_state (emit e s) = m_state s"
  "m_audioOutput (emit e s) = m_audioOutput s"
  "m_audioInputOpen (emit e s) = m_audioInputOpen s"
  "m_audioInputTimerArmed (emit e s) = m_audioInputTimerArmed s"
  "m_helloAcknowledgement (emit e s) = m_helloAcknowledgement s"
  "m_seenMessageIds (emit e s) = m_seenMessageIds s"
  "m_commandResultCache (emit e s) = m_commandResultCache s"
  "m_commandResultCacheBytes (emit e s) = m_commandResultCacheBytes s"
  "m_bridgeUrl (emit e s) = m_bridgeUrl s"
  by (simp_all add: emit_def)

lemma sendText_frame [simp]:
  "m_state (snd (sendText W msg s)) = m_state s"
  "m_audioOutput (snd (sendText W msg s)) = m_audioOutput s"
  "m_audioInputOpen (snd (sendText W msg s)) = m_audioInputOpen s"
  "m_audioInputTimerArmed (snd (sendText W msg s)) = m_audioInputTimerArmed s"
  "m_helloAcknowledgement (snd (sendText W msg s)) = m_helloAcknowledgement s"
  "m_seenMessageIds (snd (sendText W msg s)) = m_seenMessageIds s"
  "m_commandResultCache (snd (sendText W msg s)) = m_commandResultCache s"
  "m_commandResultCacheBytes (snd (sendText W msg s)) = m_commandResultCacheBytes s"
  "m_bridgeUrl (snd (sendText W msg s)) = m_bridgeUrl s"
  by (simp_all add: sendText_def)

lemma sendBinary_frame [simp]:
  "m_state (snd (sendBinary W d s)) = m_state s"
  "m_audioOutput (snd (sendBinary W d s)) = m_audioOutput s"
  "m_audioInputOpen (snd (sendBinary W d s)) = m_audioInputOpen s"
  "m_audioInputTimerArmed (snd (sendBinary W d s)) = m_audioInputTimerArmed s"
  "m_helloAcknowledgement (snd (sendBinary W d s)) = m_helloAcknowledgement s"
  "m_seenMessageIds (snd (sendBinary W d s)) = m_seenMessageIds s"
  "m_commandResultCache (snd (sendBinary W d s)) = m_commandResultCache s"
  "m_commandResultCacheBytes (snd (sendBinary W d s)) = m_commandResultCacheBytes s"
  "m_bridgeUrl (snd (sendBinary W d s)) = m_bridgeUrl s"
  by (simp_all add: sendBinary_def)

lemma fail_transport_frame [simp]:
  "m_state (fail_transport s) = m_state s"
  "m_audioOutput (fail_transport s) = m_audioOutput s"
  "m_audioInputOpen (fail_transport s) = m_audioInputOpen s"
  "m_audioInputTimerArmed (fail_transport s) = m_audioInputTimerArmed s"
  "m_helloAcknowledgement (fail_transport s) = m_helloAcknowledgement s"
  "m_seenMessageIds (fail_transport s) = m_seenMessageIds s"
  "m_commandResultCache (fail_transport s) = m_commandResultCache s"
  "m_commandResultCacheBytes (fail_transport s) = m_commandResultCacheBytes s"
  "m_bridgeUrl (fail_transport s) = m_bridgeUrl s"
  by (simp_all add: fail_transport_def)

lemma drop_connection_frame [simp]:
  "m_state (drop_connection s) = m_state s"
  "m_audioOutput (drop_connection s) = m_audioOutput s"
  "m_audioInputOpen (drop_connection s) = m_audioInputOpen s"
  "m_audioInputTimerArmed (drop_connection s) = m_audioInputTimerArmed s"
  "m_helloAcknowledgement (drop_connection s) = m_helloAcknowledgement s"
  "m_seenMessageIds (drop_connection s) = m_seenMessageIds s"
  "m_commandResultCache (drop_connection s) = m_commandResultCache s"
  "m_commandResultCacheBytes (drop_connection s) = m_commandResultCacheBytes s"
  "m_bridgeUrl (drop_connection s) = m_bridgeUrl s"
  by (simp_all add: drop_connection_def)

lemma transitionState_frame [simp]:
  "m_audioOutput (snd (transitionState W e s)) = m_audioOutput s"
  "m_audioInputOpen (snd (transitionState W e s)) = m_audioInputOpen s"
  "m_audioInputTimerArmed (snd (transitionState W e s)) = m_audioInputTimerArmed s"
  "m_helloAcknowledgement (snd (transitionState W e s)) = m_helloAcknowledgement s"
  "m_seenMessageIds (snd (transitionState W e s)) = m_seenMessageIds s"
  "m_commandResultCache (snd (transitionState W e s)) = m_commandResultCache s"
  "m_commandResultCacheBytes (snd (transitionState W e s)) = m_commandResultCacheBytes s"
  "m_bridgeUrl (snd (transitionState W e s)) = m_bridgeUrl s"
  by (simp_all add: transitionState_def split_beta Let_def)

lemma rememberMessageId_frame [simp]:
  "m_state (rememberMessageId i s) = m_state s"
  "m_audioOutput (rememberMessageId i s) = m_audioOutput s"
  "m_audioInputOpen (rememberMessageId i s) = m_audioInputOpen s"
  "m_audioInputTimerArmed (rememberMessageId i s) = m_audioInputTimerArmed s"
  "m_helloAcknowledgement (rememberMessageId i s) = m_helloAcknowledgement s"
  "m_commandResultCache (rememberMessageId i s) = m_commandResultCache s"
  "m_commandResultCacheBytes (rememberMessageId i s) = m_commandResultCacheBytes s"
  "m_bridgeUrl (rememberMessageId i s) = m_bridgeUrl s"
  by (simp_all add: rememberMessageId_def Let_def)

lemma reportPeerError_frame [simp]:
  "m_state (reportPeerError W c msg s) = m_state s"
  "m_audioOutput (reportPeerError W c msg s) = m_audioOutput s"
  "m_audioInputOpen (reportPeerError W c msg s) = m_audioInputOpen s"
  "m_audioInputTimerArmed (reportPeerError W c msg s) = m_audioInputTimerArmed s"
  "m_helloAcknowledgement (reportPeerError W c msg s) = m_helloAcknowledgement s"
  "m_seenMessageIds (reportPeerError W c msg s) = m_seenMessageIds s"
  "m_commandResultCache (reportPeerError W c msg s) = m_commandResultCache s"
  "m_commandResultCacheBytes (reportPeerError W c msg s) = m_commandResultCacheBytes s"
  "m_bridgeUrl (reportPeerError W c msg s) = m_bridgeUrl s"
  by (simp_all add: reportPeerError_def Let_def split_beta split: option.split sum.split)

lemma resolveBridgeUrl_frame [simp]:
  "m_state (snd (resolveBridgeUrl W s)) = m_state s"
  "m_audioOutput (snd (resolveBridgeUrl W s)) = m_audioOutput s"
  "m_audioInputOpen (snd (resolveBridgeUrl W s)) = m_audioInputOpen s"
  "m_audioInputTimerArmed (snd (resolveBridgeUrl W s)) = m_audioInputTimerArmed s"
  "m_helloAcknowledgement (snd (resolveBridgeUrl W s)) = m_helloAcknowledgement s"
  "m_seenMessageIds (snd (resolveBridgeUrl W s)) = m_seenMessageIds s"
  "m_commandResultCache (snd (resolveBridgeUrl W s)) = m_commandResultCache s"
  "m_commandResultCacheBytes (snd (resolveBridgeUrl W s)) = m_commandResultCacheBytes s"
  by (simp_all add: resolveBridgeUrl_def Let_def split: option.split)

lemma connect_url_frame [simp]:
  "m_state (snd (connect_url W s)) = m_state s"
  "m_audioOutput (snd (connect_url W s)) = m_audioOutput s"
  "m_audioInputOpen (snd (connect_url W s)) = m_audioInputOpen s"
  "m_audioInputTimerArmed (snd (connect_url W s)) = m_audioInputTimerArmed s"
  "m_helloAcknowledgement (snd (connect_url W s)) = m_helloAcknowledgement s"
  "m_seenMessageIds (snd (connect_url W s)) = m_seenMessageIds s"
  "m_commandResultCache (snd (connect_url W s)) = m_commandResultCache s"
  "m_commandResultCacheBytes (snd (connect_url W s)) = m_commandResultCacheBytes s"
  "m_bridgeUrl (snd (connect_url W s)) = m_bridgeUrl s"
  by (simp_all add: connect_url_def Let_def)

lemma reconnect_frame [simp]:
  "m_state (snd (reconnect W s)) = m_state s"
  "m_audioOutput (snd (reconnect W s)) = m_audioOutput s"
  "m_audioInputOpen (snd (reconnect W s)) = m_audioInputOpen s"
  "m_audioInputTimerArmed (snd (reconnect W s)) = m_audioInputTimerArmed s"
  "m_helloAcknowledgement (snd (reconnect W s)) = m_helloAcknowledgement s"
  "m_seenMessageIds (snd (reconnect W s)) = m_seenMessageIds s"
  "m_commandResultCache (snd (reconnect W s)) = m_commandResultCache s"
  "m_commandResultCacheBytes (snd (reconnect W s)) = m_commandResultCacheBytes s"
  by (simp_all add: reconnect_def Let_def split_beta)

lemma run_handler_frame [simp]:
  "m_state (snd (run_handler h c s)) = m_state s"
  "m_audioOutput (snd (run_handler h c s)) = m_audioOutput s"
  "m_audioInputOpen (snd (run_handler h c s)) = m_audioInputOpen s"
  "m_audioInputTimerArmed (snd (run_handler h c s)) = m_audioInputTimerArmed s"
  "m_helloAcknowledgement (snd (run_handler h c s)) = m_helloAcknowledgement s"
  "m_seenMessageIds (snd (run_handler h c s)) = m_seenMessageIds s"
  "m_commandResultCache (snd (run_handler h c s)) = m_commandResultCache s"
  "m_commandResultCacheBytes (snd (run_handler h c s)) = m_commandResultCacheBytes s"
  "m_bridgeUrl (snd (run_handler h c s)) = m_bridgeUrl s"
  by (simp_all add: run_handler_def)

lemma send_event_frame [simp]:
  "m_state (snd (send_event W built s)) = m_state s"
  "m_audioOutput (snd (send_event W built s)) = m_audioOutput s"
  "m_audioInputOpen (snd (send_event W built s)) = m_audioInputOpen s"
  "m_audioInputTimerArmed (snd (send_event W built s)) = m_audioInputTimerArmed s"
  "m_helloAcknowledgement (snd (send_event W built s)) = m_helloAcknowledgement s"
  "m_seenMessageIds (snd (send_event W built s)) = m_seenMessageIds s"
  "m_commandResultCache (snd (send_event W built s)) = m_commandResultCache s"
  "m_commandResultCacheBytes (snd (send_event W built s)) = m_commandResultCacheBytes s"
  "m_bridgeUrl (snd (send_event W built s)) = m_bridgeUrl s"
  by (simp_all add: send_event_def split_beta Let_def split: sum.split)

lemma sendTouchTap_frame [simp]:
  "m_state (snd (sendTouchTap W x y s)) = m_state s"
  "m_audioOutput (snd (sendTouchTap W x y s)) = m_audioOutput s"
  "m_audioInputOpen (snd (sendTouchTap W x y s)) = m_audioInputOpen s"
  "m_audioInputTimerArmed (snd (sendTouchTap W x y s)) = m_audioInputTimerArmed s"
  "m_helloAcknowledgement (snd (sendTouchTap W x y s)) = m_helloAcknowledgement s"
  "m_seenMessageIds (snd (sendTouchTap W x y s)) = m_seenMessageIds s"
  "m_commandResultCache (snd (sendTouchTap W x y s)) = m_commandResultCache s"
  "m_commandResultCacheBytes (snd (sendTouchTap W x y s)) = m_commandResultCacheBytes s"
  "m_bridgeUrl (snd (sendTouchTap W x y s)) = m_bridgeUrl s"
  by (simp_all add: sendTouchTap_def Let_def split: option.split)

lemma sendCameraCompleted_frame [simp]:
  "m_state (snd (sendCameraCompleted W c ok er digest n s)) = m_state s"
  "m_audioOutput (snd (sendCameraCompleted W c ok er digest n s)) = m_audioOutput s"
  "m_audioInputOpen (snd (sendCameraCompleted W c ok er digest n s)) = m_audioInputOpen s"
  "m_audioInputTimerArmed (snd (sendCameraCompleted W c ok er digest n s)) = m_audioInputTimerArmed s"
  "m_helloAcknowledgement (snd (sendCameraCompleted W c ok er digest n s)) = m_helloAcknowledgement s"
  "m_seenMessageIds (snd (sendCameraCompleted W c ok er digest n s)) = m_seenMessageIds s"
  "m_commandResultCache (snd (sendCameraCompleted W c ok er digest n s)) = m_commandResultCache s"
  "m_commandResultCacheBytes (snd (sendCameraCompleted W c ok er digest n s)) = m_commandResultCacheBytes s"
  "m_bridgeUrl (snd (sendCameraCompleted W c ok er digest n s)) = m_bridgeUrl s"
  by (simp_all add: sendCameraCompleted_def Let_def split: option.split)

lemma sendAudioInputPacket_frame [simp]:
  "m_state (snd (sendAudioInputPacket W d n s)) = m_state s"
  "m_audioOutput (snd (sendAudioInputPacket W d n s)) = m_audioOutput s"
  "m_audioInputOpen (snd (sendAudioInputPacket W d n s)) = m_audioInputOpen s"
  "m_audioInputTimerArmed (snd (sendAudioInputPacket W d n s)) = m_audioInputTimerArmed s"
  "m_helloAcknowledgement (snd (sendAudioInputPacket W d n s)) = m_helloAcknowledgement s"
  "m_seenMessageIds (snd (sendAudioInputPacket W d n s)) = m_seenMessageIds s"
  "m_commandResultCache (snd (sendAudioInputPacket W d n s)) = m_commandResultCache s"
  "m_commandResultCacheBytes (snd (sendAudioInputPacket W d n s)) = m_commandResultCacheBytes s"
  "m_bridgeUrl (snd (sendAudioInputPacket W d n s)) = m_bridgeUrl s"
  by (simp_all add: sendAudioInputPacket_def Let_def split_beta split: option.split)

lemma onConnected_frame [simp]:
  "m_state (onConnected W s) = m_state s"
  "m_audioOutput (onConnected W s) = m_audioOutput s"
  "m_audioInputOpen (onConnected W s) = m_audioInputOpen s"
  "m_audioInputTimerArmed (onConnected W s) = m_audioInputTimerArmed s"
  "m_helloAcknowledgement (onConnected W s) = m_helloAcknowledgement s"
  "m_seenMessageIds (onConnected W s) = m_seenMessageIds s"
  "m_commandResultCache (onConnected W s) = m_commandResultCache s"
  "m_commandResultCacheBytes (onConnected W s) = m_commandResultCacheBytes s"
  "m_bridgeUrl (onConnected W s) = m_bridgeUrl s"
  by (simp_all add: onConnected_def Let_def split_beta)

lemma onPong_frame [simp]:
  "m_state (onPong s) = m_state s"
  "m_audioOutput (onPong s) = m_audioOutput s"
  "m_audioInputOpen (onPong s) = m_audioInputOpen s"
  "m_audioInputTimerArmed (onPong s) = m_audioInputTimerArmed s"
  "m_helloAcknowledgement (onPong s) = m_helloAcknowledgement s"
  "m_seenMessageIds (onPong s) = m_seenMessageIds s"
  "m_commandResultCache (onPong s) = m_commandResultCache s"
  "m_commandResultCacheBytes (onPong s) = m_commandResultCacheBytes s"
  "m_bridgeUrl (onPong s) = m_bridgeUrl s"
  by (simp_all add: onPong_def)

lemma set_pending_frame [simp]:
  "m_state (set_pending type p s) = m_state s"
  "m_audioOutput (set_pending type p s) = m_audioOutput s"
  "m_audioInputOpen (set_pending type p s) = m_audioInputOpen s"
  "m_audioInputTimerArmed (set_pending type p s) = m_audioInputTimerArmed s"
  "m_helloAcknowledgement (set_pending type p s) = m_helloAcknowledgement s"
  "m_seenMessageIds (set_pending type p s) = m_seenMessageIds s"
  "m_commandResultCache (set_pending type p s) = m_commandResultCache s"
  "m_commandResultCacheBytes (set_pending type p s) = m_commandResultCacheBytes s"
  "m_bridgeUrl (set_pending type p s) = m_bridgeUrl s"
  by (simp_all add: set_pending_def split: AudioBufferEventType.split)

lemma sendPendingAudioBufferEvent_frame [simp]:
  "m_state (sendPendingAudioBufferEvent W type s) = m_state s"
  "m_audioOutput (sendPendingAudioBufferEvent W type s) = m_audioOutput s"
  "m_audioInputOpen (sendPendingAudioBufferEvent W type s) = m_audioInputOpen s"
  "m_audioInputTimerArmed (sendPendingAudioBufferEvent W type s) = m_audioInputTimerArmed s"
  "m_helloAcknowledgement (sendPendingAudioBufferEvent W type s) = m_helloAcknowledgement s"
  "m_seenMessageIds (sendPendingAudioBufferEvent W type s) = m_seenMessageIds s"
  "m_commandResultCache (sendPendingAudioBufferEvent W type s) = m_commandResultCache s"
  "m_commandResultCacheBytes (sendPendingAudioBufferEvent W type s) = m_commandResultCacheBytes s"
  "m_bridgeUrl (sendPendingAudioBufferEvent W type s) = m_bridgeUrl s"
  by (simp_all add: sendPendingAudioBufferEvent_def Let_def split_beta split: option.split sum.split)

lemma update_handshake_frame [simp]:
  "m_state (update_handshake now s) = m_state s"
  "m_audioOutput (update_handshake now s) = m_audioOutput s"
  "m_audioInputOpen (update_handshake now s) = m_audioInputOpen s"
  "m_audioInputTimerArmed (update_handshake now s) = m_audioInputTimerArmed s"
  "m_helloAcknowledgement (update_handshake now s) = m_helloAcknowledgement s"
  "m_seenMessageIds (update_handshake now s) = m_seenMessageIds s"
  "m_commandResultCache (update_handshake now s) = m_commandResultCache s"
  "m_commandResultCacheBytes (update_handshake now s) = m_commandResultCacheBytes s"
  "m_bridgeUrl (update_handshake now s) = m_bridgeUrl s"
  by (simp_all add: update_handshake_def)

lemma update_heartbeat_frame [simp]:
  "m_state (update_heartbeat now s) = m_state s"
  "m_audioOutput (update_heartbeat now s) = m_audioOutput s"
  "m_audioInputOpen (update_heartbeat now s) = m_audioInputOpen s"
  "m_audioInputTimerArmed (update_heartbeat now s) = m_audioInputTimerArmed s"
  "m_helloAcknowledgement (update_heartbeat now s) = m_helloAcknowledgement s"
  "m_seenMessageIds (update_heartbeat now s) = m_seenMessageIds s"
  "m_commandResultCache (update_heartbeat now s) = m_commandResultCache s"
  "m_commandResultCacheBytes (update_heartbeat now s) = m_commandResultCacheBytes s"
  "m_bridgeUrl (update_heartbeat now s) = m_bridgeUrl s"
  by (simp_all add: update_heartbeat_def Let_def split: option.split)

lemma update_stable_frame [simp]:
  "m_state (update_stable now s) = m_state s"
  "m_audioOutput (update_stable now s) = m_audioOutput s"
  "m_audioInputOpen (update_stable now s) = m_audioInputOpen s"
  "m_audioInputTimerArmed (update_stable now s) = m_audioInputTimerArmed s"
  "m_helloAcknowledgement (update_stable now s) = m_helloAcknowledgement s"
  "m_seenMessageIds (update_stable now s) = m_seenMessageIds s"
  "m_commandResultCache (update_stable now s) = m_commandResultCache s"
  "m_commandResultCacheBytes (update_stable now s) = m_commandResultCacheBytes s"
  "m_bridgeUrl (update_stable now s) = m_bridgeUrl s"
  by (simp_all add: update_stable_def)

lemma update_reconnect_frame [simp]:
  "m_state (update_reconnect W now s) = m_state s"
  "m_audioOutput (update_reconnect W now s) = m_audioOutput s"
  "m_audioInputOpen (update_reconnect W now s) = m_audioInputOpen s"
  "m_audioInputTimerArmed (update_reconnect W now s) = m_audioInputTimerArmed s"
  "m_helloAcknowledgement (update_reconnect W now s) = m_helloAcknowledgement s"
  "m_seenMessageIds (update_reconnect W now s) = m_seenMessageIds s"
  "m_commandResultCache (update_reconnect W now s) = m_commandResultCache s"
  "m_commandResultCacheBytes (update_reconnect W now s) = m_commandResultCacheBytes s"
  by (simp_all add: update_reconnect_def Let_def split_beta)

lemma answer_command_frame [simp]:
  "m_state (answer_command W f c n r s) = m_state s"
  "m_audioOutput (answer_command W f c n r s) = m_audioOutput s"
  "m_audioInputOpen (answer_command W f c n r s) = m_audioInputOpen s"
  "m_audioInputTimerArmed (answer_command W f c n r s) = m_audioInputTimerArmed s"
  "m_helloAcknowledgement (answer_command W f c n r s) = m_helloAcknowledgement s"
  "m_seenMessageIds (answer_command W f c n r s) = m_seenMessageIds s"
  "m_bridgeUrl (answer_command W f c n r s) = m_bridgeUrl s"
  by (simp_all add: answer_command_def Let_def split_beta split: sum.split)

lemma transitionState_state [simp]:
  "m_state (snd (transitionState W e s)) = snd (transition (m_state s) e)"
  "fst (transitionState W e s) = fst (transition (m_state s) e)"
  by (simp_all add: transitionState_def split_beta Let_def)

section \<open>The invariant\<close>

definition media_ok ::
  "DeviceState \<Rightarrow> AudioOutputBuffer \<Rightarrow> bool \<Rightarrow> bool \<Rightarrow> HelloAck option \<Rightarrow> bool" where
  "media_ok st buffer inputOpen timerArmed ack \<longleftrightarrow> st \<noteq> Updating \<and> buffer_inv buffer
     \<and> (m_contextActive buffer \<longleftrightarrow> st = Speaking) \<and> (inputOpen \<longrightarrow> st = Listening)
     \<and> (timerArmed \<longleftrightarrow> inputOpen) \<and> (ack \<noteq> None \<longleftrightarrow> in_session st)
     \<and> (\<forall>a. ack = Some a \<longrightarrow> valid_hello_ack a)"

definition media_inv :: "BridgeClient \<Rightarrow> bool" where
  "media_inv s \<longleftrightarrow> media_ok (m_state s) (m_audioOutput s) (m_audioInputOpen s)
     (m_audioInputTimerArmed s) (m_helloAcknowledgement s)"

lemma media_inv_cong:
  assumes "m_state t = m_state s" "m_audioOutput t = m_audioOutput s"
    "m_audioInputOpen t = m_audioInputOpen s" "m_audioInputTimerArmed t = m_audioInputTimerArmed s"
    "m_helloAcknowledgement t = m_helloAcknowledgement s"
  shows "media_inv t \<longleftrightarrow> media_inv s"
  using assms by (simp add: media_inv_def)

lemmas media_defs = media_inv_def media_ok_def

lemma step_cases [simp]:
  "transition Speaking PlaybackEnded = (TransitionError.NoError, Idle)"
  "transition Speaking BargeInTriggered = (TransitionError.NoError, Listening)"
  "transition Listening InputEnded = (TransitionError.NoError, Idle)"
  "transition Idle LocalInputAccepted = (TransitionError.NoError, Listening)"
  "transition ConnectingBridge HelloAcknowledged = (TransitionError.NoError, Idle)"
  "transition ConnectingWifi WifiConnected = (TransitionError.NoError, ConnectingBridge)"
  by (simp_all add: transition_def)

lemma playback_started:
  "fst (transition s PlaybackStarted) = TransitionError.NoError \<longleftrightarrow> s = Idle \<or> s = Listening"
  "snd (transition s PlaybackStarted) = (if s = Idle \<or> s = Listening then Speaking else s)"
  by (cases s; simp add: transition_def)+

lemma bridge_disconnected:
  "snd (transition s BridgeDisconnected) = (if in_session s then ConnectingBridge else s)"
  by (cases s) (simp_all add: transition_def in_session_def)

lemma in_session_simps [simp]:
  "in_session Idle" "in_session Listening" "in_session Speaking" "\<not> in_session Booting"
  "\<not> in_session ConnectingWifi" "\<not> in_session ConnectingBridge" "\<not> in_session DeviceState.Error"
  "\<not> in_session Updating"
  by (simp_all add: in_session_def)

lemma in_session_cases: "in_session s \<longleftrightarrow> s = Idle \<or> s = Listening \<or> s = Speaking"
  by (auto simp: in_session_def)

subsection \<open>Playback operations seen from the session\<close>

lemma reset_buffer [simp]: "buffer_inv (reset b)" "\<not> m_contextActive (reset b)"
  by (simp_all add: reset_def) (simp add: clearContext_def)

lemma start_active:
  "m_contextActive (snd (Audio_Output.start st b))
     \<longleftrightarrow> fst (Audio_Output.start st b) = AudioOutputError.NoError \<or> m_contextActive b"
  by (simp add: start_def)

lemma start_was_inactive:
  "fst (Audio_Output.start st b) = AudioOutputError.NoError \<Longrightarrow> \<not> m_contextActive b"
  by (simp add: start_def split: if_splits)

lemma push_active [simp]: "m_contextActive (snd (push d b)) = m_contextActive b"
  by (simp add: push_def Let_def split: option.split)

lemma finish_active:
  "buffer_inv b \<Longrightarrow> m_contextActive (snd (finish t st r b))
     \<longleftrightarrow> m_contextActive b \<and> \<not> (fst (finish t st r b) = AudioOutputError.NoError \<and> r \<noteq> Completed)"
  by (auto simp: finish_def Let_def clearContext_def buffer_inv_def split: if_splits)

lemma finish_was_active:
  "buffer_inv b \<Longrightarrow> fst (finish t st r b) = AudioOutputError.NoError \<Longrightarrow> m_contextActive b"
  by (auto simp: finish_def Let_def buffer_inv_def split: if_splits)

lemma cancel_active:
  "m_contextActive (snd (cancelTurn t b)) \<longleftrightarrow> m_contextActive b \<and> fst (cancelTurn t b) \<noteq> AudioOutputError.NoError"
  "fst (cancelTurn t b) = AudioOutputError.InvalidState \<longleftrightarrow> \<not> m_contextActive b"
  by (simp_all add: cancelTurn_def clearContext_def)

lemma acknowledge_complete:
  "deliveryComplete b \<Longrightarrow>
     fst (acknowledgePlayback (buffer_turnId b) (buffer_streamId b) b) = AudioOutputError.NoError
     \<and> \<not> m_contextActive (snd (acknowledgePlayback (buffer_turnId b) (buffer_streamId b) b))"
  by (simp add: acknowledgePlayback_def buffer_turnId_def buffer_streamId_def deliveryComplete_def clearContext_def)

lemma pop_active [simp]: "m_contextActive (snd (pop b)) = m_contextActive b"
  by (simp add: pop_def split_beta)

lemma deliverNext_active [simp]: "m_contextActive (snd (deliverNext c b)) = m_contextActive b"
  by (simp add: deliverNext_def split_beta split: option.split)

subsection \<open>Each operation keeps it\<close>

lemma endAudioInput_media: "media_inv s \<Longrightarrow> media_inv (snd (endAudioInput W r s))"
  by (auto simp: endAudioInput_def Let_def split_beta media_defs split: option.split sum.split)

lemma on_binary_media: "media_inv s \<Longrightarrow> media_inv (on_binary W p s)"
  by (simp add: on_binary_def Let_def split_beta media_defs push_inv)

lemma on_audio_start_media:
  assumes "media_inv s"
  shows "media_inv (on_audio_start W st s)"
proof -
  define t where "t = (if m_audioInputOpen s then endAudioInput W Silence s else (AudioInputError.NoError, s))"
  have m: "media_inv (snd t)" using assms endAudioInput_media [of s W] by (simp add: t_def)
  have "fst t = AudioInputError.NoError \<Longrightarrow> \<not> m_audioInputOpen (snd t)"
    by (auto simp: t_def endAudioInput_def Let_def split_beta split: option.splits sum.splits if_splits)
  then show ?thesis using m
    by (auto simp: on_audio_start_def t_def [symmetric] Let_def split_beta media_defs start_inv start_active
        playback_started dest: start_was_inactive)
qed

lemma on_audio_end_media: "media_inv s \<Longrightarrow> media_inv (on_audio_end W st r s)"
  using finish_was_active [of "m_audioOutput s"]
  by (auto simp: on_audio_end_def Let_def split_beta media_defs finish_inv finish_active)

lemma rememberMessageId_media [simp]: "media_inv (rememberMessageId i s) = media_inv s"
  by (rule media_inv_cong) simp_all

lemma on_audio_control_media: "media_inv s \<Longrightarrow> media_inv (on_audio_control W c s)"
  by (simp add: on_audio_control_def Let_def on_audio_start_media on_audio_end_media)

lemma on_remote_error_media: "media_inv s \<Longrightarrow> media_inv (on_remote_error W e s)"
  by (auto simp: on_remote_error_def Let_def media_defs)

lemma execute_command_media: "media_inv s \<Longrightarrow> media_inv (snd (execute_command W h c s))"
  by (auto simp: execute_command_def Let_def split_beta media_defs cancelTurn_inv cancel_active)

lemma answer_command_media [simp]: "media_inv (answer_command W f c n r s) = media_inv s"
  by (rule media_inv_cong) simp_all

lemma reportPeerError_media [simp]: "media_inv (reportPeerError W c m s) = media_inv s"
  by (rule media_inv_cong) simp_all

lemma drop_connection_media [simp]: "media_inv (drop_connection s) = media_inv s"
  by (rule media_inv_cong) simp_all

lemma sendText_media [simp]: "media_inv (snd (sendText W m s)) = media_inv s"
  by (rule media_inv_cong) simp_all

lemma emit_media [simp]: "media_inv (emit e s) = media_inv s"
  by (rule media_inv_cong) simp_all

lemma on_command_media: "media_inv s \<Longrightarrow> media_inv (on_command W h f i c s)"
  by (simp add: on_command_def Let_def split_beta execute_command_media split: option.split)

lemma on_text_media: "media_inv s \<Longrightarrow> media_inv (on_text W i s)"
  by (simp add: on_text_def on_audio_control_media on_remote_error_media on_command_media
      split: option.split sum.split)

lemma on_hello_ack_media:
  "media_inv s \<Longrightarrow> m_state s = ConnectingBridge \<Longrightarrow> media_inv (on_hello_ack W d b s)"
  by (auto simp: on_hello_ack_def Let_def split_beta media_defs dest: parse_hello_ack_valid split: sum.split)

lemma onData_media: "media_inv s \<Longrightarrow> media_inv (onData W d b s)"
  by (simp add: onData_def on_hello_ack_media on_binary_media on_text_media split: option.split)

lemma disconnected_media: "media_inv s \<Longrightarrow> media_inv (handleTransportDisconnected W s)"
  by (auto simp: handleTransportDisconnected_def Let_def media_defs bridge_disconnected)

lemma onConnected_media [simp]: "media_inv (onConnected W s) = media_inv s"
  by (rule media_inv_cong) simp_all

lemma onPong_media [simp]: "media_inv (onPong s) = media_inv s"
  by (rule media_inv_cong) simp_all

lemma deliver_media: "media_inv s \<Longrightarrow> media_inv (deliver W e s)"
  by (cases e) (simp_all add: disconnected_media onData_media)

lemma deliver_all_media: "media_inv s \<Longrightarrow> media_inv (fold (deliver W) es s)"
  by (induction es arbitrary: s) (simp_all add: deliver_media)

lemma timers_media [simp]:
  "media_inv (sendPendingAudioBufferEvent W type s) = media_inv s"
  "media_inv (update_handshake now s) = media_inv s" "media_inv (update_heartbeat now s) = media_inv s"
  "media_inv (update_stable now s) = media_inv s" "media_inv (update_reconnect W now s) = media_inv s"
  "media_inv (s\<lparr>m_lastUpdateMs := now\<rparr>) = media_inv s"
  by (rule media_inv_cong; simp)+

lemma update_audio_input_media: "media_inv s \<Longrightarrow> media_inv (update_audio_input W now s)"
  by (auto simp: update_audio_input_def endAudioInput_media) (simp add: media_defs)

lemma update_media: "media_inv s \<Longrightarrow> media_inv (update W now es s)"
  by (simp add: update_def Let_def update_audio_input_media deliver_all_media)

lemma beginAudioInput_media: "media_inv s \<Longrightarrow> media_inv (snd (beginAudioInput W t st tr s))"
  by (auto simp: beginAudioInput_def Let_def split_beta media_defs split: option.split sum.split)

lemma reportAudioDecodeFailure_media: "media_inv s \<Longrightarrow> media_inv (snd (reportAudioDecodeFailure W s))"
  by (auto simp: reportAudioDecodeFailure_def Let_def split_beta media_defs split: option.split)

lemma popAudioOutputPacket_media: "media_inv s \<Longrightarrow> media_inv (snd (popAudioOutputPacket s))"
  by (simp add: popAudioOutputPacket_def split_beta media_defs pop_inv)

lemma deliverAudioOutputPacket_media: "media_inv s \<Longrightarrow> media_inv (snd (deliverAudioOutputPacket i c s))"
  by (simp add: deliverAudioOutputPacket_def Let_def split_beta media_defs deliverNext_inv)

lemma acknowledge_media: "media_inv s \<Longrightarrow> media_inv (snd (acknowledgeAudioOutputPlayback W s))"
  using acknowledge_complete [of "m_audioOutput s"]
  by (auto simp: acknowledgeAudioOutputPlayback_def Let_def split_beta media_defs acknowledgePlayback_inv)

lemma boot_event_media:
  assumes "event \<in> {HardwareOrConfigFailure, InitializationSucceeded}" "media_inv s"
  shows "media_inv (snd (transitionState W event s))"
  using assms by (cases "m_state s") (auto simp: media_defs transition_def)

lemma initialize_media: "media_inv s \<Longrightarrow> media_inv (snd (initialize W s))"
proof -
  assume s: "media_inv s"
  then have "media_inv (s\<lparr>m_helloJson := h\<rparr>)" for h by (simp add: media_inv_cong [of "s\<lparr>m_helloJson := h\<rparr>" s])
  with s show ?thesis
    by (simp add: initialize_def Let_def split_beta boot_event_media split: sum.split)
qed

lemma wifiConnected_media: "media_inv s \<Longrightarrow> media_inv (snd (wifiConnected W s))"
  by (auto simp: wifiConnected_def Let_def split_beta media_defs)

lemma sends_media [simp]:
  "media_inv (snd (sendAudioInputPacket W d n s)) = media_inv s"
  "media_inv (snd (sendTouchTap W x y s)) = media_inv s"
  "media_inv (snd (sendCameraCompleted W c ok e g n s)) = media_inv s"
  "media_inv (snd (reconnect W s)) = media_inv s"
  by (rule media_inv_cong; simp)+

lemma client_step_media: "media_inv s \<Longrightarrow> media_inv (client_step W op s)"
  by (cases op)
    (simp_all add: initialize_media wifiConnected_media update_media beginAudioInput_media endAudioInput_media
      reportAudioDecodeFailure_media popAudioOutputPacket_media deliverAudioOutputPacket_media acknowledge_media)


interpretation client: invariant_machine "client_step W" media_inv for W
  by unfold_locales (rule client_step_media)

lemma new_media [simp]: "media_inv (new_BridgeClient W)"
  by (simp add: media_defs new_BridgeClient_def new_AudioOutputBuffer_def)
     (simp add: buffer_inv_def)

lemma run_client_media: "media_inv (run_client W ops (new_BridgeClient W))"
  by (simp add: run_client_def client.run_inv)

section \<open>What follows for every run\<close>

text \<open>C16: In every run of the client, whatever the transport, the bridge and the callbacks do, the
  playback context is active exactly in the state Speaking, the microphone is open only in
  Listening with its duration timer armed exactly while it is open, and at most 32 packets are
  queued.\<close>

theorem speaking_iff_playback:
  "let s = run_client W ops (new_BridgeClient W) in
     (m_state s = Speaking \<longleftrightarrow> m_contextActive (m_audioOutput s))
     \<and> (if m_audioInputOpen s then m_state s = Listening else True)
     \<and> (m_audioInputTimerArmed s \<longleftrightarrow> m_audioInputOpen s)
     \<and> length (m_queue (m_audioOutput s)) \<le> kAudioOutputQueuePackets"
  using run_client_media [of W ops] by (auto simp: media_defs buffer_inv_def Let_def kAudioOutputQueuePackets_def)

text \<open>C17: In every run of the client a hello acknowledgement is held exactly in the three states of
  a session, and it is one that passed the checks of parseHelloAckJson.\<close>

theorem session_iff_acknowledged:
  "let s = run_client W ops (new_BridgeClient W) in
     m_state s \<noteq> Updating
     \<and> (case m_helloAcknowledgement s of None \<Rightarrow> \<not> in_session (m_state s)
        | Some ack \<Rightarrow> in_session (m_state s) \<and> valid_hello_ack ack)"
  using run_client_media [of W ops] by (auto simp: media_defs Let_def split: option.split)

end
