(* ===== verification/Session_Relation.thy ===== *)
theory Session_Relation
  imports Session_Invariant
begin

text \<open>
  A proof rule for properties of the client.  A relation between the state before and the state
  after a step holds for every operation of the client when it is reflexive and transitive and
  holds for the primitive effects the operations are made of: the calls on the environment, the
  transitions of a session, the record of a message identifier and the assignments to the members
  that the relation does not observe.  The rule is the locale \<open>client_relation\<close>; the theories of the
  session interpret it.

  What the relations observe is the log, the state, the two histories, the URL, the hello message
  and \<open>reconnectPending_\<close>, which these operations never clear.
\<close>

section \<open>Messages are bounded\<close>

lemma peer_error_bounded [dest]: "buildPeerErrorJson J e c m = Inr out \<Longrightarrow> length out \<le> kMaxJsonBytes"
  by (simp add: buildPeerErrorJson_def Let_def split: if_splits)

lemma touch_tap_bounded [dest]: "buildTouchTapEventJson J e d x y = Inr out \<Longrightarrow> length out \<le> kMaxJsonBytes"
  by (simp add: buildTouchTapEventJson_def Let_def split: if_splits)

lemma device_fault_bounded [dest]: "buildDeviceFaultEventJson J e d t c m = Inr out \<Longrightarrow> length out \<le> kMaxJsonBytes"
  by (simp add: buildDeviceFaultEventJson_def Let_def split: if_splits option.splits)

lemma camera_completed_bounded [dest]:
  "buildCameraCompletedEventJson J e d c ok err g n = Inr out \<Longrightarrow> length out \<le> kMaxJsonBytes"
  by (simp add: buildCameraCompletedEventJson_def Let_def split: if_splits option.splits)

lemma audio_buffer_bounded [dest]:
  "buildAudioBufferEventJson J e d st t n = Inr out \<Longrightarrow> length out \<le> kMaxJsonBytes"
  by (simp add: buildAudioBufferEventJson_def Let_def split: if_splits option.splits)

lemma input_start_bounded [dest]:
  "buildAudioInputStartJson J e t st tr f = Inr out \<Longrightarrow> length out \<le> kMaxJsonBytes"
  by (simp add: buildAudioInputStartJson_def finishDocument_def Let_def split: if_splits option.splits)

lemma input_end_bounded [dest]:
  "buildAudioInputEndJson J e t st r = Inr out \<Longrightarrow> length out \<le> kMaxJsonBytes"
  by (simp add: buildAudioInputEndJson_def finishDocument_def Let_def split: if_splits option.splits)

lemma command_result_bounded [dest]: "buildCommandResultJson J e r res = Inr out \<Longrightarrow> length out \<le> kMaxJsonBytes"
  by (simp add: buildCommandResultJson_def Let_def split: if_splits option.splits)

section \<open>The rule\<close>

definition session_events :: "DeviceEvent set" where
  "session_events =
     {HelloAcknowledged, LocalInputAccepted, PlaybackStarted, InputEnded, PlaybackEnded, BargeInTriggered}"

definition same_observed :: "BridgeClient \<Rightarrow> BridgeClient \<Rightarrow> bool" where
  "same_observed s t \<longleftrightarrow> m_io t = m_io s \<and> m_state t = m_state s \<and> m_bridgeUrl t = m_bridgeUrl s
     \<and> m_helloJson t = m_helloJson s \<and> m_seenMessageIds t = m_seenMessageIds s
     \<and> m_commandResultCache t = m_commandResultCache s
     \<and> m_commandResultCacheBytes t = m_commandResultCacheBytes s
     \<and> (m_reconnectPending s \<longrightarrow> m_reconnectPending t)"

locale client_relation =
  fixes W :: "('v, 'z) world_scheme" and R :: "BridgeClient \<Rightarrow> BridgeClient \<Rightarrow> bool"
  assumes R_refl: "R s s"
    and R_trans: "R r s \<Longrightarrow> R s t \<Longrightarrow> R r t"
    and R_observed: "same_observed s t \<Longrightarrow> R s t"
    and R_emit: "e \<in> {MakeEnvelope, FlushPlayback, Ping, Close} \<Longrightarrow> R s (emit e s)"
    and R_ack: "R s (emit (NotifyCameraAck c) s)"
    and R_text: "length message \<le> kMaxJsonBytes \<Longrightarrow> R s (emit (SendText message) s)"
    and R_binary: "length packet \<le> kMaxAudioPacketBytes \<Longrightarrow> R s (emit (SendBinary packet) s)"
    and R_event: "event \<in> session_events \<Longrightarrow> R s (snd (transitionState W event s))"
    and R_remember: "R s (rememberMessageId i s)"
begin

lemma field: "R r s \<Longrightarrow> same_observed s t \<Longrightarrow> R r t"
  using R_trans R_observed by blast

lemma fields:
  assumes "R r s"
  shows "R r (s\<lparr>m_audioOutput := b\<rparr>)" "R r (s\<lparr>m_pendingUnderrun := p\<rparr>)" "R r (s\<lparr>m_pendingOverflow := p\<rparr>)"
    "R r (s\<lparr>m_helloAcknowledgement := a\<rparr>)" "R r (s\<lparr>m_reconnectBackoff := k\<rparr>)"
    "R r (s\<lparr>m_invalidMessageWindow := w\<rparr>)" "R r (s\<lparr>m_lastUpdateMs := n\<rparr>)"
    "R r (s\<lparr>m_reconnectPending := True\<rparr>)" "R r (s\<lparr>m_reconnectScheduled := f\<rparr>)"
    "R r (s\<lparr>m_reconnectScheduledAtMs := n\<rparr>)" "R r (s\<lparr>m_reconnectDelayMs := n\<rparr>)"
    "R r (s\<lparr>m_stableTimerArmed := f\<rparr>)" "R r (s\<lparr>m_stableTimerStarted := f\<rparr>)"
    "R r (s\<lparr>m_stableStartedAtMs := n\<rparr>)" "R r (s\<lparr>m_handshakeTimerArmed := f\<rparr>)"
    "R r (s\<lparr>m_handshakeTimerStarted := f\<rparr>)" "R r (s\<lparr>m_handshakeStartedAtMs := n\<rparr>)"
    "R r (s\<lparr>m_heartbeatTimerArmed := f\<rparr>)" "R r (s\<lparr>m_heartbeatTimerStarted := f\<rparr>)"
    "R r (s\<lparr>m_lastHeartbeatAtMs := n\<rparr>)" "R r (s\<lparr>m_awaitingPong := f\<rparr>)"
    "R r (s\<lparr>m_firstUnansweredPingAtMs := n\<rparr>)" "R r (s\<lparr>m_audioInputTurnId := i\<rparr>)"
    "R r (s\<lparr>m_audioInputStreamId := i\<rparr>)" "R r (s\<lparr>m_recentlyCancelledAudioOutputTurnId := i\<rparr>)"
    "R r (s\<lparr>m_locallyCancelledAudioOutputTurnId := i\<rparr>)"
    "R r (s\<lparr>m_locallyCancelledAudioOutputStreamId := i\<rparr>)" "R r (s\<lparr>m_audioInputOpen := f\<rparr>)"
    "R r (s\<lparr>m_audioInputTimerArmed := f\<rparr>)" "R r (s\<lparr>m_audioInputTimerStarted := f\<rparr>)"
    "R r (s\<lparr>m_audioInputStartedAtMs := n\<rparr>)"
  by (rule field [OF assms]; simp add: same_observed_def)+

lemma emits:
  assumes "R r s"
  shows "R r (emit MakeEnvelope s)" "R r (emit FlushPlayback s)" "R r (emit Ping s)" "R r (emit Close s)"
    "R r (emit (NotifyCameraAck c) s)"
    "length message \<le> kMaxJsonBytes \<Longrightarrow> R r (emit (SendText message) s)"
    "length packet \<le> kMaxAudioPacketBytes \<Longrightarrow> R r (emit (SendBinary packet) s)"
    "event \<in> session_events \<Longrightarrow> R r (snd (transitionState W event s))"
    "R r (rememberMessageId i s)"
  by (rule R_trans [OF assms]; simp add: R_emit R_ack R_text R_binary R_event R_remember)+

lemmas steps = fields emits R_refl

lemma send_steps:
  "length message \<le> kMaxJsonBytes \<Longrightarrow> R r s \<Longrightarrow> R r (snd (sendText W message s))"
  "length packet \<le> kMaxAudioPacketBytes \<Longrightarrow> R r s \<Longrightarrow> R r (snd (sendBinary W packet s))"
  "R r s \<Longrightarrow> R r (fail_transport s)" "R r s \<Longrightarrow> R r (drop_connection s)"
  by (simp_all add: sendText_def sendBinary_def fail_transport_def drop_connection_def steps)

lemma reportPeerError_R: "R r s \<Longrightarrow> R r (reportPeerError W c m s)"
  by (auto simp: reportPeerError_def Let_def split_beta intro!: steps send_steps split: option.split sum.split)

lemma endAudioInput_R: "R r s \<Longrightarrow> R r (snd (endAudioInput W reason s))"
  by (auto simp: endAudioInput_def Let_def split_beta session_events_def intro!: steps send_steps
      split: option.split sum.split)

lemma beginAudioInput_R: "R r s \<Longrightarrow> R r (snd (beginAudioInput W t st tr s))"
  by (auto simp: beginAudioInput_def Let_def split_beta session_events_def intro!: steps send_steps
      split: option.split sum.split)

lemma sendAudioInputPacket_R: "R r s \<Longrightarrow> R r (snd (sendAudioInputPacket W d n s))"
  by (auto simp: sendAudioInputPacket_def Let_def split_beta intro!: steps send_steps split: option.split)

lemma send_event_R: "\<lbrakk>\<And>out. built = Inr out \<Longrightarrow> length out \<le> kMaxJsonBytes; R r s\<rbrakk> \<Longrightarrow> R r (snd (send_event W built s))"
  by (auto simp: send_event_def Let_def split_beta intro!: steps send_steps split: sum.split)

lemma sendTouchTap_R: "R r s \<Longrightarrow> R r (snd (sendTouchTap W x y s))"
  by (auto simp: sendTouchTap_def Let_def intro!: steps send_event_R split: option.split)

lemma sendCameraCompleted_R: "R r s \<Longrightarrow> R r (snd (sendCameraCompleted W c ok e g n s))"
  by (auto simp: sendCameraCompleted_def Let_def intro!: steps send_event_R split: option.split)

lemma reportAudioDecodeFailure_R: "R r s \<Longrightarrow> R r (snd (reportAudioDecodeFailure W s))"
  by (auto simp: reportAudioDecodeFailure_def Let_def session_events_def intro!: steps send_event_R
      split: option.split)

lemma playback_R:
  assumes "R r s"
  shows "R r (snd (popAudioOutputPacket s))" "R r (snd (deliverAudioOutputPacket idle consumer s))"
    "R r (snd (acknowledgeAudioOutputPlayback W s))"
  using assms
  by (auto simp: popAudioOutputPacket_def deliverAudioOutputPacket_def acknowledgeAudioOutputPlayback_def
      Let_def split_beta session_events_def intro!: steps)

lemma on_hello_ack_R: "R r s \<Longrightarrow> R r (on_hello_ack W d b s)"
  by (auto simp: on_hello_ack_def Let_def split_beta session_events_def intro!: steps split: sum.split)

lemma on_binary_R: "R r s \<Longrightarrow> R r (on_binary W p s)"
  by (auto simp: on_binary_def Let_def split_beta intro!: steps reportPeerError_R)

lemma on_audio_start_R: "R r s \<Longrightarrow> R r (on_audio_start W st s)"
  by (auto simp: on_audio_start_def Let_def split_beta session_events_def
      intro!: steps reportPeerError_R endAudioInput_R)

lemma on_audio_end_R: "R r s \<Longrightarrow> R r (on_audio_end W st reason s)"
  by (auto simp: on_audio_end_def Let_def split_beta session_events_def intro!: steps reportPeerError_R)

lemma on_audio_control_R: "R r s \<Longrightarrow> R r (on_audio_control W c s)"
  by (auto simp: on_audio_control_def Let_def intro!: steps on_audio_start_R on_audio_end_R)

lemma on_remote_error_R: "R r s \<Longrightarrow> R r (on_remote_error W e s)"
  by (auto simp: on_remote_error_def Let_def session_events_def intro!: steps)

lemma pending_R: "R r s \<Longrightarrow> R r (sendPendingAudioBufferEvent W type s)"
  by (auto simp: sendPendingAudioBufferEvent_def set_pending_def Let_def split_beta
      intro!: steps send_steps split: option.split sum.split AudioBufferEventType.split)

lemma timers_R:
  assumes "R r s"
  shows "R r (update_audio_input W now s)" "R r (update_handshake now s)" "R r (update_heartbeat now s)"
    "R r (update_stable now s)" "R r (onPong s)"
  using assms
  by (auto simp: update_audio_input_def update_handshake_def update_heartbeat_def update_stable_def onPong_def
      Let_def intro!: steps send_steps endAudioInput_R split: option.split)

text \<open>A text that is not a command, and the operations of the client other than those that open a
  connection.\<close>

lemma on_text_R:
  "(\<And>handler factory command. commandHandler (config W) = Some handler \<Longrightarrow> envelopeFactory (config W) = Some factory
      \<Longrightarrow> parseCommandJson (json W) input = Inr command \<Longrightarrow> R s (on_command W handler factory input command s))
   \<Longrightarrow> R s (on_text W input s)"
  by (auto simp: on_text_def Let_def intro!: steps reportPeerError_R on_audio_control_R on_remote_error_R
      split: option.split sum.split)

lemma onData_R:
  "(\<And>handler factory input command. in_session (m_state s) \<Longrightarrow> commandHandler (config W) = Some handler
      \<Longrightarrow> envelopeFactory (config W) = Some factory \<Longrightarrow> parseCommandJson (json W) input = Inr command
      \<Longrightarrow> R s (on_command W handler factory input command s))
   \<Longrightarrow> R s (onData W d b s)"
  by (auto simp: onData_def intro!: R_refl reportPeerError_R on_hello_ack_R on_binary_R on_text_R split: option.split)

end

end
