(* ===== verification/Session_Example.thy ===== *)
theory Session_Example
  imports Session_Invariant
begin

text \<open>
  A concrete bridge, transport and device for the witnesses of the session: the transport accepts
  everything, the handler answers every command with success, and the texts that the bridge sends
  are an acknowledgement of the hello, a command (twice, under two message identifiers) and the
  start of a playback stream.
\<close>

definition uuid_a :: string where "uuid_a = ''00000000-0000-4000-8000-00000000000a''"
definition uuid_b :: string where "uuid_b = ''00000000-0000-4000-8000-00000000000b''"
definition uuid_c :: string where "uuid_c = ''00000000-0000-4000-8000-00000000000c''"

definition ack_message :: toy_value where
  "ack_message =
     TObj [(''v'', TInt 1), (''type'', TStr ''hello_ack''), (''message_id'', TStr uuid_a),
           (''sent_at_ms'', TInt 5),
           (''payload'', TObj [(''connection_id'', TStr uuid_a), (''server_version'', TStr ''1.0''),
              (''heartbeat_interval_ms'', TInt 15000), (''selected_protocol_version'', TInt 1),
              (''max_command_timeout_ms'', TInt 1000), (''capture_protocol_version'', TInt 2)])]"

definition volume_message :: "string \<Rightarrow> toy_value" where
  "volume_message message =
     TObj [(''v'', TInt 1), (''type'', TStr ''command''), (''message_id'', TStr message),
           (''request_id'', TStr uuid_c), (''sent_at_ms'', TInt 5),
           (''payload'', TObj [(''name'', TStr ''audio.set_volume''),
                               (''args'', TObj [(''volume'', TInt 40)])])]"

definition start_message :: toy_value where
  "start_message =
     TObj [(''v'', TInt 1), (''type'', TStr ''audio.output.start''), (''message_id'', TStr uuid_c),
           (''turn_id'', TStr uuid_a), (''stream_id'', TStr uuid_b), (''sent_at_ms'', TInt 5),
           (''payload'', TObj [(''codec'', TStr ''opus''), (''sample_rate'', TInt 16000),
              (''channels'', TInt 1), (''frame_ms'', TInt 20), (''expected_duration_ms'', TInt 1000)])]"

definition bridge_texts :: "(string \<times> toy_value) list" where
  "bridge_texts = [(''ack'', ack_message), (''volume'', volume_message uuid_a),
     (''again'', volume_message uuid_b), (''start'', start_message)]"

definition sample_envelope :: EnvelopeMetadata where
  "sample_envelope = \<lparr>messageId = uuid_a, sentAtMs = 7\<rparr>"

definition sample_hello :: HelloPayload where
  "sample_hello =
     \<lparr>deviceId = ''robot'', deviceName = ''Robot'', firmwareVersion = ''1'', hardwareModel = ''K151'',
      capabilities = \<lparr>microphone = True, speaker = True, camera = True, touch = True, head = True,
        display = True, avatar = True, ledCount = 12\<rparr>,
      audio = \<lparr>codec = ''opus'', sampleRate = 16000, channels = 1, frameMs = 20\<rparr>\<rparr>"

definition sample_config :: BridgeClientConfig where
  "sample_config =
     \<lparr>bridgeUrl = ''ws://host/v1/device/ws'', bridgeUrlResolver = None, bridgeUrlChanged = False,
      deviceToken = ''token'', audioInputMaxDurationMs = 15000, audioOutputPrerollMs = 500,
      helloEnvelope = sample_envelope, config_hello = sample_hello,
      commandHandler = Some (\<lambda>calls command. new_CommandExecutionResult\<lparr>result_ok := True\<rparr>),
      envelopeFactory = Some (\<lambda>calls. sample_envelope), playbackFlushHandler = True,
      stateChanged = True, cameraCompletedAcknowledged = True\<rparr>"

definition sample_world :: "toy_value world" where
  "sample_world =
     \<lparr>json = toy_json bridge_texts, config = sample_config, connect_ok = (\<lambda>calls url. True),
      sendText_ok = (\<lambda>calls message. True), sendBinary_ok = (\<lambda>calls packet. True),
      sizeof_CachedCommandResult = 400\<rparr>"

definition volume_command :: "string \<Rightarrow> Command" where
  "volume_command message =
     \<lparr>command_name = AudioSetVolume, command_messageId = message, requestId = uuid_c,
      command_turnId = [], command_streamId = [], command_deviceId = [], command_sentAtMs = 5,
      arguments = new_CommandArguments\<lparr>volume := 40\<rparr>\<rparr>"

lemma volume_parses:
  "parseCommandJson (toy_json bridge_texts) ''volume'' = Inr (volume_command uuid_a)"
  "parseCommandJson (toy_json bridge_texts) ''again'' = Inr (volume_command uuid_b)"
  by code_simp+

lemma ack_parses:
  "parseHelloAckJson (toy_json bridge_texts) ''ack''
     = Inr \<lparr>connectionId = uuid_a, selectedProtocolVersion = 1, heartbeatIntervalMs = 15000,
            maxCommandTimeoutMs = 1000, serverVersion = ''1.0''\<rparr>"
  by code_simp

lemma hello_builds: "buildHelloJson (toy_json bridge_texts) sample_envelope sample_hello = Inr ''{}''"
  by code_simp

lemma endpoint_accepted: "endpoint_ok (resolveBridgeEndpoint (new_BridgeEndpointSources\<lparr>nvsUrl := ''ws://host/v1/device/ws''\<rparr>))"
  by code_simp

lemma result_builds:
  "buildCommandResultJson (toy_json bridge_texts) sample_envelope uuid_c (new_CommandExecutionResult\<lparr>result_ok := True\<rparr>)
     = Inr ''{}''"
  by code_simp


lemma world_simps [simp]:
  "json sample_world = toy_json bridge_texts" "config sample_world = sample_config"
  "connect_ok sample_world l u = True" "sendText_ok sample_world l m = True"
  "sendBinary_ok sample_world l d = True" "sizeof_CachedCommandResult sample_world = 400"
  by (simp_all add: sample_world_def)

lemma config_simps [simp]:
  "bridgeUrl sample_config = ''ws://host/v1/device/ws''" "bridgeUrlResolver sample_config = None"
  "deviceToken sample_config = ''token''" "audioInputMaxDurationMs sample_config = 15000"
  "audioOutputPrerollMs sample_config = 500" "helloEnvelope sample_config = sample_envelope"
  "config_hello sample_config = sample_hello"
  "commandHandler sample_config = Some (\<lambda>calls command. new_CommandExecutionResult\<lparr>result_ok := True\<rparr>)"
  "envelopeFactory sample_config = Some (\<lambda>calls. sample_envelope)" "playbackFlushHandler sample_config"
  "stateChanged sample_config" "cameraCompletedAcknowledged sample_config"
  by (simp_all add: sample_config_def)

definition initialized :: BridgeClient where
  "initialized = client_step sample_world Initialize (new_BridgeClient sample_world)"

definition connecting :: BridgeClient where
  "connecting = client_step sample_world WifiConnected_op initialized"

definition greeted :: BridgeClient where
  "greeted = deliver sample_world Connected connecting"

definition connected :: BridgeClient where
  "connected = deliver sample_world (Data (Some ''ack'') False) greeted"

lemma hello_fields [simp]: "frameMs (audio sample_hello) = 20" "deviceId sample_hello = ''robot''"
  by (simp_all add: sample_hello_def)

lemma initialized_eq:
  "initialized = (new_BridgeClient sample_world)\<lparr>m_helloJson := ''{}'', m_state := ConnectingWifi,
     m_io := [NotifyState ConnectingWifi, SetReceiveBufferSize 16384]\<rparr>"
  by (simp add: initialized_def initialize_def rejects_config_def new_BridgeClient_def hello_builds endpoint_accepted
      transitionState_def transition_def emit_def kMaxJsonBytes_def isSafeHeaderValue_def Let_def
      kAudioOutputQueuePackets_def)

lemma connecting_eq:
  "connecting = (new_BridgeClient sample_world)\<lparr>m_helloJson := ''{}'', m_state := ConnectingBridge,
     m_io := [NotifyState ConnectingWifi, SetReceiveBufferSize 16384, NotifyState ConnectingBridge,
       SetHeader ''Authorization'' ''Bearer token'', SetHeader ''X-StackChan-Device-Id'' ''robot'',
       Connect ''ws://host/v1/device/ws'']\<rparr>"
  by (simp add: connecting_def initialized_eq wifiConnected_def new_BridgeClient_def resolveBridgeUrl_def
      connect_url_def transitionState_def transition_def emit_def Let_def)

lemma greeted_eq:
  "greeted = connecting\<lparr>m_handshakeTimerArmed := True, m_io := m_io connecting @ [SendText ''{}'']\<rparr>"
  by (simp add: greeted_def onConnected_def sendText_def emit_def connecting_eq new_BridgeClient_def)

lemma greeted_state: "m_state greeted = ConnectingBridge"
  by (simp add: greeted_eq connecting_eq)

lemma connected_eq:
  "connected = greeted\<lparr>m_state := Idle, m_io := m_io greeted @ [NotifyState Idle],
     m_helloAcknowledgement := Some \<lparr>connectionId = uuid_a, selectedProtocolVersion = 1,
       heartbeatIntervalMs = 15000, maxCommandTimeoutMs = 1000, serverVersion = ''1.0''\<rparr>,
     m_handshakeTimerArmed := False, m_handshakeTimerStarted := False,
     m_stableTimerArmed := True, m_stableTimerStarted := False,
     m_heartbeatTimerArmed := True, m_heartbeatTimerStarted := False\<rparr>"
  by (simp add: connected_def onData_def greeted_state on_hello_ack_def ack_parses transitionState_def
      transition_def emit_def Let_def)

text \<open>The command arrives twice: it is executed once and answered twice.\<close>

lemma connected_fields [simp]:
  "m_state connected = Idle" "m_commandResultCache connected = []" "m_commandResultCacheBytes connected = 0"
  "m_seenMessageIds connected = []" "\<not> m_reconnectPending connected" "m_io connected \<noteq> []"
  by (simp_all add: connected_eq greeted_eq connecting_eq new_BridgeClient_def)

definition served :: BridgeClient where
  "served = deliver sample_world (Data (Some ''volume'') False) connected"

end
