(* ===== verification/Session_Replay.thy ===== *)
theory Session_Replay
  imports Session_Relation Session_Example
begin

text \<open>
  Commands and retries.  The bridge repeats a command until it sees its result, so the client must
  execute a request at most once in a connection and answer the repetition with the same result.

  \<open>calm s t\<close> says that the client went from \<open>s\<close> to \<open>t\<close> without executing a command and without
  touching the cache of results, and that it neither left a session nor forgot a pending
  reconnection.
\<close>

section \<open>Atomic steps\<close>

text \<open>An update is a sequence of smaller steps: the clock, one step for each callback that the
  transport delivers, and the timers.\<close>

datatype AtomicStep = Clock u32 | Callback TransportEvent | Timers u32 | Call ClientOp

definition run_timers :: "('v, 'z) world_scheme \<Rightarrow> u32 \<Rightarrow> BridgeClient \<Rightarrow> BridgeClient" where
  "run_timers W nowMs s =
     update_reconnect W nowMs (update_stable nowMs (update_heartbeat nowMs (update_handshake nowMs
       (update_audio_input W nowMs (sendPendingAudioBufferEvent W Overflow
         (sendPendingAudioBufferEvent W Underrun s))))))"

fun atomic_step :: "('v, 'z) world_scheme \<Rightarrow> AtomicStep \<Rightarrow> BridgeClient \<Rightarrow> BridgeClient" where
  "atomic_step W (Clock nowMs) s = s\<lparr>m_lastUpdateMs := nowMs\<rparr>"
| "atomic_step W (Callback event) s = deliver W event s"
| "atomic_step W (Timers nowMs) s = run_timers W nowMs s"
| "atomic_step W (Call op) s = client_step W op s"

fun atomic_steps :: "ClientOp \<Rightarrow> AtomicStep list" where
  "atomic_steps (Update nowMs events) = Clock nowMs # map Callback events @ [Timers nowMs]"
| "atomic_steps op = [Call op]"

definition run_atomic :: "('v, 'z) world_scheme \<Rightarrow> AtomicStep list \<Rightarrow> BridgeClient \<Rightarrow> BridgeClient" where
  "run_atomic W steps s = fold (atomic_step W) steps s"

lemma fold_callbacks: "fold (atomic_step W) (map Callback events) s = fold (deliver W) events s"
  by (induction events arbitrary: s) simp_all

lemma client_step_atomic: "client_step W op s = run_atomic W (atomic_steps op) s"
  by (cases op) (simp_all add: run_atomic_def fold_callbacks update_def run_timers_def Let_def)

lemma run_client_atomic: "run_client W ops s = run_atomic W (concat (map atomic_steps ops)) s"
  by (induction ops arbitrary: s)
    (simp_all add: run_client_def run_atomic_def client_step_atomic [unfolded run_atomic_def])

text \<open>The steps of one connection: all but the callbacks that report its end.\<close>

fun connection_step :: "AtomicStep \<Rightarrow> bool" where
  "connection_step (Callback Disconnected) = False"
| "connection_step (Callback (TransportError code)) = False"
| "connection_step (Call (Update nowMs events)) = False"
| "connection_step step = True"

section \<open>Executions in the log\<close>

fun executions :: "Effect list \<Rightarrow> Command list" where
  "executions [] = []"
| "executions (Execute c # es) = c # executions es"
| "executions (e # es) = executions es"

lemma executions_append [simp]: "executions (es @ fs) = executions es @ executions fs"
  by (induction es rule: executions.induct) simp_all

definition quiet :: "Effect list \<Rightarrow> Effect list \<Rightarrow> bool" where
  "quiet old new \<longleftrightarrow> (\<exists>es. new = old @ es \<and> executions es = [])"

lemma quiet_simps [simp]: "quiet l l" "quiet l (l @ es) \<longleftrightarrow> executions es = []"
  by (auto simp: quiet_def)

lemma quiet_trans: "quiet a b \<Longrightarrow> quiet b c \<Longrightarrow> quiet a c"
  by (auto simp: quiet_def)

definition calm :: "BridgeClient \<Rightarrow> BridgeClient \<Rightarrow> bool" where
  "calm s t \<longleftrightarrow> quiet (m_io s) (m_io t) \<and> m_commandResultCache t = m_commandResultCache s
     \<and> (in_session (m_state s) \<longrightarrow> in_session (m_state t)
          \<and> (m_reconnectPending s \<longrightarrow> m_reconnectPending t))"

lemma calm_trans: "calm r s \<Longrightarrow> calm s t \<Longrightarrow> calm r t"
  by (auto simp: calm_def intro: quiet_trans)

lemma stays_in_session:
  "event \<notin> {BridgeDisconnected, SafetyError, UpdateStarted} \<Longrightarrow> in_session s
     \<Longrightarrow> in_session (snd (transition s event))"
  by (cases s) (auto simp: transition_def)

lemma transitionState_calm:
  "event \<notin> {BridgeDisconnected, SafetyError, UpdateStarted} \<Longrightarrow> calm s (snd (transitionState W event s))"
  using stays_in_session [of event "m_state s"]
  by (auto simp: calm_def transitionState_def Let_def split_beta emit_def)

interpretation calm: client_relation W calm for W
proof unfold_locales
  fix event :: DeviceEvent and s :: BridgeClient
  assume "event \<in> session_events"
  then show "calm s (snd (transitionState W event s))"
    by (intro transitionState_calm) (auto simp: session_events_def)
qed (auto simp: calm_def same_observed_def emit_def rememberMessageId_def Let_def intro: quiet_trans)


lemma emit_calm: "calm r s \<Longrightarrow> executions [e] = [] \<Longrightarrow> calm r (emit e s)"
  by (auto simp: calm_def quiet_def emit_def)

lemma hello_calm: "calm s (s\<lparr>m_helloJson := h\<rparr>)"
  by (simp add: calm_def)

lemma initialize_calm: "calm s (snd (initialize W s))"
  by (simp add: initialize_def Let_def split_beta transitionState_calm emit_calm
      calm_trans [OF hello_calm transitionState_calm] split: sum.split)

text \<open>\<open>outside s t\<close>: a calm way between two states outside a session.\<close>

definition outside :: "BridgeClient \<Rightarrow> BridgeClient \<Rightarrow> bool" where
  "outside s t \<longleftrightarrow> \<not> in_session (m_state s) \<and> \<not> in_session (m_state t) \<and> quiet (m_io s) (m_io t)
     \<and> m_commandResultCache t = m_commandResultCache s"

lemma outside_calm: "outside s t \<Longrightarrow> calm s t"
  by (simp add: outside_def calm_def)

lemma outside_steps:
  assumes "outside r s"
  shows "outside r (s\<lparr>m_reconnectPending := p, m_reconnectScheduled := f\<rparr>)" "outside r (s\<lparr>m_reconnectPending := p\<rparr>)"
    "outside r (emit (SetHeader a v) s)" "outside r (snd (resolveBridgeUrl W s))" "outside r (snd (connect_url W s))"
  using assms quiet_trans
  by (auto simp: outside_def emit_def resolveBridgeUrl_def connect_url_def Let_def quiet_def split: option.split)

lemma wifi_outside:
  assumes "m_state s = ConnectingWifi"
  shows "outside s (snd (transitionState W WifiConnected s))"
  using assms by (simp add: outside_def transitionState_def emit_def Let_def)

lemma wifiConnected_calm: "calm s (snd (wifiConnected W s))"
proof (cases "m_state s = ConnectingWifi")
  case True
  then show ?thesis
    by (simp add: wifiConnected_def Let_def split_beta outside_calm outside_steps wifi_outside)
qed (simp add: wifiConnected_def calm.R_refl)

lemma reconnect_calm: "calm s (snd (reconnect W s))"
proof (cases "m_state s = ConnectingBridge")
  case True
  then have "outside s s" by (simp add: outside_def)
  then show ?thesis by (simp add: reconnect_def Let_def split_beta outside_calm outside_steps)
qed (simp add: reconnect_def calm.R_refl)

lemma update_reconnect_calm: "calm s (update_reconnect W now s)"
  by (auto simp: update_reconnect_def split_beta intro!: calm.R_refl calm.steps
      intro: calm_trans [OF _ reconnect_calm])

lemma run_timers_calm: "calm s (run_timers W now s)"
  unfolding run_timers_def
  by (rule calm_trans [OF _ update_reconnect_calm]) (intro calm.timers_R calm.pending_R calm.R_refl)

lemma call_calm: "connection_step (Call op) \<Longrightarrow> calm s (client_step W op s)"
  by (cases op)
    (simp_all add: initialize_calm wifiConnected_calm reconnect_calm calm.beginAudioInput_R calm.endAudioInput_R
      calm.sendAudioInputPacket_R calm.sendTouchTap_R calm.sendCameraCompleted_R calm.reportAudioDecodeFailure_R
      calm.playback_R calm.R_refl)

section \<open>The handling of a command\<close>

definition cached_requests :: "BridgeClient \<Rightarrow> string set" where
  "cached_requests s = (\<lambda>entry. requestId (cached_command entry)) ` set (m_commandResultCache s)"

text \<open>\<open>handles c s t\<close>: the step from \<open>s\<close> to \<open>t\<close> has answered \<open>c\<close>, a request without a cached
  result, after executing it at most once, and either the result is now cached or the connection is
  being given up.  (A \<open>speech.cancel\<close> for another turn is answered without execution.)\<close>

definition handles :: "Command \<Rightarrow> BridgeClient \<Rightarrow> BridgeClient \<Rightarrow> bool" where
  "handles c s t \<longleftrightarrow> in_session (m_state s) \<and> in_session (m_state t) \<and> \<not> m_reconnectPending s
     \<and> requestId c \<notin> cached_requests s
     \<and> (\<exists>es. m_io t = m_io s @ es \<and> (executions es = [] \<or> executions es = [c]))
     \<and> (m_commandResultCache t = m_commandResultCache s \<and> m_reconnectPending t
        \<or> (\<exists>response. m_commandResultCache t
              = m_commandResultCache s @ [\<lparr>cached_command = c, cached_response = response\<rparr>]))"

lemma execute_command_effects:
  assumes "in_session (m_state s)"
  shows "in_session (m_state (snd (execute_command W h c s)))"
    "m_commandResultCache (snd (execute_command W h c s)) = m_commandResultCache s"
    "\<exists>es. m_io (snd (execute_command W h c s)) = m_io s @ es \<and> (executions es = [] \<or> executions es = [c])"
  using assms
  by (auto simp: execute_command_def run_handler_def Let_def split_beta emit_def transitionState_def
      stays_in_session)

lemma answer_command_effects:
  "\<exists>es. m_io (answer_command W f c n r s) = m_io s @ es \<and> executions es = []"
  "m_commandResultCache (answer_command W f c n r s) = m_commandResultCache s
     \<and> m_reconnectPending (answer_command W f c n r s)
   \<or> (\<exists>response. m_commandResultCache (answer_command W f c n r s)
        = m_commandResultCache s @ [\<lparr>cached_command = c, cached_response = response\<rparr>])"
  by (simp_all add: answer_command_def Let_def split_beta sendText_def fail_transport_def emit_def split: sum.split)

lemma handle_new:
  assumes "in_session (m_state s)" "\<not> m_reconnectPending s" "requestId c \<notin> cached_requests s"
  shows "handles c s (let t = rememberMessageId i s; (result, t) = execute_command W h c t
                      in answer_command W f c n result t)"
proof -
  define t where "t = rememberMessageId i s"
  define e where "e = execute_command W h c t"
  have t: "m_io t = m_io s" "m_commandResultCache t = m_commandResultCache s" "in_session (m_state t)"
    using assms(1) by (simp_all add: t_def rememberMessageId_def Let_def)
  obtain es where es: "m_io (snd e) = m_io s @ es" "executions es = [] \<or> executions es = [c]"
    using execute_command_effects(3) [OF t(3)] t(1) unfolding e_def by metis
  obtain fs where fs: "m_io (answer_command W f c n (fst e) (snd e)) = m_io (snd e) @ fs" "executions fs = []"
    using answer_command_effects(1) by metis
  have "handles c s (answer_command W f c n (fst e) (snd e))"
    unfolding handles_def
  proof (intro conjI)
    show "in_session (m_state (answer_command W f c n (fst e) (snd e)))"
      using execute_command_effects(1) [OF t(3)] by (simp add: e_def)
    show "\<exists>gs. m_io (answer_command W f c n (fst e) (snd e)) = m_io s @ gs
        \<and> (executions gs = [] \<or> executions gs = [c])"
      using es fs by (intro exI [of _ "es @ fs"]) auto
    show "m_commandResultCache (answer_command W f c n (fst e) (snd e)) = m_commandResultCache s
        \<and> m_reconnectPending (answer_command W f c n (fst e) (snd e))
      \<or> (\<exists>response. m_commandResultCache (answer_command W f c n (fst e) (snd e))
            = m_commandResultCache s @ [\<lparr>cached_command = c, cached_response = response\<rparr>])"
      using answer_command_effects(2) [of W f c n "fst e" "snd e"] execute_command_effects(2) [OF t(3), of W h c] t(2)
      by (simp add: e_def)
  qed (use assms in simp_all)
  then show ?thesis by (simp add: t_def e_def Let_def split_beta)
qed

lemma find_request_None:
  "List.find (\<lambda>entry. requestId (cached_command entry) = requestId c) (m_commandResultCache s) = None
     \<longleftrightarrow> requestId c \<notin> cached_requests s"
  by (force simp: find_None_iff cached_requests_def)

lemma sendText_calm: "calm s (snd (sendText W message s))"
  by (simp add: sendText_def calm_def emit_def)

lemma on_command_cases:
  assumes "in_session (m_state s)"
  shows "calm s (on_command W h f input c s) \<or> handles c s (on_command W h f input c s)"
proof (cases "List.find (\<lambda>entry. requestId (cached_command entry) = requestId c) (m_commandResultCache s)")
  case None
  then have new: "requestId c \<notin> cached_requests s" by (simp add: find_request_None)
  consider "m_reconnectPending s \<or> hasSeenMessageId (command_messageId c) s"
    | "\<not> m_reconnectPending s" "\<not> hasSeenMessageId (command_messageId c) s"
        "length (m_commandResultCache s) \<ge> kCommandResultCacheLimit
           \<or> m_commandResultCacheBytes s + (length input + sizeof_CachedCommandResult W) + kMaxJsonBytes
               > kCommandResultCacheByteLimit"
    | "\<not> m_reconnectPending s" "\<not> hasSeenMessageId (command_messageId c) s"
        "\<not> (length (m_commandResultCache s) \<ge> kCommandResultCacheLimit
           \<or> m_commandResultCacheBytes s + (length input + sizeof_CachedCommandResult W) + kMaxJsonBytes
               > kCommandResultCacheByteLimit)"
    by blast
  then show ?thesis
  proof cases
    case 1
    then show ?thesis by (simp add: on_command_def None calm.R_refl)
  next
    case 2
    then show ?thesis
      by (simp add: on_command_def None Let_def calm.send_steps calm.reportPeerError_R calm.R_refl)
  next
    case 3
    then show ?thesis using handle_new [OF assms 3(1) new, where W = W and h = h and f = f and i = "command_messageId c"
        and n = "length input + sizeof_CachedCommandResult W"]
      by (simp add: on_command_def None Let_def)
  qed
next
  case (Some e)
  have "calm s (rememberMessageId (command_messageId c) s)" by (rule calm.R_remember)
  then show ?thesis
    by (auto simp: on_command_def Some Let_def split_beta intro: calm.reportPeerError_R calm.send_steps
        calm_trans [OF _ sendText_calm])
qed


lemma on_text_cases:
  "calm s (on_text W input s) \<or> (\<exists>h f c. on_text W input s = on_command W h f input c s)"
proof (cases "parseCommandJson (json W) input")
  case (Inl e)
  then show ?thesis
    by (simp add: on_text_def Let_def calm.steps calm.reportPeerError_R calm.on_audio_control_R
        calm.on_remote_error_R split: option.split sum.split)
next
  case (Inr c)
  show ?thesis
  proof (cases "\<exists>h f. commandHandler (config W) = Some h \<and> envelopeFactory (config W) = Some f")
    case True
    then obtain h f where hf: "commandHandler (config W) = Some h" "envelopeFactory (config W) = Some f" by blast
    have "calm s (on_text W input s) \<or> on_text W input s = on_command W h f input c s"
      by (simp add: on_text_def Inr hf Let_def calm.steps calm.on_audio_control_R calm.on_remote_error_R
          split: option.split sum.split)
    then show ?thesis by blast
  next
    case False
    then show ?thesis
      by (auto simp: on_text_def Inr Let_def calm.steps calm.reportPeerError_R calm.on_audio_control_R
          calm.on_remote_error_R split: option.split sum.split)
  qed
qed

lemma onData_cases: "calm s (onData W d b s) \<or> (\<exists>c. handles c s (onData W d b s))"
proof (cases "in_session (m_state s) \<and> (\<exists>input. d = Some input) \<and> \<not> b")
  case True
  then obtain input where d: "d = Some input" "in_session (m_state s)" "\<not> b" by blast
  then have "onData W d b s = on_text W input s" by (auto simp: onData_def in_session_def)
  then show ?thesis
    using on_text_cases [of s W input] on_command_cases [OF d(2)] by metis
next
  case False
  then show ?thesis
    by (auto simp: onData_def calm.R_refl calm.on_hello_ack_R calm.on_binary_R calm.reportPeerError_R
        split: option.split)
qed

lemma onConnected_calm: "calm s (onConnected W s)"
  by (simp add: onConnected_def Let_def split_beta calm.fields calm.send_steps(3) sendText_calm)

lemma connection_step_cases:
  assumes "connection_step step"
  shows "calm s (atomic_step W step s) \<or> (\<exists>c. handles c s (atomic_step W step s))"
proof (cases step)
  case (Callback event)
  then show ?thesis
    using assms onData_cases
    by (cases event) (simp_all add: calm.timers_R(5) calm.R_refl onConnected_calm)
next
  case (Call op)
  then show ?thesis using assms call_calm [of op s W] by simp
qed (simp_all add: run_timers_calm calm.fields calm.R_refl)


section \<open>At most once\<close>

text \<open>\<open>spent cs s\<close>: the commands \<open>cs\<close> have been executed in this connection, and none of their
  requests can be executed again.\<close>

definition spent :: "Command list \<Rightarrow> BridgeClient \<Rightarrow> bool" where
  "spent cs s \<longleftrightarrow> distinct (map requestId cs)
     \<and> (cs = [] \<or> in_session (m_state s) \<and> (m_reconnectPending s \<or> requestId ` set cs \<subseteq> cached_requests s))"

lemma calm_spent: "spent cs s \<Longrightarrow> calm s t \<Longrightarrow> spent cs t"
  by (auto simp: spent_def calm_def cached_requests_def)

lemma handles_spent:
  assumes "spent cs s" "handles c s t"
  shows "spent cs t" "spent (cs @ [c]) t"
proof -
  have cached: "cached_requests s \<subseteq> cached_requests t"
    using assms(2) by (auto simp: handles_def cached_requests_def)
  have known: "requestId ` set cs \<subseteq> cached_requests s" "requestId c \<notin> cached_requests s"
    and session: "in_session (m_state t)" and dist: "distinct (map requestId cs)"
    and new: "m_reconnectPending t \<or> requestId c \<in> cached_requests t"
    using assms by (auto simp: spent_def handles_def cached_requests_def)
  show "spent cs t" using known(1) cached session dist by (auto simp: spent_def)
  show "spent (cs @ [c]) t" using known cached session dist new by (auto simp: spent_def)
qed

lemma connection_step_spent:
  assumes "spent cs s" "connection_step step"
  shows "\<exists>es. m_io (atomic_step W step s) = m_io s @ es \<and> spent (cs @ executions es) (atomic_step W step s)"
  using connection_step_cases [OF assms(2), of s W]
proof
  assume "calm s (atomic_step W step s)"
  then show ?thesis using calm_spent [OF assms(1)] by (auto simp: calm_def quiet_def)
next
  assume "\<exists>c. handles c s (atomic_step W step s)"
  then obtain c es where c: "handles c s (atomic_step W step s)" "m_io (atomic_step W step s) = m_io s @ es"
      "executions es = [] \<or> executions es = [c]"
    unfolding handles_def by blast
  then show ?thesis using handles_spent [OF assms(1) c(1)] by auto
qed

lemma connection_steps_spent:
  "spent cs s \<Longrightarrow> list_all connection_step steps \<Longrightarrow>
   \<exists>es. m_io (run_atomic W steps s) = m_io s @ es \<and> spent (cs @ executions es) (run_atomic W steps s)"
proof (induction steps arbitrary: cs s)
  case (Cons step steps)
  obtain es where es: "m_io (atomic_step W step s) = m_io s @ es" "spent (cs @ executions es) (atomic_step W step s)"
    using connection_step_spent [OF Cons.prems(1), of step W] Cons.prems(2) by auto
  obtain fs where "m_io (run_atomic W (step # steps) s) = m_io (atomic_step W step s) @ fs"
      "spent ((cs @ executions es) @ executions fs) (run_atomic W (step # steps) s)"
    using Cons.IH [OF es(2)] Cons.prems(2) by (auto simp: run_atomic_def)
  then show ?case using es(1) by (intro exI [of _ "es @ fs"]) simp
qed (simp add: run_atomic_def)

text \<open>C1: From whatever state and whatever the bridge, the transport and the callbacks do, as long as
  the transport does not report the end of the connection, no request is executed twice: the
  commands executed have pairwise distinct request identifiers.\<close>

theorem executed_at_most_once:
  assumes "list_all connection_step steps"
  shows "distinct (map requestId (executions (drop (length (m_io s)) (m_io (run_atomic W steps s)))))"
proof -
  have "spent [] s" by (simp add: spent_def)
  from connection_steps_spent [OF this assms, of W] show ?thesis by (auto simp: spent_def)
qed

section \<open>The kinds of messages\<close>

text \<open>The client tries the parsers one after the other; a command is what no other parser takes, so
  the order does not matter.\<close>

lemma command_type:
  assumes "parseCommandJson J input = Inr c"
  obtains document where "deserialize J 8 input = Some document" "is_object J document"
    "as_cstring J (jmember J document ''type'') = Some ''command''" "length input \<le> kMaxJsonBytes"
  using assms
  by (auto simp: parseCommandJson_def rejects_command_envelope_def Let_def not_less split: if_splits option.splits)

lemma command_is_no_other_message:
  assumes "parseCommandJson J input = Inr c"
  shows "parseCameraCompletedAck J input = None"
    "\<exists>e. parseAudioOutputControlJson J input = Inl e" "\<exists>e. parseRemoteErrorJson J input = Inl e"
proof -
  obtain document where d: "deserialize J 8 input = Some document" "is_object J document"
      "as_cstring J (jmember J document ''type'') = Some ''command''" "length input \<le> kMaxJsonBytes"
    using command_type [OF assms] .
  have kinds: "''command'' \<noteq> ''audio.output.start''" "''command'' \<noteq> ''audio.output.end''"
      "''command'' \<noteq> ''error''" "''command'' \<noteq> ''camera.completed_ack''" by simp_all
  show "\<exists>e. parseAudioOutputControlJson J input = Inl e"
    using d kinds by (simp add: parseAudioOutputControlJson_def)
  show "\<exists>e. parseRemoteErrorJson J input = Inl e"
    using d kinds by (simp add: parseRemoteErrorJson_def Let_def)
  show "parseCameraCompletedAck J input = None"
    using d kinds by (simp add: parseCameraCompletedAck_def Let_def)
qed

lemma on_text_command:
  assumes "parseCommandJson (json W) input = Inr c" "commandHandler (config W) = Some h"
    "envelopeFactory (config W) = Some f"
  shows "on_text W input s = on_command W h f input c s"
  using command_is_no_other_message [OF assms(1)] assms by (auto simp: on_text_def)

section \<open>A retry gets the same answer\<close>

definition cached_answer :: "string \<Rightarrow> BridgeClient \<Rightarrow> CachedCommandResult option" where
  "cached_answer request s = List.find (\<lambda>entry. requestId (cached_command entry) = request) (m_commandResultCache s)"

lemma find_append: "List.find P (xs @ ys) = (case List.find P xs of None \<Rightarrow> List.find P ys | Some x \<Rightarrow> Some x)"
  by (induction xs) simp_all

lemma connection_step_answer:
  assumes "connection_step step" "cached_answer request s = Some e" "in_session (m_state s)"
  shows "cached_answer request (atomic_step W step s) = Some e \<and> in_session (m_state (atomic_step W step s))"
  using connection_step_cases [OF assms(1), of s W] assms(2,3)
  by (auto simp: calm_def handles_def cached_answer_def find_append)

lemma connection_steps_answer:
  "list_all connection_step steps \<Longrightarrow> cached_answer request s = Some e \<Longrightarrow> in_session (m_state s) \<Longrightarrow>
   cached_answer request (run_atomic W steps s) = Some e \<and> in_session (m_state (run_atomic W steps s))"
  by (induction steps arbitrary: s) (simp_all add: run_atomic_def connection_step_answer)

text \<open>C2: Once the result of a request is cached, every later repetition of the request in the
  connection, after any operations and messages in between, is answered with the same bytes and
  nothing is executed; a failed send closes the connection.\<close>

theorem retry_replays_answer:
  assumes "cached_answer (requestId c) s = Some e" "in_session (m_state s)" "list_all connection_step steps"
    and "parseCommandJson (json W) input = Inr c" "isSameCommandRequest (cached_command e) c"
    and "commandHandler (config W) = Some h" "envelopeFactory (config W) = Some f"
  shows "let t = run_atomic W steps s in
    m_io (onData W (Some input) False t) = m_io t @ SendText (cached_response e)
      # (if sendText_ok W (m_io t) (cached_response e) then [] else [Close])"
proof -
  define t where "t = run_atomic W steps s"
  have t: "cached_answer (requestId c) t = Some e" "in_session (m_state t)"
    using connection_steps_answer [OF assms(3,1,2), of W] by (simp_all add: t_def)
  then have "onData W (Some input) False t = on_command W h f input c t"
    using on_text_command [OF assms(4,6,7)] by (auto simp: onData_def in_session_def)
  then show ?thesis
    using t(1) assms(5)
    by (simp add: t_def [symmetric] on_command_def cached_answer_def Let_def split_beta sendText_def
        drop_connection_def emit_def rememberMessageId_def)
qed

section \<open>The example\<close>

lemma served_eq:
  "served = connected\<lparr>m_seenMessageIds := [uuid_a],
     m_io := m_io connected @ [Execute (volume_command uuid_a), MakeEnvelope, SendText ''{}''],
     m_commandResultCacheBytes := 408,
     m_commandResultCache := [\<lparr>cached_command = volume_command uuid_a, cached_response = ''{}''\<rparr>]\<rparr>"
proof -
  have parse: "parseCommandJson (json sample_world) ''volume'' = Inr (volume_command uuid_a)"
    using volume_parses by simp
  have ids: "requestId (volume_command uuid_a) = uuid_c" "command_messageId (volume_command uuid_a) = uuid_a"
    "command_name (volume_command uuid_a) = AudioSetVolume"
    by (simp_all add: volume_command_def)
  show ?thesis
    by (simp add: served_def onData_def on_text_command [OF parse] on_command_def execute_command_def ids
        run_handler_def answer_command_def result_builds sendText_def emit_def Let_def rememberMessageId_def
        hasSeenMessageId_def kSeenMessageIdLimit_def kCommandResultCacheLimit_def
        kCommandResultCacheByteLimit_def kMaxJsonBytes_def)
qed

lemma again_answered: "m_io (onData sample_world (Some ''again'') False served) = m_io served @ [SendText ''{}'']"
proof -
  have parse: "parseCommandJson (json sample_world) ''again'' = Inr (volume_command uuid_b)"
    using volume_parses by simp
  have same: "isSameCommandRequest (volume_command uuid_a) (volume_command uuid_b)" by code_simp
  have ids: "requestId (volume_command uuid_a) = uuid_c" "requestId (volume_command uuid_b) = uuid_c"
    by (simp_all add: volume_command_def)
  show ?thesis
    by (simp add: onData_def on_text_command [OF parse] on_command_def served_eq ids same sendText_def emit_def
        Let_def rememberMessageId_def)
qed

lemma executed_at_most_once_witness:
  "let steps = [Callback (Data (Some ''volume'') False), Callback (Data (Some ''again'') False)];
       new = drop (length (m_io connected)) (m_io (run_atomic sample_world steps connected))
   in distinct (map requestId (executions new)) \<and> executions new = [volume_command uuid_a]"
proof -
  have "run_atomic sample_world
      [Callback (Data (Some ''volume'') False), Callback (Data (Some ''again'') False)] connected
    = onData sample_world (Some ''again'') False served"
    by (simp add: run_atomic_def served_def)
  then show ?thesis
    using executed_at_most_once [of "[Callback (Data (Some ''volume'') False), Callback (Data (Some ''again'') False)]"
        connected sample_world]
    by (simp add: again_answered) (simp add: served_eq)
qed

lemma retry_replays_answer_witness:
  "m_io (onData sample_world (Some ''again'') False (run_atomic sample_world [] served))
     = m_io served @ [SendText ''{}'']"
proof -
  have "cached_answer (requestId (volume_command uuid_b)) served
      = Some \<lparr>cached_command = volume_command uuid_a, cached_response = ''{}''\<rparr>"
    by (simp add: cached_answer_def served_eq volume_command_def)
  moreover have "in_session (m_state served)" by (simp add: served_eq)
  moreover have "isSameCommandRequest (volume_command uuid_a) (volume_command uuid_b)" by code_simp
  moreover have "parseCommandJson (json sample_world) ''again'' = Inr (volume_command uuid_b)"
    using volume_parses by simp
  ultimately show ?thesis
    using retry_replays_answer [where W = sample_world and steps = "[]" and s = served and c = "volume_command uuid_b"
        and input = "''again''" and e = "\<lparr>cached_command = volume_command uuid_a, cached_response = ''{}''\<rparr>"]
    by (simp add: run_atomic_def Let_def)
qed

end
