(* ===== verification/Session_Wire.thy ===== *)
theory Session_Wire
  imports Session_Relation
begin

text \<open>
  What the client puts on the wire, and what it keeps in memory: every call on the transport is
  within the limits of the protocol, and the histories of messages and results are bounded and free
  of duplicates.
\<close>

section \<open>The invariant\<close>

fun wire_ok :: "Effect \<Rightarrow> bool" where
  "wire_ok (SetHeader name v) = (isSafeHeaderValue v \<and> length v \<le> 519)"
| "wire_ok (Connect url) = isBridgeWebSocketUrl url"
| "wire_ok (NotifyUrl url) = isBridgeWebSocketUrl url"
| "wire_ok (SendText message) = (length message \<le> kMaxJsonBytes)"
| "wire_ok (SendBinary packet) = (length packet \<le> kMaxAudioPacketBytes)"
| "wire_ok (SetReceiveBufferSize n) = (n = kMaxJsonBytes)"
| "wire_ok e = True"

text \<open>What \<open>initialize\<close> has checked before the client leaves BOOTING.\<close>

definition config_accepted :: "('v, 'z) world_scheme \<Rightarrow> BridgeClient \<Rightarrow> bool" where
  "config_accepted W s \<longleftrightarrow> isSafeHeaderValue (deviceToken (config W)) \<and> length (deviceToken (config W)) \<le> 512
     \<and> isValidDeviceId (deviceId (config_hello (config W)))
     \<and> (m_bridgeUrl s = [] \<or> isBridgeWebSocketUrl (m_bridgeUrl s))"

definition histories_ok :: "BridgeClient \<Rightarrow> bool" where
  "histories_ok s \<longleftrightarrow> length (m_seenMessageIds s) \<le> kSeenMessageIdLimit \<and> distinct (m_seenMessageIds s)
     \<and> length (m_commandResultCache s) \<le> kCommandResultCacheLimit
     \<and> distinct (map (\<lambda>entry. requestId (cached_command entry)) (m_commandResultCache s))
     \<and> sum_list (map (\<lambda>entry. length (cached_response entry)) (m_commandResultCache s)) \<le> m_commandResultCacheBytes s
     \<and> m_commandResultCacheBytes s \<le> kCommandResultCacheByteLimit"

definition wire_inv :: "('v, 'z) world_scheme \<Rightarrow> BridgeClient \<Rightarrow> bool" where
  "wire_inv W s \<longleftrightarrow> list_all wire_ok (m_io s) \<and> length (m_helloJson s) \<le> kMaxJsonBytes
     \<and> (\<forall>entry\<in>set (m_commandResultCache s). length (cached_response entry) \<le> kMaxJsonBytes)
     \<and> (m_state s \<in> {Booting, DeviceState.Error} \<or> config_accepted W s) \<and> histories_ok s"

definition keeps :: "('v, 'z) world_scheme \<Rightarrow> BridgeClient \<Rightarrow> BridgeClient \<Rightarrow> bool" where
  "keeps W s t \<longleftrightarrow> (wire_inv W s \<longrightarrow> wire_inv W t)"

lemma remember_histories: "histories_ok s \<Longrightarrow> histories_ok (rememberMessageId i s)"
  by (cases "m_seenMessageIds s")
    (auto simp: histories_ok_def rememberMessageId_def hasSeenMessageId_def kSeenMessageIdLimit_def Let_def)

lemma running_states:
  "event \<in> insert BridgeDisconnected session_events \<Longrightarrow>
   snd (transition st event) \<in> {Booting, DeviceState.Error} \<longleftrightarrow> st \<in> {Booting, DeviceState.Error}"
  by (cases st) (auto simp: session_events_def transition_def)

lemma emit_wire: "wire_inv W s \<Longrightarrow> wire_ok e \<Longrightarrow> wire_inv W (emit e s)"
  by (simp add: wire_inv_def emit_def config_accepted_def histories_ok_def)

lemma wire_observed:
  assumes "m_io t = m_io s" "m_state t = m_state s" "m_bridgeUrl t = m_bridgeUrl s" "m_helloJson t = m_helloJson s"
    "m_seenMessageIds t = m_seenMessageIds s" "m_commandResultCache t = m_commandResultCache s"
    "m_commandResultCacheBytes t = m_commandResultCacheBytes s"
  shows "wire_inv W t = wire_inv W s"
  using assms by (simp add: wire_inv_def config_accepted_def histories_ok_def)

lemma state_wire:
  assumes "wire_inv W s" "st \<in> {Booting, DeviceState.Error} \<or> config_accepted W s"
  shows "wire_inv W (s\<lparr>m_state := st\<rparr>)"
  using assms by (simp add: wire_inv_def config_accepted_def histories_ok_def)

lemma transitionState_wire:
  assumes "wire_inv W s" "snd (transition (m_state s) event) \<in> {Booting, DeviceState.Error} \<or> config_accepted W s"
  shows "wire_inv W (snd (transitionState W event s))"
  using state_wire [OF assms] by (simp add: transitionState_def Let_def split_beta emit_wire)

lemma running_wire:
  assumes "wire_inv W s" "event \<in> insert BridgeDisconnected session_events"
  shows "wire_inv W (snd (transitionState W event s))"
  using running_states [OF assms(2), of "m_state s"] assms(1)
  by (intro transitionState_wire) (auto simp: wire_inv_def)

interpretation wire: client_relation W "keeps W" for W
proof unfold_locales
  fix W :: "('a, 'b) world_scheme" and event s
  assume "event \<in> session_events"
  then show "keeps W s (snd (transitionState W event s))"
    by (simp add: keeps_def running_wire)
next
  fix W :: "('a, 'b) world_scheme" and i s
  show "keeps W s (rememberMessageId i s)"
    using remember_histories [of s i]
    by (simp add: keeps_def wire_inv_def config_accepted_def) (simp add: rememberMessageId_def Let_def)
next
  fix W :: "('a, 'b) world_scheme" and s t
  assume "same_observed s t"
  then show "keeps W s t" by (simp add: keeps_def same_observed_def wire_observed [of t s W])
qed (auto simp: keeps_def emit_wire)

section \<open>Starting and connecting\<close>

lemma accepted_after_checks:
  assumes "\<not> rejects_config W s" "buildHelloJson (json W) (helloEnvelope (config W)) (config_hello (config W)) = Inr out"
  shows "config_accepted W s" "length out \<le> kMaxJsonBytes"
  using assms(1) build_hello_bounded [OF assms(2)]
  by (auto simp: rejects_config_def config_accepted_def resolveBridgeEndpoint_def new_BridgeEndpointSources_def
      Let_def not_less split: if_splits)

lemma hello_wire: "wire_inv W s \<Longrightarrow> length h \<le> kMaxJsonBytes \<Longrightarrow> wire_inv W (s\<lparr>m_helloJson := h\<rparr>)"
  by (simp add: wire_inv_def config_accepted_def histories_ok_def)

lemma hello_accepted [simp]: "config_accepted W (s\<lparr>m_helloJson := h\<rparr>) = config_accepted W s"
  by (simp add: config_accepted_def)

lemma boot_failure_state: "snd (transition st HardwareOrConfigFailure) \<in> {DeviceState.Error, st}"
  by (cases st) (simp_all add: transition_def)

lemma boot_failure_wire: "wire_inv W s \<Longrightarrow> wire_inv W (snd (transitionState W HardwareOrConfigFailure s))"
  using boot_failure_state [of "m_state s"] by (intro transitionState_wire) (auto simp: wire_inv_def)

lemma initialize_wire:
  assumes "wire_inv W s"
  shows "wire_inv W (snd (initialize W s))"
proof (cases "buildHelloJson (json W) (helloEnvelope (config W)) (config_hello (config W))")
  case (Inl e)
  then show ?thesis
    using assms hello_wire [OF assms, of "[]"] by (simp add: initialize_def boot_failure_wire)
next
  case (Inr out)
  show ?thesis
  proof (cases "rejects_config W s")
    case False
    note ok = accepted_after_checks [OF False Inr]
    then have "wire_inv W (snd (transitionState W InitializationSucceeded (s\<lparr>m_helloJson := out\<rparr>)))"
      using hello_wire [OF assms ok(2)] by (intro transitionState_wire) simp_all
    then show ?thesis using False Inr by (simp add: initialize_def Let_def split_beta emit_wire)
  qed (simp add: initialize_def assms boot_failure_wire)
qed

lemma safe_device_id:
  assumes "isValidDeviceId d"
  shows "isSafeHeaderValue d \<and> length d \<le> 519"
proof -
  have "\<not> (c < CHR 0x20 \<or> c = CHR 0x7F)"
    if "isAsciiAlphaNumeric c \<or> c = CHR ''.'' \<or> c = CHR ''_'' \<or> c = CHR ''-''" for c
    using that by (auto simp: isAsciiAlphaNumeric_def less_char_def less_eq_char_def)
  then show ?thesis using assms by (auto simp: isValidDeviceId_def isSafeHeaderValue_def list_all_iff split: if_splits)
qed

lemma bearer_safe: "isSafeHeaderValue token \<Longrightarrow> length token \<le> 512 \<Longrightarrow> wire_ok (SetHeader n (''Bearer '' @ token))"
  by (simp add: isSafeHeaderValue_def)

lemma resolve_wire:
  assumes "wire_inv W s" "config_accepted W s"
  shows "wire_inv W (snd (resolveBridgeUrl W s))" "config_accepted W (snd (resolveBridgeUrl W s))"
    "m_state (snd (resolveBridgeUrl W s)) = m_state s"
    "fst (resolveBridgeUrl W s) = ClientError.NoError \<Longrightarrow> isBridgeWebSocketUrl (m_bridgeUrl (snd (resolveBridgeUrl W s)))"
proof -
  note ok = endpoint_ok_url
  show "m_state (snd (resolveBridgeUrl W s)) = m_state s" by simp
  show "config_accepted W (snd (resolveBridgeUrl W s))"
    using assms(2) by (auto simp: resolveBridgeUrl_def Let_def config_accepted_def emit_def intro: ok split: option.split)
  show "wire_inv W (snd (resolveBridgeUrl W s))"
    using assms by (auto simp: resolveBridgeUrl_def Let_def emit_def wire_inv_def config_accepted_def
        histories_ok_def intro: ok split: option.split)
  show "isBridgeWebSocketUrl (m_bridgeUrl (snd (resolveBridgeUrl W s)))"
    if "fst (resolveBridgeUrl W s) = ClientError.NoError"
    using that assms(2) by (auto simp: resolveBridgeUrl_def Let_def emit_def config_accepted_def intro: ok
        split: option.splits if_splits)
qed

lemma pending_wire [simp]:
  "wire_inv W (s\<lparr>m_reconnectPending := p\<rparr>) = wire_inv W s"
  "wire_inv W (s\<lparr>m_reconnectPending := p, m_reconnectScheduled := f\<rparr>) = wire_inv W s"
  "wire_inv W (s\<lparr>m_reconnectScheduled := f\<rparr>) = wire_inv W s"
  by (rule wire_observed; simp)+

lemma connect_wire: "wire_inv W s \<Longrightarrow> isBridgeWebSocketUrl (m_bridgeUrl s) \<Longrightarrow> wire_inv W (snd (connect_url W s))"
  by (simp add: connect_url_def Let_def emit_wire)

lemma reconnect_wire:
  assumes "wire_inv W s"
  shows "wire_inv W (snd (reconnect W s))"
proof (cases "m_state s = ConnectingBridge")
  case True
  then have "config_accepted W s" using assms by (simp add: wire_inv_def)
  from resolve_wire [OF assms this] show ?thesis
    by (simp add: reconnect_def Let_def split_beta connect_wire True)
qed (simp add: reconnect_def assms)

lemma wifiConnected_wire:
  assumes "wire_inv W s"
  shows "wire_inv W (snd (wifiConnected W s))"
proof (cases "m_state s = ConnectingWifi")
  case True
  then have ok: "config_accepted W s" using assms by (simp add: wire_inv_def)
  define t where "t = emit (SetHeader ''X-StackChan-Device-Id'' (deviceId (config_hello (config W))))
    (emit (SetHeader ''Authorization'' (''Bearer '' @ deviceToken (config W))) (snd (transitionState W WifiConnected s)))"
  have "wire_inv W t"
    using ok safe_device_id unfolding t_def
    by (intro emit_wire transitionState_wire bearer_safe) (auto simp: assms config_accepted_def)
  moreover have "config_accepted W t"
    using ok by (simp add: t_def config_accepted_def emit_def transitionState_def Let_def split_beta)
  moreover have "snd (wifiConnected W s) =
      (if fst (resolveBridgeUrl W t) \<noteq> ClientError.NoError
       then (snd (resolveBridgeUrl W t))\<lparr>m_reconnectPending := True, m_reconnectScheduled := False\<rparr>
       else snd (connect_url W ((snd (resolveBridgeUrl W t))
              \<lparr>m_reconnectPending := False, m_reconnectScheduled := False\<rparr>)))"
    using True by (simp add: wifiConnected_def Let_def split_beta t_def)
  ultimately show ?thesis
    using resolve_wire [of W t] by (simp add: connect_wire)
qed (simp add: wifiConnected_def assms)

section \<open>Messages\<close>

lemma disconnected_wire: "wire_inv W s \<Longrightarrow> wire_inv W (handleTransportDisconnected W s)"
proof -
  assume s: "wire_inv W s"
  define t where "t = s\<lparr>m_helloAcknowledgement := None, m_audioOutput := reset (m_audioOutput s),
       m_pendingUnderrun := new_PendingAudioBufferEvent, m_pendingOverflow := new_PendingAudioBufferEvent,
       m_audioInputTurnId := [], m_audioInputStreamId := [], m_audioInputOpen := False,
       m_audioInputTimerArmed := False, m_audioInputTimerStarted := False,
       m_recentlyCancelledAudioOutputTurnId := [], m_locallyCancelledAudioOutputTurnId := [],
       m_locallyCancelledAudioOutputStreamId := [], m_stableTimerArmed := False, m_stableTimerStarted := False,
       m_handshakeTimerArmed := False, m_handshakeTimerStarted := False, m_heartbeatTimerArmed := False,
       m_heartbeatTimerStarted := False, m_invalidMessageWindow := reset_window (m_invalidMessageWindow s),
       m_awaitingPong := False, m_seenMessageIds := [], m_commandResultCache := [], m_commandResultCacheBytes := 0\<rparr>"
  have "wire_inv W t" using s by (simp add: t_def wire_inv_def config_accepted_def histories_ok_def)
  then show ?thesis
    by (simp add: handleTransportDisconnected_def Let_def t_def [symmetric] running_wire)
qed

lemma sendText_wire: "wire_inv W s \<Longrightarrow> length m \<le> kMaxJsonBytes \<Longrightarrow> wire_inv W (snd (sendText W m s))"
  by (simp add: sendText_def emit_wire)

lemma keeps_wire: "wire_inv W s \<Longrightarrow> keeps W s t \<Longrightarrow> wire_inv W t"
  by (simp add: keeps_def)

lemma give_up_wire: "wire_inv W s \<Longrightarrow> wire_inv W (fail_transport s)" "wire_inv W s \<Longrightarrow> wire_inv W (drop_connection s)"
  by (simp_all add: fail_transport_def drop_connection_def emit_wire)

lemma onConnected_wire:
  assumes "wire_inv W s"
  shows "wire_inv W (onConnected W s)"
proof -
  have "wire_inv W (snd (sendText W (m_helloJson s) s))"
    using assms by (intro sendText_wire) (simp_all add: wire_inv_def)
  moreover have "wire_inv W (t\<lparr>m_handshakeTimerArmed := True, m_handshakeTimerStarted := False\<rparr>)"
    if "wire_inv W t" for t
    by (rule keeps_wire [OF that]) (intro wire.steps)
  ultimately show ?thesis by (simp add: onConnected_def Let_def split_beta give_up_wire)
qed

lemma execute_command_wire:
  assumes "wire_inv W s"
  shows "wire_inv W (snd (execute_command W h c s))"
    "m_commandResultCache (snd (execute_command W h c s)) = m_commandResultCache s"
    "m_commandResultCacheBytes (snd (execute_command W h c s)) = m_commandResultCacheBytes s"
proof -
  have run: "wire_inv W t \<Longrightarrow> wire_inv W (snd (run_handler h c t))" for t
    by (simp add: run_handler_def emit_wire)
  have ended: "wire_inv W t \<Longrightarrow> wire_inv W (snd (transitionState W PlaybackEnded t))" for t
    by (rule running_wire) (simp_all add: session_events_def)
  have fields: "wire_inv W (s\<lparr>m_audioOutput := b\<rparr>)" "wire_inv W (s\<lparr>m_audioOutput := b, m_recentlyCancelledAudioOutputTurnId := i\<rparr>)"
    for b i
    by (rule keeps_wire [OF assms], intro wire.steps)+
  show "wire_inv W (snd (execute_command W h c s))"
    by (simp add: execute_command_def Let_def split_beta run ended fields assms)
  show "m_commandResultCache (snd (execute_command W h c s)) = m_commandResultCache s"
    "m_commandResultCacheBytes (snd (execute_command W h c s)) = m_commandResultCacheBytes s"
    by (simp_all add: execute_command_def Let_def split_beta)
qed

lemma answer_command_wire:
  assumes "wire_inv W s" "length (m_commandResultCache s) < kCommandResultCacheLimit"
    and "requestId c \<notin> (\<lambda>entry. requestId (cached_command entry)) ` set (m_commandResultCache s)"
    and "m_commandResultCacheBytes s + n + kMaxJsonBytes \<le> kCommandResultCacheByteLimit"
  shows "wire_inv W (answer_command W f c n r s)"
proof (cases "buildCommandResultJson (json W) (f (m_io s)) (requestId c) r")
  case (Inl e)
  then show ?thesis by (simp add: answer_command_def Let_def give_up_wire emit_wire assms)
next
  case (Inr response)
  then have bound: "length response \<le> kMaxJsonBytes" by (rule command_result_bounded)
  have sent: "wire_inv W (snd (sendText W response (emit MakeEnvelope s)))"
    by (intro sendText_wire emit_wire bound assms) simp
  moreover from sent bound assms(2-4) have "wire_inv W ((snd (sendText W response (emit MakeEnvelope s)))
      \<lparr>m_commandResultCacheBytes := m_commandResultCacheBytes s + n + length response,
       m_commandResultCache := m_commandResultCache s @ [\<lparr>cached_command = c, cached_response = response\<rparr>]\<rparr>)"
    by (auto simp: wire_inv_def config_accepted_def histories_ok_def)
  ultimately show ?thesis
    by (simp add: answer_command_def Inr Let_def split_beta give_up_wire)
qed

lemma on_command_wire:
  assumes "wire_inv W s"
  shows "wire_inv W (on_command W h f input c s)"
proof (cases "List.find (\<lambda>entry. requestId (cached_command entry) = requestId c) (m_commandResultCache s)")
  case None
  define t where "t = rememberMessageId (command_messageId c) s"
  have t: "wire_inv W t" unfolding t_def using assms by (rule keeps_wire) (rule wire.R_remember)
  have same: "m_commandResultCache t = m_commandResultCache s"
      "m_commandResultCacheBytes t = m_commandResultCacheBytes s"
    by (simp_all add: t_def)
  have new: "requestId c \<notin> (\<lambda>entry. requestId (cached_command entry)) ` set (m_commandResultCache s)"
    using None by (force simp: find_None_iff)
  have full: "wire_inv W (drop_connection (reportPeerError W k m s))" for k m
    using assms by (intro give_up_wire) (rule keeps_wire, simp, intro wire.reportPeerError_R wire.R_refl)
  have "wire_inv W (answer_command W f c n r (snd (execute_command W h c t)))"
    if "length (m_commandResultCache s) < kCommandResultCacheLimit"
      "m_commandResultCacheBytes s + n + kMaxJsonBytes \<le> kCommandResultCacheByteLimit" for n r
    using that new execute_command_wire [OF t, of h c] same by (intro answer_command_wire) simp_all
  then show ?thesis
    using assms full by (simp add: on_command_def None Let_def split_beta t_def not_le)
next
  case (Some e)
  then have "e \<in> set (m_commandResultCache s)" by (auto simp: find_Some_iff)
  then have bound: "length (cached_response e) \<le> kMaxJsonBytes" using assms by (simp add: wire_inv_def)
  have t: "wire_inv W (rememberMessageId (command_messageId c) s)"
    using assms by (rule keeps_wire) (rule wire.R_remember)
  then have report: "wire_inv W (reportPeerError W k m (rememberMessageId (command_messageId c) s))" for k m
    by (rule keeps_wire) (intro wire.reportPeerError_R wire.R_refl)
  show ?thesis
    by (simp add: on_command_def Some Let_def split_beta report give_up_wire sendText_wire [OF t bound])
qed

section \<open>Every operation\<close>

lemma onData_keeps: "keeps W s (onData W d b s)"
  by (rule wire.onData_R) (simp add: keeps_def on_command_wire)

lemma deliver_wire: "wire_inv W s \<Longrightarrow> wire_inv W (deliver W event s)"
proof (cases event)
  case (Data d b)
  then show "wire_inv W s \<Longrightarrow> ?thesis" using onData_keeps [of W s d b] by (simp add: keeps_def)
next
  case Pong
  then show "wire_inv W s \<Longrightarrow> ?thesis" using wire.timers_R(5) [OF wire.R_refl, of W s] by (simp add: keeps_def)
qed (simp_all add: onConnected_wire disconnected_wire emit_wire)

lemma deliver_all_wire: "wire_inv W s \<Longrightarrow> wire_inv W (fold (deliver W) events s)"
  by (induction events arbitrary: s) (simp_all add: deliver_wire)

lemma update_reconnect_wire: "wire_inv W s \<Longrightarrow> wire_inv W (update_reconnect W now s)"
proof -
  assume s: "wire_inv W s"
  have "wire_inv W (s\<lparr>m_reconnectBackoff := k, m_reconnectDelayMs := d, m_reconnectScheduledAtMs := n,
      m_reconnectScheduled := f\<rparr>)" for k d n f
    by (rule keeps_wire [OF s]) (intro wire.steps)
  then show ?thesis using s by (simp add: update_reconnect_def split_beta reconnect_wire)
qed

lemma update_wire: "wire_inv W s \<Longrightarrow> wire_inv W (update W now events s)"
proof -
  assume s: "wire_inv W s"
  have clock: "wire_inv W (s\<lparr>m_lastUpdateMs := now\<rparr>)" by (rule keeps_wire [OF s]) (intro wire.steps)
  have timers: "keeps W t (update_stable now (update_heartbeat now (update_handshake now (update_audio_input W now
      (sendPendingAudioBufferEvent W Overflow (sendPendingAudioBufferEvent W Underrun t))))))" for t
    by (intro wire.timers_R wire.pending_R wire.R_refl)
  show ?thesis
    unfolding update_def Let_def
    by (rule update_reconnect_wire, rule keeps_wire [OF _ timers], rule deliver_all_wire, rule clock)
qed

lemma client_step_wire: "wire_inv W s \<Longrightarrow> wire_inv W (client_step W op s)"
proof -
  assume s: "wire_inv W s"
  note ops = wire.beginAudioInput_R wire.endAudioInput_R wire.sendAudioInputPacket_R wire.sendTouchTap_R
    wire.sendCameraCompleted_R wire.reportAudioDecodeFailure_R wire.playback_R
  show ?thesis
    by (cases op)
      (simp_all add: s initialize_wire wifiConnected_wire reconnect_wire update_wire
        keeps_wire [OF s ops(1) [OF wire.R_refl]] keeps_wire [OF s ops(2) [OF wire.R_refl]]
        keeps_wire [OF s ops(3) [OF wire.R_refl]] keeps_wire [OF s ops(4) [OF wire.R_refl]]
        keeps_wire [OF s ops(5) [OF wire.R_refl]] keeps_wire [OF s ops(6) [OF wire.R_refl]]
        keeps_wire [OF s ops(7) [OF wire.R_refl]] keeps_wire [OF s ops(8) [OF wire.R_refl]]
        keeps_wire [OF s ops(9) [OF wire.R_refl]])
qed

interpretation traffic: invariant_machine "client_step W" "wire_inv W" for W
  by unfold_locales (rule client_step_wire)

lemma new_wire: "wire_inv W (new_BridgeClient W)"
  by (simp add: wire_inv_def new_BridgeClient_def histories_ok_def)

lemma run_client_wire: "wire_inv W (run_client W ops (new_BridgeClient W))"
  by (simp add: run_client_def traffic.run_inv new_wire)

text \<open>C3: Over every run of the client, everything it hands to the transport respects the limits of
  the wire: header values are safe and at most 519 bytes, every URL connected to is a bridge
  WebSocket URL, every text is at most 16384 bytes and every packet at most 1275.\<close>

theorem wire_traffic_valid: "list_all wire_ok (m_io (run_client W ops (new_BridgeClient W)))"
  using run_client_wire [of W ops] by (simp add: wire_inv_def)

theorem histories_bounded:
  "let s = run_client W ops (new_BridgeClient W) in
     length (m_seenMessageIds s) \<le> 256 \<and> distinct (m_seenMessageIds s)
     \<and> length (m_commandResultCache s) \<le> 256
     \<and> distinct (map (\<lambda>entry. requestId (cached_command entry)) (m_commandResultCache s))
     \<and> sum_list (map (\<lambda>entry. length (cached_response entry)) (m_commandResultCache s)) \<le> 262144"
  using run_client_wire [of W ops]
  by (simp add: wire_inv_def histories_ok_def Let_def kSeenMessageIdLimit_def kCommandResultCacheLimit_def
      kCommandResultCacheByteLimit_def)

end
