(* ===== verification/Motion_Safety.thy ===== *)
theory Motion_Safety
  imports Prelude
begin

text \<open>
  \<open>motion_safety.h\<close>: the range of head motion of the K151 servos, and
  \<open>motion_command_safety.h\<close>: who may move the head while local motion is locked.
\<close>

definition kYawMinimumDegrees :: cpp_double where "kYawMinimumDegrees = Finite (- 45)"
definition kYawMaximumDegrees :: cpp_double where "kYawMaximumDegrees = Finite 45"
definition kPitchMinimumDegrees :: cpp_double where "kPitchMinimumDegrees = Finite 5"
definition kPitchMaximumDegrees :: cpp_double where "kPitchMaximumDegrees = Finite 85"
definition kSpeedMinimum :: int where "kSpeedMinimum = 1"
definition kSpeedMaximum :: int where "kSpeedMaximum = 30"
definition kDefaultSpeed :: int where "kDefaultSpeed = 15"
definition kDriverSpeedMaximum :: int where "kDriverSpeedMaximum = kSpeedMaximum * 10"
definition kHomeYawDegrees :: cpp_double where "kHomeYawDegrees = Finite 0"
definition kHomePitchDegrees :: cpp_double where "kHomePitchDegrees = Finite 45"

definition contains :: "cpp_double \<Rightarrow> cpp_double \<Rightarrow> int \<Rightarrow> bool" where
  "contains yaw pitch speed \<longleftrightarrow>
     dle kYawMinimumDegrees yaw \<and> dle yaw kYawMaximumDegrees
     \<and> dle kPitchMinimumDegrees pitch \<and> dle pitch kPitchMaximumDegrees
     \<and> speed \<ge> kSpeedMinimum \<and> speed \<le> kSpeedMaximum"

definition containsSpeed :: "int \<Rightarrow> bool" where
  "containsSpeed speed \<longleftrightarrow> speed \<ge> kSpeedMinimum \<and> speed \<le> kSpeedMaximum"

definition clampDriverSpeed :: "int \<Rightarrow> int" where
  "clampDriverSpeed speed =
     (if speed < 0 then 0 else if speed > kDriverSpeedMaximum then kDriverSpeedMaximum else speed)"

lemmas safety_constants = kYawMinimumDegrees_def kYawMaximumDegrees_def kPitchMinimumDegrees_def
  kPitchMaximumDegrees_def kSpeedMinimum_def kSpeedMaximum_def kDefaultSpeed_def
  kDriverSpeedMaximum_def kHomeYawDegrees_def kHomePitchDegrees_def

lemma contains_finite: "contains yaw pitch speed \<Longrightarrow> isfinite yaw \<and> isfinite pitch"
  by (cases yaw; cases pitch) (auto simp: contains_def safety_constants)

lemma contains_home: "containsSpeed speed \<Longrightarrow> contains kHomeYawDegrees kHomePitchDegrees speed"
  by (simp add: contains_def containsSpeed_def safety_constants)

lemma clampDriverSpeed_range: "0 \<le> clampDriverSpeed s \<and> clampDriverSpeed s \<le> kDriverSpeedMaximum"
  by (simp add: clampDriverSpeed_def safety_constants)

lemma clampDriverSpeed_id: "containsSpeed s \<Longrightarrow> clampDriverSpeed (s * 10) = s * 10"
  by (simp add: clampDriverSpeed_def containsSpeed_def safety_constants)

section \<open>Sources of motion\<close>

datatype MotionCommandSource = Local | AuthenticatedBridge

record MotionCommandSafety =
  m_localMotionLocked :: bool

definition setLocalMotionLocked :: "bool \<Rightarrow> MotionCommandSafety \<Rightarrow> MotionCommandSafety" where
  "setLocalMotionLocked locked s = s\<lparr>m_localMotionLocked := locked\<rparr>"

definition localMotionLocked :: "MotionCommandSafety \<Rightarrow> bool" where
  "localMotionLocked s = m_localMotionLocked s"

definition allowsMotion :: "MotionCommandSource \<Rightarrow> MotionCommandSafety \<Rightarrow> bool" where
  "allowsMotion source s \<longleftrightarrow> \<not> m_localMotionLocked s \<or> source = AuthenticatedBridge"

definition allowsTorque :: "bool \<Rightarrow> MotionCommandSource \<Rightarrow> MotionCommandSafety \<Rightarrow> bool" where
  "allowsTorque enabled source s \<longleftrightarrow> \<not> enabled \<or> allowsMotion source s"

lemma torque_off_always_allowed: "allowsTorque False source s"
  by (simp add: allowsTorque_def)

end
