(* ===== verification/Command_Executor.thy ===== *)
theory Command_Executor
  imports Command Motion_Safety
begin

text \<open>
  \<open>command_executor.cpp\<close>: the execution of a parsed command on a device.  The abstract class
  \<open>DeviceCommandTarget\<close> is a record of operations on a device state \<open>'t\<close>.

  The contract of a device is the locale \<open>guarded_target\<close>: a property that every operation keeps
  when it is called with arguments in its documented range is kept by every command.  It is
  interpreted on the device that records its calls.
\<close>

record DeviceInfo =
  info_deviceId :: string
  info_deviceName :: string
  info_firmwareVersion :: string
  info_hardwareModel :: string

record DeviceStatus =
  status_deviceId :: string
  status_firmwareVersion :: string
  status_hardwareModel :: string
  status_state :: string
  batteryPercent :: int
  status_volume :: int
  status_brightness :: int
  wifiRssiDbm :: int

record HeadAngles =
  angles_yaw :: cpp_double
  angles_pitch :: cpp_double

datatype CommandTargetResult = Success | InvalidState | DeviceBusy

record 't DeviceCommandTarget =
  getInfo :: "'t \<Rightarrow> DeviceInfo"
  getStatus :: "'t \<Rightarrow> DeviceStatus"
  setVolume :: "int \<Rightarrow> 't \<Rightarrow> bool \<times> 't"
  setBrightness :: "int \<Rightarrow> 't \<Rightarrow> bool \<times> 't"
  target_showText :: "string \<Rightarrow> int \<Rightarrow> int \<Rightarrow> 't \<Rightarrow> bool \<times> 't"
  setExpression :: "string \<Rightarrow> 't \<Rightarrow> bool \<times> 't"
  setBlink :: "bool \<Rightarrow> 't \<Rightarrow> bool \<times> 't"
  target_ledCount :: "'t \<Rightarrow> int"
  setLed :: "int \<Rightarrow> int \<Rightarrow> int \<Rightarrow> int \<Rightarrow> 't \<Rightarrow> bool \<times> 't"
  setAllLeds :: "int \<Rightarrow> int \<Rightarrow> int \<Rightarrow> 't \<Rightarrow> bool \<times> 't"
  clearLeds :: "'t \<Rightarrow> bool \<times> 't"
  setHeadAngles :: "cpp_double \<Rightarrow> cpp_double \<Rightarrow> int \<Rightarrow> 't \<Rightarrow> bool \<times> 't"
  homeHead :: "int \<Rightarrow> 't \<Rightarrow> bool \<times> 't"
  getHeadAngles :: "'t \<Rightarrow> HeadAngles option"
  cancelSpeech :: "string \<Rightarrow> 't \<Rightarrow> bool \<times> 't"
  cancelCapture :: "string \<Rightarrow> 't \<Rightarrow> bool \<times> 't"
  startCapture :: "string \<Rightarrow> int \<Rightarrow> int \<Rightarrow> 't \<Rightarrow> CommandTargetResult \<times> 't"

definition invalidState :: "string \<Rightarrow> CommandExecutionResult" where
  "invalidState message = new_CommandExecutionResult
     \<lparr>errorCode := CommandErrorCode.InvalidState, errorMessage := message\<rparr>"

definition invalidArgument :: "string \<Rightarrow> CommandExecutionResult" where
  "invalidArgument message = new_CommandExecutionResult
     \<lparr>errorCode := CommandErrorCode.InvalidArgument, errorMessage := message\<rparr>"

definition deviceBusy :: "string \<Rightarrow> CommandExecutionResult" where
  "deviceBusy message = new_CommandExecutionResult
     \<lparr>errorCode := CommandErrorCode.DeviceBusy, errorMessage := message\<rparr>"

definition success :: CommandExecutionResult where
  "success = new_CommandExecutionResult\<lparr>result_ok := True\<rparr>"

definition result_field :: "string \<Rightarrow> CommandResultValue \<Rightarrow> CommandResultField" where
  "result_field name v = \<lparr>field_name = name, field_value = v\<rparr>"

definition executor_getStatus :: "('t, 'z) DeviceCommandTarget_scheme \<Rightarrow> 't \<Rightarrow> CommandExecutionResult" where
  "executor_getStatus T t =
     (let status = getStatus T t in
      new_CommandExecutionResult\<lparr>result_ok := True, resultFields :=
        [result_field ''device_id'' (RString (status_deviceId status)),
         result_field ''firmware_version'' (RString (status_firmwareVersion status)),
         result_field ''hardware_model'' (RString (status_hardwareModel status)),
         result_field ''state'' (RString (status_state status)),
         result_field ''battery_percent'' (RInt (batteryPercent status)),
         result_field ''volume'' (RInt (status_volume status)),
         result_field ''brightness'' (RInt (status_brightness status)),
         result_field ''wifi_rssi_dbm'' (RInt (wifiRssiDbm status))]\<rparr>)"

definition executor_getInfo :: "('t, 'z) DeviceCommandTarget_scheme \<Rightarrow> 't \<Rightarrow> CommandExecutionResult" where
  "executor_getInfo T t =
     (let info = getInfo T t in
      new_CommandExecutionResult\<lparr>result_ok := True, resultFields :=
        [result_field ''device_id'' (RString (info_deviceId info)),
         result_field ''device_name'' (RString (info_deviceName info)),
         result_field ''firmware_version'' (RString (info_firmwareVersion info)),
         result_field ''hardware_model'' (RString (info_hardwareModel info))]\<rparr>)"

definition kExpressions :: "string list" where
  "kExpressions = [''idle'', ''happy'', ''thinking'', ''sad'', ''surprised'', ''embarrassed'']"

definition isSupportedExpression :: "string \<Rightarrow> bool" where
  "isSupportedExpression expr \<longleftrightarrow> list_ex (\<lambda>candidate. expr = candidate) kExpressions"

definition isRgbValue :: "int \<Rightarrow> bool" where
  "isRgbValue value \<longleftrightarrow> value \<ge> 0 \<and> value \<le> 255"

definition executor_isValidBoundedText :: "string \<Rightarrow> nat \<Rightarrow> bool" where
  "executor_isValidBoundedText value maximumCodePoints = isValidBoundedText value maximumCodePoints"

text \<open>\<open>attempt\<close> is the conditional expression that ends most branches.\<close>

definition attempt :: "string \<Rightarrow> bool \<times> 't \<Rightarrow> CommandExecutionResult \<times> 't" where
  "attempt message outcome = ((if fst outcome then success else invalidState message), snd outcome)"

definition effective_speed :: "CommandArguments \<Rightarrow> int" where
  "effective_speed a = (if hasSpeed a then speed a else kDefaultSpeed)"

definition executeCommand ::
  "('t, 'z) DeviceCommandTarget_scheme \<Rightarrow> Command \<Rightarrow> 't \<Rightarrow> CommandExecutionResult \<times> 't" where
  "executeCommand T command t =
    (let a = arguments command in
     case command_name command of
       DeviceGetStatus \<Rightarrow> (executor_getStatus T t, t)
     | DeviceGetInfo \<Rightarrow> (executor_getInfo T t, t)
     | AudioSetVolume \<Rightarrow>
         if volume a < 0 \<or> volume a > 100 then (invalidArgument ''Volume is outside the supported range'', t)
         else attempt ''Speaker is unavailable'' (setVolume T (volume a) t)
     | DisplaySetBrightness \<Rightarrow>
         if brightness a < 0 \<or> brightness a > 100
         then (invalidArgument ''Brightness is outside the supported range'', t)
         else attempt ''Display is unavailable'' (setBrightness T (brightness a) t)
     | DisplayShowText \<Rightarrow>
         if \<not> executor_isValidBoundedText (showText a) 256 \<or> durationMs a < 100 \<or> durationMs a > 30000
            \<or> priority a < 0 \<or> priority a > 10
         then (invalidArgument ''Display text is outside the supported range'', t)
         else attempt ''Display is unavailable''
                (target_showText T (showText a) (durationMs a) (priority a) t)
     | AvatarSetExpression \<Rightarrow>
         if \<not> isSupportedExpression (expression a) then (invalidArgument ''Expression is not supported'', t)
         else attempt ''Avatar is unavailable'' (setExpression T (expression a) t)
     | AvatarSetBlink \<Rightarrow> attempt ''Avatar is unavailable'' (setBlink T (enabled a) t)
     | LedSet \<Rightarrow>
         (let ledCount = target_ledCount T t in
          if ledCount \<le> 0 then (invalidState ''LEDs are unavailable'', t)
          else if index a < 0 \<or> index a \<ge> ledCount \<or> \<not> isRgbValue (red a)
                  \<or> \<not> isRgbValue (green a) \<or> \<not> isRgbValue (blue a)
          then (invalidArgument ''LED value is outside the supported range'', t)
          else attempt ''LEDs are unavailable'' (setLed T (index a) (red a) (green a) (blue a) t))
     | LedSetAll \<Rightarrow>
         if target_ledCount T t \<le> 0 then (invalidState ''LEDs are unavailable'', t)
         else if \<not> isRgbValue (red a) \<or> \<not> isRgbValue (green a) \<or> \<not> isRgbValue (blue a)
         then (invalidArgument ''LED value is outside the supported range'', t)
         else attempt ''LEDs are unavailable'' (setAllLeds T (red a) (green a) (blue a) t)
     | LedClear \<Rightarrow>
         if target_ledCount T t \<le> 0 then (invalidState ''LEDs are unavailable'', t)
         else attempt ''LEDs are unavailable'' (clearLeds T t)
     | HeadSetAngles \<Rightarrow>
         (let speed = effective_speed a in
          if \<not> contains (yaw a) (pitch a) speed
          then (invalidArgument ''Head motion is outside the K151 safety profile'', t)
          else attempt ''Head motion is unavailable'' (setHeadAngles T (yaw a) (pitch a) speed t))
     | HeadHome \<Rightarrow>
         (let speed = effective_speed a in
          if \<not> containsSpeed speed
          then (invalidArgument ''Head motion is outside the K151 safety profile'', t)
          else attempt ''Head motion is unavailable'' (homeHead T speed t))
     | HeadGetAngles \<Rightarrow>
         (case getHeadAngles T t of
            None \<Rightarrow> (invalidState ''Head position is unavailable'', t)
          | Some angles \<Rightarrow>
              (new_CommandExecutionResult\<lparr>result_ok := True, resultFields :=
                 [result_field ''yaw'' (RDouble (angles_yaw angles)),
                  result_field ''pitch'' (RDouble (angles_pitch angles))]\<rparr>, t))
     | SpeechCancel \<Rightarrow> attempt ''Speech turn is not active'' (cancelSpeech T (command_turnId command) t)
     | CameraCancel \<Rightarrow> attempt ''Capture is not active'' (cancelCapture T (captureId a) t)
     | CameraCapture \<Rightarrow>
         if \<not> executor_isValidUuid (captureId a) \<or> quality a < 10 \<or> quality a > 95
            \<or> captureTimeoutMs a < 1 \<or> captureTimeoutMs a > 120000
         then (invalidArgument ''Camera capture is outside the supported range'', t)
         else (let (outcome, t') = startCapture T (captureId a) (quality a) (captureTimeoutMs a) t in
               ((case outcome of
                   Success \<Rightarrow> success
                 | CommandTargetResult.DeviceBusy \<Rightarrow> deviceBusy ''Camera is busy''
                 | CommandTargetResult.InvalidState \<Rightarrow> invalidState ''Camera is unavailable''), t'))
     | Unknown \<Rightarrow> (invalidState ''Command is not available'', t))"

section \<open>The contract of a device\<close>

locale guarded_target =
  fixes T :: "'t DeviceCommandTarget" and inv :: "'t \<Rightarrow> bool"
  assumes volume_inv: "inv t \<Longrightarrow> 0 \<le> v \<Longrightarrow> v \<le> 100 \<Longrightarrow> inv (snd (setVolume T v t))"
    and brightness_inv: "inv t \<Longrightarrow> 0 \<le> v \<Longrightarrow> v \<le> 100 \<Longrightarrow> inv (snd (setBrightness T v t))"
    and show_inv: "inv t \<Longrightarrow> isValidBoundedText txt 256 \<Longrightarrow> 100 \<le> d \<Longrightarrow> d \<le> 30000 \<Longrightarrow> 0 \<le> p \<Longrightarrow> p \<le> 10
           \<Longrightarrow> inv (snd (target_showText T txt d p t))"
    and expression_inv: "inv t \<Longrightarrow> isSupportedExpression e \<Longrightarrow> inv (snd (setExpression T e t))"
    and blink_inv: "inv t \<Longrightarrow> inv (snd (setBlink T b t))"
    and led_inv: "inv t \<Longrightarrow> 0 \<le> i \<Longrightarrow> i < target_ledCount T t \<Longrightarrow> isRgbValue r \<Longrightarrow> isRgbValue g \<Longrightarrow> isRgbValue bl
           \<Longrightarrow> inv (snd (setLed T i r g bl t))"
    and leds_inv: "inv t \<Longrightarrow> 0 < target_ledCount T t \<Longrightarrow> isRgbValue r \<Longrightarrow> isRgbValue g \<Longrightarrow> isRgbValue bl
           \<Longrightarrow> inv (snd (setAllLeds T r g bl t))"
    and clear_inv: "inv t \<Longrightarrow> 0 < target_ledCount T t \<Longrightarrow> inv (snd (clearLeds T t))"
    and angles_inv: "inv t \<Longrightarrow> contains yw pt sp \<Longrightarrow> inv (snd (setHeadAngles T yw pt sp t))"
    and home_inv: "inv t \<Longrightarrow> containsSpeed sp \<Longrightarrow> inv (snd (homeHead T sp t))"
    and speech_inv: "inv t \<Longrightarrow> inv (snd (cancelSpeech T turn t))"
    and cancel_inv: "inv t \<Longrightarrow> inv (snd (cancelCapture T c t))"
    and capture_inv: "inv t \<Longrightarrow> isValidUuid c \<Longrightarrow> 10 \<le> q \<Longrightarrow> q \<le> 95 \<Longrightarrow> 1 \<le> ms \<Longrightarrow> ms \<le> 120000
           \<Longrightarrow> inv (snd (startCapture T c q ms t))"
begin

lemmas operation_invs = volume_inv brightness_inv show_inv expression_inv blink_inv led_inv leds_inv
  clear_inv angles_inv home_inv speech_inv cancel_inv capture_inv

lemma execute_inv: "inv t \<Longrightarrow> inv (snd (executeCommand T command t))"
  by (cases "command_name command")
    (simp_all add: executeCommand_def Let_def attempt_def not_less not_le executor_isValidBoundedText_def
      uuid_copies_agree operation_invs split_beta split: option.splits)

lemma execute_list_inv: "inv t \<Longrightarrow> inv (fold (\<lambda>c t. snd (executeCommand T c t)) cs t)"
  by (induction cs arbitrary: t) (auto intro: execute_inv)

end

section \<open>The recorded calls of a device\<close>

datatype TargetCall = CSetVolume int | CSetBrightness int | CShowText string int int
  | CSetExpression string | CSetBlink bool | CSetLed int int int int | CSetAllLeds int int int
  | CClearLeds | CSetHeadAngles cpp_double cpp_double int | CHomeHead int | CCancelSpeech string
  | CCancelCapture string | CStartCapture string int int

fun call_in_range :: "int \<Rightarrow> TargetCall \<Rightarrow> bool" where
  "call_in_range leds (CSetVolume v) \<longleftrightarrow> 0 \<le> v \<and> v \<le> 100"
| "call_in_range leds (CSetBrightness v) \<longleftrightarrow> 0 \<le> v \<and> v \<le> 100"
| "call_in_range leds (CShowText s d p) \<longleftrightarrow>
     isValidBoundedText s 256 \<and> 100 \<le> d \<and> d \<le> 30000 \<and> 0 \<le> p \<and> p \<le> 10"
| "call_in_range leds (CSetExpression e) \<longleftrightarrow> isSupportedExpression e"
| "call_in_range leds (CSetLed i r g b) \<longleftrightarrow>
     0 \<le> i \<and> i < leds \<and> isRgbValue r \<and> isRgbValue g \<and> isRgbValue b"
| "call_in_range leds (CSetAllLeds r g b) \<longleftrightarrow> 0 < leds \<and> isRgbValue r \<and> isRgbValue g \<and> isRgbValue b"
| "call_in_range leds CClearLeds \<longleftrightarrow> 0 < leds"
| "call_in_range leds (CSetHeadAngles y p s) \<longleftrightarrow> contains y p s"
| "call_in_range leds (CHomeHead s) \<longleftrightarrow> containsSpeed s"
| "call_in_range leds (CStartCapture c q ms) \<longleftrightarrow>
     isValidUuid c \<and> 10 \<le> q \<and> q \<le> 95 \<and> 1 \<le> ms \<and> ms \<le> 120000"
| "call_in_range leds _ \<longleftrightarrow> True"

text \<open>\<open>recording T\<close> is the device \<open>T\<close> with a log of its calls, each with the number of LEDs the
  device had when it was made.\<close>

type_synonym 't recorded = "(int \<times> TargetCall) list \<times> 't"

definition record_call ::
  "('t DeviceCommandTarget) \<Rightarrow> TargetCall \<Rightarrow> ('t \<Rightarrow> 'r \<times> 't) \<Rightarrow> 't recorded \<Rightarrow> 'r \<times> 't recorded" where
  "record_call T call f = (\<lambda>(log, t). case f t of (r, t') \<Rightarrow> (r, (log @ [(target_ledCount T t, call)], t')))"

definition recording :: "'t DeviceCommandTarget \<Rightarrow> 't recorded DeviceCommandTarget" where
  "recording T =
     \<lparr>getInfo = (\<lambda>(log, t). getInfo T t), getStatus = (\<lambda>(log, t). getStatus T t),
      setVolume = (\<lambda>v. record_call T (CSetVolume v) (setVolume T v)),
      setBrightness = (\<lambda>v. record_call T (CSetBrightness v) (setBrightness T v)),
      target_showText = (\<lambda>s d p. record_call T (CShowText s d p) (target_showText T s d p)),
      setExpression = (\<lambda>e. record_call T (CSetExpression e) (setExpression T e)),
      setBlink = (\<lambda>b. record_call T (CSetBlink b) (setBlink T b)),
      target_ledCount = (\<lambda>(log, t). target_ledCount T t),
      setLed = (\<lambda>i r g b. record_call T (CSetLed i r g b) (setLed T i r g b)),
      setAllLeds = (\<lambda>r g b. record_call T (CSetAllLeds r g b) (setAllLeds T r g b)),
      clearLeds = record_call T CClearLeds (clearLeds T),
      setHeadAngles = (\<lambda>y p s. record_call T (CSetHeadAngles y p s) (setHeadAngles T y p s)),
      homeHead = (\<lambda>s. record_call T (CHomeHead s) (homeHead T s)),
      getHeadAngles = (\<lambda>(log, t). getHeadAngles T t),
      cancelSpeech = (\<lambda>s. record_call T (CCancelSpeech s) (cancelSpeech T s)),
      cancelCapture = (\<lambda>c. record_call T (CCancelCapture c) (cancelCapture T c)),
      startCapture = (\<lambda>c q ms. record_call T (CStartCapture c q ms) (startCapture T c q ms))\<rparr>"

definition calls_in_range :: "'t recorded \<Rightarrow> bool" where
  "calls_in_range r \<longleftrightarrow> list_all (\<lambda>(leds, call). call_in_range leds call) (fst r)"

lemma record_call_in_range:
  "calls_in_range (snd (record_call T call f r)) \<longleftrightarrow>
     calls_in_range r \<and> call_in_range (target_ledCount T (snd r)) call"
  by (auto simp: calls_in_range_def record_call_def split: prod.splits)

interpretation recorded: guarded_target "recording T" calls_in_range for T :: "'t DeviceCommandTarget"
  by unfold_locales (simp_all add: recording_def record_call_in_range split_beta)

text \<open>C15: Whatever sequence of commands is executed on whatever device, every call that reaches the
  device has its arguments in the documented range (volume, brightness, text, LED index and
  colours, K151 head motion, capture quality and timeout).\<close>

theorem commands_stay_in_range:
  "list_all (\<lambda>(leds, call). call_in_range leds call)
     (fst (fold (\<lambda>c t. snd (executeCommand (recording T) c t)) commands ([], t)))"
  using recorded.execute_list_inv [of "([], t)" T commands] by (simp add: calls_in_range_def)

text \<open>A command makes at most one call, and none when it is refused for its arguments.\<close>

theorem one_call_per_command:
  "\<exists>calls. fst (snd (executeCommand (recording T) command (calls0, t))) = calls0 @ calls
     \<and> length calls \<le>
          (if errorCode (fst (executeCommand (recording T) command (calls0, t))) = CommandErrorCode.InvalidArgument
           then 0 else 1)"
  by (cases "command_name command")
    (simp_all add: executeCommand_def Let_def attempt_def recording_def record_call_def split_beta
      success_def invalidState_def invalidArgument_def deviceBusy_def new_CommandExecutionResult_def
      executor_getStatus_def executor_getInfo_def split: option.splits CommandTargetResult.splits)

section \<open>Results of executed commands\<close>

text \<open>What a device has to return for its answers to be sendable.\<close>

definition device_answers_ok :: "'t DeviceCommandTarget \<Rightarrow> 't \<Rightarrow> bool" where
  "device_answers_ok T t \<longleftrightarrow>
    list_all (\<lambda>s. isValidBoundedText s 512)
      [status_deviceId (getStatus T t), status_firmwareVersion (getStatus T t),
       status_hardwareModel (getStatus T t), status_state (getStatus T t),
       info_deviceId (getInfo T t), info_deviceName (getInfo T t),
       info_firmwareVersion (getInfo T t), info_hardwareModel (getInfo T t)]
    \<and> (case getHeadAngles T t of None \<Rightarrow> True
        | Some a \<Rightarrow> isfinite (angles_yaw a) \<and> isfinite (angles_pitch a))"

lemmas failure_defs = invalidArgument_def invalidState_def deviceBusy_def success_def new_CommandExecutionResult_def

lemma failure_messages_valid:
  "list_all (\<lambda>m. isValidBoundedText m 160)
    [''Volume is outside the supported range'', ''Speaker is unavailable'',
     ''Brightness is outside the supported range'', ''Display is unavailable'',
     ''Display text is outside the supported range'', ''Expression is not supported'',
     ''Avatar is unavailable'', ''LEDs are unavailable'', ''LED value is outside the supported range'',
     ''Head motion is outside the K151 safety profile'', ''Head motion is unavailable'',
     ''Head position is unavailable'', ''Speech turn is not active'', ''Capture is not active'',
     ''Camera capture is outside the supported range'', ''Camera is busy'', ''Camera is unavailable'',
     ''Command is not available'']"
  by code_simp

lemma result_names_valid:
  "list_all isResultFieldName
    [''device_id'', ''firmware_version'', ''hardware_model'', ''state'', ''battery_percent'', ''volume'',
     ''brightness'', ''wifi_rssi_dbm'', ''device_name'', ''yaw'', ''pitch'']"
  by code_simp

lemma failure_valid:
  "isValidBoundedText m 160 \<Longrightarrow> valid_result (invalidArgument m)"
  "isValidBoundedText m 160 \<Longrightarrow> valid_result (invalidState m)"
  "isValidBoundedText m 160 \<Longrightarrow> valid_result (deviceBusy m)"
  "valid_result success"
  by (simp_all add: valid_result_def failure_defs)

lemma attempt_valid: "isValidBoundedText m 160 \<Longrightarrow> valid_result (fst (attempt m x))"
  by (simp add: attempt_def failure_valid)

lemma status_valid:
  assumes "device_answers_ok T t"
  shows "valid_result (executor_getStatus T t)" "valid_result (executor_getInfo T t)"
  using assms result_names_valid
  by (simp_all add: device_answers_ok_def executor_getStatus_def executor_getInfo_def Let_def
      valid_result_def new_CommandExecutionResult_def result_field_def valid_result_value_def)

theorem execution_result_valid:
  assumes "device_answers_ok T t"
  shows "valid_result (fst (executeCommand T command t))"
proof (cases "command_name command = HeadGetAngles")
  case True
  then show ?thesis using assms failure_messages_valid result_names_valid
    by (cases "getHeadAngles T t")
      (simp_all add: executeCommand_def Let_def device_answers_ok_def valid_result_def failure_defs
        result_field_def valid_result_value_def)
next
  case False
  with failure_messages_valid show ?thesis
    by (cases "command_name command")
      (simp_all add: executeCommand_def Let_def attempt_valid failure_valid status_valid [OF assms]
        split_beta split: CommandTargetResult.split)
qed

text \<open>A command that the parser accepts is refused for its arguments only by the two limits that
  depend on the device: the LED count and the range of head motion.\<close>

lemma expression_lists_agree: "isSupportedExpression e \<longleftrightarrow> isValidExpression e"
  by (auto simp: isSupportedExpression_def kExpressions_def isValidExpression_def)

lemma attempt_code [simp]: "errorCode (fst (attempt m x)) \<noteq> CommandErrorCode.InvalidArgument"
  by (simp add: attempt_def failure_defs)

theorem refused_after_parsing:
  assumes "valid_command command"
    and "errorCode (fst (executeCommand T command t)) = CommandErrorCode.InvalidArgument"
  shows "(command_name command = LedSet \<and> index (arguments command) \<ge> target_ledCount T t)
    \<or> (command_name command = HeadSetAngles
         \<and> \<not> contains (yaw (arguments command)) (pitch (arguments command)) (effective_speed (arguments command)))
    \<or> (command_name command = HeadHome \<and> \<not> containsSpeed (effective_speed (arguments command)))"
  using assms
  by (cases "command_name command")
    (auto simp: valid_command_def arguments_in_range_def executeCommand_def Let_def split_beta
      executor_isValidBoundedText_def uuid_copies_agree expression_lists_agree isRgbValue_def byte_range_def
      failure_defs executor_getStatus_def executor_getInfo_def
      split: if_splits option.splits CommandTargetResult.splits)

text \<open>A device for the witnesses: it accepts everything and has eight LEDs.\<close>

definition sample_target :: "unit DeviceCommandTarget" where
  "sample_target =
     \<lparr>getInfo = (\<lambda>t. \<lparr>info_deviceId = ''d'', info_deviceName = ''n'', info_firmwareVersion = ''1'',
                     info_hardwareModel = ''K151''\<rparr>),
      getStatus = (\<lambda>t. \<lparr>status_deviceId = ''d'', status_firmwareVersion = ''1'',
                       status_hardwareModel = ''K151'', status_state = ''IDLE'', batteryPercent = 50,
                       status_volume = 40, status_brightness = 40, wifiRssiDbm = - 50\<rparr>),
      setVolume = (\<lambda>v t. (True, t)), setBrightness = (\<lambda>v t. (True, t)),
      target_showText = (\<lambda>s d p t. (True, t)), setExpression = (\<lambda>e t. (True, t)),
      setBlink = (\<lambda>b t. (True, t)), target_ledCount = (\<lambda>t. 8),
      setLed = (\<lambda>i r g b t. (True, t)), setAllLeds = (\<lambda>r g b t. (True, t)),
      clearLeds = (\<lambda>t. (True, t)), setHeadAngles = (\<lambda>y p s t. (True, t)),
      homeHead = (\<lambda>s t. (True, t)), getHeadAngles = (\<lambda>t. Some \<lparr>angles_yaw = Finite 1, angles_pitch = Finite 45\<rparr>),
      cancelSpeech = (\<lambda>s t. (True, t)), cancelCapture = (\<lambda>c t. (True, t)),
      startCapture = (\<lambda>c q ms t. (Success, t))\<rparr>"

definition sample_led_command :: Command where
  "sample_led_command = sample_volume_command\<lparr>command_name := LedSet,
     arguments := new_CommandArguments\<lparr>index := 200\<rparr>\<rparr>"

lemma execution_result_valid_witness: "valid_result (fst (executeCommand sample_target sample_led_command ()))"
  by (rule execution_result_valid) code_simp

lemma refused_after_parsing_witness: "index (arguments sample_led_command) \<ge> target_ledCount sample_target ()"
proof -
  have v: "valid_command sample_led_command"
    by (simp add: valid_command_def sample_led_command_def sample_volume_command_def sample_uuid_valid
        arguments_in_range_def byte_range_def optional_uuid_def INT64_MAX_def new_CommandArguments_def)
  have r: "errorCode (fst (executeCommand sample_target sample_led_command ())) = CommandErrorCode.InvalidArgument"
    by code_simp
  from refused_after_parsing [OF v r] show ?thesis by (simp add: sample_led_command_def)
qed

end
