(* ===== verification/Message_Id.thy ===== *)
theory Message_Id
  imports Text_Validation
begin

unbundle bit_operations_syntax

text \<open>
  \<open>message_id.cpp\<close>: a version 4 UUID from sixteen random bytes.  \<open>hex2\<close> is the conversion
  \<open>%02x\<close> of \<open>snprintf\<close> at a byte; the 36 characters and the terminator fill the 37 bytes of
  the output buffer exactly, so nothing is truncated.
\<close>

definition hex_digit :: "nat \<Rightarrow> char" where
  "hex_digit n = ''0123456789abcdef'' ! n"

definition hex2 :: "u8 \<Rightarrow> string" where
  "hex2 b = [hex_digit (unat b div 16), hex_digit (unat b mod 16)]"

definition uuid_v4_bytes :: "u8 list \<Rightarrow> u8 list" where
  "uuid_v4_bytes bytes =
     (let bytes = bytes[6 := (bytes ! 6 AND 0x0F) OR 0x40]
      in bytes[8 := (bytes ! 8 AND 0x3F) OR 0x80])"

definition formatUuidV4 :: "u8 list \<Rightarrow> string" where
  "formatUuidV4 bytes =
     (let b = uuid_v4_bytes bytes in
      hex2 (b ! 0) @ hex2 (b ! 1) @ hex2 (b ! 2) @ hex2 (b ! 3) @ ''-''
      @ hex2 (b ! 4) @ hex2 (b ! 5) @ ''-'' @ hex2 (b ! 6) @ hex2 (b ! 7) @ ''-''
      @ hex2 (b ! 8) @ hex2 (b ! 9) @ ''-'' @ hex2 (b ! 10) @ hex2 (b ! 11) @ hex2 (b ! 12)
      @ hex2 (b ! 13) @ hex2 (b ! 14) @ hex2 (b ! 15))"

lemma all_nat_16: "(\<forall>n<16. P n) \<longleftrightarrow> list_all P [0..<16]" for P :: "nat \<Rightarrow> bool"
  by (auto simp: list_all_iff)

lemma hex_digit_isHexDigit: "n < 16 \<Longrightarrow> isHexDigit (hex_digit n)"
proof -
  have "\<forall>n<16. isHexDigit (hex_digit n)"
    unfolding all_nat_16 by (simp add: hex_digit_def isHexDigit_def upt_rec)
  then show "n < 16 \<Longrightarrow> isHexDigit (hex_digit n)" by blast
qed

lemma byte_nibbles: "unat (b :: u8) div 16 < 16" "unat b mod 16 < 16"
  using unsigned_less [of b, where 'a = nat] by (auto simp: less_mult_imp_div_less)

lemma hex_of_byte [simp]:
  "isHexDigit (hex_digit (unat (b :: u8) div 16))" "isHexDigit (hex_digit (unat b mod 16))"
  by (simp_all add: hex_digit_isHexDigit byte_nibbles)

lemma formatUuidV4_valid: "isValidUuid (formatUuidV4 bytes)"
proof -
  define b where "b = uuid_v4_bytes bytes"
  show ?thesis
    unfolding isValidUuid_chars formatUuidV4_def b_def [symmetric] Let_def
    by (simp add: hex2_def uuid_char_ok_def uuid_separator_def)
qed

lemma version_nibble: "unat ((b AND 0x0F) OR 0x40 :: u8) div 16 = 4"
proof -
  have "drop_bit 4 ((b AND 0x0F) OR 0x40 :: u8) = 4"
    by (rule bit_word_eqI)
      (simp add: bit_simps bit_numeral_rec(1) less_Suc_eq numeral_eq_Suc, (elim disjE; simp)?)
  then have "unat (drop_bit 4 ((b AND 0x0F) OR 0x40 :: u8)) = 4" by simp
  then show ?thesis by (simp add: drop_bit_eq_div unat_div)
qed

lemma variant_nibble: "unat ((b AND 0x3F) OR 0x80 :: u8) div 16 \<in> {8, 9, 10, 11}"
proof -
  have "drop_bit 6 ((b AND 0x3F) OR 0x80 :: u8) = 2"
    by (rule bit_word_eqI)
      (simp add: bit_simps bit_numeral_rec(1) less_Suc_eq numeral_eq_Suc, (elim disjE; simp)?)
  then have "unat (drop_bit 6 ((b AND 0x3F) OR 0x80 :: u8)) = 2" by simp
  then have "unat ((b AND 0x3F) OR 0x80 :: u8) div 64 = 2"
    by (simp add: drop_bit_eq_div unat_div)
  then show ?thesis by auto
qed

lemma formatUuidV4_positions:
  "formatUuidV4 bytes ! 14 = hex_digit (unat (uuid_v4_bytes bytes ! 6) div 16)"
  "formatUuidV4 bytes ! 19 = hex_digit (unat (uuid_v4_bytes bytes ! 8) div 16)"
  by (simp_all add: formatUuidV4_def Let_def hex2_def)

theorem formatUuidV4_is_v4:
  assumes "length bytes = 16"
  shows "isValidUuid (formatUuidV4 bytes) \<and> formatUuidV4 bytes ! 14 = CHR ''4''
    \<and> formatUuidV4 bytes ! 19 \<in> {CHR ''8'', CHR ''9'', CHR ''a'', CHR ''b''}"
proof (intro conjI)
  have b6: "uuid_v4_bytes bytes ! 6 = (bytes ! 6 AND 0x0F) OR 0x40"
    and b8: "uuid_v4_bytes bytes ! 8 = (bytes ! 8 AND 0x3F) OR 0x80"
    using assms by (simp_all add: uuid_v4_bytes_def Let_def)
  show "formatUuidV4 bytes ! 14 = CHR ''4''"
    unfolding formatUuidV4_positions b6 version_nibble by (simp add: hex_digit_def)
  show "formatUuidV4 bytes ! 19 \<in> {CHR ''8'', CHR ''9'', CHR ''a'', CHR ''b''}"
    unfolding formatUuidV4_positions b8
    using variant_nibble [of "bytes ! 8"] by (auto simp: hex_digit_def)
qed (rule formatUuidV4_valid)

lemma formatUuidV4_is_v4_witness:
  "formatUuidV4 (replicate 16 0xFF) = ''ffffffff-ffff-4fff-bfff-ffffffffffff''
   \<and> isValidUuid (formatUuidV4 (replicate 16 0xFF))"
proof
  show "formatUuidV4 (replicate 16 0xFF) = ''ffffffff-ffff-4fff-bfff-ffffffffffff''" by code_simp
  show "isValidUuid (formatUuidV4 (replicate 16 0xFF))"
    using formatUuidV4_is_v4 [of "replicate 16 0xFF"] by simp
qed

end
