(* ===== verification/Audio_Safety.thy ===== *)
theory Audio_Safety
  imports Prelude "HOL-Library.Signed_Division"
begin

text \<open>
  \<open>audio_safety.cpp\<close>: the gate that reports a run of failures once, and the gain applied to
  PCM samples; \<open>audio_playback_completion.h\<close>: what tells that the player has nothing left to do.
\<close>

section \<open>The failure gate\<close>

record ConsecutiveFailureGate =
  m_threshold :: nat
  m_failures :: nat
  m_latched :: bool

definition new_ConsecutiveFailureGate :: "nat \<Rightarrow> ConsecutiveFailureGate" where
  "new_ConsecutiveFailureGate threshold =
     \<lparr>m_threshold = (if threshold = 0 then 1 else threshold), m_failures = 0, m_latched = False\<rparr>"

definition observeFailure :: "ConsecutiveFailureGate \<Rightarrow> bool \<times> ConsecutiveFailureGate" where
  "observeFailure g =
    (if m_latched g then (False, g)
     else let g = g\<lparr>m_failures := m_failures g + 1\<rparr> in
       if m_failures g < m_threshold g then (False, g) else (True, g\<lparr>m_latched := True\<rparr>))"

definition gate_reset :: "ConsecutiveFailureGate \<Rightarrow> ConsecutiveFailureGate" where
  "gate_reset g = g\<lparr>m_failures := 0, m_latched := False\<rparr>"

definition observeSuccess :: "ConsecutiveFailureGate \<Rightarrow> ConsecutiveFailureGate" where
  "observeSuccess g = gate_reset g"

text \<open>The answers to a sequence of observations, \<open>True\<close> a failure.\<close>

fun gate_answers :: "bool list \<Rightarrow> ConsecutiveFailureGate \<Rightarrow> bool list" where
  "gate_answers [] g = []"
| "gate_answers (True # obs) g = (let (a, g') = observeFailure g in a # gate_answers obs g')"
| "gate_answers (False # obs) g = False # gate_answers obs (observeSuccess g)"

text \<open>Specification: an observation is reported when it completes a run of exactly
  \<open>threshold\<close> failures.\<close>

fun gate_spec :: "nat \<Rightarrow> nat \<Rightarrow> bool list \<Rightarrow> bool list" where
  "gate_spec threshold run [] = []"
| "gate_spec threshold run (True # obs) = (Suc run = threshold) # gate_spec threshold (Suc run) obs"
| "gate_spec threshold run (False # obs) = False # gate_spec threshold 0 obs"

lemma gate_answers_spec:
  assumes "0 < m_threshold g" "m_latched g \<longleftrightarrow> run \<ge> m_threshold g" "\<not> m_latched g \<longrightarrow> m_failures g = run"
  shows "gate_answers obs g = gate_spec (m_threshold g) run obs"
  using assms
proof (induction obs arbitrary: g run)
  case (Cons ob obs)
  show ?case
  proof (cases ob)
    case False
    then show ?thesis using Cons.prems Cons.IH [of "gate_reset g" 0]
      by (simp add: observeSuccess_def gate_reset_def)
  next
    case True
    then show ?thesis using Cons.prems Cons.IH [of "snd (observeFailure g)" "Suc run"]
      by (auto simp: observeFailure_def Let_def split_beta)
  qed
qed simp

theorem gate_reports_runs:
  "gate_answers obs (new_ConsecutiveFailureGate threshold) = gate_spec (max 1 threshold) 0 obs"
  using gate_answers_spec [of "new_ConsecutiveFailureGate threshold" 0 obs]
  by (cases threshold) (simp_all add: new_ConsecutiveFailureGate_def max_def)

section \<open>Gain\<close>

text \<open>C++ integer division truncates towards zero (\<open>sdiv\<close>); the product is computed in 32
  bits and the quotient stored in 16.\<close>

definition pcm_scale :: "int \<Rightarrow> 16 word \<Rightarrow> 16 word" where
  "pcm_scale gainPercent sample = word_of_int (sint sample * gainPercent sdiv 100)"

definition applyPcmGain :: "int \<Rightarrow> 16 word list \<Rightarrow> bool \<times> 16 word list" where
  "applyPcmGain gainPercent samples =
    (if gainPercent < 0 \<or> gainPercent > 100 then (False, samples)
     else (True, map (pcm_scale gainPercent) samples))"

lemma sdiv_abs_le:
  fixes x g :: int
  assumes "0 \<le> g" "g \<le> 100"
  shows "\<bar>x * g sdiv 100\<bar> \<le> \<bar>x\<bar>"
proof -
  have "\<bar>x * g sdiv 100\<bar> \<le> \<bar>x * g\<bar> div 100"
    by (simp add: signed_divide_int_def abs_mult abs_sgn_eq pos_imp_zdiv_nonneg_iff)
  also have "\<dots> \<le> \<bar>x\<bar> * 100 div 100"
    by (rule zdiv_mono1) (use assms in \<open>simp_all add: abs_mult mult_left_mono\<close>)
  finally show ?thesis by simp
qed

lemma sint16_range: "- 32768 \<le> sint (s :: 16 word)" "sint (s :: 16 word) < 32768"
  using sint_greater_eq [of s] sint_less [of s] by auto

lemma sint_of_16:
  fixes i :: int
  assumes "- 32768 \<le> i" "i < 32768"
  shows "sint (word_of_int i :: 16 word) = i"
  using assms by (simp add: signed_of_int signed_take_bit_int_eq_self)

lemma pcm_product_fits:
  assumes "0 \<le> g" "g \<le> 100"
  shows "\<bar>sint (s :: 16 word) * g\<bar> < 2 ^ 31"
proof -
  have "\<bar>sint s\<bar> * g \<le> 32768 * 100"
    using sint16_range [of s] assms by (intro mult_mono) auto
  then show ?thesis using assms(1) by (simp add: abs_mult)
qed

lemma pcm_scale_exact:
  assumes "0 \<le> g" "g \<le> 100"
  shows "sint (pcm_scale g s) = sint s * g sdiv 100"
proof -
  consider "sint s = - 32768" | "- 32768 < sint s" using sint16_range [of s] by linarith
  then show ?thesis
  proof cases
    case 1
    have "- 32768 \<le> - 32768 * g sdiv 100 \<and> - 32768 * g sdiv 100 \<le> 0"
      using assms sdiv_abs_le [OF assms, of "- 32768"] by (auto simp: signed_divide_int_def sgn_if)
    then show ?thesis unfolding pcm_scale_def 1 by (intro sint_of_16) auto
  next
    case 2
    then show ?thesis unfolding pcm_scale_def
      using sdiv_abs_le [OF assms, of "sint s"] sint16_range [of s] by (intro sint_of_16) linarith+
  qed
qed

theorem gain_never_wraps:
  assumes "applyPcmGain g samples = (True, scaled)"
  shows "length scaled = length samples
    \<and> (\<forall>i<length samples. sint (scaled ! i) = sint (samples ! i) * g sdiv 100
         \<and> \<bar>sint (scaled ! i)\<bar> \<le> \<bar>sint (samples ! i)\<bar>)"
proof -
  from assms have "0 \<le> g" "g \<le> 100" "scaled = map (pcm_scale g) samples"
    by (auto simp: applyPcmGain_def split: if_splits)
  then show ?thesis by (simp add: pcm_scale_exact sdiv_abs_le)
qed

lemma gain_never_wraps_witness:
  "map sint (snd (applyPcmGain 50 [word_of_int (- 32768), word_of_int (- 3), 3])) = [- 16384, - 1, 1]"
proof -
  have a: "applyPcmGain 50 [word_of_int (- 32768), word_of_int (- 3), 3]
    = (True, snd (applyPcmGain 50 [word_of_int (- 32768), word_of_int (- 3), 3]))"
    by (simp add: applyPcmGain_def)
  from gain_never_wraps [OF a] show ?thesis by (simp add: applyPcmGain_def pcm_scale_def)
qed

section \<open>Playback completion\<close>

record AudioPlaybackCompletion =
  m_decodeGeneration :: u64
  m_decodeInFlight :: bool
  m_outputInFlight :: bool

definition new_AudioPlaybackCompletion :: AudioPlaybackCompletion where
  "new_AudioPlaybackCompletion =
     \<lparr>m_decodeGeneration = 0, m_decodeInFlight = False, m_outputInFlight = False\<rparr>"

definition beginDecode :: "AudioPlaybackCompletion \<Rightarrow> u64 \<times> AudioPlaybackCompletion" where
  "beginDecode p = (m_decodeGeneration p, p\<lparr>m_decodeInFlight := True\<rparr>)"

definition finishDecode :: "u64 \<Rightarrow> AudioPlaybackCompletion \<Rightarrow> bool \<times> AudioPlaybackCompletion" where
  "finishDecode generation p = (generation = m_decodeGeneration p, p\<lparr>m_decodeInFlight := False\<rparr>)"

definition invalidateDecode :: "AudioPlaybackCompletion \<Rightarrow> AudioPlaybackCompletion" where
  "invalidateDecode p = p\<lparr>m_decodeGeneration := m_decodeGeneration p + 1\<rparr>"

definition beginOutput :: "AudioPlaybackCompletion \<Rightarrow> AudioPlaybackCompletion" where
  "beginOutput p = p\<lparr>m_outputInFlight := True\<rparr>"

definition finishOutput :: "AudioPlaybackCompletion \<Rightarrow> AudioPlaybackCompletion" where
  "finishOutput p = p\<lparr>m_outputInFlight := False\<rparr>"

definition isIdle :: "bool \<Rightarrow> bool \<Rightarrow> AudioPlaybackCompletion \<Rightarrow> bool" where
  "isIdle decodeQueueEmpty playbackQueueEmpty p \<longleftrightarrow>
     decodeQueueEmpty \<and> playbackQueueEmpty \<and> \<not> m_decodeInFlight p \<and> \<not> m_outputInFlight p"

text \<open>A decode that was invalidated \<open>n\<close> times before it finished is refused, as long as the 64-bit
  generation has not come round.\<close>

lemma finish_after_invalidations:
  assumes "0 < n" "n < 2 ^ 64"
  shows "\<not> fst (finishDecode (fst (beginDecode p)) ((invalidateDecode ^^ n) (snd (beginDecode p))))"
proof -
  have g: "m_decodeGeneration ((invalidateDecode ^^ n) q) = m_decodeGeneration q + of_nat n" for q
    by (induction n) (simp_all add: invalidateDecode_def)
  have "(of_nat n :: u64) \<noteq> 0"
    using assms by (simp add: word_of_nat_eq_0_iff nat_dvd_not_less)
  then show ?thesis by (simp add: finishDecode_def beginDecode_def g)
qed

end
