(* ===== verification/Capture_Transaction.thy ===== *)
theory Capture_Transaction
  imports Camera_Capture
begin

text \<open>
  \<open>capture_transaction.h\<close>: the deadline of a capture, the classification of upload answers, the
  delay before a retry, and the queue of completion notices that are resent until acknowledged;
  \<open>camera_video_wait.h\<close>: the wait for a camera frame.

  Times are 64-bit milliseconds.
\<close>

section \<open>Deadlines\<close>

record CaptureDeadline =
  m_end :: u64
  m_reserve :: u32

definition new_CaptureDeadline :: "u64 \<Rightarrow> u32 \<Rightarrow> CaptureDeadline" where
  "new_CaptureDeadline now budget = \<lparr>m_end = now + ucast budget, m_reserve = min 1000 (budget div 5)\<rparr>"

definition constrain :: "u64 \<Rightarrow> u32 \<Rightarrow> CaptureDeadline \<Rightarrow> CaptureDeadline" where
  "constrain requestStarted remainingMs d = d\<lparr>m_end := min (m_end d) (requestStarted + ucast remainingMs)\<rparr>"

definition deadline_remaining :: "u64 \<Rightarrow> CaptureDeadline \<Rightarrow> u32" where
  "deadline_remaining now d = (if now < m_end d then ucast (m_end d - now) else 0)"

definition workEnd :: "CaptureDeadline \<Rightarrow> u64" where
  "workEnd d = (if m_end d > ucast (m_reserve d) then m_end d - ucast (m_reserve d) else 0)"

definition operationDeadline :: "u64 \<Rightarrow> CaptureDeadline \<Rightarrow> u64" where
  "operationDeadline now d = min (workEnd d) (now + 3000)"

section \<open>Answers and retries\<close>

datatype UploadDisposition = Succeeded | Retryable | Permanent

definition classifyCaptureUpload :: "int \<Rightarrow> UploadDisposition" where
  "classifyCaptureUpload status =
    (if status = 201 then Succeeded
     else if status < 0 \<or> status = 408 \<or> (status \<ge> 500 \<and> status \<le> 599 \<and> status \<noteq> 501 \<and> status \<noteq> 505)
     then Retryable
     else Permanent)"

fun retry_digits :: "string \<Rightarrow> int \<Rightarrow> int option" where
  "retry_digits [] delay = Some delay"
| "retry_digits (digit # rest) delay =
    (if digit < CHR ''0'' \<or> digit > CHR ''9'' then None
     else retry_digits rest (delay * 10 + int (digit_value digit)))"

definition captureRetryDelay :: "int \<Rightarrow> string \<Rightarrow> int \<Rightarrow> int \<Rightarrow> int" where
  "captureRetryDelay status retryAfter attempt remainingMs =
    (if attempt \<ge> 3 \<or> remainingMs \<le> 0 then - 1
     else
       let finish = (\<lambda>delay. if delay < remainingMs then delay else - 1)
       in if status = 429
          then (if retryAfter = [] \<or> length retryAfter > 3 then - 1
                else case retry_digits retryAfter 0 of
                  None \<Rightarrow> - 1
                | Some delay \<Rightarrow> if delay \<le> 0 \<or> delay > 120 then - 1 else finish (delay * 1000))
          else if classifyCaptureUpload status \<noteq> Retryable then - 1
          else finish (if attempt = 1 then 250 else 500))"

section \<open>Completion notices\<close>

record CaptureCompletionNotice =
  notice_captureId :: string
  notice_ok :: bool
  notice_error :: CameraCompletionError
  notice_digest :: string
  notice_sizeBytes :: nat
  deadlineMs :: u64
  nextSendMs :: u64

type_synonym CaptureCompletionQueue = "CaptureCompletionNotice list"

definition notice_push :: "CaptureCompletionNotice \<Rightarrow> CaptureCompletionQueue \<Rightarrow> bool \<times> CaptureCompletionQueue" where
  "notice_push notice queue =
     (if length queue \<ge> 16 then (False, queue) else (True, queue @ [notice]))"

fun purge :: "u64 \<Rightarrow> CaptureCompletionQueue \<Rightarrow> CaptureCompletionQueue" where
  "purge now [] = []"
| "purge now (it # rest) = (if deadlineMs it \<le> now then purge now rest else it # purge now rest)"

fun send_due :: "u64 \<Rightarrow> CaptureCompletionQueue \<Rightarrow> CaptureCompletionNotice option \<times> CaptureCompletionQueue" where
  "send_due now [] = (None, [])"
| "send_due now (notice # rest) =
    (if nextSendMs notice \<le> now then (Some notice, notice\<lparr>nextSendMs := now + 500\<rparr> # rest)
     else let (found, rest) = send_due now rest in (found, notice # rest))"

definition notice_next :: "u64 \<Rightarrow> CaptureCompletionQueue \<Rightarrow> CaptureCompletionNotice option \<times> CaptureCompletionQueue" where
  "notice_next now queue = send_due now (purge now queue)"

fun acknowledge :: "string \<Rightarrow> CaptureCompletionQueue \<Rightarrow> bool \<times> CaptureCompletionQueue" where
  "acknowledge identifier [] = (False, [])"
| "acknowledge identifier (it # rest) =
    (if notice_captureId it = identifier then (True, rest)
     else let (found, rest) = acknowledge identifier rest in (found, it # rest))"

section \<open>Waiting for a frame\<close>

text \<open>
  \<open>waitCameraFrame\<close> is a template over a clock, a cancellation flag and a receiver; here they act on
  a world \<open>'w\<close>.  The loop ends only when the clock advances, so it is a partial function.
\<close>

record 'w frame_source =
  read_clock :: "'w \<Rightarrow> u64 \<times> 'w"
  is_cancelled :: "'w \<Rightarrow> bool \<times> 'w"
  receive :: "u32 \<Rightarrow> 'w \<Rightarrow> bool \<times> 'w"

partial_function (option) waitCameraFrame :: "'w frame_source \<Rightarrow> u64 \<Rightarrow> 'w \<Rightarrow> (bool \<times> 'w) option" where
  "waitCameraFrame F deadline w =
    (case is_cancelled F w of (stop, w) \<Rightarrow>
       if stop then Some (False, w)
       else case read_clock F w of (now, w) \<Rightarrow>
         if now \<ge> deadline then Some (False, w)
         else case receive F (ucast (min 20 (deadline - now))) w of (got, w) \<Rightarrow>
           if got then Some (True, w) else waitCameraFrame F deadline w)"

section \<open>Properties\<close>

lemma min_le_word: "min a b \<le> (a :: 'a :: linorder)" "min a b \<le> b" by auto

lemma ucast_u32_u64: "unat (ucast (b :: u32) :: u64) = unat b"
  using unsigned_less [of b, where 'a = nat] by (simp add: unsigned_ucast_eq take_bit_nat_eq_self)

definition constrained :: "u64 \<Rightarrow> u32 \<Rightarrow> (u64 \<times> u32) list \<Rightarrow> CaptureDeadline" where
  "constrained now budget cs = fold (\<lambda>(s, r) d. constrain s r d) cs (new_CaptureDeadline now budget)"

lemma constrain_le: "m_end (constrain s r d) \<le> m_end d \<and> m_reserve (constrain s r d) = m_reserve d"
  by (simp add: constrain_def)

lemma fold_constrain_le:
  "m_end (fold (\<lambda>(s, r) d. constrain s r d) cs d) \<le> m_end d
   \<and> m_reserve (fold (\<lambda>(s, r) d. constrain s r d) cs d) = m_reserve d"
proof (induction cs arbitrary: d)
  case (Cons c cs)
  then show ?case using constrain_le [of "fst c" "snd c" d]
    by (auto simp: split_beta intro: order_trans)
qed simp

theorem deadline_within_budget:
  assumes "unat start + unat budget < 2 ^ 64" "start \<le> now"
  shows "let d = constrained start budget cs in
    unat (deadline_remaining now d) = unat (m_end d) - unat now
    \<and> deadline_remaining now d \<le> budget \<and> workEnd d \<le> m_end d
    \<and> operationDeadline now d \<le> m_end d"
proof -
  define d where "d = constrained start budget cs"
  have "m_end d \<le> start + ucast budget"
    using fold_constrain_le [of cs "new_CaptureDeadline start budget"]
    by (simp add: d_def constrained_def new_CaptureDeadline_def)
  moreover have e: "unat (start + ucast budget) = unat start + unat budget"
    using assms(1) by (subst unat_add_lem [THEN iffD1]) (simp_all add: ucast_u32_u64)
  ultimately have le: "unat (m_end d) \<le> unat start + unat budget" by (simp add: word_le_nat_alt)
  have s: "unat start \<le> unat now" using assms(2) by (simp add: word_le_nat_alt)
  have r: "unat (deadline_remaining now d) = unat (m_end d) - unat now"
  proof (cases "now < m_end d")
    case True
    then have "unat (m_end d - now) = unat (m_end d) - unat now"
      by (intro unat_sub) (simp add: word_le_nat_alt word_less_nat_alt)
    moreover have "unat (m_end d) - unat now < 2 ^ 32" using le s unsigned_less [of budget, where 'a = nat] by simp
    ultimately show ?thesis using True
      by (simp add: deadline_remaining_def unsigned_ucast_eq take_bit_nat_eq_self)
  next
    case False
    then show ?thesis by (simp add: deadline_remaining_def word_less_nat_alt)
  qed
  moreover have "deadline_remaining now d \<le> budget"
    using r le s by (simp add: word_le_nat_alt)
  moreover have w: "workEnd d \<le> m_end d"
  proof (cases "m_end d > ucast (m_reserve d)")
    case True
    then have "unat (m_end d - ucast (m_reserve d)) = unat (m_end d) - unat (ucast (m_reserve d) :: u64)"
      by (intro unat_sub) simp
    with True show ?thesis by (simp add: workEnd_def word_le_nat_alt)
  qed (simp add: workEnd_def)
  moreover have "operationDeadline now d \<le> m_end d"
    using w by (auto simp: operationDeadline_def min_le_iff_disj)
  ultimately show ?thesis by (simp add: d_def [symmetric] Let_def)
qed

lemma deadline_within_budget_witness:
  "deadline_remaining 1000 (constrained 500 3000 [(400, 2000)]) \<le> 3000"
  using deadline_within_budget [of 500 3000 1000 "[(400, 2000)]"] by (simp add: Let_def)

theorem retry_delay_sound:
  assumes "captureRetryDelay status retryAfter attempt remainingMs = d" "d \<noteq> - 1"
  shows "0 < d \<and> d < remainingMs \<and> attempt < 3
    \<and> (if status = 429 then d \<le> 120000 \<and> 1000 dvd d
       else classifyCaptureUpload status = Retryable \<and> d = (if attempt = 1 then 250 else 500))"
  using assms by (auto simp: captureRetryDelay_def Let_def split: if_splits option.splits)

lemma retry_delay_sound_witness: "0 < captureRetryDelay 429 ''7'' 1 9000"
proof -
  have "captureRetryDelay 429 ''7'' 1 9000 = 7000" by code_simp
  then show ?thesis using retry_delay_sound [of 429 "''7''" 1 9000 7000] by simp
qed

subsection \<open>The queue of notices\<close>

lemma purge_filter: "purge now q = filter (\<lambda>n. now < deadlineMs n) q"
  by (induction q) (auto simp: not_le)

lemma send_due_Some:
  assumes "send_due now q = (Some n, q')"
  shows "\<exists>as bs. q = as @ n # bs \<and> q' = as @ n\<lparr>nextSendMs := now + 500\<rparr> # bs \<and> nextSendMs n \<le> now
    \<and> (\<forall>a\<in>set as. now < nextSendMs a)"
  using assms
proof (induction q arbitrary: q')
  case (Cons a q)
  show ?case
  proof (cases "nextSendMs a \<le> now")
    case True
    with Cons.prems show ?thesis by (intro exI [of _ "[]"] exI [of _ q]) auto
  next
    case False
    with Cons.prems obtain r where r: "send_due now q = (Some n, r)" "q' = a # r" by (auto split: prod.splits)
    from Cons.IH [OF r(1)] obtain as bs where "q = as @ n # bs" "r = as @ n\<lparr>nextSendMs := now + 500\<rparr> # bs"
      "nextSendMs n \<le> now" "\<forall>a\<in>set as. now < nextSendMs a" by blast
    with False r(2) show ?thesis by (intro exI [of _ "a # as"] exI [of _ bs]) auto
  qed
qed simp

lemma send_due_None: "fst (send_due now q) = None \<longleftrightarrow> (\<forall>n\<in>set q. now < nextSendMs n)"
  by (induction q) (auto simp: split_beta not_le)

theorem notice_resend:
  assumes "notice_next now q = (Some n, q')" "distinct (map notice_captureId q)"
    and "now \<le> t" "unat t < unat now + 500" "unat now + 500 < 2 ^ 64"
  shows "n \<in> set q \<and> now < deadlineMs n \<and> nextSendMs n \<le> now
    \<and> (\<forall>m. fst (notice_next t q') = Some m \<longrightarrow> notice_captureId m \<noteq> notice_captureId n)
    \<and> (\<forall>m. fst (notice_next t (snd (acknowledge (notice_captureId n) q'))) = Some m
          \<longrightarrow> notice_captureId m \<noteq> notice_captureId n)"
proof -
  from assms(1) obtain as bs where d: "purge now q = as @ n # bs"
    "q' = as @ n\<lparr>nextSendMs := now + 500\<rparr> # bs" "nextSendMs n \<le> now"
    using send_due_Some [of now "purge now q" n q'] by (auto simp: notice_next_def)
  then have "n \<in> set (purge now q)" by simp
  then have mem: "n \<in> set q" "now < deadlineMs n" by (simp_all add: purge_filter)
  have dist: "distinct (map notice_captureId (as @ n # bs))"
    using assms(2) unfolding d(1) [symmetric] purge_filter by (rule distinct_map_filter)
  then have apart: "notice_captureId m \<noteq> notice_captureId n" if "m \<in> set as \<union> set bs" for m
    using that by (force simp: image_iff)
  have later: "t < now + 500"
    using assms(4,5) by (simp add: word_less_nat_alt unat_word_ariths)
  have other: "notice_captureId m \<noteq> notice_captureId n" if "fst (notice_next t q') = Some m" for m
  proof -
    have "send_due t (purge t q') = (Some m, snd (send_due t (purge t q')))"
      using that by (simp add: notice_next_def prod_eq_iff)
    from send_due_Some [OF this] have "m \<in> set (purge t q')" "nextSendMs m \<le> t" by auto
    then have "m \<in> set q'" "nextSendMs m \<le> t" by (auto simp: purge_filter)
    then have "m \<in> set as \<union> set bs" using later d(2) by auto
    then show ?thesis by (rule apart)
  qed
  have gone: "notice_captureId m \<noteq> notice_captureId n"
    if "fst (notice_next t (snd (acknowledge (notice_captureId n) q'))) = Some m" for m
  proof -
    let ?q = "snd (acknowledge (notice_captureId n) q')"
    have "send_due t (purge t ?q) = (Some m, snd (send_due t (purge t ?q)))"
      using that by (simp add: notice_next_def prod_eq_iff)
    from send_due_Some [OF this] have "m \<in> set (purge t ?q)" by auto
    then have "m \<in> set ?q" by (simp add: purge_filter)
    moreover have "set ?q \<subseteq> set as \<union> set bs"
      using dist unfolding d(2) by (induction as) (auto simp: split_beta)
    ultimately show ?thesis by (intro apart) blast
  qed
  show ?thesis using mem d(3) other gone by blast
qed


lemma notice_resend_witness:
  "fst (notice_next 600 (snd (notice_next 300
     [\<lparr>notice_captureId = ''a'', notice_ok = True, notice_error = CameraCompletionError.NoError,
       notice_digest = [], notice_sizeBytes = 1, deadlineMs = 9000, nextSendMs = 0\<rparr>]))) = None"
proof -
  let ?n = "\<lparr>notice_captureId = ''a'', notice_ok = True, notice_error = CameraCompletionError.NoError,
       notice_digest = [], notice_sizeBytes = 1, deadlineMs = 9000, nextSendMs = 0\<rparr>"
  let ?q = "[?n\<lparr>nextSendMs := 800\<rparr>]"
  have e: "notice_next 300 [?n] = (Some ?n, ?q)" by (simp add: notice_next_def)
  have "\<forall>m. fst (notice_next 600 ?q) = Some m \<longrightarrow> notice_captureId m \<noteq> ''a''"
    using notice_resend [OF e, of 600] by simp
  moreover have "fst (notice_next 600 ?q) = Some m \<Longrightarrow> notice_captureId m = ''a''" for m
    by (auto simp: notice_next_def split: if_splits)
  ultimately show ?thesis unfolding e by (cases "fst (notice_next 600 ?q)") auto
qed

text \<open>The wait ends: the clock reads the world's time, and a receiver that gives up has used time.\<close>

theorem wait_ends:
  assumes "\<And>w. fst (read_clock F w) = of_nat (time w) \<and> time w < 2 ^ 64"
    and "\<And>w. time w \<le> time (snd (read_clock F w)) \<and> time w \<le> time (snd (is_cancelled F w))"
    and "\<And>t w. \<not> fst (receive F t w) \<Longrightarrow> time w < time (snd (receive F t w))"
  shows "\<exists>got w'. waitCameraFrame F deadline w = Some (got, w')"
proof (induction "unat deadline - time w" arbitrary: w rule: less_induct)
  case less
  obtain stop w1 where c: "is_cancelled F w = (stop, w1)" by (cases "is_cancelled F w")
  obtain now w2 where k: "read_clock F w1 = (now, w2)" by (cases "read_clock F w1")
  obtain got w3 where r: "receive F (ucast (min 20 (deadline - now))) w2 = (got, w3)"
    by (cases "receive F (ucast (min 20 (deadline - now))) w2")
  have now: "unat now = time w1"
    using assms(1) [of w1] k by (simp add: unsigned_of_nat take_bit_nat_eq_self)
  have mono: "time w \<le> time w1" "time w1 \<le> time w2"
    using assms(2) [of w] assms(2) [of w1] c k by simp_all
  show ?case
  proof (cases "stop \<or> deadline \<le> now \<or> got")
    case True
    then show ?thesis by (subst waitCameraFrame.simps) (auto simp: c k r)
  next
    case False
    then have "time w2 < time w3" using assms(3) [of "ucast (min 20 (deadline - now))" w2] r by simp
    moreover have "time w1 < unat deadline" using False now by (simp add: word_le_nat_alt not_le)
    ultimately have "unat deadline - time w3 < unat deadline - time w" using mono by linarith
    from less [OF this] False show ?thesis by (subst waitCameraFrame.simps) (auto simp: c k r)
  qed
qed

text \<open>A camera whose first wait fails after five milliseconds and whose second one delivers.\<close>

definition sample_camera :: "bool frame_source" where
  "sample_camera = \<lparr>read_clock = (\<lambda>w. (if w then 5 else 0, w)), is_cancelled = (\<lambda>w. (False, w)),
     receive = (\<lambda>t w. (w, True))\<rparr>"

lemma wait_ends_witness: "\<exists>got w'. waitCameraFrame sample_camera 100 False = Some (got, w')"
  by (rule wait_ends [where time = "\<lambda>w. if w then 5 else 0"]) (auto simp: sample_camera_def)

end
