(* ===== verification/Servo.thy ===== *)
theory Servo
  imports Motion_Safety "HOL-Library.Signed_Division"
begin

text \<open>
  The servos of the head: \<open>stackchan/motion/servo.cpp\<close> with \<open>servo.h\<close>, \<open>hal/hal_servo.cpp\<close> and
  \<open>hal/servo_output_safety.h\<close>.  \<open>ScsServo\<close> is the only subclass of \<open>Servo\<close>; the virtual functions are
  resolved to its overrides, and its state is the record \<open>ScsServo\<close>, which extends that of \<open>Servo\<close>.

  Parameters: the user interface toolkit (\<open>uitk\<close>: \<open>clamp\<close>, \<open>map_range\<close> and the animated value), and the
  hardware abstraction \<open>servo_hal\<close> (the readings of the servo bus, the settings store, and the effect of
  a write on the world).  An animated value is converted to \<open>int\<close> wherever the code uses it, and is read
  as an integer here.  Each reading of the clock is an argument of the operation.  Spring constants are
  real numbers; the rounding of \<open>float\<close> is not modelled.
\<close>

record Vector2i =
  vec_x :: int
  vec_y :: int

record 'a toolkit =
  uitk_clamp :: "int \<Rightarrow> int \<Rightarrow> int \<Rightarrow> int"
  map_range :: "int \<Rightarrow> int \<Rightarrow> int \<Rightarrow> int \<Rightarrow> int \<Rightarrow> int"
  teleport :: "int \<Rightarrow> 'a \<Rightarrow> 'a"
  retarget :: "int \<Rightarrow> 'a \<Rightarrow> 'a"
  updateWithDelta :: "'a \<Rightarrow> 'a"
  anim_done :: "'a \<Rightarrow> bool"
  directValue :: "'a \<Rightarrow> int"
  anim_end :: "'a \<Rightarrow> int"
  set_springs :: "real \<Rightarrow> real \<Rightarrow> real \<Rightarrow> 'a \<Rightarrow> 'a"

datatype ServoWrite = WritePos int int int int | WritePWM int int | EnableTorque int int
  | SwitchMode int nat | SetInt string string int

record 'w servo_hal =
  ReadPos :: "int \<Rightarrow> 'w \<Rightarrow> int"
  ReadMove :: "int \<Rightarrow> 'w \<Rightarrow> int"
  ReadToqueEnable :: "int \<Rightarrow> 'w \<Rightarrow> int"
  FeedBack :: "int \<Rightarrow> 'w \<Rightarrow> int"
  ReadCurrent :: "int \<Rightarrow> 'w \<Rightarrow> int"
  ReadLoad :: "int \<Rightarrow> 'w \<Rightarrow> int"
  GetInt :: "string \<Rightarrow> string \<Rightarrow> int \<Rightarrow> 'w \<Rightarrow> int"
  hal_write :: "ServoWrite \<Rightarrow> 'w \<Rightarrow> 'w"

text \<open>The world behind the bus, with a log of what was written.\<close>

record 'w servo_bus =
  world_of :: 'w
  written :: "ServoWrite list"

definition bus_write :: "'w servo_hal \<Rightarrow> ServoWrite \<Rightarrow> 'w servo_bus \<Rightarrow> 'w servo_bus" where
  "bus_write H c b = \<lparr>world_of = hal_write H c (world_of b), written = written b @ [c]\<rparr>"

record 'a Servo =
  angle_limit :: Vector2i
  angle_anim :: 'a
  last_tick :: u32
  last_torque_check_tick :: u32
  snap_to_target_on_rest :: bool
  auto_torque_release_enabled :: bool
  auto_angle_sync_enabled :: bool
  command_safety :: MotionCommandSafety

record ServoConfig_t =
  servo_id :: int
  defaultZeroPos :: int
  angleLimit :: Vector2i
  rawPosLimit :: Vector2i
  settingNs :: string
  settingZeroPositionKey :: string
  enablePwmMode :: bool
  enableStallProtection :: bool

datatype ServoMode = Position | PWM

record 'a ScsServo = "'a Servo" +
  servo_config :: ServoConfig_t
  output_safety :: bool
  runtime_raw_pos_limit :: Vector2i
  zero_pos :: int
  current_mode :: ServoMode
  last_stall_check_tick :: u32
  last_stall_raw_pos :: int
  last_stall_current_abs :: int
  last_stall_load_abs :: int
  last_stall_direction :: int
  stall_confirm_count :: nat
  last_stall_feedback_valid :: bool

text \<open>A servo with the bus.\<close>

type_synonym ('a, 'w) servo_state = "'a ScsServo \<times> 'w servo_bus"

section \<open>servo\_output\_safety.h\<close>

text \<open>The field \<open>output_safety\<close> is the lock of \<open>ServoOutputSafety\<close>; a writer is a function on the state.\<close>

definition writeMotion :: "bool \<Rightarrow> ('s \<Rightarrow> 's) \<Rightarrow> 's \<Rightarrow> bool \<times> 's" where
  "writeMotion locked writer s = (if locked then (False, s) else (True, writer s))"

definition writePosition :: "bool \<Rightarrow> ('s \<Rightarrow> 's) \<Rightarrow> 's \<Rightarrow> bool \<times> 's" where
  "writePosition locked writer s = writeMotion locked writer s"

definition writeVelocity :: "bool \<Rightarrow> ('s \<Rightarrow> 's) \<Rightarrow> 's \<Rightarrow> bool \<times> 's" where
  "writeVelocity locked writer s = writeMotion locked writer s"

definition writeTorque :: "bool \<Rightarrow> bool \<Rightarrow> ('s \<Rightarrow> 's) \<Rightarrow> 's \<Rightarrow> bool \<times> 's" where
  "writeTorque locked enable writer s = (if locked \<and> enable then (False, s) else (True, writer s))"

section \<open>Positions and angles\<close>

definition kStallFeedbackIntervalMs :: u32 where "kStallFeedbackIntervalMs = 50"
definition kStallMinTargetDeltaRaw :: int where "kStallMinTargetDeltaRaw = 8"
definition kStallMaxPositionDeltaRaw :: int where "kStallMaxPositionDeltaRaw = 1"
definition kStallCurrentRiseThreshold :: int where "kStallCurrentRiseThreshold = 80"
definition kStallLoadRiseThreshold :: int where "kStallLoadRiseThreshold = 150"
definition kStallCurrentAbsThreshold :: int where "kStallCurrentAbsThreshold = 350"
definition kStallLoadAbsThreshold :: int where "kStallLoadAbsThreshold = 650"
definition kStallConfirmSamples :: nat where "kStallConfirmSamples = 2"

definition abs_int :: "int \<Rightarrow> int" where
  "abs_int v = (if v < 0 then - v else v)"

definition is_raw_pos_valid :: "'a ScsServo \<Rightarrow> int \<Rightarrow> bool" where
  "is_raw_pos_valid s raw_pos \<longleftrightarrow>
     raw_pos \<ge> vec_x (rawPosLimit (servo_config s)) \<and> raw_pos \<le> vec_y (rawPosLimit (servo_config s))"

definition raw_pos_to_angle :: "'a ScsServo \<Rightarrow> int \<Rightarrow> int" where
  "raw_pos_to_angle s raw_pos = ((raw_pos - zero_pos s) * 5 * 10) sdiv 16"

text \<open>The first line of \<open>set_angle_impl\<close>, before the position is clamped.\<close>

definition mapped_angle :: "'a ScsServo \<Rightarrow> int \<Rightarrow> int" where
  "mapped_angle s angle = zero_pos s + (angle * 16) sdiv 5 sdiv 10"

section \<open>Limits and the stall protection\<close>

definition reset_stall_detection :: "'a ScsServo \<Rightarrow> 'a ScsServo" where
  "reset_stall_detection s = s\<lparr>last_stall_feedback_valid := False, last_stall_direction := 0, stall_confirm_count := 0\<rparr>"

definition reset_runtime_limits :: "'a ScsServo \<Rightarrow> 'a ScsServo" where
  "reset_runtime_limits s = reset_stall_detection
     (s\<lparr>runtime_raw_pos_limit := rawPosLimit (servo_config s), angle_limit := angleLimit (servo_config s)\<rparr>)"

definition check_mode :: "'w servo_hal \<Rightarrow> ServoMode \<Rightarrow> ('a, 'w) servo_state \<Rightarrow> ('a, 'w) servo_state" where
  "check_mode H targetMode = (\<lambda>(s, b).
     if targetMode = current_mode s then (s, b)
     else (s\<lparr>current_mode := targetMode\<rparr>,
           bus_write H (SwitchMode (servo_id (servo_config s)) (case targetMode of Position \<Rightarrow> 0 | PWM \<Rightarrow> 1)) b))"

definition stop_motion_at_angle :: "'a toolkit \<Rightarrow> int \<Rightarrow> 'a ScsServo \<Rightarrow> 'a ScsServo" where
  "stop_motion_at_angle K angle s =
    (let angle = uitk_clamp K angle (vec_x (angle_limit s)) (vec_y (angle_limit s))
     in s\<lparr>angle_anim := teleport K angle (angle_anim s), snap_to_target_on_rest := False\<rparr>)"

text \<open>The new limits of \<open>handle_stall\<close>: of the raw position and of the angle.\<close>

definition stall_raw_limit :: "int \<Rightarrow> int \<Rightarrow> Vector2i \<Rightarrow> Vector2i" where
  "stall_raw_limit raw_pos direction limit =
    (if direction > 0 then (if raw_pos < vec_y limit then limit\<lparr>vec_y := raw_pos\<rparr> else limit)
     else (if raw_pos > vec_x limit then limit\<lparr>vec_x := raw_pos\<rparr> else limit))"

definition write_position :: "'w servo_hal \<Rightarrow> int \<Rightarrow> ('a, 'w) servo_state \<Rightarrow> ('a, 'w) servo_state" where
  "write_position H pos state =
    (let (s, b) = check_mode H Position state in (s, bus_write H (WritePos (servo_id (servo_config s)) pos 20 0) b))"

definition handle_stall :: "'a toolkit \<Rightarrow> 'w servo_hal \<Rightarrow> int \<Rightarrow> int \<Rightarrow> ('a, 'w) servo_state \<Rightarrow> ('a, 'w) servo_state" where
  "handle_stall K H raw_pos direction = (\<lambda>(s, b).
    let angle = raw_pos_to_angle s raw_pos;
        angle = uitk_clamp K angle (vec_x (angleLimit (servo_config s))) (vec_y (angleLimit (servo_config s)));
        s = s\<lparr>runtime_raw_pos_limit := stall_raw_limit raw_pos direction (runtime_raw_pos_limit s),
              angle_limit := stall_raw_limit angle direction (angle_limit s)\<rparr>;
        s = reset_stall_detection (stop_motion_at_angle K angle s)
    in snd (writePosition (output_safety s) (write_position H raw_pos) (s, b)))"

text \<open>The count of \<open>update_stall_protection\<close> after a reading.\<close>

definition stall_count :: "'a ScsServo \<Rightarrow> int \<Rightarrow> int \<Rightarrow> int \<Rightarrow> int \<Rightarrow> nat" where
  "stall_count s current_raw_pos current_abs load_abs direction =
    (if last_stall_feedback_valid s \<and> direction = last_stall_direction s then
       (let pos_delta = abs_int (current_raw_pos - last_stall_raw_pos s);
            position_stuck = (pos_delta \<le> kStallMaxPositionDeltaRaw);
            current_spike = (current_abs \<ge> kStallCurrentAbsThreshold
              \<or> current_abs - last_stall_current_abs s \<ge> kStallCurrentRiseThreshold);
            load_spike = (load_abs \<ge> kStallLoadAbsThreshold \<or> load_abs - last_stall_load_abs s \<ge> kStallLoadRiseThreshold)
        in if position_stuck \<and> (current_spike \<or> load_spike) then stall_confirm_count s + 1
           else if pos_delta > kStallMaxPositionDeltaRaw then 0 else stall_confirm_count s)
     else 0)"

definition update_stall_protection ::
  "'a toolkit \<Rightarrow> 'w servo_hal \<Rightarrow> u32 \<Rightarrow> int \<Rightarrow> ('a, 'w) servo_state \<Rightarrow> bool \<times> ('a, 'w) servo_state" where
  "update_stall_protection K H now target_raw_pos = (\<lambda>(s, b).
    if \<not> enableStallProtection (servo_config s) then (False, s, b)
    else if now - last_stall_check_tick s < kStallFeedbackIntervalMs then (False, s, b)
    else
      let s = s\<lparr>last_stall_check_tick := now\<rparr>; w = world_of b
      in if FeedBack H (servo_id (servo_config s)) w < 0 then (False, reset_stall_detection s, b)
         else
           let current_raw_pos = ReadPos H (- 1) w;
               current_abs = abs_int (ReadCurrent H (- 1) w);
               load_abs = abs_int (ReadLoad H (- 1) w)
           in if \<not> is_raw_pos_valid s current_raw_pos then (False, reset_stall_detection s, b)
              else
                let target_delta = target_raw_pos - current_raw_pos
                in if abs_int target_delta < kStallMinTargetDeltaRaw then (False, reset_stall_detection s, b)
                   else
                     let direction = (if target_delta > 0 then 1 else - 1);
                         s = s\<lparr>stall_confirm_count := stall_count s current_raw_pos current_abs load_abs direction,
                               last_stall_raw_pos := current_raw_pos, last_stall_current_abs := current_abs,
                               last_stall_load_abs := load_abs, last_stall_direction := direction,
                               last_stall_feedback_valid := True\<rparr>
                     in if stall_confirm_count s < kStallConfirmSamples then (False, s, b)
                        else (True, handle_stall K H current_raw_pos direction (s, b)))"

section \<open>Overrides of ScsServo\<close>

definition set_angle_impl :: "'a toolkit \<Rightarrow> 'w servo_hal \<Rightarrow> u32 \<Rightarrow> int \<Rightarrow> ('a, 'w) servo_state \<Rightarrow> ('a, 'w) servo_state" where
  "set_angle_impl K H now angle state =
    snd (writePosition (output_safety (fst state)) (\<lambda>(s, b).
      let mapped = uitk_clamp K (mapped_angle s angle) (vec_x (runtime_raw_pos_limit s)) (vec_y (runtime_raw_pos_limit s));
          (stalled, state) = update_stall_protection K H now mapped (s, b)
      in if stalled then state else write_position H mapped state) state)"

text \<open>\<open>Servo::getCurrentAngle\<close> and its override.\<close>

definition base_getCurrentAngle :: "'a toolkit \<Rightarrow> 'a ScsServo \<Rightarrow> int" where
  "base_getCurrentAngle K s = directValue K (angle_anim s)"

definition getCurrentAngle :: "'a toolkit \<Rightarrow> 'w servo_hal \<Rightarrow> 'a ScsServo \<Rightarrow> 'w \<Rightarrow> int" where
  "getCurrentAngle K H s w =
    (let current_pos = ReadPos H (servo_id (servo_config s)) w
     in if \<not> is_raw_pos_valid s current_pos
        then uitk_clamp K (base_getCurrentAngle K s) (vec_x (angle_limit s)) (vec_y (angle_limit s))
        else uitk_clamp K (raw_pos_to_angle s current_pos) (vec_x (angle_limit s)) (vec_y (angle_limit s)))"

definition is_moving_impl :: "'w servo_hal \<Rightarrow> 'a ScsServo \<Rightarrow> 'w \<Rightarrow> bool" where
  "is_moving_impl H s w \<longleftrightarrow> ReadMove H (servo_id (servo_config s)) w \<noteq> 0"

definition allowsMotionCommand :: "MotionCommandSource \<Rightarrow> 'a ScsServo \<Rightarrow> bool" where
  "allowsMotionCommand source s \<longleftrightarrow> allowsMotion source (command_safety s)"

definition allowsTorqueCommand :: "bool \<Rightarrow> MotionCommandSource \<Rightarrow> 'a ScsServo \<Rightarrow> bool" where
  "allowsTorqueCommand enable source s \<longleftrightarrow> allowsTorque enable source (command_safety s)"

definition setTorqueEnabled :: "'w servo_hal \<Rightarrow> bool \<Rightarrow> ('a, 'w) servo_state \<Rightarrow> ('a, 'w) servo_state" where
  "setTorqueEnabled H enable = (\<lambda>(s, b).
    if \<not> allowsTorqueCommand enable Local s then (s, b)
    else (s, snd (writeTorque (output_safety s) enable
                   (bus_write H (EnableTorque (servo_id (servo_config s)) (if enable then 1 else 0))) b)))"

definition getTorqueEnabled :: "'w servo_hal \<Rightarrow> 'a ScsServo \<Rightarrow> 'w \<Rightarrow> bool" where
  "getTorqueEnabled H s w \<longleftrightarrow> ReadToqueEnable H (servo_id (servo_config s)) w > 0"

definition store_zero_pos :: "'w servo_hal \<Rightarrow> 'a ScsServo \<Rightarrow> 'w servo_bus \<Rightarrow> 'w servo_bus" where
  "store_zero_pos H s = bus_write H (SetInt (settingNs (servo_config s)) (settingZeroPositionKey (servo_config s)) (zero_pos s))"

definition setCurrentAngleAsZero :: "'w servo_hal \<Rightarrow> ('a, 'w) servo_state \<Rightarrow> ('a, 'w) servo_state" where
  "setCurrentAngleAsZero H = (\<lambda>(s, b).
    let current_pos = ReadPos H (servo_id (servo_config s)) (world_of b)
    in if \<not> is_raw_pos_valid s current_pos then (s, b)
       else let s = reset_runtime_limits (s\<lparr>zero_pos := current_pos\<rparr>) in (s, store_zero_pos H s b))"

definition resetZeroCalibration :: "'w servo_hal \<Rightarrow> ('a, 'w) servo_state \<Rightarrow> ('a, 'w) servo_state" where
  "resetZeroCalibration H = (\<lambda>(s, b).
    let s = reset_runtime_limits (s\<lparr>zero_pos := defaultZeroPos (servo_config s)\<rparr>) in (s, store_zero_pos H s b))"

definition rotate_servo :: "'a toolkit \<Rightarrow> 'w servo_hal \<Rightarrow> int \<Rightarrow> ('a, 'w) servo_state \<Rightarrow> ('a, 'w) servo_state" where
  "rotate_servo K H velocity state =
    (if \<not> allowsMotionCommand Local (fst state) then state
     else snd (writeVelocity (output_safety (fst state)) (\<lambda>(s, b).
       let velocity = uitk_clamp K velocity (- 1000) 1000
       in if \<not> enablePwmMode (servo_config s) then (s, b)
          else let mapped_velocity = map_range K velocity 0 1000 0 1023;
                   (s, b) = check_mode H PWM (s, b)
               in (s, bus_write H (WritePWM (servo_id (servo_config s)) mapped_velocity) b)) state))"

definition get_zero_pos_from_nvs :: "'w servo_hal \<Rightarrow> ('a, 'w) servo_state \<Rightarrow> ('a, 'w) servo_state" where
  "get_zero_pos_from_nvs H = (\<lambda>(s, b).
    let nvs_zero_pos = GetInt H (settingNs (servo_config s)) (settingZeroPositionKey (servo_config s)) (- 1) (world_of b)
    in if nvs_zero_pos \<ge> vec_x (rawPosLimit (servo_config s)) \<and> nvs_zero_pos \<le> vec_y (rawPosLimit (servo_config s))
       then (s\<lparr>zero_pos := nvs_zero_pos\<rparr>, b)
       else let s = s\<lparr>zero_pos := defaultZeroPos (servo_config s)\<rparr> in (s, store_zero_pos H s b))"

section \<open>servo.cpp\<close>

record SpringOptions_t =
  stiffness :: real
  damping :: real
  mass :: real
  restSpeed :: real
  restDelta :: real

definition default_spring_options :: SpringOptions_t where
  "default_spring_options = \<lparr>stiffness = 170, damping = 26, mass = 1, restSpeed = 1 / 10, restDelta = 1 / 10\<rparr>"

definition map_speed_to_spring_options :: "int \<Rightarrow> SpringOptions_t" where
  "map_speed_to_spring_options requested =
    (let speed = clampDriverSpeed requested;
         k_min = 10; k_max = 650; normalizedSpeed = of_int speed / 1000;
         k = k_min + (normalizedSpeed * normalizedSpeed) * (k_max - k_min);
         m = 1; d = 2 * sqrt (m * k);
         options = default_spring_options\<lparr>stiffness := k, damping := d, mass := m\<rparr>
     in if speed > 800 then options\<lparr>restDelta := 1 / 2, restSpeed := 1 / 2\<rparr>
        else options\<lparr>restDelta := 1 / 10, restSpeed := 1 / 10\<rparr>)"

definition apply_default_spring_options :: "'a toolkit \<Rightarrow> 'a ScsServo \<Rightarrow> 'a ScsServo" where
  "apply_default_spring_options K s = s\<lparr>angle_anim :=
     set_springs K 0 (stiffness default_spring_options) (damping default_spring_options) (angle_anim s)\<rparr>"

definition update_angle_anim_target ::
  "'a toolkit \<Rightarrow> 'w servo_hal \<Rightarrow> int \<Rightarrow> ('a, 'w) servo_state \<Rightarrow> ('a, 'w) servo_state" where
  "update_angle_anim_target K H angle = (\<lambda>(s, b).
    let angle = uitk_clamp K angle (vec_x (angle_limit s)) (vec_y (angle_limit s));
        s = (if auto_angle_sync_enabled s
             then s\<lparr>angle_anim := teleport K (getCurrentAngle K H s (world_of b)) (angle_anim s)\<rparr> else s)
    in (s\<lparr>angle_anim := retarget K angle (angle_anim s), snap_to_target_on_rest := True\<rparr>, b))"

definition move_with_spring_params_impl ::
  "'a toolkit \<Rightarrow> 'w servo_hal \<Rightarrow> int \<Rightarrow> real \<Rightarrow> real \<Rightarrow> ('a, 'w) servo_state \<Rightarrow> ('a, 'w) servo_state" where
  "move_with_spring_params_impl K H angle stiff damp = (\<lambda>(s, b).
    update_angle_anim_target K H angle (s\<lparr>angle_anim := set_springs K 0 stiff damp (angle_anim s)\<rparr>, b))"

definition move_with_speed_impl ::
  "'a toolkit \<Rightarrow> 'w servo_hal \<Rightarrow> int \<Rightarrow> int \<Rightarrow> ('a, 'w) servo_state \<Rightarrow> ('a, 'w) servo_state" where
  "move_with_speed_impl K H angle speed =
    (let spring_options = map_speed_to_spring_options speed
     in move_with_spring_params_impl K H angle (stiffness spring_options) (damping spring_options))"

definition move :: "'a toolkit \<Rightarrow> 'w servo_hal \<Rightarrow> int \<Rightarrow> ('a, 'w) servo_state \<Rightarrow> ('a, 'w) servo_state" where
  "move K H angle = (\<lambda>(s, b).
    if \<not> allowsMotionCommand Local s then (s, b)
    else update_angle_anim_target K H angle (apply_default_spring_options K s, b))"

definition moveWithSpringParams ::
  "'a toolkit \<Rightarrow> 'w servo_hal \<Rightarrow> int \<Rightarrow> real \<Rightarrow> real \<Rightarrow> ('a, 'w) servo_state \<Rightarrow> ('a, 'w) servo_state" where
  "moveWithSpringParams K H angle stiff damp state =
    (if \<not> allowsMotionCommand Local (fst state) then state else move_with_spring_params_impl K H angle stiff damp state)"

definition moveWithSpeed :: "'a toolkit \<Rightarrow> 'w servo_hal \<Rightarrow> int \<Rightarrow> int \<Rightarrow> ('a, 'w) servo_state \<Rightarrow> ('a, 'w) servo_state" where
  "moveWithSpeed K H angle speed state =
    (if \<not> allowsMotionCommand Local (fst state) then state else move_with_speed_impl K H angle speed state)"

definition moveFromAuthenticatedBridgeWithSpeed ::
  "'a toolkit \<Rightarrow> 'w servo_hal \<Rightarrow> int \<Rightarrow> int \<Rightarrow> ('a, 'w) servo_state \<Rightarrow> ('a, 'w) servo_state" where
  "moveFromAuthenticatedBridgeWithSpeed K H angle speed state =
    (if \<not> allowsMotionCommand AuthenticatedBridge (fst state) then state else move_with_speed_impl K H angle speed state)"

definition isMoving :: "'a toolkit \<Rightarrow> 'w servo_hal \<Rightarrow> 'a ScsServo \<Rightarrow> 'w \<Rightarrow> bool" where
  "isMoving K H s w \<longleftrightarrow> \<not> anim_done K (angle_anim s) \<or> is_moving_impl H s w"

text \<open>The readings of the clock in one call of \<open>update\<close>, in the order of the code.\<close>

record update_clock =
  at_check :: u32
  at_tick :: u32
  at_stall :: u32
  at_torque_check :: u32
  at_torque_tick :: u32

definition update_due :: "update_clock \<Rightarrow> 'a ScsServo \<Rightarrow> bool" where
  "update_due t s \<longleftrightarrow> at_check t - last_tick s \<ge> 20"

definition servo_update :: "'a toolkit \<Rightarrow> 'w servo_hal \<Rightarrow> update_clock \<Rightarrow> ('a, 'w) servo_state \<Rightarrow> ('a, 'w) servo_state" where
  "servo_update K H t = (\<lambda>(s, b).
    if \<not> update_due t s then (s, b)
    else
      let s = s\<lparr>last_tick := at_tick t\<rparr>
      in if \<not> anim_done K (angle_anim s) then
           let s = s\<lparr>angle_anim := updateWithDelta K (angle_anim s)\<rparr>
           in set_angle_impl K H (at_stall t) (directValue K (angle_anim s)) (s, b)
         else if snap_to_target_on_rest s then
           let s = s\<lparr>snap_to_target_on_rest := False\<rparr>
           in set_angle_impl K H (at_stall t) (anim_end K (angle_anim s)) (s, b)
         else if auto_torque_release_enabled s \<and> \<not> isMoving K H s (world_of b) then
           if at_torque_check t - last_torque_check_tick s > 200 then
             let (s, b) = (if getTorqueEnabled H s (world_of b) then setTorqueEnabled H False (s, b) else (s, b))
             in (s\<lparr>last_torque_check_tick := at_torque_tick t\<rparr>, b)
           else (s, b)
         else (s, b))"

text \<open>\<open>Servo::init\<close> and its override.\<close>

definition base_init :: "'a toolkit \<Rightarrow> 'w servo_hal \<Rightarrow> update_clock \<Rightarrow> ('a, 'w) servo_state \<Rightarrow> ('a, 'w) servo_state" where
  "base_init K H t = (\<lambda>(s, b).
    let s = apply_default_spring_options K s;
        s = s\<lparr>angle_anim := teleport K (getCurrentAngle K H s (world_of b)) (angle_anim s)\<rparr>
    in setTorqueEnabled H False (servo_update K H t (s, b)))"

definition init :: "'a toolkit \<Rightarrow> 'w servo_hal \<Rightarrow> update_clock \<Rightarrow> ('a, 'w) servo_state \<Rightarrow> ('a, 'w) servo_state" where
  "init K H t = (\<lambda>(s, b).
    let s = reset_runtime_limits s;
        s = s\<lparr>angle_limit := angleLimit (servo_config s)\<rparr>
    in base_init K H t (get_zero_pos_from_nvs H (s, b)))"

definition servo_setLocalMotionLocked :: "bool \<Rightarrow> 'a ScsServo \<Rightarrow> 'a ScsServo" where
  "servo_setLocalMotionLocked locked s = s\<lparr>command_safety := setLocalMotionLocked locked (command_safety s)\<rparr>"

definition servo_localMotionLocked :: "'a ScsServo \<Rightarrow> bool" where
  "servo_localMotionLocked s = localMotionLocked (command_safety s)"

definition setAutoTorqueReleaseEnabled :: "bool \<Rightarrow> 'a ScsServo \<Rightarrow> 'a ScsServo" where
  "setAutoTorqueReleaseEnabled enable s = s\<lparr>auto_torque_release_enabled := enable\<rparr>"

definition setAutoAngleSyncEnabled :: "bool \<Rightarrow> 'a ScsServo \<Rightarrow> 'a ScsServo" where
  "setAutoAngleSyncEnabled enable s = s\<lparr>auto_angle_sync_enabled := enable\<rparr>"

section \<open>The two servos of the head\<close>

definition new_ServoConfig_t :: ServoConfig_t where
  "new_ServoConfig_t = \<lparr>servo_id = - 1, defaultZeroPos = 0, angleLimit = \<lparr>vec_x = 0, vec_y = 0\<rparr>, rawPosLimit = \<lparr>vec_x = 0, vec_y = 0\<rparr>,
     settingNs = [], settingZeroPositionKey = [], enablePwmMode = False, enableStallProtection = False\<rparr>"

definition new_ScsServo :: "bool \<Rightarrow> 'a \<Rightarrow> ServoConfig_t \<Rightarrow> 'a ScsServo" where
  "new_ScsServo head_motion_locked anim config =
    \<lparr>angle_limit = \<lparr>vec_x = 0, vec_y = 0\<rparr>, angle_anim = anim, last_tick = 0, last_torque_check_tick = 0,
     snap_to_target_on_rest = False, auto_torque_release_enabled = True, auto_angle_sync_enabled = True,
     command_safety = \<lparr>m_localMotionLocked = False\<rparr>, servo_config = config, output_safety = head_motion_locked,
     runtime_raw_pos_limit = rawPosLimit config, zero_pos = 0, current_mode = Position, last_stall_check_tick = 0,
     last_stall_raw_pos = 0, last_stall_current_abs = 0, last_stall_load_abs = 0, last_stall_direction = 0,
     stall_confirm_count = 0, last_stall_feedback_valid = False\<rparr>"

definition yaw_servo_config :: ServoConfig_t where
  "yaw_servo_config = new_ServoConfig_t\<lparr>servo_id := 1, defaultZeroPos := 460, angleLimit := \<lparr>vec_x = - 450, vec_y = 450\<rparr>,
     rawPosLimit := \<lparr>vec_x = 0, vec_y = 1000\<rparr>, settingNs := ''servo'', settingZeroPositionKey := ''zero_pos_1'',
     enablePwmMode := False\<rparr>"

definition pitch_servo_config :: ServoConfig_t where
  "pitch_servo_config = new_ServoConfig_t\<lparr>servo_id := 2, defaultZeroPos := 620, angleLimit := \<lparr>vec_x = 50, vec_y = 850\<rparr>,
     rawPosLimit := \<lparr>vec_x = 0, vec_y = 1000\<rparr>, settingNs := ''servo'', settingZeroPositionKey := ''zero_pos_2'',
     enableStallProtection := True\<rparr>"

end
