(* ===== verification/Servo_Safety.thy ===== *)
theory Servo_Safety
  imports Servo
begin

text \<open>
  What reaches the servo bus over every run of a servo: positions within the raw limits, nothing but
  torque off in a build that locks the head, and nothing that moves while local motion is locked.
\<close>

datatype 'w servo_op = Init update_clock | Update update_clock | Move int | MoveWithSpringParams int real real
  | MoveWithSpeed int int | MoveFromBridge int int | Rotate int | SetTorque bool | LockLocalMotion bool
  | SetAutoTorqueRelease bool | SetAutoAngleSync bool | SetCurrentAngleAsZero | ResetZeroCalibration | World 'w

text \<open>\<open>World w\<close>: the world behind the bus changes between two operations.\<close>

primrec servo_step :: "'a toolkit \<Rightarrow> 'w servo_hal \<Rightarrow> 'w servo_op \<Rightarrow> ('a, 'w) servo_state \<Rightarrow> ('a, 'w) servo_state" where
  "servo_step K H (Init t) = init K H t"
| "servo_step K H (Update t) = servo_update K H t"
| "servo_step K H (Move angle) = move K H angle"
| "servo_step K H (MoveWithSpringParams angle stiff damp) = moveWithSpringParams K H angle stiff damp"
| "servo_step K H (MoveWithSpeed angle speed) = moveWithSpeed K H angle speed"
| "servo_step K H (MoveFromBridge angle speed) = moveFromAuthenticatedBridgeWithSpeed K H angle speed"
| "servo_step K H (Rotate velocity) = rotate_servo K H velocity"
| "servo_step K H (SetTorque enable) = setTorqueEnabled H enable"
| "servo_step K H (LockLocalMotion locked) = (\<lambda>(s, b). (servo_setLocalMotionLocked locked s, b))"
| "servo_step K H (SetAutoTorqueRelease enable) = (\<lambda>(s, b). (setAutoTorqueReleaseEnabled enable s, b))"
| "servo_step K H (SetAutoAngleSync enable) = (\<lambda>(s, b). (setAutoAngleSyncEnabled enable s, b))"
| "servo_step K H SetCurrentAngleAsZero = setCurrentAngleAsZero H"
| "servo_step K H ResetZeroCalibration = resetZeroCalibration H"
| "servo_step K H (World w) = (\<lambda>(s, b). (s, b\<lparr>world_of := w\<rparr>))"

definition servo_run :: "'a toolkit \<Rightarrow> 'w servo_hal \<Rightarrow> 'w servo_op list \<Rightarrow> ('a, 'w) servo_state \<Rightarrow> ('a, 'w) servo_state" where
  "servo_run K H ops state = fold (servo_step K H) ops state"

section \<open>The invariant\<close>

text \<open>What \<open>uitk::clamp\<close> promises: a value within the bounds is kept, another becomes one of them, the
  nearer one if they are in order.\<close>

definition clamp_ok :: "'a toolkit \<Rightarrow> bool" where
  "clamp_ok K \<longleftrightarrow> (\<forall>v lo hi. let r = uitk_clamp K v lo hi in
     if hi < lo then r = lo \<or> r = hi else r = (if v < lo then lo else if hi < v then hi else v))"

definition in_limit :: "Vector2i \<Rightarrow> int \<Rightarrow> bool" where
  "in_limit limit v \<longleftrightarrow> vec_x limit \<le> v \<and> v \<le> vec_y limit"

definition config_ok :: "ServoConfig_t \<Rightarrow> bool" where
  "config_ok c \<longleftrightarrow> in_limit (rawPosLimit c) (defaultZeroPos c) \<and> vec_x (angleLimit c) \<le> vec_y (angleLimit c)"

text \<open>What may be written for a servo: with \<open>ranged\<close> positions are checked, with \<open>locked\<close> nothing moves.
  \<open>E\<close> are the writes of other servos on the bus.\<close>

fun write_safe :: "ServoConfig_t \<Rightarrow> bool \<Rightarrow> bool \<Rightarrow> ServoWrite \<Rightarrow> bool" where
  "write_safe c ranged locked (WritePos i pos time speed) \<longleftrightarrow>
     i = servo_id c \<and> \<not> locked \<and> (ranged \<longrightarrow> in_limit (rawPosLimit c) pos)"
| "write_safe c ranged locked (WritePWM i velocity) \<longleftrightarrow> i = servo_id c \<and> \<not> locked \<and> enablePwmMode c"
| "write_safe c ranged locked (EnableTorque i e) \<longleftrightarrow> i = servo_id c \<and> (locked \<longrightarrow> e = 0)"
| "write_safe c ranged locked (SwitchMode i mode) \<longleftrightarrow> i = servo_id c \<and> \<not> locked"
| "write_safe c ranged locked (SetInt ns key v) \<longleftrightarrow> ns = settingNs c \<and> key = settingZeroPositionKey c
     \<and> (ranged \<longrightarrow> in_limit (rawPosLimit c) v)"

definition servo_ok :: "ServoConfig_t \<Rightarrow> (ServoWrite \<Rightarrow> bool) \<Rightarrow> bool \<Rightarrow> bool \<Rightarrow> ('a, 'w) servo_state \<Rightarrow> bool" where
  "servo_ok c E ranged locked = (\<lambda>(s, b).
     servo_config s = c \<and> output_safety s = locked \<and> list_all (\<lambda>wr. write_safe c ranged locked wr \<or> E wr) (written b)
     \<and> (ranged \<longrightarrow> in_limit (rawPosLimit c) (vec_x (runtime_raw_pos_limit s))
          \<and> in_limit (rawPosLimit c) (vec_y (runtime_raw_pos_limit s))))"

lemma clampD:
  assumes "clamp_ok K"
  shows "hi < lo \<Longrightarrow> uitk_clamp K v lo hi = lo \<or> uitk_clamp K v lo hi = hi"
    and "lo \<le> hi \<Longrightarrow> uitk_clamp K v lo hi = (if v < lo then lo else if hi < v then hi else v)"
  using assms unfolding clamp_ok_def Let_def by (metis, metis linorder_not_less)

lemma clamp_within: "clamp_ok K \<Longrightarrow> in_limit limit lo \<Longrightarrow> in_limit limit hi \<Longrightarrow> in_limit limit (uitk_clamp K v lo hi)"
  using clampD(1) [of K hi lo v] clampD(2) [of K lo hi v] unfolding in_limit_def by (cases "hi < lo") (auto split: if_splits)

lemma servo_ok_write [simp]:
  "servo_ok c E ranged locked (s, bus_write H wr b) \<longleftrightarrow> servo_ok c E ranged locked (s, b) \<and> (write_safe c ranged locked wr \<or> E wr)"
  by (auto simp: servo_ok_def bus_write_def)

lemma servo_okD:
  assumes "servo_ok c E ranged locked (s, b)"
  shows "servo_config s = c" "output_safety s = locked"
    "ranged \<Longrightarrow> in_limit (rawPosLimit c) (vec_x (runtime_raw_pos_limit s))"
    "ranged \<Longrightarrow> in_limit (rawPosLimit c) (vec_y (runtime_raw_pos_limit s))"
  using assms by (simp_all add: servo_ok_def)

text \<open>Only three fields of a servo matter.\<close>

lemma servo_ok_fields [simp]:
  "servo_ok c E ranged locked (s\<lparr>angle_limit := x0\<rparr>, b) = servo_ok c E ranged locked (s, b)"
  "servo_ok c E ranged locked (s\<lparr>angle_anim := x1\<rparr>, b) = servo_ok c E ranged locked (s, b)"
  "servo_ok c E ranged locked (s\<lparr>last_tick := x2\<rparr>, b) = servo_ok c E ranged locked (s, b)"
  "servo_ok c E ranged locked (s\<lparr>last_torque_check_tick := x3\<rparr>, b) = servo_ok c E ranged locked (s, b)"
  "servo_ok c E ranged locked (s\<lparr>snap_to_target_on_rest := x4\<rparr>, b) = servo_ok c E ranged locked (s, b)"
  "servo_ok c E ranged locked (s\<lparr>auto_torque_release_enabled := x5\<rparr>, b) = servo_ok c E ranged locked (s, b)"
  "servo_ok c E ranged locked (s\<lparr>auto_angle_sync_enabled := x6\<rparr>, b) = servo_ok c E ranged locked (s, b)"
  "servo_ok c E ranged locked (s\<lparr>command_safety := x7\<rparr>, b) = servo_ok c E ranged locked (s, b)"
  "servo_ok c E ranged locked (s\<lparr>zero_pos := x8\<rparr>, b) = servo_ok c E ranged locked (s, b)"
  "servo_ok c E ranged locked (s\<lparr>current_mode := x9\<rparr>, b) = servo_ok c E ranged locked (s, b)"
  "servo_ok c E ranged locked (s\<lparr>last_stall_check_tick := x10\<rparr>, b) = servo_ok c E ranged locked (s, b)"
  "servo_ok c E ranged locked (s\<lparr>last_stall_raw_pos := x11\<rparr>, b) = servo_ok c E ranged locked (s, b)"
  "servo_ok c E ranged locked (s\<lparr>last_stall_current_abs := x12\<rparr>, b) = servo_ok c E ranged locked (s, b)"
  "servo_ok c E ranged locked (s\<lparr>last_stall_load_abs := x13\<rparr>, b) = servo_ok c E ranged locked (s, b)"
  "servo_ok c E ranged locked (s\<lparr>last_stall_direction := x14\<rparr>, b) = servo_ok c E ranged locked (s, b)"
  "servo_ok c E ranged locked (s\<lparr>stall_confirm_count := x15\<rparr>, b) = servo_ok c E ranged locked (s, b)"
  "servo_ok c E ranged locked (s\<lparr>last_stall_feedback_valid := x16\<rparr>, b) = servo_ok c E ranged locked (s, b)"
  by (simp_all add: servo_ok_def)

lemma servo_ok_world [simp]: "servo_ok c E ranged locked (s, b\<lparr>world_of := w\<rparr>) = servo_ok c E ranged locked (s, b)"
  by (simp add: servo_ok_def)

lemma servo_ok_written: "servo_ok c E ranged locked state \<Longrightarrow> list_all (\<lambda>wr. write_safe c ranged locked wr \<or> E wr) (written (snd state))"
  by (simp add: servo_ok_def split: prod.splits)

lemma servo_ok_reset_stall [simp]:
  "servo_ok c E ranged locked (reset_stall_detection s, b) = servo_ok c E ranged locked (s, b)"
  by (simp add: reset_stall_detection_def)

lemma reset_limits_fields [simp]:
  "servo_config (reset_runtime_limits s) = servo_config s" "zero_pos (reset_runtime_limits s) = zero_pos s"
  by (simp_all add: reset_runtime_limits_def reset_stall_detection_def)

lemma servo_ok_check_mode:
  "servo_ok c E ranged False (s, b) \<Longrightarrow> servo_ok c E ranged False (check_mode H m (s, b))"
  by (auto simp: check_mode_def dest: servo_okD(1))

lemma servo_ok_write_position:
  assumes "servo_ok c E ranged False (s, b)" "ranged \<Longrightarrow> in_limit (rawPosLimit c) pos"
  shows "servo_ok c E ranged False (write_position H pos (s, b))"
proof -
  obtain s' b' where m: "check_mode H Position (s, b) = (s', b')" by force
  with servo_ok_check_mode [OF assms(1), of H Position] have "servo_ok c E ranged False (s', b')" by simp
  with assms(2) show ?thesis by (auto simp: write_position_def m dest: servo_okD(1))
qed

locale servo_safety =
  fixes K :: "'a toolkit" and H :: "'w servo_hal" and c :: ServoConfig_t and E :: "ServoWrite \<Rightarrow> bool" and ranged locked :: bool
  assumes ranged_ok: "ranged \<Longrightarrow> clamp_ok K \<and> config_ok c"
begin

abbreviation "ok \<equiv> servo_ok c E ranged locked"

lemma ok_reset_limits: "ok (s, b) \<Longrightarrow> ok (reset_runtime_limits s, b)"
  using ranged_ok by (auto simp: servo_ok_def reset_runtime_limits_def reset_stall_detection_def config_ok_def in_limit_def)

lemma stall_raw_limit_within:
  "in_limit l (vec_x m) \<Longrightarrow> in_limit l (vec_y m) \<Longrightarrow> in_limit l r
    \<Longrightarrow> in_limit l (vec_x (stall_raw_limit r d m)) \<and> in_limit l (vec_y (stall_raw_limit r d m))"
  by (simp add: stall_raw_limit_def)

lemma ok_handle_stall:
  assumes "ok (s, b)" "\<not> locked" "ranged \<Longrightarrow> in_limit (rawPosLimit c) raw_pos"
  shows "ok (handle_stall K H raw_pos d (s, b))"
proof -
  have "ok (s\<lparr>runtime_raw_pos_limit := stall_raw_limit raw_pos d (runtime_raw_pos_limit s)\<rparr>, b)"
    using assms stall_raw_limit_within [of "rawPosLimit c" "runtime_raw_pos_limit s" raw_pos d]
    by (auto simp: servo_ok_def)
  then show ?thesis using assms(2,3)
    by (auto simp: handle_stall_def Let_def writePosition_def writeMotion_def stop_motion_at_angle_def
        intro!: servo_ok_write_position)
qed

lemma ok_stall_protection:
  "ok (s, b) \<Longrightarrow> \<not> locked \<Longrightarrow> ok (snd (update_stall_protection K H now p (s, b)))"
  using ok_handle_stall servo_okD(1) [of c E ranged locked s b]
  by (auto simp: update_stall_protection_def Let_def is_raw_pos_valid_def in_limit_def)

lemma ok_set_angle_impl:
  assumes "ok (s, b)"
  shows "ok (set_angle_impl K H now angle (s, b))"
proof (cases locked)
  case True
  then show ?thesis using assms servo_okD(2) [OF assms] by (simp add: set_angle_impl_def writePosition_def writeMotion_def)
next
  case False
  let ?p = "uitk_clamp K (mapped_angle s angle) (vec_x (runtime_raw_pos_limit s)) (vec_y (runtime_raw_pos_limit s))"
  have p: "in_limit (rawPosLimit c) ?p" if ranged
    using servo_okD(3,4) [OF assms that] ranged_ok [OF that] clamp_within by blast
  obtain stalled s' b' where u: "update_stall_protection K H now ?p (s, b) = (stalled, s', b')"
    by (metis prod_cases3)
  then have "ok (s', b')" using ok_stall_protection [OF assms False, of now ?p] by simp
  then show ?thesis
    using False servo_okD(2) [OF assms] p u
    by (auto simp: set_angle_impl_def writePosition_def writeMotion_def Let_def intro!: servo_ok_write_position)
qed

lemma ok_torque: "ok (s, b) \<Longrightarrow> ok (setTorqueEnabled H e (s, b))"
  using servo_okD(1,2) [of c E ranged locked s b] by (auto simp: setTorqueEnabled_def writeTorque_def)

lemma ok_update: "ok (s, b) \<Longrightarrow> ok (servo_update K H t (s, b))"
  using ok_torque [of "s\<lparr>last_tick := at_tick t\<rparr>" b False]
  by (auto simp: servo_update_def Let_def split: prod.split intro!: ok_set_angle_impl)

lemma ok_zero_from_nvs: "ok (s, b) \<Longrightarrow> ok (get_zero_pos_from_nvs H (s, b))"
  using ranged_ok by (auto simp: get_zero_pos_from_nvs_def Let_def store_zero_pos_def config_ok_def dest: servo_okD(1))

lemma ok_init: "ok (s, b) \<Longrightarrow> ok (init K H t (s, b))"
proof -
  assume "ok (s, b)"
  then have "ok (get_zero_pos_from_nvs H (reset_runtime_limits s\<lparr>angle_limit := l\<rparr>, b))" for l
    by (intro ok_zero_from_nvs) (simp add: ok_reset_limits)
  moreover have "ok (base_init K H t (s', b'))" if "ok (s', b')" for s' b'
  proof -
    obtain s2 b2 where u: "servo_update K H t (apply_default_spring_options K s'\<lparr>angle_anim :=
        teleport K (getCurrentAngle K H (apply_default_spring_options K s') (world_of b'))
          (angle_anim (apply_default_spring_options K s'))\<rparr>, b') = (s2, b2)" by force
    have "ok (s2, b2)" using ok_update [of _ b' t] that unfolding u [symmetric] by (simp add: apply_default_spring_options_def)
    then show ?thesis by (simp add: base_init_def Let_def u ok_torque)
  qed
  ultimately show ?thesis by (simp add: init_def Let_def) (metis prod.collapse)
qed

lemma ok_target: "ok (s, b) \<Longrightarrow> ok (update_angle_anim_target K H angle (s, b))"
  by (simp add: update_angle_anim_target_def Let_def)

lemma ok_speed: "ok (s, b) \<Longrightarrow> ok (move_with_speed_impl K H angle v (s, b))"
  by (simp add: move_with_speed_impl_def move_with_spring_params_impl_def Let_def ok_target)

lemma ok_rotate: "ok (s, b) \<Longrightarrow> ok (rotate_servo K H velocity (s, b))"
proof -
  assume a: "ok (s, b)"
  obtain s' b' where m: "check_mode H PWM (s, b) = (s', b')" by force
  have "ok (s', b')" "servo_config s' = c" if "\<not> locked"
    using servo_ok_check_mode [of c E ranged s b H PWM] a that m servo_okD(1) [of c E ranged False s' b'] by simp_all
  with a show ?thesis using servo_okD(1,2) [OF a]
    by (auto simp: rotate_servo_def writeVelocity_def writeMotion_def Let_def m dest: servo_okD(1))
qed

lemma ok_step: "ok state \<Longrightarrow> ok (servo_step K H op state)"
  using ranged_ok
  by (cases state; cases op)
    (auto simp: ok_init ok_update ok_torque ok_rotate ok_speed ok_target move_def moveWithSpringParams_def
      moveWithSpeed_def moveFromAuthenticatedBridgeWithSpeed_def move_with_spring_params_impl_def
      apply_default_spring_options_def servo_setLocalMotionLocked_def setAutoTorqueReleaseEnabled_def
      setAutoAngleSyncEnabled_def setCurrentAngleAsZero_def resetZeroCalibration_def store_zero_pos_def Let_def
      ok_reset_limits config_ok_def is_raw_pos_valid_def in_limit_def dest: servo_okD(1))

lemma ok_run: "ok state \<Longrightarrow> ok (servo_run K H ops state)"
  unfolding servo_run_def by (induction ops arbitrary: state) (simp_all add: ok_step)

end

text \<open>The two modes of the invariant: checked positions, and a locked head whatever the toolkit does.\<close>

interpretation ranged: servo_safety K H c E "clamp_ok K \<and> config_ok c" locked
  for K :: "'a toolkit" and H :: "'w servo_hal" and c E locked
  by unfold_locales blast

interpretation locked: servo_safety K H c E False True
  for K :: "'a toolkit" and H :: "'w servo_hal" and c E
  by unfold_locales blast

section \<open>Properties\<close>

definition new_bus :: "'w \<Rightarrow> 'w servo_bus" where
  "new_bus w = \<lparr>world_of = w, written = []\<rparr>"

lemma new_servo_ok:
  "(ranged \<Longrightarrow> config_ok c) \<Longrightarrow> servo_ok c E ranged locked (new_ScsServo locked anim c, new_bus w)"
  by (auto simp: servo_ok_def new_ScsServo_def new_bus_def config_ok_def in_limit_def)

theorem positions_within_limits:
  assumes "clamp_ok K" "config_ok c"
  shows "list_all (write_safe c True locked)
     (written (snd (servo_run K H ops (new_ScsServo locked anim c, new_bus w))))"
  using ranged.ok_run [of c "\<lambda>wr. False" K locked "(new_ScsServo locked anim c, new_bus w)" H ops] new_servo_ok [of True c "\<lambda>wr. False" locked anim w] assms
  using servo_ok_written [of c "\<lambda>wr. False" True locked] by simp

theorem locked_head_never_moves:
  "list_all (\<lambda>wr. (\<exists>i. wr = EnableTorque i 0) \<or> (\<exists>ns key v. wr = SetInt ns key v))
     (written (snd (servo_run K H ops (new_ScsServo True anim c, new_bus w))))"
proof -
  have "(\<exists>i. wr = EnableTorque i 0) \<or> (\<exists>ns key v. wr = SetInt ns key v)" if "write_safe c False True wr" for wr
    using that by (cases wr) auto
  then show ?thesis
    using servo_ok_written [OF locked.ok_run [OF new_servo_ok [of False c "\<lambda>wr. False" True anim w], of K H ops]]
    by (auto simp: list_all_iff)
qed

section \<open>Local motion locked\<close>

text \<open>The operations of the local user interface: all but those of the bridge, the start and the unlocking.\<close>

fun local_op :: "'w servo_op \<Rightarrow> bool" where
  "local_op (Init t) = False"
| "local_op (MoveFromBridge angle speed) = False"
| "local_op (LockLocalMotion locked) = locked"
| "local_op _ = True"

fun still_write :: "ServoWrite \<Rightarrow> bool" where
  "still_write (EnableTorque i e) \<longleftrightarrow> e = 0"
| "still_write (SetInt ns key v) = True"
| "still_write _ = False"

definition at_rest :: "'a toolkit \<Rightarrow> 'a ScsServo \<Rightarrow> bool" where
  "at_rest K s \<longleftrightarrow> anim_done K (angle_anim s) \<and> \<not> snap_to_target_on_rest s"

definition still :: "'a toolkit \<Rightarrow> ServoWrite list \<Rightarrow> ('a, 'w) servo_state \<Rightarrow> bool" where
  "still K log0 = (\<lambda>(s, b). servo_localMotionLocked s \<and> at_rest K s
     \<and> (\<exists>ws. written b = log0 @ ws \<and> list_all still_write ws))"

lemma still_write_bus: "still K log0 (s, b) \<Longrightarrow> still_write wr \<Longrightarrow> still K log0 (s, bus_write H wr b)"
  by (fastforce simp: still_def bus_write_def)

lemma still_frame:
  "still K log0 (s, b) \<Longrightarrow> command_safety s' = command_safety s \<Longrightarrow> angle_anim s' = angle_anim s
    \<Longrightarrow> snap_to_target_on_rest s' = snap_to_target_on_rest s \<Longrightarrow> still K log0 (s', b)"
  by (simp add: still_def at_rest_def servo_localMotionLocked_def)

lemma still_refuses:
  "still K log0 (s, b) \<Longrightarrow> \<not> allowsMotionCommand Local s \<and> (allowsTorqueCommand e Local s \<longleftrightarrow> \<not> e)"
  by (simp add: still_def servo_localMotionLocked_def localMotionLocked_def allowsMotionCommand_def allowsTorqueCommand_def
      allowsTorque_def allowsMotion_def)

lemma reset_limits_still:
  "still K log0 (s\<lparr>zero_pos := z\<rparr>, b) \<longleftrightarrow> still K log0 (s, b)"
  "still K log0 (reset_runtime_limits s, b) \<longleftrightarrow> still K log0 (s, b)"
  by (simp_all add: still_def at_rest_def servo_localMotionLocked_def reset_runtime_limits_def reset_stall_detection_def)

lemma still_torque: "still K log0 (s, b) \<Longrightarrow> still K log0 (setTorqueEnabled H e (s, b))"
  using still_refuses [of K log0 s b e] by (auto simp: setTorqueEnabled_def writeTorque_def intro!: still_write_bus)

lemma still_update: "still K log0 (s, b) \<Longrightarrow> still K log0 (servo_update K H t (s, b))"
proof -
  assume a: "still K log0 (s, b)"
  let ?s = "s\<lparr>last_tick := at_tick t\<rparr>"
  have r: "anim_done K (angle_anim s)" "\<not> snap_to_target_on_rest s" using a by (simp_all add: still_def at_rest_def)
  have s: "still K log0 (?s, b)" by (rule still_frame [OF a]) simp_all
  have "still K log0 (s2\<lparr>last_torque_check_tick := x\<rparr>, b2)" if "still K log0 (s2, b2)" for s2 b2 x
    by (rule still_frame [OF that]) simp_all
  then show ?thesis
    using a s r still_torque [OF s, of H False] by (auto simp: servo_update_def Let_def split: prod.split)
qed

lemma still_flags:
  "still K log0 (setAutoTorqueReleaseEnabled e s, b) \<longleftrightarrow> still K log0 (s, b)"
  "still K log0 (setAutoAngleSyncEnabled e s, b) \<longleftrightarrow> still K log0 (s, b)"
  "still K log0 (s, b) \<Longrightarrow> still K log0 (servo_setLocalMotionLocked True s, b)"
  "still K log0 (s, b\<lparr>world_of := w\<rparr>) \<longleftrightarrow> still K log0 (s, b)"
  by (simp_all add: still_def at_rest_def servo_localMotionLocked_def localMotionLocked_def servo_setLocalMotionLocked_def
      setLocalMotionLocked_def setAutoTorqueReleaseEnabled_def setAutoAngleSyncEnabled_def)

lemma still_zero: "still K log0 (s, b) \<Longrightarrow> still K log0 (reset_runtime_limits (s\<lparr>zero_pos := z\<rparr>), store_zero_pos H s' b)"
  unfolding store_zero_pos_def by (rule still_write_bus) (simp_all add: reset_limits_still)

lemma still_step: "local_op op \<Longrightarrow> still K log0 state \<Longrightarrow> still K log0 (servo_step K H op state)"
  using still_refuses [of K log0 "fst state" "snd state"]
  by (cases state; cases op) (simp_all add: still_update still_torque still_flags still_zero move_def moveWithSpringParams_def
      moveWithSpeed_def rotate_servo_def setCurrentAngleAsZero_def resetZeroCalibration_def Let_def)

theorem local_lock_keeps_still:
  assumes "servo_localMotionLocked s" "at_rest K s" "list_all local_op ops"
  shows "\<exists>ws. written (snd (servo_run K H ops (s, b))) = written b @ ws \<and> list_all still_write ws"
proof -
  have "still K (written b) state \<Longrightarrow> still K (written b) (servo_run K H ops state)" for state
    using assms(3) unfolding servo_run_def by (induction ops arbitrary: state) (simp_all add: still_step)
  moreover have "still K (written b) (s, b)" using assms(1,2) by (simp add: still_def)
  ultimately show ?thesis by (fastforce simp: still_def split: prod.splits)
qed

section \<open>Angles, positions and springs\<close>

lemma div_bounds: "0 < k \<Longrightarrow> (x div k) * k \<le> x \<and> x < (x div k) * k + (k :: int)"
  using pos_mod_bound [of k x] pos_mod_sign [of k x] div_mult_mod_eq [of x k] by linarith

lemma sdiv_signs:
  "0 < k \<Longrightarrow> 0 \<le> (x :: int) \<Longrightarrow> x sdiv k = x div k"
  "0 < k \<Longrightarrow> 0 \<le> (x :: int) \<Longrightarrow> (- x) sdiv k = - (x div k)"
  by (cases "x = 0"; simp add: signed_divide_int_def)+

lemma angle_of_position:
  assumes "0 \<le> (a :: int)"
  shows "a - 4 \<le> ((a * 16) div 5 div 10 * 5 * 10) div 16 \<and> ((a * 16) div 5 div 10 * 5 * 10) div 16 \<le> a
    \<and> 0 \<le> (a * 16) div 5 div 10 \<and> 0 \<le> ((a * 16) div 5 div 10 * 5 * 10) div 16"
proof -
  let ?m = "(a * 16) div 5 div 10"
  have "?m = (a * 16) div 50" by (simp add: div_mult2_eq [symmetric])
  then have "?m * 50 \<le> a * 16" "a * 16 < ?m * 50 + 50" using div_bounds [of 50 "a * 16"] by simp_all
  moreover have "((?m * 5 * 10) div 16) * 16 \<le> ?m * 5 * 10" "?m * 5 * 10 < ((?m * 5 * 10) div 16) * 16 + 16"
    using div_bounds [of 16 "?m * 5 * 10"] by simp_all
  moreover have "0 \<le> ?m" using assms by (simp add: pos_imp_zdiv_nonneg_iff)
  ultimately show ?thesis by linarith
qed

theorem angle_roundtrip:
  "\<bar>a - raw_pos_to_angle s (mapped_angle s a)\<bar> \<le> 4 \<and> \<bar>raw_pos_to_angle s (mapped_angle s a)\<bar> \<le> \<bar>a\<bar>"
proof -
  define x where "x = \<bar>a\<bar>"
  define q where "q = (x * 16) div 5"
  define r where "r = (q div 10 * 5 * 10) div 16"
  have x: "0 \<le> x" by (simp add: x_def)
  then have q: "0 \<le> q" "0 \<le> q div 10" by (simp_all add: q_def pos_imp_zdiv_nonneg_iff)
  have r: "x - 4 \<le> r" "r \<le> x" "0 \<le> r" using angle_of_position [OF x] by (simp_all only: r_def q_def)
  have d: "raw_pos_to_angle s (mapped_angle s a) = ((a * 16) sdiv 5 sdiv 10 * 5 * 10) sdiv 16"
    by (simp only: raw_pos_to_angle_def mapped_angle_def add_diff_cancel_left')
  show ?thesis
  proof (cases "a < 0")
    case True
    then have "a = - x" by (simp add: x_def)
    have "(- x * 16) sdiv 5 = - q" unfolding q_def mult_minus_left by (rule sdiv_signs) (use x in simp_all)
    moreover have "(- q) sdiv 10 = - (q div 10)" by (rule sdiv_signs) (use q in simp_all)
    moreover have "(- (q div 10) * 5 * 10) sdiv 16 = - r" unfolding r_def mult_minus_left by (rule sdiv_signs) (use q in simp_all)
    ultimately have "raw_pos_to_angle s (mapped_angle s a) = - r" unfolding d unfolding \<open>a = - x\<close> by (simp only:)
    then show ?thesis using r x \<open>a = - x\<close> by linarith
  next
    case False
    then have "a = x" by (simp add: x_def)
    have "(x * 16) sdiv 5 = q" unfolding q_def by (rule sdiv_signs) (use x in simp_all)
    moreover have "q sdiv 10 = q div 10" by (rule sdiv_signs) (use q in simp_all)
    moreover have "(q div 10 * 5 * 10) sdiv 16 = r" unfolding r_def by (rule sdiv_signs) (use q in simp_all)
    ultimately have "raw_pos_to_angle s (mapped_angle s a) = r" unfolding d unfolding \<open>a = x\<close> by (simp only:)
    then show ?thesis using r x \<open>a = x\<close> by linarith
  qed
qed

text \<open>With the zero position it is built for, no angle of its range is cut.\<close>

lemma default_angles_fit:
  assumes "c = yaw_servo_config \<or> c = pitch_servo_config" "in_limit (angleLimit c) a"
    "servo_config s = c" "zero_pos s = defaultZeroPos c"
  shows "in_limit (rawPosLimit c) (mapped_angle s a)"
proof -
  have "\<bar>(a * 16) sdiv 5 sdiv 10\<bar> \<le> 272" if "\<bar>a\<bar> \<le> 850"
  proof -
    define q where "q = (\<bar>a\<bar> * 16) div 5"
    have q: "0 \<le> q" "0 \<le> q div 10" by (simp_all add: q_def pos_imp_zdiv_nonneg_iff)
    have "q \<le> 2720" using that div_bounds [of 5 "\<bar>a\<bar> * 16"] by (simp add: q_def)
    then have "q div 10 \<le> 272" using div_bounds [of 10 q] by linarith
    moreover have "(a * 16) sdiv 5 = (if a < 0 then - q else q)"
      using sdiv_signs(1) [of 5 "a * 16"] sdiv_signs(2) [of 5 "- a * 16"] by (auto simp: q_def)
    ultimately show ?thesis using q sdiv_signs [of 10 q] by simp
  qed
  then show ?thesis
    using assms by (auto simp: yaw_servo_config_def pitch_servo_config_def new_ServoConfig_t_def in_limit_def mapped_angle_def abs_le_iff)
qed

text \<open>The springs are critically damped, and no request is faster than 300.\<close>

theorem springs_critically_damped:
  "(damping (map_speed_to_spring_options v))\<^sup>2 = 4 * mass (map_speed_to_spring_options v) * stiffness (map_speed_to_spring_options v)
   \<and> 0 < damping (map_speed_to_spring_options v)
   \<and> 10 \<le> stiffness (map_speed_to_spring_options v) \<and> stiffness (map_speed_to_spring_options v) \<le> 338 / 5"
proof -
  define x :: real where "x = of_int (clampDriverSpeed v) / 1000"
  have "0 \<le> x" "x \<le> 3 / 10"
    using clampDriverSpeed_range [of v] by (simp_all add: x_def kDriverSpeedMaximum_def kSpeedMaximum_def)
  then have "0 \<le> x * x" "x * x \<le> 9 / 100" using mult_mono [of x "3/10" x "3/10"] by simp_all
  moreover from this have "0 < 10 + x * x * 640" by linarith
  ultimately show ?thesis
    by (simp add: map_speed_to_spring_options_def Let_def x_def [symmetric] power_mult_distrib)
qed

lemma fast_speeds_equal:
  "300 \<le> v \<Longrightarrow> map_speed_to_spring_options v = map_speed_to_spring_options 300"
proof -
  assume "300 \<le> v"
  then have "clampDriverSpeed v = clampDriverSpeed 300"
    by (auto simp: clampDriverSpeed_def kDriverSpeedMaximum_def kSpeedMaximum_def)
  then show ?thesis by (simp only: map_speed_to_spring_options_def)
qed

section \<open>The zero position\<close>

definition settings_ok :: "'w servo_hal \<Rightarrow> bool" where
  "settings_ok H \<longleftrightarrow> (\<forall>ns key d v w. GetInt H ns key d (hal_write H (SetInt ns key v) w) = v)"

lemma write_position_zero [simp]: "zero_pos (fst (write_position H p state)) = zero_pos (fst state)"
  by (cases state) (simp add: write_position_def check_mode_def)

lemma set_angle_zero: "zero_pos (fst (set_angle_impl K H now a state)) = zero_pos (fst state)"
proof -
  have "zero_pos (fst (snd (update_stall_protection K H now p st))) = zero_pos (fst st)" for p and st :: "('a, 'b) servo_state"
    by (cases st) (simp add: update_stall_protection_def handle_stall_def Let_def reset_stall_detection_def
        stop_motion_at_angle_def writePosition_def writeMotion_def)
  then show ?thesis
    by (cases state) (simp add: set_angle_impl_def writePosition_def writeMotion_def Let_def split: prod.split, metis fst_conv snd_conv)
qed

lemma update_zero: "zero_pos (fst (servo_update K H t state)) = zero_pos (fst state)"
  by (cases state) (simp add: servo_update_def Let_def set_angle_zero setTorqueEnabled_def)

lemma init_zero:
  "zero_pos (fst (init K H t (s, b))) =
    (let v = GetInt H (settingNs (servo_config s)) (settingZeroPositionKey (servo_config s)) (- 1) (world_of b)
     in if in_limit (rawPosLimit (servo_config s)) v then v else defaultZeroPos (servo_config s))"
proof -
  have torque: "zero_pos (fst (setTorqueEnabled H e st)) = zero_pos (fst st)" for e and st :: "('a, 'b) servo_state"
    by (cases st) (simp add: setTorqueEnabled_def)
  have base: "zero_pos (fst (base_init K H t st)) = zero_pos (fst st)" for st :: "('a, 'b) servo_state"
    by (cases st) (simp add: base_init_def Let_def torque update_zero apply_default_spring_options_def)
  show ?thesis by (simp add: init_def Let_def base get_zero_pos_from_nvs_def in_limit_def)
qed

theorem zero_survives_restart:
  assumes "settings_ok H" "is_raw_pos_valid s (ReadPos H (servo_id (servo_config s)) (world_of b))"
  shows "zero_pos (fst (init K H t (new_ScsServo locked anim (servo_config s), snd (setCurrentAngleAsZero H (s, b)))))
     = ReadPos H (servo_id (servo_config s)) (world_of b)"
  using assms by (simp add: init_zero setCurrentAngleAsZero_def store_zero_pos_def bus_write_def settings_ok_def
      is_raw_pos_valid_def in_limit_def new_ScsServo_def Let_def)

section \<open>Concrete runs\<close>

text \<open>An animation that reaches its target at once, and a world that shows a position and a load.\<close>

definition jump_toolkit :: "(int \<times> int) toolkit" where
  "jump_toolkit = \<lparr>uitk_clamp = (\<lambda>v lo hi. if v < lo then lo else if hi < v then hi else v),
     map_range = (\<lambda>v a b c d. c + ((v - a) * (d - c)) sdiv (b - a)), teleport = (\<lambda>v a. (v, v)),
     retarget = (\<lambda>v a. (fst a, v)), updateWithDelta = (\<lambda>a. (snd a, snd a)), anim_done = (\<lambda>a. fst a = snd a),
     directValue = fst, anim_end = snd, set_springs = (\<lambda>visual stiff damp a. a)\<rparr>"

record shown =
  shown_pos :: int
  shown_load :: int
  stored :: "(string \<times> string) \<Rightarrow> int option"

definition shown_hal :: "shown servo_hal" where
  "shown_hal = \<lparr>ReadPos = (\<lambda>i w. shown_pos w), ReadMove = (\<lambda>i w. 0), ReadToqueEnable = (\<lambda>i w. 1), FeedBack = (\<lambda>i w. 1),
     ReadCurrent = (\<lambda>i w. 0), ReadLoad = (\<lambda>i w. shown_load w),
     GetInt = (\<lambda>ns key d w. case stored w (ns, key) of None \<Rightarrow> d | Some v \<Rightarrow> v),
     hal_write = (\<lambda>c w. case c of SetInt ns key v \<Rightarrow> w\<lparr>stored := (stored w)((ns, key) := Some v)\<rparr> | _ \<Rightarrow> w)\<rparr>"

definition shown_at :: "int \<Rightarrow> int \<Rightarrow> shown" where
  "shown_at pos load = \<lparr>shown_pos = pos, shown_load = load, stored = (\<lambda>k. None)\<rparr>"

definition at_time :: "u32 \<Rightarrow> update_clock" where
  "at_time t = \<lparr>at_check = t, at_tick = t, at_stall = t, at_torque_check = t, at_torque_tick = t\<rparr>"

lemma jump_clamp: "clamp_ok jump_toolkit"
  by (simp add: clamp_ok_def jump_toolkit_def)

lemma positions_within_limits_witness:
  "list_all (write_safe pitch_servo_config True False)
     (written (snd (servo_run jump_toolkit shown_hal [Init (at_time 0), MoveFromBridge 5000 10, Update (at_time 50)]
        (new_ScsServo False (0, 0) pitch_servo_config, new_bus (shown_at 620 0)))))"
  by (rule positions_within_limits [OF jump_clamp])
    (simp add: config_ok_def in_limit_def pitch_servo_config_def new_ServoConfig_t_def)

lemma local_lock_keeps_still_witness:
  "\<exists>ws. written (snd (servo_run jump_toolkit shown_hal [Move 100, SetTorque True, Rotate 5, Update (at_time 300)]
        (servo_setLocalMotionLocked True (new_ScsServo False (0, 0) pitch_servo_config), new_bus (shown_at 620 0))))
     = written (new_bus (shown_at 620 0)) @ ws \<and> list_all still_write ws"
  by (rule local_lock_keeps_still)
    (simp_all add: servo_localMotionLocked_def localMotionLocked_def servo_setLocalMotionLocked_def setLocalMotionLocked_def
      at_rest_def new_ScsServo_def jump_toolkit_def)

lemma zero_survives_restart_witness:
  "zero_pos (fst (init jump_toolkit shown_hal (at_time 0) (new_ScsServo False (0, 0) pitch_servo_config,
      snd (setCurrentAngleAsZero shown_hal (new_ScsServo False (0, 0) pitch_servo_config, new_bus (shown_at 640 0)))))) = 640"
  using zero_survives_restart [of shown_hal "new_ScsServo False (0, 0) pitch_servo_config" "new_bus (shown_at 640 0)"
      jump_toolkit "at_time 0" False "(0, 0)"]
  by (simp add: settings_ok_def shown_hal_def is_raw_pos_valid_def new_ScsServo_def pitch_servo_config_def
      new_ServoConfig_t_def new_bus_def shown_at_def)

text \<open>The pitch servo stalls at 700 on its way up, and at 760 on its way down (the head was lifted in between):
  the lower limit is then above the upper one.\<close>

definition stall_up_and_down :: "shown servo_op list" where
  "stall_up_and_down =
    [World (shown_at 700 700), MoveWithSpringParams 850 0 0, Update (at_time 50), Update (at_time 100),
     MoveWithSpringParams 850 0 0, Update (at_time 150),
     World (shown_at 760 700), MoveWithSpringParams 50 0 0, Update (at_time 200), Update (at_time 250),
     MoveWithSpringParams 50 0 0, Update (at_time 300)]"

definition pitch_at_start :: "(int \<times> int) ScsServo" where
  "pitch_at_start = reset_runtime_limits ((new_ScsServo False (0, 0) pitch_servo_config)\<lparr>zero_pos := 620\<rparr>)"


end
