(* ===== verification/Motion.thy ===== *)
theory Motion
  imports Servo_Safety
begin

text \<open>
  The head: \<open>stackchan/motion/motion.cpp\<close> with \<open>motion.h\<close> and \<open>motion_math.cpp\<close>, and the start of the
  two servos in \<open>Hal::servo_init\<close>.  Both servos write to the same bus.  Numbers of \<open>motion_math.cpp\<close> are
  exact (no rounding of \<open>float\<close>), and the inverse kinematics of a point (\<open>atan2\<close>, \<open>sqrt\<close>) is a parameter.
\<close>

record 'a Motion =
  yaw_servo :: "'a ScsServo"
  pitch_servo :: "'a ScsServo"
  is_modify_locked :: bool

type_synonym ('a, 'w) motion_state = "'a Motion \<times> 'w servo_bus"

definition on_yaw :: "(('a, 'w) servo_state \<Rightarrow> ('a, 'w) servo_state) \<Rightarrow> ('a, 'w) motion_state \<Rightarrow> ('a, 'w) motion_state" where
  "on_yaw f = (\<lambda>(m, b). let (s, b) = f (yaw_servo m, b) in (m\<lparr>yaw_servo := s\<rparr>, b))"

definition on_pitch :: "(('a, 'w) servo_state \<Rightarrow> ('a, 'w) servo_state) \<Rightarrow> ('a, 'w) motion_state \<Rightarrow> ('a, 'w) motion_state" where
  "on_pitch f = (\<lambda>(m, b). let (s, b) = f (pitch_servo m, b) in (m\<lparr>pitch_servo := s\<rparr>, b))"

definition on_servo :: "('a ScsServo \<Rightarrow> 'a ScsServo) \<Rightarrow> ('a, 'w) servo_state \<Rightarrow> ('a, 'w) servo_state" where
  "on_servo f = (\<lambda>(s, b). (f s, b))"

section \<open>motion\_math.cpp\<close>

record MotionAngles =
  motion_yaw :: int
  motion_pitch :: int

definition clampNormalized :: "rat \<Rightarrow> rat" where
  "clampNormalized v = (if v < - 1 then - 1 else if 1 < v then 1 else v)"

definition mapRange :: "rat \<Rightarrow> rat \<Rightarrow> rat \<Rightarrow> rat \<Rightarrow> rat \<Rightarrow> rat" where
  "mapRange v inMin inMax outMin outMax =
    (if inMax = inMin then outMin
     else let ratio = (v - inMin) / (inMax - inMin) in outMin + ratio * (outMax - outMin))"

text \<open>The conversion to \<open>int\<close> drops the fraction.\<close>

definition int_cast :: "rat \<Rightarrow> int" where
  "int_cast x = (if x < 0 then - \<lfloor>- x\<rfloor> else \<lfloor>x\<rfloor>)"

definition mapNormalizedValueToAngle :: "rat \<Rightarrow> int \<Rightarrow> int \<Rightarrow> int" where
  "mapNormalizedValueToAngle v lo hi = int_cast (mapRange (clampNormalized v) (- 1) 1 (of_int lo) (of_int hi))"

definition calculateNormalizedLookAngles :: "rat \<Rightarrow> rat \<Rightarrow> int \<Rightarrow> int \<Rightarrow> int \<Rightarrow> int \<Rightarrow> MotionAngles" where
  "calculateNormalizedLookAngles x y yawMin yawMax pitchMin pitchMax =
    \<lparr>motion_yaw = mapNormalizedValueToAngle x yawMin yawMax, motion_pitch = mapNormalizedValueToAngle y pitchMin pitchMax\<rparr>"

section \<open>motion.cpp\<close>

definition motion_init ::
  "'a toolkit \<Rightarrow> 'w servo_hal \<Rightarrow> update_clock \<Rightarrow> update_clock \<Rightarrow> ('a, 'w) motion_state \<Rightarrow> ('a, 'w) motion_state" where
  "motion_init K H t1 t2 m = on_pitch (init K H t2) (on_yaw (init K H t1) m)"

definition motion_update ::
  "'a toolkit \<Rightarrow> 'w servo_hal \<Rightarrow> update_clock \<Rightarrow> update_clock \<Rightarrow> ('a, 'w) motion_state \<Rightarrow> ('a, 'w) motion_state" where
  "motion_update K H t1 t2 m = on_pitch (servo_update K H t2) (on_yaw (servo_update K H t1) m)"

definition moveYaw :: "'a toolkit \<Rightarrow> 'w servo_hal \<Rightarrow> int \<Rightarrow> ('a, 'w) motion_state \<Rightarrow> ('a, 'w) motion_state" where
  "moveYaw K H angle = on_yaw (move K H angle)"

definition moveYawWithSpeed :: "'a toolkit \<Rightarrow> 'w servo_hal \<Rightarrow> int \<Rightarrow> int \<Rightarrow> ('a, 'w) motion_state \<Rightarrow> ('a, 'w) motion_state" where
  "moveYawWithSpeed K H angle speed = on_yaw (moveWithSpeed K H angle speed)"

definition movePitch :: "'a toolkit \<Rightarrow> 'w servo_hal \<Rightarrow> int \<Rightarrow> ('a, 'w) motion_state \<Rightarrow> ('a, 'w) motion_state" where
  "movePitch K H angle = on_pitch (move K H angle)"

definition movePitchWithSpeed :: "'a toolkit \<Rightarrow> 'w servo_hal \<Rightarrow> int \<Rightarrow> int \<Rightarrow> ('a, 'w) motion_state \<Rightarrow> ('a, 'w) motion_state" where
  "movePitchWithSpeed K H angle speed = on_pitch (moveWithSpeed K H angle speed)"

definition motion_move :: "'a toolkit \<Rightarrow> 'w servo_hal \<Rightarrow> int \<Rightarrow> int \<Rightarrow> ('a, 'w) motion_state \<Rightarrow> ('a, 'w) motion_state" where
  "motion_move K H yawAngle pitchAngle m = on_pitch (move K H pitchAngle) (on_yaw (move K H yawAngle) m)"

definition motion_moveWithSpeed ::
  "'a toolkit \<Rightarrow> 'w servo_hal \<Rightarrow> int \<Rightarrow> int \<Rightarrow> int \<Rightarrow> ('a, 'w) motion_state \<Rightarrow> ('a, 'w) motion_state" where
  "motion_moveWithSpeed K H yawAngle pitchAngle speed m =
    on_pitch (moveWithSpeed K H pitchAngle speed) (on_yaw (moveWithSpeed K H yawAngle speed) m)"

definition motion_moveFromAuthenticatedBridgeWithSpeed ::
  "'a toolkit \<Rightarrow> 'w servo_hal \<Rightarrow> int \<Rightarrow> int \<Rightarrow> int \<Rightarrow> ('a, 'w) motion_state \<Rightarrow> ('a, 'w) motion_state" where
  "motion_moveFromAuthenticatedBridgeWithSpeed K H yawAngle pitchAngle speed m =
    on_pitch (moveFromAuthenticatedBridgeWithSpeed K H pitchAngle speed)
      (on_yaw (moveFromAuthenticatedBridgeWithSpeed K H yawAngle speed) m)"

definition goHome :: "'a toolkit \<Rightarrow> 'w servo_hal \<Rightarrow> int \<Rightarrow> ('a, 'w) motion_state \<Rightarrow> ('a, 'w) motion_state" where
  "goHome K H speed m = on_pitch (moveWithSpeed K H 0 speed) (on_yaw (moveWithSpeed K H 0 speed) m)"

definition hold_servo :: "'a toolkit \<Rightarrow> 'w servo_hal \<Rightarrow> ('a, 'w) servo_state \<Rightarrow> ('a, 'w) servo_state" where
  "hold_servo K H = (\<lambda>(s, b). move K H (getCurrentAngle K H s (world_of b)) (s, b))"

definition motion_stop :: "'a toolkit \<Rightarrow> 'w servo_hal \<Rightarrow> ('a, 'w) motion_state \<Rightarrow> ('a, 'w) motion_state" where
  "motion_stop K H m = on_pitch (hold_servo K H) (on_yaw (hold_servo K H) m)"

definition lookAtNormalized ::
  "'a toolkit \<Rightarrow> 'w servo_hal \<Rightarrow> rat \<Rightarrow> rat \<Rightarrow> int \<Rightarrow> ('a, 'w) motion_state \<Rightarrow> ('a, 'w) motion_state" where
  "lookAtNormalized K H x y speed m =
    (let yaw_limit = angle_limit (yaw_servo (fst m)); pitch_limit = angle_limit (pitch_servo (fst m));
         angles = calculateNormalizedLookAngles x y (vec_x yaw_limit) (vec_y yaw_limit) (vec_x pitch_limit) (vec_y pitch_limit)
     in motion_moveWithSpeed K H (motion_yaw angles) (motion_pitch angles) speed m)"

text \<open>\<open>look\<close> stands for \<open>calculatePointLookAngles\<close>.\<close>

definition lookAtPoint ::
  "'a toolkit \<Rightarrow> 'w servo_hal \<Rightarrow> ('p \<Rightarrow> 'p \<Rightarrow> 'p \<Rightarrow> MotionAngles) \<Rightarrow> 'p \<Rightarrow> 'p \<Rightarrow> 'p \<Rightarrow> int \<Rightarrow> ('a, 'w) motion_state \<Rightarrow> ('a, 'w) motion_state" where
  "lookAtPoint K H look x y z speed m =
    (let angles = look x y z in motion_moveWithSpeed K H (motion_yaw angles) (motion_pitch angles) speed m)"

definition motion_isMoving :: "'a toolkit \<Rightarrow> 'w servo_hal \<Rightarrow> 'a Motion \<Rightarrow> 'w \<Rightarrow> bool" where
  "motion_isMoving K H m w \<longleftrightarrow> isMoving K H (yaw_servo m) w \<or> isMoving K H (pitch_servo m) w"

definition getCurrentAngles :: "'a toolkit \<Rightarrow> 'w servo_hal \<Rightarrow> 'a Motion \<Rightarrow> 'w \<Rightarrow> Vector2i" where
  "getCurrentAngles K H m w = \<lparr>vec_x = getCurrentAngle K H (yaw_servo m) w, vec_y = getCurrentAngle K H (pitch_servo m) w\<rparr>"

definition motion_setTorqueEnabled :: "'w servo_hal \<Rightarrow> bool \<Rightarrow> ('a, 'w) motion_state \<Rightarrow> ('a, 'w) motion_state" where
  "motion_setTorqueEnabled H e m = on_pitch (setTorqueEnabled H e) (on_yaw (setTorqueEnabled H e) m)"

definition on_both :: "('a ScsServo \<Rightarrow> 'a ScsServo) \<Rightarrow> ('a, 'w) motion_state \<Rightarrow> ('a, 'w) motion_state" where
  "on_both f m = on_pitch (on_servo f) (on_yaw (on_servo f) m)"

definition motion_setAutoTorqueReleaseEnabled :: "bool \<Rightarrow> ('a, 'w) motion_state \<Rightarrow> ('a, 'w) motion_state" where
  "motion_setAutoTorqueReleaseEnabled e = on_both (setAutoTorqueReleaseEnabled e)"

definition motion_setAutoAngleSyncEnabled :: "bool \<Rightarrow> ('a, 'w) motion_state \<Rightarrow> ('a, 'w) motion_state" where
  "motion_setAutoAngleSyncEnabled e = on_both (setAutoAngleSyncEnabled e)"

definition motion_setLocalMotionLocked :: "bool \<Rightarrow> ('a, 'w) motion_state \<Rightarrow> ('a, 'w) motion_state" where
  "motion_setLocalMotionLocked locked = on_both (servo_setLocalMotionLocked locked)"

definition setModifyLock :: "bool \<Rightarrow> 'a Motion \<Rightarrow> 'a Motion" where
  "setModifyLock locked m = m\<lparr>is_modify_locked := locked\<rparr>"

text \<open>\<open>Hal::servo_init\<close>: the two locks are build options.\<close>

definition new_Motion :: "bool \<Rightarrow> 'a \<Rightarrow> 'a Motion" where
  "new_Motion head_motion_locked anim =
    \<lparr>yaw_servo = new_ScsServo head_motion_locked anim yaw_servo_config,
     pitch_servo = new_ScsServo head_motion_locked anim pitch_servo_config, is_modify_locked = False\<rparr>"

definition servo_init ::
  "'a toolkit \<Rightarrow> 'w servo_hal \<Rightarrow> bool \<Rightarrow> bool \<Rightarrow> 'a \<Rightarrow> update_clock \<Rightarrow> update_clock \<Rightarrow> 'w servo_bus \<Rightarrow> ('a, 'w) motion_state" where
  "servo_init K H head_motion_locked local_motion_locked anim t1 t2 b =
    (let m = (new_Motion head_motion_locked anim, b);
         m = (if local_motion_locked then motion_setLocalMotionLocked True m else m)
     in motion_init K H t1 t2 m)"

section \<open>Runs of the head\<close>

text \<open>\<open>YawOp\<close> and \<open>PitchOp\<close> are operations on one servo, through \<open>yawServo()\<close> and \<open>pitchServo()\<close>.\<close>

datatype 'w head_op = HeadUpdate update_clock update_clock | MoveHead int int | MoveHeadWithSpeed int int int
  | MoveHeadFromBridge int int int | GoHome int | StopHead | LookAtNormalized rat rat int | LookAtPoint int int int
  | HeadTorque bool | HeadAutoTorqueRelease bool | HeadAutoAngleSync bool | HeadLocalLock bool | HeadModifyLock bool
  | YawOp "'w servo_op" | PitchOp "'w servo_op"

primrec head_step :: "'a toolkit \<Rightarrow> 'w servo_hal \<Rightarrow> (int \<Rightarrow> int \<Rightarrow> int \<Rightarrow> MotionAngles) \<Rightarrow> 'w head_op \<Rightarrow> ('a, 'w) motion_state \<Rightarrow> ('a, 'w) motion_state" where
  "head_step K H look (HeadUpdate t1 t2) = motion_update K H t1 t2"
| "head_step K H look (MoveHead y p) = motion_move K H y p"
| "head_step K H look (MoveHeadWithSpeed y p v) = motion_moveWithSpeed K H y p v"
| "head_step K H look (MoveHeadFromBridge y p v) = motion_moveFromAuthenticatedBridgeWithSpeed K H y p v"
| "head_step K H look (GoHome v) = goHome K H v"
| "head_step K H look StopHead = motion_stop K H"
| "head_step K H look (LookAtNormalized x y v) = lookAtNormalized K H x y v"
| "head_step K H look (LookAtPoint x y z) = lookAtPoint K H look x y z 500"
| "head_step K H look (HeadTorque e) = motion_setTorqueEnabled H e"
| "head_step K H look (HeadAutoTorqueRelease e) = motion_setAutoTorqueReleaseEnabled e"
| "head_step K H look (HeadAutoAngleSync e) = motion_setAutoAngleSyncEnabled e"
| "head_step K H look (HeadLocalLock locked) = motion_setLocalMotionLocked locked"
| "head_step K H look (HeadModifyLock locked) = (\<lambda>(m, b). (setModifyLock locked m, b))"
| "head_step K H look (YawOp op) = on_yaw (servo_step K H op)"
| "head_step K H look (PitchOp op) = on_pitch (servo_step K H op)"

definition head_safe :: "bool \<Rightarrow> bool \<Rightarrow> ServoWrite \<Rightarrow> bool" where
  "head_safe ranged locked wr \<longleftrightarrow>
     write_safe yaw_servo_config ranged locked wr \<or> write_safe pitch_servo_config ranged locked wr"

definition head_ok :: "bool \<Rightarrow> bool \<Rightarrow> ('a, 'w) motion_state \<Rightarrow> bool" where
  "head_ok ranged locked = (\<lambda>(m, b).
     servo_ok yaw_servo_config (write_safe pitch_servo_config ranged locked) ranged locked (yaw_servo m, b)
     \<and> servo_ok pitch_servo_config (write_safe yaw_servo_config ranged locked) ranged locked (pitch_servo m, b))"

lemma configs_ok: "config_ok yaw_servo_config" "config_ok pitch_servo_config"
  by (simp_all add: config_ok_def in_limit_def yaw_servo_config_def pitch_servo_config_def new_ServoConfig_t_def)

lemma head_ok_written: "head_ok ranged locked (m, b) \<Longrightarrow> list_all (head_safe ranged locked) (written b)"
  by (simp add: head_ok_def servo_ok_def head_safe_def [abs_def])

lemma servo_ok_log:
  "servo_ok c E ranged locked (s, b) \<Longrightarrow> list_all (\<lambda>wr. write_safe c ranged locked wr \<or> E wr) (written b')
    \<Longrightarrow> servo_ok c E ranged locked (s, b')"
  by (simp add: servo_ok_def)

lemma head_ok_yaw:
  assumes "head_ok ranged locked m"
    and "\<And>st. servo_ok yaw_servo_config (write_safe pitch_servo_config ranged locked) ranged locked st
      \<Longrightarrow> servo_ok yaw_servo_config (write_safe pitch_servo_config ranged locked) ranged locked (f st)"
  shows "head_ok ranged locked (on_yaw f m)"
proof (cases m)
  case (Pair n b)
  let ?E = "write_safe pitch_servo_config ranged locked" and ?F = "write_safe yaw_servo_config ranged locked"
  obtain s b' where f: "f (yaw_servo n, b) = (s, b')" by force
  have h: "servo_ok yaw_servo_config ?E ranged locked (yaw_servo n, b)" "servo_ok pitch_servo_config ?F ranged locked (pitch_servo n, b)"
    using assms(1) by (simp_all add: Pair head_ok_def)
  have y: "servo_ok yaw_servo_config ?E ranged locked (s, b')" using assms(2) [OF h(1)] by (simp only: f)
  then have "list_all (\<lambda>wr. ?E wr \<or> ?F wr) (written b')" by (simp add: servo_ok_def list_all_iff disj_commute)
  with h(2) have "servo_ok pitch_servo_config ?F ranged locked (pitch_servo n, b')" by (rule servo_ok_log)
  with y show ?thesis by (simp add: head_ok_def on_yaw_def Pair f)
qed

lemma head_ok_pitch:
  assumes "head_ok ranged locked m"
    and "\<And>st. servo_ok pitch_servo_config (write_safe yaw_servo_config ranged locked) ranged locked st
      \<Longrightarrow> servo_ok pitch_servo_config (write_safe yaw_servo_config ranged locked) ranged locked (f st)"
  shows "head_ok ranged locked (on_pitch f m)"
proof (cases m)
  case (Pair n b)
  let ?E = "write_safe yaw_servo_config ranged locked" and ?F = "write_safe pitch_servo_config ranged locked"
  obtain s b' where f: "f (pitch_servo n, b) = (s, b')" by force
  have h: "servo_ok pitch_servo_config ?E ranged locked (pitch_servo n, b)" "servo_ok yaw_servo_config ?F ranged locked (yaw_servo n, b)"
    using assms(1) by (simp_all add: Pair head_ok_def)
  have y: "servo_ok pitch_servo_config ?E ranged locked (s, b')" using assms(2) [OF h(1)] by (simp only: f)
  then have "list_all (\<lambda>wr. ?E wr \<or> ?F wr) (written b')" by (simp add: servo_ok_def list_all_iff disj_commute)
  with h(2) have "servo_ok yaw_servo_config ?F ranged locked (yaw_servo n, b')" by (rule servo_ok_log)
  with y show ?thesis by (simp add: head_ok_def on_pitch_def Pair f)
qed

text \<open>Every operation of the head is made of operations of the servos.\<close>

lemma servo_parts:
  "move K H angle = servo_step K H (Move angle)"
  "moveWithSpeed K H angle speed = servo_step K H (MoveWithSpeed angle speed)"
  "moveFromAuthenticatedBridgeWithSpeed K H angle speed = servo_step K H (MoveFromBridge angle speed)"
  "servo_update K H t = servo_step K H (Update t)" "init K H t = servo_step K H (Init t)"
  "setTorqueEnabled H e = servo_step K H (SetTorque e)"
  "on_servo (setAutoTorqueReleaseEnabled e) = servo_step K H (SetAutoTorqueRelease e)"
  "on_servo (setAutoAngleSyncEnabled e) = servo_step K H (SetAutoAngleSync e)"
  "on_servo (servo_setLocalMotionLocked locked) = servo_step K H (LockLocalMotion locked)"
  by (simp_all add: on_servo_def)

locale head_safety =
  fixes K :: "'a toolkit" and H :: "'w servo_hal" and ranged locked :: bool
  assumes head_ranged: "ranged \<Longrightarrow> clamp_ok K"
begin

end

sublocale head_safety \<subseteq> yaw: servo_safety K H yaw_servo_config "write_safe pitch_servo_config ranged locked" ranged locked
  by unfold_locales (simp add: head_ranged configs_ok)

sublocale head_safety \<subseteq> pitch: servo_safety K H pitch_servo_config "write_safe yaw_servo_config ranged locked" ranged locked
  by unfold_locales (simp add: head_ranged configs_ok)

context head_safety
begin

lemmas parts = servo_parts [where K = K and H = H]

lemma yaw_step: "head_ok ranged locked m \<Longrightarrow> head_ok ranged locked (on_yaw (servo_step K H op) m)"
  by (erule head_ok_yaw) (rule yaw.ok_step)

lemma pitch_step: "head_ok ranged locked m \<Longrightarrow> head_ok ranged locked (on_pitch (servo_step K H op) m)"
  by (erule head_ok_pitch) (rule pitch.ok_step)

lemma hold_step: "\<exists>op. hold_servo K H st = servo_step K H op st"
proof (cases st)
  case (Pair s b)
  have "hold_servo K H st = servo_step K H (Move (getCurrentAngle K H s (world_of b))) st"
    by (simp only: hold_servo_def Pair case_prod_conv servo_step.simps)
  then show ?thesis by blast
qed

lemma stop_ok: "head_ok ranged locked m \<Longrightarrow> head_ok ranged locked (motion_stop K H m)"
  unfolding motion_stop_def
  by (intro head_ok_pitch head_ok_yaw) (assumption, metis hold_step yaw.ok_step, metis hold_step pitch.ok_step)

lemma head_step_ok: "head_ok ranged locked m \<Longrightarrow> head_ok ranged locked (head_step K H look op m)"
proof (cases op)
  case (HeadModifyLock l)
  assume "head_ok ranged locked m"
  with HeadModifyLock show ?thesis by (cases m) (simp add: head_ok_def setModifyLock_def)
qed (simp_all add: motion_update_def motion_move_def motion_moveWithSpeed_def motion_moveFromAuthenticatedBridgeWithSpeed_def
    goHome_def stop_ok lookAtNormalized_def lookAtPoint_def motion_setTorqueEnabled_def motion_setAutoTorqueReleaseEnabled_def
    motion_setAutoAngleSyncEnabled_def motion_setLocalMotionLocked_def on_both_def Let_def parts yaw_step pitch_step
    del: servo_step.simps)

lemma head_run_ok: "head_ok ranged locked m \<Longrightarrow> head_ok ranged locked (fold (head_step K H look) ops m)"
  by (induction ops arbitrary: m) (simp_all add: head_step_ok)

lemma head_init_ok: "head_ok ranged locked (servo_init K H locked local anim t1 t2 (new_bus w))"
proof -
  have "head_ok ranged locked (new_Motion locked anim, new_bus w)"
    using new_servo_ok [of ranged yaw_servo_config _ locked anim w] new_servo_ok [of ranged pitch_servo_config _ locked anim w]
    by (simp add: head_ok_def new_Motion_def configs_ok)
  then show ?thesis
    by (simp add: servo_init_def motion_init_def motion_setLocalMotionLocked_def on_both_def parts yaw_step pitch_step Let_def
        del: servo_step.simps)
qed

end

interpretation ranged_head: head_safety K H "clamp_ok K" locked for K :: "'a toolkit" and H :: "'w servo_hal" and locked
  by unfold_locales

interpretation locked_head: head_safety K H False True for K :: "'a toolkit" and H :: "'w servo_hal"
  by unfold_locales blast

theorem head_positions_safe:
  assumes "clamp_ok K"
  shows "list_all (head_safe True locked)
     (written (snd (fold (head_step K H look) ops (servo_init K H locked local anim t1 t2 (new_bus w)))))"
    (is "list_all _ (written (snd ?m))")
  using head_ok_written [of True locked "fst ?m" "snd ?m"]
    ranged_head.head_run_ok [OF ranged_head.head_init_ok, where K = K and H = H and locked = locked] assms by simp

section \<open>Where the head looks\<close>

lemma mapNormalized_in_range:
  assumes "lo \<le> hi"
  shows "lo \<le> mapNormalizedValueToAngle v lo hi \<and> mapNormalizedValueToAngle v lo hi \<le> hi"
proof -
  define r where "r = (clampNormalized v + 1) / 2"
  have r: "0 \<le> r" "r \<le> 1" by (simp_all add: r_def clampNormalized_def)
  define x where "x = (of_int lo :: rat) + r * (of_int hi - of_int lo)"
  have "0 \<le> r * (of_int hi - of_int lo :: rat)" "r * (of_int hi - of_int lo :: rat) \<le> of_int hi - of_int lo"
    using r assms mult_left_le_one_le [of "of_int hi - of_int lo :: rat" r] by simp_all
  then have x: "of_int lo \<le> x" "x \<le> of_int hi" by (simp_all add: x_def)
  have m: "mapNormalizedValueToAngle v lo hi = int_cast x"
    by (simp add: mapNormalizedValueToAngle_def mapRange_def Let_def x_def r_def)
  show ?thesis
  proof (cases "x < 0")
    case True
    then have "- hi \<le> \<lfloor>- x\<rfloor>" "\<lfloor>- x\<rfloor> \<le> - lo" using x by (simp_all add: le_floor_iff floor_le_iff)
    with True show ?thesis by (simp add: m int_cast_def)
  next
    case False
    then have "lo \<le> \<lfloor>x\<rfloor>" "\<lfloor>x\<rfloor> \<le> hi" using x by (simp_all add: le_floor_iff floor_le_iff)
    with False show ?thesis by (simp add: m int_cast_def)
  qed
qed

lemma mapNormalized_ends:
  "mapNormalizedValueToAngle (- 1) lo hi = lo" "mapNormalizedValueToAngle 1 lo hi = hi"
  by (simp_all add: mapNormalizedValueToAngle_def mapRange_def clampNormalized_def int_cast_def Let_def)

end
