(* ===== verification/Device_Target.thy ===== *)
theory Device_Target
  imports Command_Executor State_Machine Motion
begin

text \<open>
  \<open>hal/stackchan_bridge_command_target.cpp\<close>: \<open>OfficialDeviceCommandTarget\<close>, the device that the command
  executor drives.  Its state holds the fields of the class, the head with the servo bus, and a log of
  the calls to the display, the LEDs, the settings and the callbacks.  What the board answers is the
  parameter \<open>board\<close>; it may differ from call to call.  Products and quotients of doubles are exact.

  The contract \<open>guarded_target\<close> of the executor is interpreted on this device, so that every command
  keeps the safety of the head.
\<close>

record board =
  has_audio_codec :: bool
  has_display :: bool
  is_avatar_display :: bool
  setup_ui_called :: bool
  has_avatar :: bool
  blink_accepted :: bool
  millis :: u32
  device_setting :: "string \<Rightarrow> string \<Rightarrow> string"
  board_uuid :: string
  app_version :: string
  battery_level :: int
  speaker_volume :: int
  backlight_brightness :: int
  wifi_is_connected :: bool
  wifi_rssi :: int
  cancel_capture_result :: bool
  start_capture_result :: CommandTargetResult

datatype device_call = ShowNotification string int | SetEmotion string | SetStatus string | ClearChatMessages
  | SetupUI | SetBlinkEnabled bool | SetSpeakerVolume u8 | StoreVolume int | SetBackLight u8
  | SetRgbColor u8 u8 u8 u8 | RefreshRgb | ShowRgbColor u8 u8 u8
  | CancelSpeechCallback | CancelCaptureCallback string | StartCaptureCallback string int int

record ('a, 'w) target =
  target_head :: "('a, 'w) motion_state"
  target_leds :: int
  cancelSpeechCallback :: bool
  cancelCaptureCallback :: bool
  startCaptureCallback :: bool
  textExpiresAtMs :: u32
  textPriority :: int
  textVisible :: bool
  bridgeState :: DeviceState
  notificationDirty :: bool
  presentationDirty :: bool
  device_log :: "device_call list"

definition new_target :: "int \<Rightarrow> ('a, 'w) motion_state \<Rightarrow> ('a, 'w) target" where
  "new_target leds head = \<lparr>target_head = head, target_leds = leds, cancelSpeechCallback = False, cancelCaptureCallback = False,
     startCaptureCallback = False, textExpiresAtMs = 0, textPriority = - 1, textVisible = False, bridgeState = Booting,
     notificationDirty = True, presentationDirty = True, device_log = []\<rparr>"

definition calls :: "device_call list \<Rightarrow> ('a, 'w) target \<Rightarrow> ('a, 'w) target" where
  "calls cs d = d\<lparr>device_log := device_log d @ cs\<rparr>"

text \<open>The languages' texts are parameters of the build.\<close>

definition officialEmotion :: "string \<Rightarrow> string" where
  "officialEmotion expr =
    (if expr = ''happy'' then ''happy'' else if expr = ''thinking'' then ''doubtful'' else if expr = ''sad'' then ''sad''
     else if expr = ''surprised'' then ''doubtful'' else ''neutral'')"

definition setCancelSpeechCallback :: "bool \<Rightarrow> ('a, 'w) target \<Rightarrow> ('a, 'w) target" where
  "setCancelSpeechCallback bound d = d\<lparr>cancelSpeechCallback := bound\<rparr>"

definition setStartCaptureCallback :: "bool \<Rightarrow> ('a, 'w) target \<Rightarrow> ('a, 'w) target" where
  "setStartCaptureCallback bound d = d\<lparr>startCaptureCallback := bound\<rparr>"

definition applyBridgeState :: "DeviceState \<Rightarrow> ('a, 'w) target \<Rightarrow> ('a, 'w) target" where
  "applyBridgeState state d = d\<lparr>bridgeState := state, notificationDirty := True, presentationDirty := True\<rparr>"

definition state_notification :: "DeviceState \<Rightarrow> device_call list" where
  "state_notification state =
    (case state of Idle \<Rightarrow> [ShowNotification ''Bridge connected'' 1600]
     | ConnectingBridge \<Rightarrow> [ShowNotification ''Connecting Bridge'' 3000] | _ \<Rightarrow> [])"

text \<open>\<open>STANDBY\<close>, \<open>LISTENING\<close> and \<open>SPEAKING\<close> are texts of the language that is built in.\<close>

definition state_presentation :: "(string \<Rightarrow> string) \<Rightarrow> DeviceState \<Rightarrow> device_call list" where
  "state_presentation lang state =
    (case state of
       Idle \<Rightarrow> [SetEmotion ''neutral'', SetStatus (lang ''STANDBY'')]
     | Listening \<Rightarrow> [SetEmotion ''doubtful'', SetStatus (lang ''LISTENING'')]
     | Speaking \<Rightarrow> [SetStatus (lang ''SPEAKING'')]
     | DeviceState.Error \<Rightarrow> [SetEmotion ''sad'', SetStatus ''Bridge error'']
     | Booting \<Rightarrow> [SetStatus ''Starting Bridge client'']
     | ConnectingWifi \<Rightarrow> [SetStatus ''Connecting Wi-Fi'']
     | ConnectingBridge \<Rightarrow> [SetEmotion ''neutral'', SetStatus ''Connecting Bridge'']
     | Updating \<Rightarrow> [SetStatus ''Updating''])"

text \<open>The test \<open>static_cast<std::int32_t>(nowMs - textExpiresAtMs_) < 0\<close>.\<close>

definition text_pending :: "u32 \<Rightarrow> ('a, 'w) target \<Rightarrow> bool" where
  "text_pending nowMs d \<longleftrightarrow> sint (nowMs - textExpiresAtMs d) < 0"

definition target_update :: "(string \<Rightarrow> string) \<Rightarrow> board \<Rightarrow> u32 \<Rightarrow> ('a, 'w) target \<Rightarrow> ('a, 'w) target" where
  "target_update lang B nowMs d =
    (let d = (if has_display B \<and> notificationDirty d
              then calls (state_notification (bridgeState d)) (d\<lparr>notificationDirty := False\<rparr>) else d);
         d = (if has_display B \<and> setup_ui_called B \<and> presentationDirty d
              then calls (state_presentation lang (bridgeState d)) (d\<lparr>presentationDirty := False\<rparr>) else d)
     in if \<not> textVisible d \<or> text_pending nowMs d then d
        else (if has_display B then calls [ClearChatMessages] d else d)\<lparr>textVisible := False, textPriority := - 1\<rparr>)"

definition target_getInfo :: "board \<Rightarrow> ('a, 'w) target \<Rightarrow> DeviceInfo" where
  "target_getInfo B d = \<lparr>info_deviceId = device_setting B ''id'' (board_uuid B),
     info_deviceName = device_setting B ''name'' ''StackChan'', info_firmwareVersion = app_version B,
     info_hardwareModel = ''M5STACK-K151''\<rparr>"

definition target_getStatus :: "board \<Rightarrow> ('a, 'w) target \<Rightarrow> DeviceStatus" where
  "target_getStatus B d =
    (let info = target_getInfo B d
     in \<lparr>status_deviceId = info_deviceId info, status_firmwareVersion = info_firmwareVersion info,
         status_hardwareModel = info_hardwareModel info, status_state = deviceStateName (bridgeState d),
         batteryPercent = battery_level B, status_volume = speaker_volume B, status_brightness = backlight_brightness B,
         wifiRssiDbm = (if wifi_is_connected B then wifi_rssi B else - 127)\<rparr>)"

definition target_setVolume :: "board \<Rightarrow> int \<Rightarrow> ('a, 'w) target \<Rightarrow> bool \<times> ('a, 'w) target" where
  "target_setVolume B v d =
    (if \<not> has_audio_codec B then (False, d) else (True, calls [SetSpeakerVolume (of_int v), StoreVolume v] d))"

definition target_setBrightness :: "board \<Rightarrow> int \<Rightarrow> ('a, 'w) target \<Rightarrow> bool \<times> ('a, 'w) target" where
  "target_setBrightness B v d = (if \<not> has_display B then (False, d) else (True, calls [SetBackLight (of_int v)] d))"

definition official_showText :: "board \<Rightarrow> string \<Rightarrow> int \<Rightarrow> int \<Rightarrow> ('a, 'w) target \<Rightarrow> bool \<times> ('a, 'w) target" where
  "official_showText B text duration prio d =
    (if \<not> has_display B then (False, d)
     else let nowMs = millis B
       in if textVisible d \<and> text_pending nowMs d \<and> prio < textPriority d then (False, d)
          else (True, (calls [ShowNotification (c_str text) duration] d)
                  \<lparr>textExpiresAtMs := nowMs + of_int duration, textPriority := prio, textVisible := True\<rparr>))"

text \<open>\<open>has_avatar\<close> is what \<open>hasAvatar\<close> answers after \<open>SetupUI\<close>.\<close>

definition target_setExpression :: "board \<Rightarrow> string \<Rightarrow> ('a, 'w) target \<Rightarrow> bool \<times> ('a, 'w) target" where
  "target_setExpression B expr d =
    (if \<not> (has_display B \<and> is_avatar_display B) then (False, d)
     else let d = (if \<not> setup_ui_called B then calls [SetupUI] d else d)
       in if \<not> has_avatar B then (False, d)
          else (True, calls [SetEmotion (officialEmotion expr)] (d\<lparr>presentationDirty := False\<rparr>)))"

definition target_setBlink :: "board \<Rightarrow> bool \<Rightarrow> ('a, 'w) target \<Rightarrow> bool \<times> ('a, 'w) target" where
  "target_setBlink B e d =
    (if has_display B \<and> is_avatar_display B then (blink_accepted B, calls [SetBlinkEnabled e] d) else (False, d))"

definition target_setLed :: "int \<Rightarrow> int \<Rightarrow> int \<Rightarrow> int \<Rightarrow> ('a, 'w) target \<Rightarrow> bool \<times> ('a, 'w) target" where
  "target_setLed i r g b d =
    (if i < 0 \<or> i \<ge> target_leds d then (False, d)
     else (True, calls [SetRgbColor (of_int i) (of_int r) (of_int g) (of_int b), RefreshRgb] d))"

definition target_setAllLeds :: "int \<Rightarrow> int \<Rightarrow> int \<Rightarrow> ('a, 'w) target \<Rightarrow> bool \<times> ('a, 'w) target" where
  "target_setAllLeds r g b d =
    (if target_leds d \<le> 0 then (False, d) else (True, calls [ShowRgbColor (of_int r) (of_int g) (of_int b)] d))"

definition target_clearLeds :: "('a, 'w) target \<Rightarrow> bool \<times> ('a, 'w) target" where
  "target_clearLeds d = target_setAllLeds 0 0 0 d"

text \<open>\<open>std::lround\<close>: to the nearest integer, halves away from zero.\<close>

definition lround :: "rat \<Rightarrow> int" where
  "lround x = (if x < 0 then - \<lfloor>- x + 1 / 2\<rfloor> else \<lfloor>x + 1 / 2\<rfloor>)"

fun tenths :: "cpp_double \<Rightarrow> int" where
  "tenths (Finite x) = lround (x * 10)"
| "tenths _ = 0"

definition target_setHeadAngles ::
  "'a toolkit \<Rightarrow> 'w servo_hal \<Rightarrow> bool \<Rightarrow> cpp_double \<Rightarrow> cpp_double \<Rightarrow> int \<Rightarrow> ('a, 'w) target \<Rightarrow> bool \<times> ('a, 'w) target" where
  "target_setHeadAngles K H head_motion_lock y p v d =
    (if head_motion_lock then (False, d)
     else if \<not> contains y p v then (False, d)
     else (True, d\<lparr>target_head := motion_moveFromAuthenticatedBridgeWithSpeed K H (tenths y) (tenths p) (v * 10) (target_head d)\<rparr>))"

definition target_homeHead ::
  "'a toolkit \<Rightarrow> 'w servo_hal \<Rightarrow> bool \<Rightarrow> int \<Rightarrow> ('a, 'w) target \<Rightarrow> bool \<times> ('a, 'w) target" where
  "target_homeHead K H head_motion_lock v = target_setHeadAngles K H head_motion_lock kHomeYawDegrees kHomePitchDegrees v"

definition target_getHeadAngles :: "'a toolkit \<Rightarrow> 'w servo_hal \<Rightarrow> ('a, 'w) target \<Rightarrow> HeadAngles option" where
  "target_getHeadAngles K H d =
    (let angles = getCurrentAngles K H (fst (target_head d)) (world_of (snd (target_head d)))
     in Some \<lparr>angles_yaw = Finite (of_int (vec_x angles) / 10), angles_pitch = Finite (of_int (vec_y angles) / 10)\<rparr>)"

definition target_cancelSpeech :: "string \<Rightarrow> ('a, 'w) target \<Rightarrow> bool \<times> ('a, 'w) target" where
  "target_cancelSpeech turn d = (if \<not> cancelSpeechCallback d then (False, d) else (True, calls [CancelSpeechCallback] d))"

definition target_cancelCapture :: "board \<Rightarrow> string \<Rightarrow> ('a, 'w) target \<Rightarrow> bool \<times> ('a, 'w) target" where
  "target_cancelCapture B i d =
    (if cancelCaptureCallback d then (cancel_capture_result B, calls [CancelCaptureCallback i] d) else (False, d))"

definition target_startCapture :: "board \<Rightarrow> string \<Rightarrow> int \<Rightarrow> int \<Rightarrow> ('a, 'w) target \<Rightarrow> CommandTargetResult \<times> ('a, 'w) target" where
  "target_startCapture B i q ms d =
    (if \<not> startCaptureCallback d then (CommandTargetResult.InvalidState, d)
     else (start_capture_result B, calls [StartCaptureCallback i q ms] d))"

definition official_target ::
  "'a toolkit \<Rightarrow> 'w servo_hal \<Rightarrow> bool \<Rightarrow> board \<Rightarrow> ('a, 'w) target DeviceCommandTarget" where
  "official_target K H head_motion_lock B =
    \<lparr>getInfo = target_getInfo B, getStatus = target_getStatus B, setVolume = target_setVolume B,
     setBrightness = target_setBrightness B, target_showText = official_showText B, setExpression = target_setExpression B,
     setBlink = target_setBlink B, target_ledCount = target_leds, setLed = target_setLed, setAllLeds = target_setAllLeds,
     clearLeds = target_clearLeds, setHeadAngles = target_setHeadAngles K H head_motion_lock,
     homeHead = target_homeHead K H head_motion_lock, getHeadAngles = target_getHeadAngles K H,
     cancelSpeech = target_cancelSpeech, cancelCapture = target_cancelCapture B, startCapture = target_startCapture B\<rparr>"

section \<open>The contract of the executor\<close>

definition device_ok :: "bool \<Rightarrow> bool \<Rightarrow> ('a, 'w) target \<Rightarrow> bool" where
  "device_ok ranged locked d \<longleftrightarrow> head_ok ranged locked (target_head d)"

lemma calls_head [simp]: "target_head (calls cs d) = target_head d"
  by (simp add: calls_def)

lemmas target_operations = target_setVolume_def target_setBrightness_def official_showText_def target_setExpression_def
  target_setBlink_def target_setLed_def target_setAllLeds_def target_clearLeds_def target_cancelSpeech_def
  target_cancelCapture_def target_startCapture_def

lemma quiet_operations:
  "target_head (snd (target_setVolume B v d)) = target_head d"
  "target_head (snd (target_setBrightness B v d)) = target_head d"
  "target_head (snd (official_showText B txt ms p d)) = target_head d"
  "target_head (snd (target_setExpression B e d)) = target_head d"
  "target_head (snd (target_setBlink B flag d)) = target_head d"
  "target_head (snd (target_setLed i r g b d)) = target_head d"
  "target_head (snd (target_setAllLeds r g b d)) = target_head d"
  "target_head (snd (target_clearLeds d)) = target_head d"
  "target_head (snd (target_cancelSpeech turn d)) = target_head d"
  "target_head (snd (target_cancelCapture B cid d)) = target_head d"
  "target_head (snd (target_startCapture B cid q ms d)) = target_head d"
  by (simp_all add: target_operations Let_def)

lemma update_head: "target_head (target_update lang B now d) = target_head d"
  by (simp add: target_update_def Let_def)

locale safe_device = head_safety K H ranged locked
  for K :: "'a toolkit" and H :: "'w servo_hal" and ranged locked :: bool
begin

lemma bridge_move_ok:
  "head_ok ranged locked m \<Longrightarrow> head_ok ranged locked (motion_moveFromAuthenticatedBridgeWithSpeed K H y p v m)"
  using head_step_ok [of m _ "MoveHeadFromBridge y p v"] by simp

lemma angles_safe: "device_ok ranged locked d \<Longrightarrow> device_ok ranged locked (snd (target_setHeadAngles K H locked y p v d))"
proof -
  have "target_head (snd (target_setHeadAngles K H locked y p v d)) \<in> {target_head d,
      motion_moveFromAuthenticatedBridgeWithSpeed K H (tenths y) (tenths p) (v * 10) (target_head d)}"
    by (simp add: target_setHeadAngles_def)
  then show "device_ok ranged locked d \<Longrightarrow> ?thesis" unfolding device_ok_def using bridge_move_ok by fastforce
qed

end

sublocale safe_device \<subseteq> guarded_target "official_target K H locked B" "device_ok ranged locked" for B
  by unfold_locales (simp_all add: official_target_def device_ok_def quiet_operations angles_safe [unfolded device_ok_def]
      target_homeHead_def)

datatype 'w device_op = Execute board Command | TargetUpdate board u32 | HeadOp "'w head_op" | BridgeState DeviceState
  | BindCancelSpeech bool | BindStartCapture bool

primrec device_step ::
  "'a toolkit \<Rightarrow> 'w servo_hal \<Rightarrow> bool \<Rightarrow> (string \<Rightarrow> string) \<Rightarrow> (int \<Rightarrow> int \<Rightarrow> int \<Rightarrow> MotionAngles) \<Rightarrow> 'w device_op
     \<Rightarrow> ('a, 'w) target \<Rightarrow> ('a, 'w) target" where
  "device_step K H lock lang look (Execute B command) d = snd (executeCommand (official_target K H lock B) command d)"
| "device_step K H lock lang look (TargetUpdate B now) d = target_update lang B now d"
| "device_step K H lock lang look (HeadOp op) d = d\<lparr>target_head := head_step K H look op (target_head d)\<rparr>"
| "device_step K H lock lang look (BridgeState state) d = applyBridgeState state d"
| "device_step K H lock lang look (BindCancelSpeech bound) d = setCancelSpeechCallback bound d"
| "device_step K H lock lang look (BindStartCapture bound) d = setStartCaptureCallback bound d"

context safe_device
begin

lemma device_step_ok: "device_ok ranged locked d \<Longrightarrow> device_ok ranged locked (device_step K H locked lang look op d)"
proof (cases op)
  case (Execute B command)
  then show "device_ok ranged locked d \<Longrightarrow> ?thesis" using execute_inv by simp
qed (simp_all add: device_ok_def update_head head_step_ok applyBridgeState_def setCancelSpeechCallback_def
    setStartCaptureCallback_def del: head_step.simps)

lemma device_run_ok:
  "device_ok ranged locked (fold (device_step K H locked lang look) ops
     (new_target leds (servo_init K H locked local anim t1 t2 (new_bus w))))"
proof -
  have "device_ok ranged locked d \<Longrightarrow> device_ok ranged locked (fold (device_step K H locked lang look) ops d)" for d
    by (induction ops arbitrary: d) (simp_all add: device_step_ok)
  then show ?thesis by (simp add: device_ok_def new_target_def head_init_ok)
qed

end

interpretation ranged_device: safe_device K H "clamp_ok K" locked for K :: "'a toolkit" and H :: "'w servo_hal" and locked
  by unfold_locales

interpretation locked_device: safe_device K H False True for K :: "'a toolkit" and H :: "'w servo_hal"
  by unfold_locales

section \<open>From commands to the servo bus\<close>

lemma device_ok_written: "device_ok ranged locked d \<Longrightarrow> list_all (head_safe ranged locked) (written (snd (target_head d)))"
  using head_ok_written [of ranged locked "fst (target_head d)" "snd (target_head d)"] by (simp add: device_ok_def)

text \<open>C18: On the official device, whatever commands are executed and however updates, local motion
  and torque requests come in between, every position and velocity written to the servos is
  within the limits of its servo, and nothing that moves the head is written in a locked build.\<close>

theorem commands_move_head_safely:
  assumes "clamp_ok K"
  shows "list_all (head_safe True locked) (written (snd (target_head (fold (device_step K H locked lang look) ops
     (new_target leds (servo_init K H locked local anim t1 t2 (new_bus w)))))))"
  using device_ok_written [OF ranged_device.device_run_ok [of K locked H]] assms by simp

text \<open>C19: In a build with the head locked no position and no velocity is ever written to a servo and
  no torque is switched on, whatever is commanded and whatever else the device does.\<close>

theorem locked_build_never_moves:
  "list_all still_write (written (snd (target_head (fold (device_step K H True lang look) ops
     (new_target leds (servo_init K H True local anim t1 t2 (new_bus w)))))))"
proof -
  have "still_write wr" if "head_safe False True wr" for wr
    using that by (cases wr) (auto simp: head_safe_def)
  then show ?thesis
    using device_ok_written [OF locked_device.device_run_ok [of K H]] by (auto simp: list_all_iff)
qed

section \<open>The angles of a command\<close>

lemma lround_near: "x - 1 / 2 \<le> of_int (lround x) \<and> of_int (lround x) \<le> x + 1 / 2"
proof (cases "x < 0")
  case True
  have "of_int \<lfloor>- x + 1 / 2\<rfloor> \<le> - x + 1 / 2" "- x + 1 / 2 < of_int \<lfloor>- x + 1 / 2\<rfloor> + 1"
    using floor_correct [of "- x + 1 / 2"] by simp_all
  then show ?thesis using True unfolding lround_def by (simp only: if_True of_int_minus) linarith
next
  case False
  have "of_int \<lfloor>x + 1 / 2\<rfloor> \<le> x + 1 / 2" "x + 1 / 2 < of_int \<lfloor>x + 1 / 2\<rfloor> + 1"
    using floor_correct [of "x + 1 / 2"] by simp_all
  moreover have "lround x = \<lfloor>x + 1 / 2\<rfloor>" using False by (simp add: lround_def)
  ultimately show ?thesis by linarith
qed

lemma lround_between:
  assumes "of_int lo \<le> x" "x \<le> of_int hi"
  shows "lo \<le> lround x \<and> lround x \<le> hi"
proof -
  have "(of_int lo :: rat) < of_int (lround x + 1)" "of_int (lround x) < (of_int (hi + 1) :: rat)"
    using lround_near [of x] assms by (simp_all only: of_int_add of_int_1) linarith+
  then show ?thesis by (simp only: of_int_less_iff) simp
qed

lemma bridge_target:
  assumes "clamp_ok K" "in_limit (angle_limit s) angle"
  shows "\<exists>a. angle_anim (fst (moveFromAuthenticatedBridgeWithSpeed K H angle v (s, b))) = retarget K angle a"
  using assms clampD(2) [OF assms(1), of "vec_x (angle_limit s)" "vec_y (angle_limit s)" angle]
  by (auto simp: moveFromAuthenticatedBridgeWithSpeed_def allowsMotionCommand_def allowsMotion_def move_with_speed_impl_def
      move_with_spring_params_impl_def update_angle_anim_target_def Let_def in_limit_def)


section \<open>Answers\<close>

definition board_ok :: "board \<Rightarrow> bool" where
  "board_ok B \<longleftrightarrow> isValidBoundedText (device_setting B ''id'' (board_uuid B)) 512
     \<and> isValidBoundedText (device_setting B ''name'' ''StackChan'') 512 \<and> isValidBoundedText (app_version B) 512"

lemma state_names_valid: "isValidBoundedText (deviceStateName state) 512"
  by (cases state) (simp_all, code_simp+)


section \<open>Shown texts\<close>

text \<open>The time since \<open>t0\<close>, across a wrap-around of the clock.\<close>

definition since :: "u32 \<Rightarrow> u32 \<Rightarrow> nat" where
  "since t0 now = unat (now - t0)"

lemma signed_difference:
  assumes "since t0 now < 2 ^ 31" "ms < 2 ^ 31"
  shows "sint (now - (t0 + of_nat ms)) < 0 \<longleftrightarrow> since t0 now < ms"
proof -
  have "now - (t0 + of_nat ms) = (now - t0) - of_nat ms" by simp
  also have "now - t0 = of_nat (since t0 now)" by (simp add: since_def)
  also have "of_nat (since t0 now) - of_nat ms = (word_of_int (int (since t0 now) - int ms) :: u32)" by simp
  finally have "now - (t0 + of_nat ms) = word_of_int (int (since t0 now) - int ms)" .
  moreover have "sint (word_of_int i :: u32) = i" if "- (2 ^ 31) \<le> i" "i < 2 ^ 31" for i :: int
    using that by (simp add: signed_of_int signed_take_bit_int_eq_self)
  moreover have "- (2 ^ 31) \<le> int (since t0 now) - int ms" "int (since t0 now) - int ms < 2 ^ 31" using assms by simp_all
  ultimately have "sint (now - (t0 + of_nat ms)) = int (since t0 now) - int ms" by (simp only:)
  then show ?thesis by simp
qed

text \<open>\<open>Tick\<close> is an update, \<open>Show\<close> a request for another text.\<close>

datatype text_op = Tick board u32 | ShowText board string nat int

fun text_step :: "(string \<Rightarrow> string) \<Rightarrow> text_op \<Rightarrow> ('a, 'w) target \<Rightarrow> ('a, 'w) target" where
  "text_step lang (Tick B now) d = target_update lang B now d"
| "text_step lang (ShowText B txt ms p) d = snd (official_showText B txt (int ms) p d)"

text \<open>An operation before the text of priority \<open>p\<close> ends, that does not outrank it.\<close>

fun before_end :: "u32 \<Rightarrow> nat \<Rightarrow> int \<Rightarrow> text_op \<Rightarrow> bool" where
  "before_end t0 ms p (Tick B now) \<longleftrightarrow> since t0 now < ms"
| "before_end t0 ms p (ShowText B txt ms' q) \<longleftrightarrow> since t0 (millis B) < ms \<and> q < p"

definition shows_text :: "u32 \<Rightarrow> nat \<Rightarrow> int \<Rightarrow> ('a, 'w) target \<Rightarrow> bool" where
  "shows_text t0 ms p d \<longleftrightarrow> textVisible d \<and> textPriority d = p \<and> textExpiresAtMs d = t0 + of_nat ms"

lemma update_text:
  "textVisible (target_update lang B now d) \<longleftrightarrow> textVisible d \<and> text_pending now d"
  "textVisible d \<and> text_pending now d \<Longrightarrow> textPriority (target_update lang B now d) = textPriority d
     \<and> textExpiresAtMs (target_update lang B now d) = textExpiresAtMs d"
  by (auto simp: target_update_def calls_def text_pending_def Let_def)

lemma text_step_keeps:
  assumes "ms < 2 ^ 31" "before_end t0 ms p op" "shows_text t0 ms p d"
  shows "shows_text t0 ms p (text_step lang op d)"
proof -
  have "text_pending now d" if "since t0 now < ms" for now
    using that assms signed_difference [of t0 now ms] by (simp add: text_pending_def shows_text_def)
  with assms(2,3) show ?thesis by (cases op) (auto simp: shows_text_def update_text official_showText_def Let_def)
qed

theorem shown_text_lives:
  assumes "official_showText B txt (int ms) p d = (True, d')" "ms < 2 ^ 31" "list_all (before_end (millis B) ms p) ops"
    and "ms \<le> since (millis B) now" "since (millis B) now < 2 ^ 31"
  shows "shows_text (millis B) ms p (fold (text_step lang) ops d')
     \<and> \<not> textVisible (target_update lang B' now (fold (text_step lang) ops d'))"
proof -
  have "shows_text (millis B) ms p d'"
    using assms(1) by (auto simp: official_showText_def shows_text_def Let_def split: if_splits)
  then have l: "shows_text (millis B) ms p (fold (text_step lang) ops d')"
    using assms(3) by (induction ops arbitrary: d') (simp_all add: text_step_keeps [OF assms(2)])
  then have "\<not> text_pending now (fold (text_step lang) ops d')"
    using signed_difference [of "millis B" now ms] assms(2,4,5) by (simp add: text_pending_def shows_text_def)
  with l show ?thesis by (simp add: update_text)
qed

section \<open>Examples\<close>

definition example_board :: "u32 \<Rightarrow> board" where
  "example_board now = \<lparr>has_audio_codec = True, has_display = True, is_avatar_display = True, setup_ui_called = True,
     has_avatar = True, blink_accepted = True, millis = now, device_setting = (\<lambda>key d. d), board_uuid = ''stackchan-1'',
     app_version = ''1.0.0'', battery_level = 80, speaker_volume = 50, backlight_brightness = 70, wifi_is_connected = True,
     wifi_rssi = - 60, cancel_capture_result = True, start_capture_result = Success\<rparr>"

definition example_device :: "(int \<times> int, shown) target" where
  "example_device = new_target 12 (new_Motion False (0, 0), new_bus (shown_at 460 0))"

lemma commands_move_head_safely_witness:
  "list_all (head_safe True False) (written (snd (target_head (fold
       (device_step jump_toolkit shown_hal False (\<lambda>key. key) (\<lambda>x y z. \<lparr>motion_yaw = x, motion_pitch = y\<rparr>))
       [BindCancelSpeech True, HeadOp (MoveHeadFromBridge 3000 0 100), HeadOp (HeadUpdate (at_time 40) (at_time 40))]
       (new_target 12 (servo_init jump_toolkit shown_hal False True (0, 0) (at_time 0) (at_time 0) (new_bus (shown_at 460 0))))))))"
  by (rule commands_move_head_safely [OF jump_clamp])



lemma shown_text_lives_witness:
  "shows_text 4294967290 3000 5 (fold (text_step (\<lambda>key. key)) [Tick (example_board 100) 100, ShowText (example_board 200) ''x'' 500 4]
       (snd (official_showText (example_board 4294967290) ''hello'' (int 3000) 5 example_device)))
   \<and> \<not> textVisible (target_update (\<lambda>key. key) (example_board 3000) 3000
       (fold (text_step (\<lambda>key. key)) [Tick (example_board 100) 100, ShowText (example_board 200) ''x'' 500 4]
         (snd (official_showText (example_board 4294967290) ''hello'' (int 3000) 5 example_device))))"
  using shown_text_lives [of "example_board 4294967290" "''hello''" 3000 5 example_device
      "snd (official_showText (example_board 4294967290) ''hello'' (int 3000) 5 example_device)"
      "[Tick (example_board 100) 100, ShowText (example_board 200) ''x'' 500 4]" 3000 "\<lambda>key. key" "example_board 3000"]
  by (simp add: example_board_def example_device_def new_target_def official_showText_def since_def)

end
