(* ===== verification/Head_Touch.thy ===== *)
theory Head_Touch
  imports Prelude "HOL-Library.Signed_Division"
begin

unbundle bit_operations_syntax

text \<open>
  The touch sensor of the head: \<open>hal/head_touch_debouncer.h\<close> and the gesture recogniser of
  \<open>hal/hal_head_touch.cpp\<close>.  A sample is the byte of the sensor, two bits for each of its three fields.

  The debouncer is specified by runs of equal samples: a press is reported when, after the first run of idle
  samples that is long enough, the first run of touched samples that is long enough is complete.
\<close>

section \<open>head\_touch\_debouncer.h\<close>

datatype HeadTouchTransition = NoTransition | Pressed | Released

record HeadTouchDebouncer =
  pressSamples :: u8
  releaseSamples :: u8
  idleSamples :: u8
  candidateSamples :: u8
  armed :: bool
  stableTouched :: bool

definition new_HeadTouchDebouncer :: "u8 \<Rightarrow> u8 \<Rightarrow> HeadTouchDebouncer" where
  "new_HeadTouchDebouncer p r =
    \<lparr>pressSamples = (if p = 0 then 1 else p), releaseSamples = (if r = 0 then 1 else r), idleSamples = 0,
     candidateSamples = 0, armed = False, stableTouched = False\<rparr>"

definition debounce :: "bool \<Rightarrow> HeadTouchDebouncer \<Rightarrow> HeadTouchTransition \<times> HeadTouchDebouncer" where
  "debounce touched d =
    (if \<not> armed d then
       if touched then (NoTransition, d\<lparr>idleSamples := 0\<rparr>)
       else
         let d = d\<lparr>idleSamples := idleSamples d + 1\<rparr>
         in (NoTransition, if idleSamples d \<ge> releaseSamples d then d\<lparr>armed := True\<rparr> else d)
     else if touched = stableTouched d then (NoTransition, d\<lparr>candidateSamples := 0\<rparr>)
     else
       let requiredSamples = (if touched then pressSamples d else releaseSamples d);
           d = (if candidateSamples d < requiredSamples then d\<lparr>candidateSamples := candidateSamples d + 1\<rparr> else d)
       in if candidateSamples d < requiredSamples then (NoTransition, d)
          else
            let d = d\<lparr>stableTouched := touched, candidateSamples := 0\<rparr>;
                d = (if \<not> stableTouched d then d\<lparr>armed := False, idleSamples := 0\<rparr> else d)
            in (if stableTouched d then Pressed else Released, d))"

section \<open>hal\_head\_touch.cpp\<close>

datatype HeadPetGesture = NoGesture | Press | Release | SwipeForward | SwipeBackward

datatype TouchState = IDLE | TOUCHED | SWIPING

record TouchConfig =
  touch_threshold :: u8
  swipe_threshold :: int

definition new_TouchConfig :: TouchConfig where
  "new_TouchConfig = \<lparr>touch_threshold = 1, swipe_threshold = 40\<rparr>"

type_synonym TouchData = "u8 \<times> u8 \<times> u8"

text \<open>The division of C++ truncates; the result fits the 16 bits it is cast to (\<open>position_bounded\<close>).\<close>

fun get_position :: "TouchData \<Rightarrow> int" where
  "get_position (a, b, c) =
    (let total = uint a + uint b + uint c
     in if total = 0 then 0 else (uint a * (- 100) + uint b * 0 + uint c * 100) sdiv total)"

fun get_max_intensity :: "TouchData \<Rightarrow> u8" where
  "get_max_intensity (a, b, c) = (let m = a; m = (if b > m then b else m) in if c > m then c else m)"

definition is_touched :: "u8 \<Rightarrow> TouchData \<Rightarrow> bool" where
  "is_touched threshold data \<longleftrightarrow> get_max_intensity data \<ge> threshold"

record GestureRecognizer =
  touch_config :: TouchConfig
  debouncer :: HeadTouchDebouncer
  current_state :: TouchState
  initial_position :: int

definition stable_press_samples :: u8 where "stable_press_samples = 6"
definition stable_release_samples :: u8 where "stable_release_samples = 3"

definition new_GestureRecognizer :: GestureRecognizer where
  "new_GestureRecognizer =
    \<lparr>touch_config = new_TouchConfig, debouncer = new_HeadTouchDebouncer stable_press_samples stable_release_samples,
     current_state = IDLE, initial_position = 0\<rparr>"

definition recognize :: "TouchData \<Rightarrow> GestureRecognizer \<Rightarrow> HeadPetGesture \<times> GestureRecognizer" where
  "recognize data r =
    (let raw_touched = is_touched (touch_threshold (touch_config r)) data;
         (transition, d) = debounce raw_touched (debouncer r);
         r = r\<lparr>debouncer := d\<rparr>
     in case current_state r of
          IDLE \<Rightarrow>
            if transition = Pressed
            then (Press, r\<lparr>current_state := TOUCHED, initial_position := get_position data\<rparr>)
            else (NoGesture, r)
        | TOUCHED \<Rightarrow>
            if transition = Released then (Release, r\<lparr>current_state := IDLE\<rparr>)
            else if raw_touched \<and> stableTouched d then
              let delta = get_position data - initial_position r
              in if delta > swipe_threshold (touch_config r) then (SwipeForward, r\<lparr>current_state := SWIPING\<rparr>)
                 else if delta < - swipe_threshold (touch_config r) then (SwipeBackward, r\<lparr>current_state := SWIPING\<rparr>)
                 else (NoGesture, r)
            else (NoGesture, r)
        | SWIPING \<Rightarrow>
            if transition = Released then (Release, r\<lparr>current_state := IDLE\<rparr>)
            else (NoGesture, r))"

text \<open>\<open>si12t_parse_touch_result_to\<close> of the driver: two bits for each field.\<close>

definition parse_touch_result :: "u8 \<Rightarrow> TouchData" where
  "parse_touch_result b =
    (let field = (\<lambda>j. drop_bit j b AND 3) in (field 0, field 2, field 4))"

text \<open>The gestures that the update task emits for the samples it reads.\<close>

fun emitted :: "GestureRecognizer \<Rightarrow> TouchData list \<Rightarrow> HeadPetGesture list" where
  "emitted r [] = []"
| "emitted r (data # rest) =
    (let (gesture, r) = recognize data r
     in if gesture \<noteq> NoGesture then gesture # emitted r rest else emitted r rest)"

section \<open>Positions\<close>

lemma position_bounded: "\<bar>get_position data\<bar> \<le> 100"
proof (cases data)
  case (fields a b c)
  define n where "n = - 100 * uint a + 100 * uint c"
  define t where "t = uint a + uint b + uint c"
  have nn: "0 \<le> uint a" "0 \<le> uint b" "0 \<le> uint c" by simp_all
  have "\<bar>n sdiv t\<bar> \<le> 100" if "t \<noteq> 0"
  proof -
    have "0 < t" using that nn unfolding t_def by linarith
    moreover have "\<bar>n\<bar> \<le> 100 * t" using nn unfolding t_def n_def by arith
    ultimately have "\<bar>n\<bar> div t \<le> 100 * t div t" by (intro zdiv_mono1) simp_all
    moreover have "0 \<le> \<bar>n\<bar> div t" using \<open>0 < t\<close> by (simp add: pos_imp_zdiv_nonneg_iff)
    ultimately show ?thesis using \<open>0 < t\<close> by (auto simp: signed_divide_int_def abs_mult sgn_if)
  qed
  then show ?thesis by (simp add: fields Let_def t_def n_def mult.commute)
qed

section \<open>Presses\<close>

text \<open>The first run of \<open>n\<close> samples \<open>v\<close> in \<open>xs\<close> is complete exactly at its end.\<close>

definition first_run :: "nat \<Rightarrow> bool \<Rightarrow> bool list \<Rightarrow> bool" where
  "first_run n v xs \<longleftrightarrow> suffix (replicate n v) xs \<and> \<not> sublist (replicate n v) (butlast xs)"

text \<open>The first press that the debouncer reports comes with the last sample.\<close>

fun first_press :: "HeadTouchDebouncer \<Rightarrow> bool list \<Rightarrow> bool" where
  "first_press d [] = False"
| "first_press d (x # xs) = (let (transition, d') = debounce x d in if transition = Pressed then xs = [] else first_press d' xs)"

text \<open>\<open>first_run\<close> after \<open>i\<close> samples of the run.\<close>

fun run_from :: "nat \<Rightarrow> nat \<Rightarrow> bool \<Rightarrow> bool list \<Rightarrow> bool" where
  "run_from i n v [] = False"
| "run_from i n v (x # xs) = (if x \<noteq> v then run_from 0 n v xs else if n \<le> i + 1 then xs = [] else run_from (i + 1) n v xs)"

lemma broken_run:
  assumes "x \<noteq> v" "i < n"
  shows "sublist (replicate n v) (replicate i v @ x # ys) \<longleftrightarrow> sublist (replicate n v) ys"
    and "suffix (replicate n v) (replicate i v @ x # ys) \<longleftrightarrow> suffix (replicate n v) ys"
proof -
  have all: "set zs \<subseteq> {v}" if "replicate n v = ws @ zs" for ws zs using that by (metis set_append set_replicate_conv_if subset_refl sup.bounded_iff empty_subsetI)
  show "suffix (replicate n v) (replicate i v @ x # ys) \<longleftrightarrow> suffix (replicate n v) ys"
  proof
    assume "suffix (replicate n v) (replicate i v @ x # ys)"
    then obtain ps where p: "replicate i v @ x # ys = ps @ replicate n v" by (auto simp: suffix_def)
    have e: "x # ys = drop i ps @ drop (i - length ps) (replicate n v)" using arg_cong [OF p, of "drop i"] by simp
    have "i < length ps"
    proof (rule ccontr)
      assume "\<not> i < length ps"
      with e have "x # ys = replicate (n + length ps - i) v" by simp
      then show False using assms(1) by (metis in_set_replicate list.set_intros(1))
    qed
    then have "ys = drop (i + 1) ps @ replicate n v" using arg_cong [OF p, of "drop (i + 1)"] by simp
    then show "suffix (replicate n v) ys" by (auto simp: suffix_def)
  next
    assume "suffix (replicate n v) ys"
    then show "suffix (replicate n v) (replicate i v @ x # ys)" by (auto simp: suffix_def) 
  qed
  show "sublist (replicate n v) (replicate i v @ x # ys) \<longleftrightarrow> sublist (replicate n v) ys"
  proof
    assume "sublist (replicate n v) (replicate i v @ x # ys)"
    then obtain ps ss where p: "replicate i v @ x # ys = ps @ replicate n v @ ss" by (auto simp: sublist_def)
    have "i < length ps"
    proof (rule ccontr)
      assume "\<not> i < length ps"
      then have "(ps @ replicate n v @ ss) ! i = v" using assms(2) by (simp add: nth_append less_imp_diff_less)
      then show False using assms(1) by (simp add: p [symmetric] nth_append)
    qed
    then have "ys = drop (i + 1) ps @ replicate n v @ ss" using arg_cong [OF p, of "drop (i + 1)"] by simp
    then show "sublist (replicate n v) ys" by (metis sublist_appendI)
  next
    assume "sublist (replicate n v) ys"
    then obtain ps ss where "ys = ps @ replicate n v @ ss" by (auto simp: sublist_def)
    then have "replicate i v @ x # ys = (replicate i v @ x # ps) @ replicate n v @ ss" by simp
    then show "sublist (replicate n v) (replicate i v @ x # ys)" by (metis sublist_appendI)
  qed
qed

lemma run_from_iff:
  assumes "i < n"
  shows "run_from i n v xs \<longleftrightarrow> xs \<noteq> [] \<and> suffix (replicate n v) (replicate i v @ xs) \<and> \<not> sublist (replicate n v) (replicate i v @ butlast xs)"
  using assms
proof (induction xs arbitrary: i)
  case (Cons x xs)
  have shift: "replicate i v @ v # ys = replicate (Suc i) v @ ys" for ys by (simp add: replicate_app_Cons_same)
  show ?case
  proof (cases "x = v")
    case v: True
    show ?thesis
    proof (cases "n \<le> i + 1")
      case True
      then have n: "n = i + 1" using Cons.prems by simp
      have "sublist (replicate n v) (replicate i v @ butlast (x # xs))" if "xs \<noteq> []"
        using that v n by (simp add: shift del: replicate.simps)
      moreover have "\<not> sublist (replicate n v) (replicate i v)" using sublist_length_le [of "replicate n v" "replicate i v"] n by auto
      ultimately show ?thesis using v n shift [of "[]"]
        by (cases "xs = []") (simp_all del: replicate.simps butlast.simps, simp)
    next
      case long: False
      show ?thesis
      proof (cases "xs = []")
        case True
        then show ?thesis using v long suffix_length_le [of "replicate n v" "replicate i v @ [v]"] by auto
      next
        case False
        then show ?thesis using v long Cons.IH [of "Suc i"] by (simp add: shift del: replicate.simps)
      qed
    qed
  next
    case False
    show ?thesis
    proof (cases "xs = []")
      case True
      then show ?thesis using False broken_run(2) [OF False Cons.prems, of "[]"] Cons.prems by simp
    next
      case xs: False
      then show ?thesis using Cons.IH [of 0] Cons.prems False broken_run [OF False Cons.prems] by auto
    qed
  qed
qed simp

lemma first_run_from: "0 < n \<Longrightarrow> first_run n v xs \<longleftrightarrow> run_from 0 n v xs"
  by (auto simp: run_from_iff first_run_def suffix_def)

lemma debounce_waiting:
  assumes "\<not> armed d" "idleSamples d < releaseSamples d"
  shows "debounce x d = (NoTransition, if x then d\<lparr>idleSamples := 0\<rparr>
    else let d' = d\<lparr>idleSamples := idleSamples d + 1\<rparr> in if unat (releaseSamples d) \<le> unat (idleSamples d) + 1 then d'\<lparr>armed := True\<rparr> else d')"
proof -
  have "unat (idleSamples d + 1) = unat (idleSamples d) + 1" 
    using assms(2) by unat_arith
  then show ?thesis using assms(1) by (simp add: debounce_def Let_def word_le_nat_alt)
qed

lemma debounce_ready:
  assumes "armed d" "\<not> stableTouched d" "candidateSamples d < pressSamples d"
  shows "debounce x d = (if \<not> x then (NoTransition, d\<lparr>candidateSamples := 0\<rparr>)
    else let d' = d\<lparr>candidateSamples := candidateSamples d + 1\<rparr>
      in if unat (pressSamples d) \<le> unat (candidateSamples d) + 1
         then (Pressed, d'\<lparr>stableTouched := True, candidateSamples := 0\<rparr>) else (NoTransition, d'))"
proof -
  have "unat (candidateSamples d + 1) = unat (candidateSamples d) + 1" using assms(3) by unat_arith
  then show ?thesis using assms by (simp add: debounce_def Let_def word_less_nat_alt)
qed

lemma ready_press:
  "armed d \<Longrightarrow> \<not> stableTouched d \<Longrightarrow> candidateSamples d < pressSamples d
   \<Longrightarrow> first_press d xs \<longleftrightarrow> run_from (unat (candidateSamples d)) (unat (pressSamples d)) True xs"
proof (induction xs arbitrary: d)
  case (Cons x xs)
  have "candidateSamples d + 1 < pressSamples d" "unat (candidateSamples d + 1) = unat (candidateSamples d) + 1"
    if "\<not> unat (pressSamples d) \<le> unat (candidateSamples d) + 1" using that Cons.prems(3) by unat_arith+
  moreover have "0 < pressSamples d" using Cons.prems(3) by unat_arith
  ultimately show ?case
    using Cons.prems Cons.IH [of "d\<lparr>candidateSamples := candidateSamples d + 1\<rparr>"] Cons.IH [of "d\<lparr>candidateSamples := 0\<rparr>"]
    by (simp add: debounce_ready Let_def)
qed simp

lemma waiting_press:
  "\<not> armed d \<Longrightarrow> \<not> stableTouched d \<Longrightarrow> candidateSamples d = 0 \<Longrightarrow> idleSamples d < releaseSamples d \<Longrightarrow> 0 < pressSamples d
   \<Longrightarrow> first_press d xs \<longleftrightarrow> (\<exists>a b. xs = a @ b \<and> run_from (unat (idleSamples d)) (unat (releaseSamples d)) False a
        \<and> run_from 0 (unat (pressSamples d)) True b)"
proof (induction xs arbitrary: d)
  case (Cons x xs)
  have split: "(\<exists>a b. y # xs = a @ b \<and> run_from i n False a \<and> Q b) \<longleftrightarrow> (\<exists>a b. xs = a @ b \<and> run_from i n False (y # a) \<and> Q b)" for y i n Q
  proof
    assume "\<exists>a b. y # xs = a @ b \<and> run_from i n False a \<and> Q b"
    then obtain a b where "y # xs = a @ b" "run_from i n False a" "Q b" by blast
    moreover from this obtain a' where "a = y # a'" by (cases a) auto
    ultimately have "xs = a' @ b \<and> run_from i n False (y # a') \<and> Q b" by simp
    then show "\<exists>a b. xs = a @ b \<and> run_from i n False (y # a) \<and> Q b" by blast
  qed (metis append_Cons)
  have "idleSamples d + 1 < releaseSamples d" "unat (idleSamples d + 1) = unat (idleSamples d) + 1"
    if "\<not> unat (releaseSamples d) \<le> unat (idleSamples d) + 1" using that Cons.prems(4) by unat_arith+
  moreover have "0 < releaseSamples d" using Cons.prems(4) by unat_arith
  ultimately show ?case
    using Cons.prems Cons.IH [of "d\<lparr>idleSamples := idleSamples d + 1\<rparr>"] Cons.IH [of "d\<lparr>idleSamples := 0\<rparr>"]
      ready_press [of "d\<lparr>idleSamples := idleSamples d + 1, armed := True\<rparr>" xs]
    by (cases x) (simp_all add: split debounce_waiting Let_def)
qed simp

text \<open>C37: The debouncer reports its first press exactly when a first run of as many untouched
  samples as its release count is followed by a first run of as many touched samples as its
  press count, a count of 0 being one.\<close>

theorem press_after_stable_touch:
  "first_press (new_HeadTouchDebouncer p r) xs \<longleftrightarrow>
    (\<exists>a b. xs = a @ b \<and> first_run (max 1 (unat r)) False a \<and> first_run (max 1 (unat p)) True b)"
proof -
  have u: "unat (if n = 0 then 1 else n :: u8) = max 1 (unat n)" for n
    by (cases "n = 0") (auto simp: max_def unat_eq_0 Suc_le_eq)
  show ?thesis
    by (subst waiting_press) (simp_all add: new_HeadTouchDebouncer_def u first_run_from word_neq_0_conv del: One_nat_def)
qed

section \<open>Gestures\<close>

text \<open>What the recogniser may emit from a state: a press, at most one swipe, a release, and again.\<close>

fun gestures_from :: "TouchState \<Rightarrow> HeadPetGesture list \<Rightarrow> bool" where
  "gestures_from s [] \<longleftrightarrow> True"
| "gestures_from IDLE (g # gs) \<longleftrightarrow> g = Press \<and> gestures_from TOUCHED gs"
| "gestures_from TOUCHED (g # gs) \<longleftrightarrow>
    (if g = Release then gestures_from IDLE gs else (g = SwipeForward \<or> g = SwipeBackward) \<and> gestures_from SWIPING gs)"
| "gestures_from SWIPING (g # gs) \<longleftrightarrow> g = Release \<and> gestures_from IDLE gs"

lemma gestures_from_state: "gestures_from (current_state r) (emitted r samples)"
proof (induction samples arbitrary: r)
  case (Cons data samples)
  show ?case using Cons.IH [of "snd (recognize data r)"]
    by (cases "current_state r") (auto simp: recognize_def Let_def split_beta split: if_splits)
qed simp

theorem gestures_alternate: "gestures_from IDLE (emitted new_GestureRecognizer samples)"
  using gestures_from_state [of new_GestureRecognizer samples] by (simp add: new_GestureRecognizer_def)

text \<open>The recogniser follows the debouncer: it is idle exactly while the head counts as untouched.\<close>

definition in_step :: "GestureRecognizer \<Rightarrow> bool" where
  "in_step r \<longleftrightarrow> (current_state r = IDLE \<longleftrightarrow> \<not> stableTouched (debouncer r))"

lemma debounce_touched:
  "(case fst (debounce x d) of NoTransition \<Rightarrow> stableTouched (snd (debounce x d)) = stableTouched d
     | Pressed \<Rightarrow> \<not> stableTouched d \<and> stableTouched (snd (debounce x d))
     | Released \<Rightarrow> stableTouched d \<and> \<not> stableTouched (snd (debounce x d)))"
  by (simp add: debounce_def Let_def)

lemma recognize_in_step:
  assumes "in_step r"
  shows "in_step (snd (recognize data r))"
    and "fst (recognize data r) = Press \<longleftrightarrow> \<not> stableTouched (debouncer r) \<and> stableTouched (debouncer (snd (recognize data r)))"
    and "fst (recognize data r) = Release \<longleftrightarrow> stableTouched (debouncer r) \<and> \<not> stableTouched (debouncer (snd (recognize data r)))"
proof -
  obtain t d where d: "debounce (is_touched (touch_threshold (touch_config r)) data) (debouncer r) = (t, d)" by force
  note step = debounce_touched [of "is_touched (touch_threshold (touch_config r)) data" "debouncer r", unfolded d fst_conv snd_conv]
  show "in_step (snd (recognize data r))"
    "fst (recognize data r) = Press \<longleftrightarrow> \<not> stableTouched (debouncer r) \<and> stableTouched (debouncer (snd (recognize data r)))"
    "fst (recognize data r) = Release \<longleftrightarrow> stableTouched (debouncer r) \<and> \<not> stableTouched (debouncer (snd (recognize data r)))"
    using assms step
    by (cases "current_state r"; cases t; simp add: in_step_def recognize_def d Let_def)+
qed

lemma new_in_step: "in_step new_GestureRecognizer"
  by (simp add: in_step_def new_GestureRecognizer_def new_HeadTouchDebouncer_def)

end
