(* ===== verification/Bridge_Service.thy ===== *)
theory Bridge_Service
  imports Session_Invariant Audio_Safety Head_Touch
begin

text \<open>
  \<open>hal/stackchan_bridge_service.cpp\<close>: the task that drives the bridge client (\<open>BridgeClientWorker\<close>) and
  connects it with the microphone, the speaker, the head touch sensor and the camera.

  The audio service (a component outside the repository) is modelled by what the worker sees of it: whether
  voice processing is enabled, the queue of encoded packets, and what it answers when asked whether it is
  idle or takes a packet.  Callbacks from other tasks (a gesture, a decoded packet, an encoded packet) are
  steps between two passes of \<open>onRunning\<close>.  The ghost fields \<open>recordings\<close> and \<open>offered\<close> and the number
  paired with a packet say in which recording it was encoded; the code does not read them.
\<close>

record bridge_worker =
  client :: BridgeClient
  touchEnabled :: bool
  headTouchConnected :: bool
  audioStarted :: bool
  recording :: bool
  decodeFailureGate :: ConsecutiveFailureGate
  decodeFailureRequested :: bool
  touchTapRequested :: bool
  inputStartRequested :: bool
  inputEndRequested :: bool
  voice :: bool
  encoded :: "(nat \<times> u8 list) list"
  decoder_resets :: nat
  recordings :: nat
  offered :: "(nat \<times> nat \<times> u8 list) list"

definition kHeadTouchEventX :: int where "kHeadTouchEventX = 160"
definition kHeadTouchEventY :: int where "kHeadTouchEventY = 0"

definition BridgeClientWorker :: "('v, 'z) world_scheme \<Rightarrow> bridge_worker" where
  "BridgeClientWorker W =
    \<lparr>client = new_BridgeClient W, touchEnabled = touch (capabilities (config_hello (config W))), headTouchConnected = False,
     audioStarted = False, recording = False, decodeFailureGate = new_ConsecutiveFailureGate 3, decodeFailureRequested = False,
     touchTapRequested = False, inputStartRequested = False, inputEndRequested = False, voice = False, encoded = [],
     decoder_resets = 0, recordings = 0, offered = []\<rparr>"

definition EnableVoiceProcessing :: "bool \<Rightarrow> bridge_worker \<Rightarrow> bridge_worker" where
  "EnableVoiceProcessing on w = w\<lparr>voice := on\<rparr>"

definition ResetDecoder :: "bridge_worker \<Rightarrow> bridge_worker" where
  "ResetDecoder w = w\<lparr>decoder_resets := decoder_resets w + 1\<rparr>"

definition discardEncodedAudio :: "bridge_worker \<Rightarrow> bridge_worker" where
  "discardEncodedAudio w = w\<lparr>encoded := []\<rparr>"

section \<open>Starting\<close>

definition worker_initialize :: "('v, 'z) world_scheme \<Rightarrow> bool \<Rightarrow> bridge_worker \<Rightarrow> ClientError \<times> bridge_worker" where
  "worker_initialize W has_codec w =
    (let (result, c) = initialize W (client w); w = w\<lparr>client := c\<rparr>
     in if result \<noteq> ClientError.NoError then (result, w)
        else (ClientError.NoError,
              if has_codec then w\<lparr>audioStarted := True, headTouchConnected := touchEnabled w \<or> headTouchConnected w\<rparr> else w))"

section \<open>Callbacks\<close>

definition on_decode_result :: "bool \<Rightarrow> bridge_worker \<Rightarrow> bridge_worker" where
  "on_decode_result success w =
    (if success then w\<lparr>decodeFailureGate := observeSuccess (decodeFailureGate w)\<rparr>
     else let (reached, gate) = observeFailure (decodeFailureGate w); w = w\<lparr>decodeFailureGate := gate\<rparr>
       in if reached then w\<lparr>decodeFailureRequested := True\<rparr> else w)"

definition on_head_pet :: "HeadPetGesture \<Rightarrow> bridge_worker \<Rightarrow> bridge_worker" where
  "on_head_pet gesture w =
    (case gesture of
       Press \<Rightarrow> w\<lparr>touchTapRequested := True, inputStartRequested := True\<rparr>
     | Release \<Rightarrow> w\<lparr>inputEndRequested := True\<rparr>
     | _ \<Rightarrow> w)"

section \<open>One pass\<close>

record capture_completion =
  completed_capture :: string
  completed_ok :: bool
  completed_error :: CameraCompletionError
  completed_digest :: string
  completed_size :: nat

text \<open>What one pass of \<open>onRunning\<close> meets.\<close>

record pass =
  wifi_up :: bool
  pass_now :: u32
  pass_events :: "TransportEvent list"
  pass_completion :: "capture_completion option"
  pass_turn :: string
  pass_stream :: string
  playback_idle :: bool
  playback_idle_after :: bool
  push_packet :: "int \<Rightarrow> int \<Rightarrow> u8 list \<Rightarrow> bool"

text \<open>The loops over at most four packets; the first component is false after a failed send.\<close>

fun send_encoded :: "('v, 'z) world_scheme \<Rightarrow> nat \<Rightarrow> bridge_worker \<Rightarrow> bool \<times> bridge_worker" where
  "send_encoded W 0 w = (True, w)"
| "send_encoded W (Suc n) w =
    (case encoded w of
       [] \<Rightarrow> (True, w)
     | (tag, packet) # rest \<Rightarrow>
        let w = w\<lparr>encoded := rest\<rparr>;
            (error, c) = sendAudioInputPacket W (Some packet) (length packet) (client w);
            w = w\<lparr>client := c, offered := offered w @ [(recordings w, tag, packet)]\<rparr>
        in if error \<noteq> AudioInputError.NoError then (False, w) else send_encoded W n w)"

definition start_input :: "('v, 'z) world_scheme \<Rightarrow> pass \<Rightarrow> bridge_worker \<Rightarrow> bridge_worker" where
  "start_input W p w =
    (let requested = inputStartRequested w; w = w\<lparr>inputStartRequested := False\<rparr>
     in if requested \<and> \<not> recording w then
          let w = discardEncodedAudio w;
              (error, c) = beginAudioInput W (pass_turn p) (pass_stream p) Touch (client w);
              w = w\<lparr>client := c\<rparr>
          in if error = AudioInputError.NoError
             then (EnableVoiceProcessing True w)\<lparr>recording := True, recordings := recordings w + 1\<rparr>
             else w
        else w)"

definition end_input :: "('v, 'z) world_scheme \<Rightarrow> bridge_worker \<Rightarrow> bridge_worker" where
  "end_input W w =
    (let requested = inputEndRequested w; w = w\<lparr>inputEndRequested := False\<rparr>
     in if requested \<and> recording w then
          let w = snd (send_encoded W 4 w);
              w = (EnableVoiceProcessing False w)\<lparr>recording := False\<rparr>;
              w = w\<lparr>client := snd (endAudioInput W Silence (client w))\<rparr>
          in discardEncodedAudio w
        else w)"

definition handleAudioInputRequests :: "('v, 'z) world_scheme \<Rightarrow> pass \<Rightarrow> bridge_worker \<Rightarrow> bridge_worker" where
  "handleAudioInputRequests W p w = end_input W (start_input W p w)"

definition stop_recording :: "bridge_worker \<Rightarrow> bridge_worker" where
  "stop_recording w = discardEncodedAudio ((EnableVoiceProcessing False w)\<lparr>recording := False\<rparr>)"

definition send_recorded :: "('v, 'z) world_scheme \<Rightarrow> bridge_worker \<Rightarrow> bridge_worker" where
  "send_recorded W w =
    (if recording w then let (ok, w) = send_encoded W 4 w in if ok then w else stop_recording w else w)"

definition report_decode_failure :: "('v, 'z) world_scheme \<Rightarrow> bridge_worker \<Rightarrow> bridge_worker" where
  "report_decode_failure W w =
    (let requested = decodeFailureRequested w; w = w\<lparr>decodeFailureRequested := False\<rparr>
     in if requested then
          let w = ResetDecoder w; w = w\<lparr>client := snd (reportAudioDecodeFailure W (client w))\<rparr>
          in w\<lparr>decodeFailureGate := gate_reset (decodeFailureGate w)\<rparr>
        else w)"

definition run_audio :: "('v, 'z) world_scheme \<Rightarrow> pass \<Rightarrow> bridge_worker \<Rightarrow> bridge_worker" where
  "run_audio W p w =
    (let w = report_decode_failure W w;
         w = handleAudioInputRequests W p w;
         w = (if recording w \<and> m_state (client w) \<noteq> Listening then stop_recording w else w);
         w = send_recorded W w;
         w = w\<lparr>client := snd (deliverAudioOutputPacket (playback_idle p) (Some (push_packet p)) (client w))\<rparr>
     in if audioOutputDeliveryComplete (client w) \<and> playback_idle_after p
        then w\<lparr>client := snd (acknowledgeAudioOutputPlayback W (client w))\<rparr> else w)"

definition note_wifi :: "('v, 'z) world_scheme \<Rightarrow> pass \<Rightarrow> bridge_worker \<Rightarrow> bridge_worker" where
  "note_wifi W p w =
    (if m_state (client w) = ConnectingWifi \<and> wifi_up p then w\<lparr>client := snd (wifiConnected W (client w))\<rparr> else w)"

definition send_completion :: "('v, 'z) world_scheme \<Rightarrow> pass \<Rightarrow> bridge_worker \<Rightarrow> bridge_worker" where
  "send_completion W p w =
    (case pass_completion p of
       None \<Rightarrow> w
     | Some c \<Rightarrow> w\<lparr>client := snd (sendCameraCompleted W (completed_capture c) (completed_ok c) (completed_error c)
         (completed_digest c) (completed_size c) (client w))\<rparr>)"

definition send_tap :: "('v, 'z) world_scheme \<Rightarrow> bridge_worker \<Rightarrow> bridge_worker" where
  "send_tap W w =
    (let tap = touchTapRequested w; w = w\<lparr>touchTapRequested := False\<rparr>
     in if tap then w\<lparr>client := snd (sendTouchTap W kHeadTouchEventX kHeadTouchEventY (client w))\<rparr> else w)"

definition before_audio :: "('v, 'z) world_scheme \<Rightarrow> pass \<Rightarrow> bridge_worker \<Rightarrow> bridge_worker" where
  "before_audio W p w =
    (let w = note_wifi W p w; w = w\<lparr>client := update W (pass_now p) (pass_events p) (client w)\<rparr>
     in send_tap W (send_completion W p w))"

definition onRunning :: "('v, 'z) world_scheme \<Rightarrow> pass \<Rightarrow> bridge_worker \<Rightarrow> bridge_worker" where
  "onRunning W p w = (let w = before_audio W p w in if audioStarted w then run_audio W p w else w)"

section \<open>Runs\<close>

datatype worker_op = Start bool | Pass pass | DecodeResult bool | HeadPet HeadPetGesture | Encoded "u8 list"

text \<open>The encoder may still hand over a packet after voice processing was disabled.\<close>

primrec worker_step :: "('v, 'z) world_scheme \<Rightarrow> worker_op \<Rightarrow> bridge_worker \<Rightarrow> bridge_worker" where
  "worker_step W (Start has_codec) w = snd (worker_initialize W has_codec w)"
| "worker_step W (Pass p) w = onRunning W p w"
| "worker_step W (DecodeResult success) w = (if audioStarted w then on_decode_result success w else w)"
| "worker_step W (HeadPet gesture) w = (if headTouchConnected w then on_head_pet gesture w else w)"
| "worker_step W (Encoded packet) w = w\<lparr>encoded := encoded w @ [(recordings w, packet)]\<rparr>"

definition run_worker :: "('v, 'z) world_scheme \<Rightarrow> worker_op list \<Rightarrow> bridge_worker" where
  "run_worker W ops = fold (worker_step W) ops (BridgeClientWorker W)"

section \<open>The worker only drives the client\<close>

definition drives :: "('v, 'z) world_scheme \<Rightarrow> bridge_worker \<Rightarrow> bridge_worker \<Rightarrow> bool" where
  "drives W w w' \<longleftrightarrow> (\<exists>ops. client w' = run_client W ops (client w))"

lemma drives_refl [intro]: "client w' = client w \<Longrightarrow> drives W w w'"
  unfolding drives_def run_client_def by (rule exI [of _ "[]"]) simp

lemma drives_step [intro]: "client w' = client_step W op (client w) \<Longrightarrow> drives W w w'"
  unfolding drives_def run_client_def by (rule exI [of _ "[op]"]) simp

lemma drives_maybe: "client w' = client w \<or> client w' = client_step W op (client w) \<Longrightarrow> drives W w w'"
  by blast

lemma drives_trans [trans]: "drives W a b \<Longrightarrow> drives W b c \<Longrightarrow> drives W a c"
  unfolding drives_def run_client_def by (metis comp_apply fold_append)

text \<open>Every assignment to the client is one of its operations.\<close>

lemma drives_simps [simp]:
  "client (EnableVoiceProcessing on w) = client w" "client (ResetDecoder w) = client w"
  "client (discardEncodedAudio w) = client w" "client (stop_recording w) = client w"
  "client (on_decode_result ok w) = client w" "client (on_head_pet g w) = client w"
  by (simp_all add: EnableVoiceProcessing_def ResetDecoder_def discardEncodedAudio_def stop_recording_def on_decode_result_def
      on_head_pet_def Let_def split_beta split: HeadPetGesture.split)

lemma send_encoded_drives: "drives W w (snd (send_encoded W n w))"
proof (induction n arbitrary: w)
  case (Suc n)
  show ?case
  proof (cases "encoded w")
    case (Cons e rest)
    obtain tag packet where e: "e = (tag, packet)" by force
    obtain err c where s: "sendAudioInputPacket W (Some packet) (length packet) (client w) = (err, c)" by force
    let ?w = "w\<lparr>encoded := rest, client := c, offered := offered w @ [(recordings w, tag, packet)]\<rparr>"
    have "drives W w ?w" by (rule drives_step [of _ _ "SendAudioInputPacket (Some packet) (length packet)"]) (simp add: s)
    moreover have "drives W ?w (snd (send_encoded W n ?w))" by (rule Suc.IH)
    ultimately show ?thesis using drives_trans by (fastforce simp: Cons e s Let_def)
  qed auto
qed auto

lemma start_input_drives: "drives W w (start_input W p w)"
  by (rule drives_maybe [of _ _ _ "BeginAudioInput (pass_turn p) (pass_stream p) Touch"])
    (simp add: start_input_def Let_def split_beta)

lemma end_input_drives: "drives W w (end_input W w)"
proof -
  have "drives W w (w\<lparr>inputEndRequested := False\<rparr>)" by auto
  also note send_encoded_drives [of W _ 4]
  finally have a: "drives W w (snd (send_encoded W 4 (w\<lparr>inputEndRequested := False\<rparr>)))" .
  have b: "drives W v (discardEncodedAudio (EnableVoiceProcessing False v\<lparr>recording := False,
      client := snd (endAudioInput W Silence (client (EnableVoiceProcessing False v\<lparr>recording := False\<rparr>)))\<rparr>))" for v
    by (rule drives_step [of _ _ "EndAudioInput Silence"]) simp
  show ?thesis
  proof (cases "inputEndRequested w \<and> recording w")
    case True
    then show ?thesis using drives_trans [OF a b] by (simp add: end_input_def Let_def)
  next
    case False
    then show ?thesis by (intro drives_refl) (auto simp: end_input_def Let_def)
  qed
qed

lemma run_audio_drives: "drives W w (run_audio W p w)"
proof -
  define a where "a = report_decode_failure W w"
  define b where "b = handleAudioInputRequests W p a"
  define c where "c = (if recording b \<and> m_state (client b) \<noteq> Listening then stop_recording b else b)"
  define d where "d = send_recorded W c"
  define e where "e = d\<lparr>client := snd (deliverAudioOutputPacket (playback_idle p) (Some (push_packet p)) (client d))\<rparr>"
  have "drives W w a"
    by (rule drives_maybe [of _ _ _ ReportAudioDecodeFailure]) (simp add: a_def report_decode_failure_def Let_def)
  also have "drives W a b"
    unfolding b_def handleAudioInputRequests_def using drives_trans start_input_drives end_input_drives by blast
  also have "drives W b c" by (auto simp: c_def)
  also have "drives W c d"
  proof (cases "recording c")
    case True
    have "client d = client (snd (send_encoded W 4 c))" using True by (simp add: d_def send_recorded_def split_beta Let_def)
    with send_encoded_drives [of W c 4] show ?thesis by (simp add: drives_def)
  qed (auto simp: d_def send_recorded_def)
  also have "drives W d e" unfolding e_def by (rule drives_step [of _ _ "DeliverAudioOutputPacket (playback_idle p) (Some (push_packet p))"]) simp
  also have "run_audio W p w = (if audioOutputDeliveryComplete (client e) \<and> playback_idle_after p
      then e\<lparr>client := snd (acknowledgeAudioOutputPlayback W (client e))\<rparr> else e)"
    unfolding run_audio_def Let_def e_def d_def c_def b_def a_def by (rule refl)
  then have "drives W e (run_audio W p w)" by (intro drives_maybe [of _ _ _ AcknowledgeAudioOutputPlayback]) simp
  finally show ?thesis .
qed

lemma note_wifi_drives: "drives W w (note_wifi W p w)"
  by (rule drives_maybe [of _ _ _ WifiConnected_op]) (simp add: note_wifi_def)

lemma send_completion_drives: "drives W w (send_completion W p w)"
proof (cases "pass_completion p")
  case (Some x)
  show ?thesis
    by (rule drives_step [of _ _ "SendCameraCompleted (completed_capture x) (completed_ok x) (completed_error x)
        (completed_digest x) (completed_size x)"]) (simp add: send_completion_def Some)
qed (auto simp: send_completion_def)

lemma send_tap_drives: "drives W w (send_tap W w)"
  by (rule drives_maybe [of _ _ _ "SendTouchTap kHeadTouchEventX kHeadTouchEventY"]) (simp add: send_tap_def Let_def)

lemma before_audio_drives: "drives W w (before_audio W p w)"
proof -
  let ?w = "(note_wifi W p w)\<lparr>client := update W (pass_now p) (pass_events p) (client (note_wifi W p w))\<rparr>"
  have "drives W w (note_wifi W p w)" by (rule note_wifi_drives)
  also have "drives W (note_wifi W p w) ?w" by (rule drives_step [of _ _ "Update (pass_now p) (pass_events p)"]) simp
  also have "drives W ?w (send_completion W p ?w)" by (rule send_completion_drives)
  also have "drives W (send_completion W p ?w) (send_tap W (send_completion W p ?w))" by (rule send_tap_drives)
  finally show ?thesis by (simp add: before_audio_def Let_def)
qed

lemma onRunning_drives: "drives W w (onRunning W p w)"
proof -
  have "drives W w (before_audio W p w)" by (rule before_audio_drives)
  also have "drives W (before_audio W p w) (onRunning W p w)" by (auto simp: onRunning_def run_audio_drives Let_def)
  finally show ?thesis .
qed

lemmas before_audio_defs = before_audio_def note_wifi_def send_completion_def send_tap_def

lemma before_audio_fields [simp]:
  "audioStarted (before_audio W p w) = audioStarted w" "recording (before_audio W p w) = recording w"
  "inputStartRequested (before_audio W p w) = inputStartRequested w" "inputEndRequested (before_audio W p w) = inputEndRequested w"
  "headTouchConnected (before_audio W p w) = headTouchConnected w" "voice (before_audio W p w) = voice w"
  "encoded (before_audio W p w) = encoded w" "recordings (before_audio W p w) = recordings w" "offered (before_audio W p w) = offered w"
  by (simp_all add: before_audio_defs Let_def split: option.split)

lemma worker_step_drives: "drives W w (worker_step W op w)"
proof (cases op)
  case (Start has_codec)
  show ?thesis
    by (rule drives_step [of _ _ Initialize]) (simp add: Start worker_initialize_def Let_def split_beta)
qed (auto simp: onRunning_drives)

theorem worker_runs_client: "\<exists>client_ops. client (run_worker W ops) = run_client W client_ops (new_BridgeClient W)"
proof -
  have "drives W w (fold (worker_step W) ops w)" for w
    by (induction ops arbitrary: w) (auto intro: drives_trans [OF worker_step_drives])
  from this [of "BridgeClientWorker W"] have "\<exists>client_ops. client (run_worker W ops) = run_client W client_ops (client (BridgeClientWorker W))"
    by (simp add: run_worker_def drives_def)
  moreover have "client (BridgeClientWorker W) = new_BridgeClient W" by (simp add: BridgeClientWorker_def)
  ultimately show ?thesis by simp
qed

section \<open>The microphone\<close>

text \<open>\<open>worker_ok\<close>: voice processing is enabled exactly while recording, a packet that may still be sent was
  encoded in the current recording, and every packet that was offered to the client was.\<close>

definition worker_ok :: "bridge_worker \<Rightarrow> bool" where
  "worker_ok w \<longleftrightarrow> (voice w \<longleftrightarrow> recording w) \<and> (recording w \<longrightarrow> audioStarted w \<and> list_all (\<lambda>(tag, packet). tag = recordings w) (encoded w))
     \<and> list_all (\<lambda>(current, tag, packet). tag = current) (offered w)"

lemma worker_ok_client [simp]: "worker_ok (w\<lparr>client := c\<rparr>) = worker_ok w"
  by (simp add: worker_ok_def)

lemma worker_ok_flags [simp]:
  "worker_ok (w\<lparr>decodeFailureGate := g\<rparr>) = worker_ok w" "worker_ok (w\<lparr>decodeFailureRequested := f\<rparr>) = worker_ok w"
  "worker_ok (w\<lparr>touchTapRequested := f\<rparr>) = worker_ok w" "worker_ok (w\<lparr>inputStartRequested := f\<rparr>) = worker_ok w"
  "worker_ok (w\<lparr>inputEndRequested := f\<rparr>) = worker_ok w" "worker_ok (ResetDecoder w) = worker_ok w"
  "worker_ok (w\<lparr>headTouchConnected := f\<rparr>) = worker_ok w" "worker_ok w \<Longrightarrow> worker_ok (w\<lparr>audioStarted := True\<rparr>)"
  by (auto simp: worker_ok_def ResetDecoder_def)

lemma stop_recording_ok [simp]: "worker_ok w \<Longrightarrow> worker_ok (stop_recording w) \<and> \<not> recording (stop_recording w)"
  by (simp add: worker_ok_def stop_recording_def EnableVoiceProcessing_def discardEncodedAudio_def)

lemma send_encoded_ok:
  assumes "worker_ok w" "recording w"
  shows "worker_ok (snd (send_encoded W n w)) \<and> recording (snd (send_encoded W n w))
     \<and> (fst (send_encoded W n w) \<longrightarrow> m_state (client (snd (send_encoded W n w))) = m_state (client w))"
  using assms
proof (induction n arbitrary: w)
  case (Suc n)
  show ?case
  proof (cases "encoded w")
    case (Cons e rest)
    obtain tag packet where e: "e = (tag, packet)" by force
    obtain err c where s: "sendAudioInputPacket W (Some packet) (length packet) (client w) = (err, c)" by force
    let ?w = "w\<lparr>encoded := rest, client := c, offered := offered w @ [(recordings w, tag, packet)]\<rparr>"
    have "m_state c = m_state (client w)" if "err = AudioInputError.NoError"
      using s that by (auto simp: sendAudioInputPacket_def sendBinary_def emit_def Let_def split: if_splits)
    moreover have "worker_ok ?w" "recording ?w" using Suc.prems by (simp_all add: worker_ok_def Cons e)
    ultimately show ?thesis using Suc.IH [of ?w] by (simp add: Cons e s Let_def)
  qed (use Suc.prems in simp)
qed simp

lemma start_input_ok: "worker_ok w \<Longrightarrow> audioStarted w \<Longrightarrow> worker_ok (start_input W p w)"
  by (auto simp: start_input_def Let_def worker_ok_def discardEncodedAudio_def EnableVoiceProcessing_def split_beta)

lemma end_input_ok: "worker_ok w \<Longrightarrow> worker_ok (end_input W w)"
  using send_encoded_ok [of "w\<lparr>inputEndRequested := False\<rparr>" W 4]
  by (auto simp: end_input_def Let_def worker_ok_def discardEncodedAudio_def EnableVoiceProcessing_def)

lemma start_input_started [simp]: "audioStarted (start_input W p w) = audioStarted w"
  by (simp add: start_input_def Let_def discardEncodedAudio_def EnableVoiceProcessing_def split_beta)

lemma send_recorded_ok:
  assumes "worker_ok w" "recording w \<longrightarrow> m_state (client w) = Listening"
  shows "worker_ok (send_recorded W w) \<and> (recording (send_recorded W w) \<longrightarrow> m_state (client (send_recorded W w)) = Listening)"
  using assms send_encoded_ok [of w W 4] by (auto simp: send_recorded_def Let_def split_beta)

lemma playback_keeps_listening:
  "m_state (snd (deliverAudioOutputPacket idle consumer s)) = m_state s"
  "m_state s = Listening \<Longrightarrow> m_state (snd (acknowledgeAudioOutputPlayback W s)) = Listening"
  by (simp_all add: deliverAudioOutputPacket_def acknowledgeAudioOutputPlayback_def Let_def split_beta)

lemma run_audio_ok:
  assumes "worker_ok w" "audioStarted w"
  shows "worker_ok (run_audio W p w) \<and> (recording (run_audio W p w) \<longrightarrow> m_state (client (run_audio W p w)) = Listening)"
proof -
  define a where "a = report_decode_failure W w"
  define b where "b = handleAudioInputRequests W p a"
  define c where "c = (if recording b \<and> m_state (client b) \<noteq> Listening then stop_recording b else b)"
  have "worker_ok a" "audioStarted a"
    using assms by (simp_all add: a_def report_decode_failure_def Let_def ResetDecoder_def)
      (simp_all add: worker_ok_def)
  then have "worker_ok b" by (simp add: b_def handleAudioInputRequests_def end_input_ok start_input_ok)
  then have "worker_ok c" "recording c \<longrightarrow> m_state (client c) = Listening" by (simp_all add: c_def)
  moreover define e where "e = (send_recorded W c)\<lparr>client := snd (deliverAudioOutputPacket (playback_idle p) (Some (push_packet p))
      (client (send_recorded W c)))\<rparr>"
  ultimately have e: "worker_ok e" "recording e \<longrightarrow> m_state (client e) = Listening"
    using send_recorded_ok [of c W] by (simp_all add: playback_keeps_listening)
  have "run_audio W p w = (if audioOutputDeliveryComplete (client e) \<and> playback_idle_after p
      then e\<lparr>client := snd (acknowledgeAudioOutputPlayback W (client e))\<rparr> else e)"
    unfolding run_audio_def Let_def e_def c_def b_def a_def by (rule refl)
  with e show ?thesis by (simp add: playback_keeps_listening)
qed

lemma onRunning_ok:
  assumes "worker_ok w"
  shows "worker_ok (onRunning W p w) \<and> (recording (onRunning W p w) \<longrightarrow> m_state (client (onRunning W p w)) = Listening)"
proof -
  have w: "worker_ok (before_audio W p w)" using assms by (simp add: worker_ok_def)
  show ?thesis
  proof (cases "audioStarted w")
    case True
    then show ?thesis using run_audio_ok [OF w] by (simp add: onRunning_def)
  next
    case False
    then show ?thesis using w by (auto simp: worker_ok_def onRunning_def)
  qed
qed

lemma worker_step_ok: "worker_ok w \<Longrightarrow> worker_ok (worker_step W op w)"
proof (cases op)
  case (Start has_codec)
  then show "worker_ok w \<Longrightarrow> ?thesis" by (simp add: worker_initialize_def Let_def split_beta)
next
  case (Encoded packet)
  then show "worker_ok w \<Longrightarrow> ?thesis" by (auto simp: worker_ok_def)
qed (auto simp: onRunning_ok on_decode_result_def on_head_pet_def Let_def split_beta split: HeadPetGesture.split)

lemma run_worker_ok: "worker_ok (run_worker W ops)"
proof -
  have "worker_ok w \<Longrightarrow> worker_ok (fold (worker_step W) ops w)" for w
    by (induction ops arbitrary: w) (simp_all add: worker_step_ok)
  then show ?thesis by (simp add: run_worker_def worker_ok_def BridgeClientWorker_def)
qed

text \<open>C22: After every pass of the task voice processing is enabled exactly while recording, and then
  the client is in the state Listening.\<close>

theorem microphone_only_while_listening:
  "let w = run_worker W (ops @ [Pass p]) in voice w = recording w \<and> (if voice w then m_state (client w) = Listening else True)"
proof -
  have "run_worker W (ops @ [Pass p]) = onRunning W p (run_worker W ops)" by (simp add: run_worker_def)
  then show ?thesis using onRunning_ok [OF run_worker_ok, of W p W ops] by (auto simp: worker_ok_def Let_def)
qed


end
