(* ===== verification/Touch_Recording.thy ===== *)
theory Touch_Recording
  imports Bridge_Service
begin

text \<open>
  From the touch sensor to the microphone: the gesture recogniser of \<open>hal_head_touch.cpp\<close> feeds the worker
  of the bridge client, and voice processing is only on while a hand is on the head.
\<close>

text \<open>A sample of the sensor, or any event of the worker other than a gesture, which only the recogniser sends.\<close>

datatype touch_event = Sample TouchData | Other worker_op

fun touch_step :: "('v, 'z) world_scheme \<Rightarrow> touch_event \<Rightarrow> GestureRecognizer \<times> bridge_worker \<Rightarrow> GestureRecognizer \<times> bridge_worker" where
  "touch_step W (Sample data) (r, w) =
    (let (gesture, r) = recognize data r
     in (r, if gesture \<noteq> NoGesture then worker_step W (HeadPet gesture) w else w))"
| "touch_step W (Other op) (r, w) = (r, case op of HeadPet g \<Rightarrow> w | _ \<Rightarrow> worker_step W op w)"

definition touch_run :: "('v, 'z) world_scheme \<Rightarrow> touch_event list \<Rightarrow> GestureRecognizer \<times> bridge_worker" where
  "touch_run W events = fold (touch_step W) events (new_GestureRecognizer, BridgeClientWorker W)"

text \<open>What a pass leaves of the requests, and why it records.\<close>

definition consumed :: "bridge_worker \<Rightarrow> bridge_worker \<Rightarrow> bool" where
  "consumed w w' \<longleftrightarrow> \<not> inputStartRequested w' \<and> \<not> inputEndRequested w' \<and> headTouchConnected w' = headTouchConnected w
     \<and> (recording w' \<longrightarrow> (recording w \<or> inputStartRequested w) \<and> \<not> inputEndRequested w)"

lemma consumed_client: "consumed w (w'\<lparr>client := c\<rparr>) = consumed w w'"
  by (simp add: consumed_def)

lemma send_encoded_fields [simp]:
  "recording (snd (send_encoded W n w)) = recording w" "inputStartRequested (snd (send_encoded W n w)) = inputStartRequested w"
  "inputEndRequested (snd (send_encoded W n w)) = inputEndRequested w" "headTouchConnected (snd (send_encoded W n w)) = headTouchConnected w"
proof (atomize (full), induction n arbitrary: w)
  case (Suc n)
  then show ?case by (cases "encoded w") (auto simp: Let_def split_beta)
qed simp

lemmas audio_defs = stop_recording_def discardEncodedAudio_def EnableVoiceProcessing_def ResetDecoder_def

lemma requests_consumed: "consumed w (handleAudioInputRequests W p w)"
  by (auto simp: consumed_def handleAudioInputRequests_def start_input_def end_input_def audio_defs Let_def split_beta)

lemma send_recorded_consumed: "consumed w w' \<Longrightarrow> consumed w (send_recorded W w')"
  by (auto simp: consumed_def send_recorded_def audio_defs split_beta)

lemma report_failure_fields [simp]:
  "recording (report_decode_failure W w) = recording w" "inputStartRequested (report_decode_failure W w) = inputStartRequested w"
  "inputEndRequested (report_decode_failure W w) = inputEndRequested w" "headTouchConnected (report_decode_failure W w) = headTouchConnected w"
  by (simp_all add: report_decode_failure_def audio_defs Let_def)

lemma run_audio_consumed: "consumed w (run_audio W p w)"
proof -
  define w1 where "w1 = handleAudioInputRequests W p (report_decode_failure W w)"
  define w2 where "w2 = (if recording w1 \<and> m_state (client w1) \<noteq> Listening then stop_recording w1 else w1)"
  have "consumed w w1"
    using requests_consumed [of "report_decode_failure W w" W p] by (simp add: consumed_def w1_def)
  then have "consumed w w2" by (auto simp: consumed_def w2_def audio_defs)
  then have "consumed w (send_recorded W w2)" by (rule send_recorded_consumed)
  then show ?thesis
    unfolding run_audio_def Let_def w1_def [symmetric] w2_def [symmetric] by (simp add: consumed_client)
qed

lemma onRunning_consumed:
  "if audioStarted w then consumed w (onRunning W p w)
   else recording (onRunning W p w) = recording w \<and> inputStartRequested (onRunning W p w) = inputStartRequested w
     \<and> inputEndRequested (onRunning W p w) = inputEndRequested w \<and> headTouchConnected (onRunning W p w) = headTouchConnected w"
  using run_audio_consumed [of "before_audio W p w" W p] by (simp add: onRunning_def consumed_def Let_def)

definition touch_ok :: "GestureRecognizer \<times> bridge_worker \<Rightarrow> bool" where
  "touch_ok = (\<lambda>(r, w). in_step r \<and> worker_ok w
     \<and> (recording w \<or> inputStartRequested w \<longrightarrow> headTouchConnected w \<and> (stableTouched (debouncer r) \<or> inputEndRequested w)))"

lemma touch_step_ok:
  assumes "touch_ok s"
  shows "touch_ok (touch_step W e s)"
proof (cases s)
  case (Pair r w)
  note prems = assms [unfolded Pair touch_ok_def split_conv]
  show ?thesis
  proof (cases e)
    case (Sample data)
    obtain g r' where g: "recognize data r = (g, r')" by force
    have "in_step r'" "g = Press \<longleftrightarrow> \<not> stableTouched (debouncer r) \<and> stableTouched (debouncer r')"
      "g = Release \<longleftrightarrow> stableTouched (debouncer r) \<and> \<not> stableTouched (debouncer r')"
      using recognize_in_step [of r data] prems by (simp_all add: g)
    then show ?thesis
      using prems worker_step_ok [of w W "HeadPet g"]
      by (cases g) (auto simp: Pair Sample g touch_ok_def on_head_pet_def)
  next
    case (Other op)
    then show ?thesis
    proof (cases op)
      case (Start codec)
      then show ?thesis using prems worker_step_ok [of w W op]
        by (simp add: Pair Other touch_ok_def worker_initialize_def Let_def split_beta)
    next
      case (Pass p)
      then show ?thesis using prems worker_step_ok [of w W op] onRunning_consumed [of w W p]
        by (auto simp: Pair Other touch_ok_def consumed_def split: if_splits)
    next
      case (DecodeResult success)
      then show ?thesis using prems worker_step_ok [of w W op]
        by (simp add: Pair Other touch_ok_def on_decode_result_def Let_def split_beta)
    next
      case (HeadPet g)
      then show ?thesis using assms by (simp add: Pair Other)
    next
      case (Encoded packet)
      then show ?thesis using prems worker_step_ok [of w W op] by (simp add: Pair Other touch_ok_def)
    qed
  qed
qed

lemma touch_run_ok: "touch_ok (touch_run W events)"
proof -
  have "touch_ok s \<Longrightarrow> touch_ok (fold (touch_step W) events s)" for s
    by (induction events arbitrary: s) (simp_all add: touch_step_ok)
  moreover have "touch_ok (new_GestureRecognizer, BridgeClientWorker W)"
    using run_worker_ok [of W "[]"] by (simp add: touch_ok_def new_in_step run_worker_def BridgeClientWorker_def)
  ultimately show ?thesis by (simp add: touch_run_def)
qed


end
