(* ===== verification/Object_Pool.thy ===== *)
theory Object_Pool
  imports Prelude
begin

text \<open>
  \<open>stackchan/utils/object_pool.h\<close>: the pools that own the modifiers and decorators.  An object is a record
  that extends \<open>Poolable\<close>, a null \<open>unique_ptr\<close> is \<open>None\<close>.

  The contract of \<open>ObjectPool\<close> is the locale \<open>object_store\<close>: identifiers name the live objects, a new object
  never takes the identifier of a live one, and the identifier of a destroyed one is free again.  The ring
  pool keeps the latest objects instead.
\<close>

record Poolable =
  destroy_requested :: bool

definition requestDestroy :: "'z Poolable_scheme \<Rightarrow> 'z Poolable_scheme" where
  "requestDestroy x = x\<lparr>destroy_requested := True\<rparr>"

section \<open>ObjectPool\<close>

record 'z ObjectPool =
  pool_objs :: "'z Poolable_scheme option list"
  free_indices :: "int list"

definition new_ObjectPool :: "'z ObjectPool" where
  "new_ObjectPool = \<lparr>pool_objs = [], free_indices = []\<rparr>"

definition create :: "'z Poolable_scheme option \<Rightarrow> 'z ObjectPool \<Rightarrow> int \<times> 'z ObjectPool" where
  "create obj p =
    (if free_indices p \<noteq> [] then
       let i = last (free_indices p); p = p\<lparr>free_indices := butlast (free_indices p)\<rparr>
       in (i, p\<lparr>pool_objs := (pool_objs p)[nat i := obj]\<rparr>)
     else let p = p\<lparr>pool_objs := pool_objs p @ [obj]\<rparr> in (int (length (pool_objs p)) - 1, p))"

definition get :: "int \<Rightarrow> 'z ObjectPool \<Rightarrow> 'z Poolable_scheme option" where
  "get i p = (if i < 0 \<or> i \<ge> int (length (pool_objs p)) then None else pool_objs p ! nat i)"

text \<open>\<open>forEach\<close> with a callback that changes the object it is given.\<close>

definition forEach :: "('z Poolable_scheme \<Rightarrow> int \<Rightarrow> 'z Poolable_scheme) \<Rightarrow> 'z ObjectPool \<Rightarrow> 'z ObjectPool" where
  "forEach f p = p\<lparr>pool_objs := map (\<lambda>i. map_option (\<lambda>x. f x (int i)) (pool_objs p ! i)) [0..<length (pool_objs p)]\<rparr>"

definition destroy :: "int \<Rightarrow> 'z ObjectPool \<Rightarrow> bool \<times> 'z ObjectPool" where
  "destroy i p =
    (if i < 0 \<or> i \<ge> int (length (pool_objs p)) then (False, p)
     else if pool_objs p ! nat i = None then (False, p)
     else (True, p\<lparr>pool_objs := (pool_objs p)[nat i := None], free_indices := free_indices p @ [i]\<rparr>))"

definition cleanup_one :: "nat \<Rightarrow> 'z ObjectPool \<Rightarrow> 'z ObjectPool" where
  "cleanup_one i p =
    (case pool_objs p ! i of
       Some x \<Rightarrow> if destroy_requested x then snd (destroy (int i) p) else p
     | None \<Rightarrow> p)"

definition cleanup :: "'z ObjectPool \<Rightarrow> 'z ObjectPool" where
  "cleanup p = fold cleanup_one [0..<length (pool_objs p)] p"

definition clear :: "'z ObjectPool \<Rightarrow> 'z ObjectPool" where
  "clear p = p\<lparr>pool_objs := [], free_indices := []\<rparr>"

text \<open>\<open>size()\<close> is the size of the type class.\<close>

instantiation ObjectPool_ext :: (type, type) size
begin
definition size_ObjectPool_ext :: "('a, 'b) ObjectPool_ext \<Rightarrow> nat" where
  "size_ObjectPool_ext p = length (pool_objs p)"
instance ..
end

definition activeCount :: "'z ObjectPool \<Rightarrow> nat" where
  "activeCount p = length (pool_objs p) - length (free_indices p)"

section \<open>The invariant\<close>

text \<open>The free list holds exactly the empty slots, each once.\<close>

definition empty_slots :: "'z ObjectPool \<Rightarrow> nat set" where
  "empty_slots p = {i. i < length (pool_objs p) \<and> pool_objs p ! i = None}"

definition pool_ok :: "'z ObjectPool \<Rightarrow> bool" where
  "pool_ok p \<longleftrightarrow> distinct (free_indices p) \<and> set (free_indices p) = int ` empty_slots p"

lemma new_pool_ok [simp]: "pool_ok new_ObjectPool"
  by (simp add: pool_ok_def new_ObjectPool_def empty_slots_def)

lemma clear_pool_ok [simp]: "pool_ok (clear p)"
  by (simp add: pool_ok_def clear_def empty_slots_def)

lemma free_index:
  assumes "pool_ok p" "i \<in> set (free_indices p)"
  shows "0 \<le> i" "i < int (length (pool_objs p))" "pool_objs p ! nat i = None"
  using assms by (auto simp: pool_ok_def empty_slots_def)

lemma last_split: "xs \<noteq> [] \<Longrightarrow> distinct xs \<Longrightarrow> set (butlast xs) = set xs - {last xs} \<and> last xs \<in> set xs"
  by (induction xs rule: rev_induct) auto

lemma create_pool_ok: "pool_ok p \<Longrightarrow> pool_ok (snd (create (Some x) p))"
proof (cases "free_indices p = []")
  case True
  assume "pool_ok p"
  moreover have "empty_slots (p\<lparr>pool_objs := pool_objs p @ [Some x]\<rparr>) = empty_slots p"
    by (auto simp: empty_slots_def nth_append less_Suc_eq)
  ultimately show ?thesis using True by (simp add: pool_ok_def create_def Let_def)
next
  case False
  assume p: "pool_ok p"
  define i where "i = last (free_indices p)"
  have i: "i \<in> set (free_indices p)" using False by (simp add: i_def)
  note free = free_index [OF p i]
  have "empty_slots (snd (create (Some x) p)) = empty_slots p - {nat i}"
    using False free by (auto simp: create_def empty_slots_def Let_def i_def [symmetric] nth_list_update)
  then have "int ` empty_slots (snd (create (Some x) p)) = set (free_indices p) - {i}" using free p by (auto simp: pool_ok_def)
  moreover have "free_indices (snd (create (Some x) p)) = butlast (free_indices p)" using False by (simp add: create_def Let_def)
  moreover have "distinct (free_indices p)" using p by (simp add: pool_ok_def)
  ultimately show ?thesis
    using last_split [OF False] by (simp add: pool_ok_def i_def distinct_butlast)
qed

lemma destroy_pool_ok: "pool_ok p \<Longrightarrow> pool_ok (snd (destroy i p))"
proof (cases "i < 0 \<or> i \<ge> int (length (pool_objs p)) \<or> pool_objs p ! nat i = None")
  case False
  assume p: "pool_ok p"
  have d: "snd (destroy i p) = p\<lparr>pool_objs := (pool_objs p)[nat i := None], free_indices := free_indices p @ [i]\<rparr>"
    using False by (auto simp: destroy_def)
  have "empty_slots (snd (destroy i p)) = insert (nat i) (empty_slots p)"
    using False by (auto simp: d empty_slots_def nth_list_update)
  moreover have "i \<notin> set (free_indices p)" using free_index [OF p, of i] False by blast
  ultimately show ?thesis using p False by (auto simp: pool_ok_def d)
qed (auto simp: destroy_def)

lemma forEach_pool_ok: "pool_ok p \<Longrightarrow> pool_ok (forEach f p)"
proof -
  have "empty_slots (forEach f p) = empty_slots p" by (auto simp: empty_slots_def forEach_def)
  then show "pool_ok p \<Longrightarrow> ?thesis" by (simp add: pool_ok_def forEach_def)
qed

lemma cleanup_one_ok: "pool_ok p \<Longrightarrow> pool_ok (cleanup_one i p)"
  by (simp add: cleanup_one_def destroy_pool_ok split: option.split)

lemma cleanup_pool_ok: "pool_ok p \<Longrightarrow> pool_ok (cleanup p)"
proof -
  have "pool_ok p \<Longrightarrow> pool_ok (fold cleanup_one is p)" for "is" and p :: "'a ObjectPool"
    by (induction "is" arbitrary: p) (simp_all add: cleanup_one_ok)
  then show "pool_ok p \<Longrightarrow> ?thesis" by (simp add: cleanup_def)
qed

section \<open>What the operations do to the objects\<close>

lemma get_create:
  assumes "pool_ok p"
  shows "get i (snd (create (Some x) p)) = (if i = fst (create (Some x) p) then Some x else get i p)"
    and "get (fst (create (Some x) p)) p = None"
    and "0 \<le> fst (create (Some x) p)"
proof (atomize (full), cases "free_indices p = []")
  case True
  then show "(get i (snd (create (Some x) p)) = (if i = fst (create (Some x) p) then Some x else get i p))
      \<and> get (fst (create (Some x) p)) p = None \<and> 0 \<le> fst (create (Some x) p)"
    by (auto simp: create_def get_def Let_def nth_append nat_less_iff nat_eq_iff)
next
  case False
  have "last (free_indices p) \<in> set (free_indices p)" using False by simp
  from free_index [OF assms this] False
  show "(get i (snd (create (Some x) p)) = (if i = fst (create (Some x) p) then Some x else get i p))
      \<and> get (fst (create (Some x) p)) p = None \<and> 0 \<le> fst (create (Some x) p)"
    by (auto simp: create_def get_def Let_def nth_list_update nat_eq_iff)
qed

lemma get_destroy:
  "get j (snd (destroy i p)) = (if j = i then None else get j p)" "fst (destroy i p) \<longleftrightarrow> get i p \<noteq> None"
  by (auto simp: destroy_def get_def nth_list_update nat_eq_iff)

lemma get_forEach: "get i (forEach f p) = map_option (\<lambda>x. f x i) (get i p)"
  by (auto simp: get_def forEach_def nat_less_iff)

lemma get_clear: "get i (clear p) = None"
  by (auto simp: get_def clear_def)

lemma length_cleanup_one: "length (pool_objs (cleanup_one i p)) = length (pool_objs p)"
  by (simp add: cleanup_one_def destroy_def split: option.split)

definition keep_live :: "'z Poolable_scheme option \<Rightarrow> 'z Poolable_scheme option" where
  "keep_live ob = (case ob of Some x \<Rightarrow> if destroy_requested x then None else Some x | None \<Rightarrow> None)"

lemma get_nth: "k < length (pool_objs p) \<Longrightarrow> pool_objs p ! k = get (int k) p"
  by (simp add: get_def)

lemma get_cleanup_one:
  "k < length (pool_objs p) \<Longrightarrow> get i (cleanup_one k p) = (if i = int k then keep_live (get i p) else get i p)"
  by (cases "get (int k) p") (auto simp: cleanup_one_def keep_live_def get_destroy get_nth)

lemma get_cleanup: "get i (cleanup p) = keep_live (get i p)"
proof -
  have "n \<le> length (pool_objs p) \<Longrightarrow> length (pool_objs (fold cleanup_one [0..<n] p)) = length (pool_objs p)
    \<and> get i (fold cleanup_one [0..<n] p) = (if 0 \<le> i \<and> i < int n then keep_live (get i p) else get i p)" for n
    by (induction n) (auto simp: length_cleanup_one get_cleanup_one)
  then have "get i (cleanup p) = (if 0 \<le> i \<and> i < int (length (pool_objs p)) then keep_live (get i p) else get i p)"
    by (simp add: cleanup_def)
  moreover have "get i p = None" if "\<not> (0 \<le> i \<and> i < int (length (pool_objs p)))" using that by (auto simp: get_def)
  ultimately show ?thesis by (auto simp: keep_live_def)
qed

lemma finite_slots: "finite {i. get i p \<noteq> None}"
proof (rule finite_subset)
  show "{i. get i p \<noteq> None} \<subseteq> {0..<int (length (pool_objs p))}" by (auto simp: get_def split: if_splits)
qed simp

lemma active_objects:
  assumes "pool_ok p"
  shows "activeCount p = card {i. get i p \<noteq> None}"
proof -
  let ?n = "length (pool_objs p)"
  have "{i. get i p \<noteq> None} = int ` ({..<?n} - empty_slots p)"
  proof (rule set_eqI)
    fix i show "i \<in> {i. get i p \<noteq> None} \<longleftrightarrow> i \<in> int ` ({..<?n} - empty_slots p)"
      by (cases i) (auto simp: get_def empty_slots_def)
  qed
  then have "card {i. get i p \<noteq> None} = card ({..<?n} - empty_slots p)" by (simp add: card_image)
  also have "\<dots> = ?n - card (empty_slots p)"
    by (subst card_Diff_subset) (auto simp: empty_slots_def)
  also have "card (empty_slots p) = length (free_indices p)"
    using assms by (metis card_image distinct_card inj_on_of_nat pool_ok_def)
  finally show ?thesis by (simp add: activeCount_def)
qed

section \<open>The contract\<close>

text \<open>What the owner of a store relies on; \<open>ok\<close> is the invariant of the provider.\<close>

locale object_store =
  fixes ok :: "'p \<Rightarrow> bool" and lookup :: "int \<Rightarrow> 'p \<Rightarrow> 'x option"
    and add :: "'x \<Rightarrow> 'p \<Rightarrow> int \<times> 'p" and remove :: "int \<Rightarrow> 'p \<Rightarrow> bool \<times> 'p"
  assumes add_ok: "ok p \<Longrightarrow> ok (snd (add x p))"
    and remove_ok: "ok p \<Longrightarrow> ok (snd (remove i p))"
    and lookup_add: "ok p \<Longrightarrow> lookup i (snd (add x p)) = (if i = fst (add x p) then Some x else lookup i p)"
    and add_fresh: "ok p \<Longrightarrow> lookup (fst (add x p)) p = None"
    and lookup_remove: "ok p \<Longrightarrow> lookup j (snd (remove i p)) = (if j = i then None else lookup j p)"
    and remove_reports: "ok p \<Longrightarrow> fst (remove i p) \<longleftrightarrow> lookup i p \<noteq> None"
begin

text \<open>A live object keeps its identifier and its content while others come.\<close>

lemma add_keeps: "ok p \<Longrightarrow> lookup i p = Some y \<Longrightarrow> lookup i (snd (add x p)) = Some y"
  using add_fresh by (auto simp: lookup_add)

lemma adds_keep: "ok p \<Longrightarrow> lookup i p = Some y \<Longrightarrow> lookup i (fold (\<lambda>x p. snd (add x p)) xs p) = Some y"
  by (induction xs arbitrary: p) (simp_all add: add_ok add_keeps)

lemma add_remove: "ok p \<Longrightarrow> lookup j (snd (remove (fst (add x p)) (snd (add x p)))) = lookup j p"
  using add_fresh by (simp add: lookup_remove add_ok lookup_add)

lemma remove_twice: "ok p \<Longrightarrow> \<not> fst (remove i (snd (remove i p)))"
  by (simp add: remove_reports remove_ok lookup_remove)

end

interpretation pool: object_store pool_ok get "\<lambda>x. create (Some x)" destroy
  by unfold_locales (simp_all add: create_pool_ok destroy_pool_ok get_create get_destroy)

section \<open>The pool is a map\<close>

datatype 'z pool_op = Create "'z Poolable_scheme" | Destroy int
  | ForEach "'z Poolable_scheme \<Rightarrow> int \<Rightarrow> 'z Poolable_scheme" | Cleanup | Clear

datatype reply = Id int | Destroyed bool | Done

fun pool_step :: "'z pool_op \<Rightarrow> 'z ObjectPool \<Rightarrow> reply \<times> 'z ObjectPool" where
  "pool_step (Create x) p = map_prod Id id (create (Some x) p)"
| "pool_step (Destroy i) p = map_prod Destroyed id (destroy i p)"
| "pool_step (ForEach f) p = (Done, forEach f p)"
| "pool_step Cleanup p = (Done, cleanup p)"
| "pool_step Clear p = (Done, clear p)"

fun pool_run :: "'z pool_op list \<Rightarrow> 'z ObjectPool \<Rightarrow> reply list \<times> 'z ObjectPool" where
  "pool_run [] p = ([], p)"
| "pool_run (op # ops) p =
    (let (r, p) = pool_step op p; (rs, p) = pool_run ops p in (r # rs, p))"

text \<open>The specification: a map from identifiers to objects, which chooses any free identifier.\<close>

inductive map_step :: "(int \<rightharpoonup> 'z Poolable_scheme) \<Rightarrow> 'z pool_op \<Rightarrow> reply \<Rightarrow> (int \<rightharpoonup> 'z Poolable_scheme) \<Rightarrow> bool" where
  map_create: "i \<notin> dom m \<Longrightarrow> 0 \<le> i \<Longrightarrow> map_step m (Create x) (Id i) (m(i \<mapsto> x))"
| map_destroy: "map_step m (Destroy i) (Destroyed (i \<in> dom m)) (m(i := None))"
| map_each: "map_step m (ForEach f) Done (\<lambda>i. map_option (\<lambda>x. f x i) (m i))"
| map_cleanup: "map_step m Cleanup Done (\<lambda>i. keep_live (m i))"
| map_clear: "map_step m Clear Done Map.empty"

inductive map_run :: "(int \<rightharpoonup> 'z Poolable_scheme) \<Rightarrow> 'z pool_op list \<Rightarrow> reply list \<Rightarrow> (int \<rightharpoonup> 'z Poolable_scheme) \<Rightarrow> bool" where
  map_run_nil: "map_run m [] [] m"
| map_run_cons: "map_step m op r m' \<Longrightarrow> map_run m' ops rs m'' \<Longrightarrow> map_run m (op # ops) (r # rs) m''"

inductive_simps map_step_simps:
  "map_step m (Create x) r m'" "map_step m (Destroy i) r m'" "map_step m (ForEach f) r m'" "map_step m Cleanup r m'" "map_step m Clear r m'"

definition contents :: "'z ObjectPool \<Rightarrow> int \<rightharpoonup> 'z Poolable_scheme" where
  "contents p = (\<lambda>i. get i p)"

lemma pool_step_refines:
  assumes "pool_ok p"
  shows "pool_ok (snd (pool_step op p)) \<and> map_step (contents p) op (fst (pool_step op p)) (contents (snd (pool_step op p)))"
proof (cases op)
  case (Create x)
  then show ?thesis
    using assms get_create(1) [OF assms, of _ x] get_create(2,3) [OF assms, of x] by (auto simp: map_step_simps contents_def dom_def create_pool_ok fun_eq_iff)
next
  case (Destroy i)
  then show ?thesis
    using assms by (auto simp: map_step_simps contents_def dom_def destroy_pool_ok get_destroy fun_eq_iff)
qed (use assms in \<open>auto simp: map_step_simps contents_def forEach_pool_ok cleanup_pool_ok get_forEach get_cleanup get_clear fun_eq_iff\<close>)

lemma pool_run_refines:
  "pool_ok p \<Longrightarrow> pool_ok (snd (pool_run ops p)) \<and> map_run (contents p) ops (fst (pool_run ops p)) (contents (snd (pool_run ops p)))"
proof (induction ops arbitrary: p)
  case (Cons op ops)
  show ?case
    using Cons.IH [of "snd (pool_step op p)"] pool_step_refines [OF Cons.prems, of op]
    by (auto simp: split_beta intro: map_run.intros)
qed (simp add: map_run.intros)

lemma contents_new: "contents new_ObjectPool = Map.empty"
  by (rule ext) (auto simp: contents_def get_def new_ObjectPool_def)

text \<open>C38: Over every sequence of creations and destructions the pool answers like a finite map: an
  identifier that is handed out was free, and only an identifier in use is destroyed; the
  number of active objects is that of the map.\<close>

theorem pool_refines_map:
  "case pool_run ops new_ObjectPool of (replies, p) \<Rightarrow>
     map_run Map.empty ops replies (contents p) \<and> activeCount p = card (dom (contents p))"
  using pool_run_refines [OF new_pool_ok, of ops] active_objects [of "snd (pool_run ops new_ObjectPool)"]
  by (simp add: split_beta contents_new) (simp add: contents_def dom_def)

text \<open>An identifier outlives its object: whoever destroys it later destroys the object that took it over.\<close>

lemma stale_identifier:
  "fst (pool_run [Create \<lparr>destroy_requested = True, \<dots> = a\<rparr>, Cleanup, Create \<lparr>destroy_requested = False, \<dots> = b\<rparr>, Destroy 0] new_ObjectPool)
     = [Id 0, Done, Id 0, Destroyed True]"
  by (simp add: new_ObjectPool_def create_def cleanup_def cleanup_one_def destroy_def Let_def)

section \<open>RingObjectPool\<close>

record 'z RingObjectPool =
  ring_objs :: "'z Poolable_scheme option list"
  ring_capacity :: nat
  cursor :: nat

definition new_RingObjectPool :: "nat \<Rightarrow> 'z RingObjectPool" where
  "new_RingObjectPool n = \<lparr>ring_objs = replicate n None, ring_capacity = n, cursor = 0\<rparr>"

text \<open>With a capacity of zero the code writes out of bounds and divides by zero: \<open>None\<close>.\<close>

definition ring_create :: "'z Poolable_scheme option \<Rightarrow> 'z RingObjectPool \<Rightarrow> (int \<times> 'z RingObjectPool) option" where
  "ring_create obj r =
    (if ring_capacity r = 0 then None
     else Some (int (cursor r), r\<lparr>ring_objs := (ring_objs r)[cursor r := obj], cursor := (cursor r + 1) mod ring_capacity r\<rparr>))"

definition ring_get :: "int \<Rightarrow> 'z RingObjectPool \<Rightarrow> 'z Poolable_scheme option" where
  "ring_get i r = (if i < 0 \<or> i \<ge> int (length (ring_objs r)) then None else ring_objs r ! nat i)"

definition ring_forEach :: "('z Poolable_scheme \<Rightarrow> int \<Rightarrow> 'z Poolable_scheme) \<Rightarrow> 'z RingObjectPool \<Rightarrow> 'z RingObjectPool" where
  "ring_forEach f r = r\<lparr>ring_objs := map (\<lambda>i. map_option (\<lambda>x. f x (int i)) (ring_objs r ! i)) [0..<length (ring_objs r)]\<rparr>"

definition ring_cleanup :: "'z RingObjectPool \<Rightarrow> 'z RingObjectPool" where
  "ring_cleanup r = r\<lparr>ring_objs := map keep_live (ring_objs r)\<rparr>"

definition ring_activeCount :: "'z RingObjectPool \<Rightarrow> nat" where
  "ring_activeCount r = length (filter (\<lambda>ob. ob \<noteq> None) (ring_objs r))"

definition ring_clear :: "'z RingObjectPool \<Rightarrow> 'z RingObjectPool" where
  "ring_clear r = r\<lparr>ring_objs := map (\<lambda>ob. None) (ring_objs r), cursor := 0\<rparr>"

definition ring_fill :: "'z Poolable_scheme list \<Rightarrow> 'z RingObjectPool \<Rightarrow> 'z RingObjectPool" where
  "ring_fill xs r = fold (\<lambda>x r. case ring_create (Some x) r of Some (i, r) \<Rightarrow> r | None \<Rightarrow> r) xs r"

lemma ring_fill_snoc:
  "ring_fill (xs @ [x]) r = (case ring_create (Some x) (ring_fill xs r) of Some (i, r) \<Rightarrow> r | None \<Rightarrow> ring_fill xs r)"
  by (simp add: ring_fill_def split: option.split)

lemma ring_fill_state:
  assumes "0 < n"
  shows "ring_capacity (ring_fill xs (new_RingObjectPool n)) = n \<and> cursor (ring_fill xs (new_RingObjectPool n)) = length xs mod n
     \<and> length (ring_objs (ring_fill xs (new_RingObjectPool n))) = n"
  using assms by (induction xs rule: rev_induct) (simp_all add: ring_fill_snoc ring_create_def mod_Suc_eq, simp add: ring_fill_def new_RingObjectPool_def)

text \<open>The ring holds the latest objects, each in the slot of its number.\<close>

lemma ring_keeps_latest:
  assumes "0 < n" "j < length xs" "length xs \<le> j + n"
  shows "ring_get (int (j mod n)) (ring_fill xs (new_RingObjectPool n)) = Some (xs ! j)"
  using assms(2,3)
proof (induction xs rule: rev_induct)
  case (snoc x xs)
  define r where "r = ring_fill xs (new_RingObjectPool n)"
  have r: "ring_capacity r = n" "cursor r = length xs mod n" "length (ring_objs r) = n"
    using ring_fill_state [OF assms(1), of xs] by (simp_all add: r_def)
  have fill: "ring_fill (xs @ [x]) (new_RingObjectPool n) = r\<lparr>ring_objs := (ring_objs r)[length xs mod n := Some x], cursor := Suc (length xs) mod n\<rparr>"
    using assms(1) by (simp add: ring_fill_snoc r_def [symmetric] ring_create_def r mod_Suc_eq)
  show ?case
  proof (cases "j = length xs")
    case True
    then show ?thesis using assms(1) r by (simp add: fill ring_get_def not_le)
  next
    case False
    then have j: "j < length xs" "length xs \<le> j + n" "length xs < j + n" using snoc.prems by simp_all
    have "j mod n \<noteq> length xs mod n"
    proof
      assume "j mod n = length xs mod n"
      then have "n dvd length xs - j" using j by (metis mod_eq_dvd_iff_nat less_imp_le)
      then show False using j by (auto dest: dvd_imp_le)
    qed
    then show ?thesis
      using snoc.IH j r assms(1) by (simp add: fill ring_get_def r_def [symmetric] nth_append not_le split: if_splits)
  qed
qed simp

end
