(* ===== verification/Capture_Upload.thy ===== *)
theory Capture_Upload
  imports Capture_Transaction Message_Id
begin

text \<open>
  \<open>hal/stackchan_bridge_camera.cpp\<close>, the work of the capture thread: \<open>captureAndUpload\<close> asks the bridge
  whether the capture is still wanted, takes a frame, encodes it, and uploads it in at most three attempts.

  What the thread meets is a record of functions on a world \<open>'w\<close>: the clock, the cancellation flag, the
  answer to a GET, the frame, what the JPEG encoder hands to its callback, and per attempt the transport
  (\<open>upload_transport\<close>) with the response read after it.  The ghost log of \<open>work\<close> records the receipts and
  the attempts.
\<close>

record 'w capture_env =
  env_now :: "'w \<Rightarrow> u64 \<times> 'w"
  env_cancelled :: "'w \<Rightarrow> bool \<times> 'w"
  env_get :: "string \<Rightarrow> (string \<times> string) list \<Rightarrow> 'w \<Rightarrow> (int \<times> string) option \<times> 'w"
  env_frame :: "u64 \<Rightarrow> 'w \<Rightarrow> (int \<times> int) option \<times> 'w"
  env_encode :: "int \<Rightarrow> 'w \<Rightarrow> (u8 list list \<times> bool) \<times> 'w"
  env_transport :: "int \<Rightarrow> 'w \<Rightarrow> upload_transport \<times> 'w"
  env_response :: "'w \<Rightarrow> (int \<times> string) \<times> 'w"
  env_wait :: "u64 \<Rightarrow> 'w \<Rightarrow> 'w"
  env_sha256 :: "u8 list \<Rightarrow> (nat \<Rightarrow> u8) option"

section \<open>The encoder's callback and the digest\<close>

record Encoder =
  jpeg_bytes :: "u8 list"
  terminated :: bool
  encode_failed :: bool

definition new_Encoder :: Encoder where
  "new_Encoder = \<lparr>jpeg_bytes = [], terminated = False, encode_failed = False\<rparr>"

text \<open>A null or empty chunk is \<open>[]\<close>; the first component is the result of the callback.\<close>

definition encodeChunk :: "'w capture_env \<Rightarrow> u64 \<Rightarrow> u8 list \<Rightarrow> Encoder \<times> 'w \<Rightarrow> nat \<times> Encoder \<times> 'w" where
  "encodeChunk E end data = (\<lambda>(c, w).
    let (stop, w) = env_cancelled E w;
        (late, w) = (if stop then (True, w) else let (now, w) = env_now E w in (now \<ge> end, w))
    in if late then (0, c\<lparr>encode_failed := True\<rparr>, w)
       else if data = [] then (0, c\<lparr>terminated := True\<rparr>, w)
       else if length data > kMaxJpegBytes - length (jpeg_bytes c) then (0, c\<lparr>encode_failed := True\<rparr>, w)
       else (length data, c\<lparr>jpeg_bytes := jpeg_bytes c @ data\<rparr>, w))"

definition jpeg_digest :: "'w capture_env \<Rightarrow> u8 list \<Rightarrow> string" where
  "jpeg_digest E jpeg =
    (case env_sha256 E jpeg of
       None \<Rightarrow> []
     | Some out \<Rightarrow> concat (map (\<lambda>i. hex2 (out i)) [0..<32]))"

section \<open>Receipts\<close>

record Receipt =
  receipt_status :: int
  receipt_state :: string
  receipt_digest :: string
  receipt_size :: nat
  receipt_remaining :: u32

definition new_Receipt :: Receipt where
  "new_Receipt = \<lparr>receipt_status = - 1, receipt_state = [], receipt_digest = [], receipt_size = 0, receipt_remaining = 0\<rparr>"

text \<open>\<open>as<std::string>()\<close> of a member that is no string is the serialized value; \<open>X\<close> gives it.\<close>

definition readReceipt :: "('v, 'z) json_lib_scheme \<Rightarrow> ('v \<Rightarrow> string) \<Rightarrow> 'w capture_env \<Rightarrow> string \<Rightarrow> string \<Rightarrow> string \<Rightarrow> 'w \<Rightarrow> Receipt \<times> 'w" where
  "readReceipt J X E url token deviceId w =
    (case env_get E (url @ ''/status'') [(''Authorization'', ''Bearer '' @ token), (''X-StackChan-Device-Id'', deviceId)] w of
       (None, w) \<Rightarrow> (new_Receipt, w)
     | (Some (status, body), w) \<Rightarrow>
        let result = new_Receipt\<lparr>receipt_status := status\<rparr>
        in if status \<noteq> 200 then (result, w)
           else case (if length body > 8192 then None else deserialize J 4 body) of
             None \<Rightarrow> (result\<lparr>receipt_status := - 1\<rparr>, w)
           | Some document \<Rightarrow>
              if \<not> is_uint32 J (jmember J document ''remaining_ms'') \<or> as_string J (jmember J document ''state'') = None
              then (result\<lparr>receipt_status := - 1\<rparr>, w)
              else (result\<lparr>receipt_state := X (jmember J document ''state''),
                           receipt_remaining := min 120000 (as_uint32 J (jmember J document ''remaining_ms'')),
                           receipt_digest := X (jmember J document ''sha256''),
                           receipt_size := unat (as_uint32 J (jmember J document ''size_bytes''))\<rparr>, w))"

section \<open>The attempts\<close>

datatype work_event = ReceiptRead Receipt | Attempt int CameraUploadError int

record 'w work =
  work_deadline :: CaptureDeadline
  work_notice :: CaptureCompletionNotice
  work_world :: 'w
  work_log :: "work_event list"

definition work_now :: "'w capture_env \<Rightarrow> 'w work \<Rightarrow> u64 \<times> 'w work" where
  "work_now E s = (let (now, w) = env_now E (work_world s) in (now, s\<lparr>work_world := w\<rparr>))"

definition work_cancelled :: "'w capture_env \<Rightarrow> 'w work \<Rightarrow> bool \<times> 'w work" where
  "work_cancelled E s = (let (c, w) = env_cancelled E (work_world s) in (c, s\<lparr>work_world := w\<rparr>))"

text \<open>\<open>nowMs() < deadline.workEnd() && !io_->cancelled\<close>\<close>

definition may_work :: "'w capture_env \<Rightarrow> 'w work \<Rightarrow> bool \<times> 'w work" where
  "may_work E s =
    (let (now, s) = work_now E s
     in if now < workEnd (work_deadline s) then let (c, s) = work_cancelled E s in (\<not> c, s) else (False, s))"

definition work_receipt ::
  "('v, 'z) json_lib_scheme \<Rightarrow> ('v \<Rightarrow> string) \<Rightarrow> 'w capture_env \<Rightarrow> string \<Rightarrow> string \<Rightarrow> string \<Rightarrow> 'w work \<Rightarrow> Receipt \<times> 'w work" where
  "work_receipt J X E url token deviceId s =
    (let (r, w) = readReceipt J X E url token deviceId (work_world s)
     in (r, s\<lparr>work_world := w, work_log := work_log s @ [ReceiptRead r]\<rparr>))"

fun upload_chunks :: "u8 list \<Rightarrow> u8 list list" where
  "upload_chunks [] = []"
| "upload_chunks (b # bs) = take 4096 (b # bs) # upload_chunks (drop 4096 (b # bs))"

definition attempt_upload ::
  "'w capture_env \<Rightarrow> string \<Rightarrow> string \<Rightarrow> string \<Rightarrow> u8 list \<Rightarrow> int \<Rightarrow> 'w work \<Rightarrow> (CameraUploadError \<times> int \<times> string) \<times> 'w work" where
  "attempt_upload E url token deviceId jpeg attempt s =
    (let (T, w) = env_transport E attempt (work_world s);
         (error, u) = upload_image T url token deviceId 1 (upload_chunks jpeg) new_CameraMultipartUpload;
         ((status, retryAfter), w) = env_response E w
     in ((error, status, retryAfter), s\<lparr>work_world := w, work_log := work_log s @ [Attempt attempt error status]\<rparr>))"

text \<open>The image the bridge holds is the one that was encoded.\<close>

definition receipt_matches :: "CaptureCompletionNotice \<Rightarrow> Receipt \<Rightarrow> bool" where
  "receipt_matches n r \<longleftrightarrow> (receipt_state r = ''image_saved'' \<or> receipt_state r = ''succeeded'')
     \<and> receipt_digest r = notice_digest n \<and> receipt_size r = notice_sizeBytes n"

text \<open>After an attempt without an answer: \<open>Some ok\<close> when the receipt decides the capture.\<close>

definition check_receipt ::
  "('v, 'z) json_lib_scheme \<Rightarrow> ('v \<Rightarrow> string) \<Rightarrow> 'w capture_env \<Rightarrow> string \<Rightarrow> string \<Rightarrow> string \<Rightarrow> 'w work \<Rightarrow> bool option \<times> 'w work" where
  "check_receipt J X E url token deviceId s =
    (let (now, s) = work_now E s; (asked, s) = work_now E s;
         (r, s) = work_receipt J X E url token deviceId s
     in if receipt_status r = 200 then
          let d = constrain asked (receipt_remaining r) (work_deadline s);
              s = s\<lparr>work_deadline := d, work_notice := (work_notice s)\<lparr>deadlineMs := m_end d\<rparr>\<rparr>
          in if receipt_matches (work_notice s) r then (Some True, s)
             else if receipt_state r \<noteq> ''reserved'' then (Some False, s) else (None, s)
        else if receipt_status r \<ge> 400 \<and> receipt_status r < 500 then (Some False, s) else (None, s))"

text \<open>\<open>const int remaining\<close>: the conversion of 64 unsigned bits to an \<open>int\<close> keeps the low 32.\<close>

definition work_remaining :: "'w capture_env \<Rightarrow> 'w work \<Rightarrow> int \<times> 'w work" where
  "work_remaining E s =
    (let (now, s) = work_now E s
     in if now < workEnd (work_deadline s)
        then let (now, s) = work_now E s in (sint (ucast (workEnd (work_deadline s) - now) :: u32), s)
        else (0, s))"

function upload_attempts ::
  "('v, 'z) json_lib_scheme \<Rightarrow> ('v \<Rightarrow> string) \<Rightarrow> 'w capture_env \<Rightarrow> string \<Rightarrow> string \<Rightarrow> string \<Rightarrow> u8 list \<Rightarrow> int \<Rightarrow> 'w work \<Rightarrow> bool \<times> 'w work" where
  "upload_attempts J X E url token deviceId jpeg attempt s =
    (if attempt > 3 then (False, s)
     else let (go, s) = may_work E s
     in if \<not> go then (False, s)
     else
       let (now, s) = work_now E s;
           ((error, status, retryAfter), s) = attempt_upload E url token deviceId jpeg attempt s
       in if error = CameraUploadError.NoError \<and> status = 201 then (True, s)
          else if status = 201 then (True, s)
          else
            let (go, s) = (if status < 0 then may_work E s else (False, s));
                (decided, s) = (if go then check_receipt J X E url token deviceId s else (None, s))
            in case decided of
                 Some ok \<Rightarrow> (ok, s)
               | None \<Rightarrow>
                  let (remaining, s) = work_remaining E s;
                      delay = captureRetryDelay status retryAfter attempt remaining
                  in if delay < 0 then (False, s)
                     else
                       let (now, s) = work_now E s;
                           s = s\<lparr>work_world := env_wait E (now + word_of_int delay) (work_world s)\<rparr>
                       in upload_attempts J X E url token deviceId jpeg (attempt + 1) s)"
  by pat_completeness auto
termination by (relation "measure (\<lambda>(J, X, E, url, token, deviceId, jpeg, attempt, s). nat (4 - attempt))") auto

declare upload_attempts.simps [simp del]

section \<open>The whole capture\<close>

definition captureAndUpload ::
  "('v, 'z) json_lib_scheme \<Rightarrow> ('v \<Rightarrow> string) \<Rightarrow> 'w capture_env \<Rightarrow> string \<Rightarrow> string \<Rightarrow> string \<Rightarrow> CameraCaptureRequest
     \<Rightarrow> CaptureCompletionNotice \<Rightarrow> 'w \<Rightarrow> bool \<times> 'w work" where
  "captureAndUpload J X E bridgeUrl token deviceId request result w =
    (let s = \<lparr>work_deadline = new_CaptureDeadline (startedMs request) (word_of_int (timeoutMs request)),
              work_notice = result, work_world = w, work_log = []\<rparr>
     in case resolveCaptureUploadUrl bridgeUrl (request_captureId request) of
          None \<Rightarrow> (False, s)
        | Some url \<Rightarrow>
           let (now, s) = work_now E s; (queryStart, s) = work_now E s;
               (initial, s) = work_receipt J X E url token deviceId s
           in if receipt_status initial \<noteq> 200 \<or> receipt_state initial \<noteq> ''reserved'' then (False, s)
              else
                let d = constrain queryStart (receipt_remaining initial) (work_deadline s);
                    s = s\<lparr>work_deadline := d, work_notice := (work_notice s)\<lparr>deadlineMs := m_end d\<rparr>\<rparr>;
                    (go, s) = may_work E s
                in if \<not> go then (False, s)
                   else
                     let (frame, w) = env_frame E (workEnd d) (work_world s); s = s\<lparr>work_world := w\<rparr>
                     in if frame \<noteq> Some (320, 240) then (False, s)
                        else
                          let ((chunks, encoded), w) = env_encode E (request_quality request) (work_world s);
                              (encoder, w) = fold (\<lambda>data st. snd (encodeChunk E (workEnd d) data st)) chunks (new_Encoder, w);
                              s = s\<lparr>work_world := w\<rparr>
                          in if \<not> encoded \<or> \<not> terminated encoder \<or> encode_failed encoder \<or> jpeg_bytes encoder = [] then (False, s)
                             else
                               let s = s\<lparr>work_notice := (work_notice s)\<lparr>notice_digest := jpeg_digest E (jpeg_bytes encoder),
                                          notice_sizeBytes := length (jpeg_bytes encoder)\<rparr>\<rparr>
                               in if notice_digest (work_notice s) = [] then (False, s)
                                  else upload_attempts J X E url token deviceId (jpeg_bytes encoder) 1 s)"

text \<open>\<open>OfficialCameraCapture::run\<close>; \<open>threw\<close> says that an exception left \<open>captureAndUpload\<close>.\<close>

definition run_capture ::
  "('v, 'z) json_lib_scheme \<Rightarrow> ('v \<Rightarrow> string) \<Rightarrow> 'w capture_env \<Rightarrow> string \<Rightarrow> string \<Rightarrow> string \<Rightarrow> CameraCaptureRequest
     \<Rightarrow> bool \<Rightarrow> 'w \<Rightarrow> CaptureCompletionNotice" where
  "run_capture J X E bridgeUrl token deviceId request threw w =
    (let result = \<lparr>notice_captureId = request_captureId request, notice_ok = False, notice_error = CaptureFailed,
                   notice_digest = [], notice_sizeBytes = 0,
                   deadlineMs = startedMs request + word_of_int (timeoutMs request), nextSendMs = 0\<rparr>;
         (ok, s) = captureAndUpload J X E bridgeUrl token deviceId request result w;
         result = (if threw then (work_notice s)\<lparr>notice_ok := False, notice_error := CameraCompletionError.InternalError\<rparr>
                   else (work_notice s)\<lparr>notice_ok := ok\<rparr>)
     in if notice_ok result then result\<lparr>notice_error := CameraCompletionError.NoError\<rparr> else result)"

section \<open>Properties\<close>

definition is_attempt :: "work_event \<Rightarrow> bool" where
  "is_attempt e = (case e of Attempt n error status \<Rightarrow> True | ReceiptRead r \<Rightarrow> False)"

text \<open>What shows that the bridge has the image of a notice.\<close>

definition proves_stored :: "CaptureCompletionNotice \<Rightarrow> work_event \<Rightarrow> bool" where
  "proves_stored n e = (case e of Attempt k error status \<Rightarrow> status = 201
     | ReceiptRead r \<Rightarrow> receipt_status r = 200 \<and> receipt_state r \<in> {''image_saved'', ''succeeded''}
         \<and> receipt_digest r = notice_digest n \<and> receipt_size r = notice_sizeBytes n)"

lemma proves_attempt: "proves_stored n (Attempt k error status) \<longleftrightarrow> status = 201"
  by (simp add: proves_stored_def)

text \<open>\<open>extends k s s'\<close>: from \<open>s\<close> to \<open>s'\<close> with at most \<open>k\<close> attempts, keeping the image.\<close>

definition extends :: "nat \<Rightarrow> 'w work \<Rightarrow> 'w work \<Rightarrow> bool" where
  "extends k s s' \<longleftrightarrow> (\<exists>es. work_log s' = work_log s @ es \<and> length (filter is_attempt es) \<le> k)
     \<and> notice_digest (work_notice s') = notice_digest (work_notice s) \<and> notice_sizeBytes (work_notice s') = notice_sizeBytes (work_notice s)
     \<and> notice_captureId (work_notice s') = notice_captureId (work_notice s) \<and> notice_error (work_notice s') = notice_error (work_notice s)"

lemma extends_refl: "extends 0 s s"
  by (simp add: extends_def)

lemma extends_trans: "extends j s s' \<Longrightarrow> extends k s' s'' \<Longrightarrow> extends (j + k) s s''"
  by (fastforce simp: extends_def)

lemma extends_le: "extends j s s' \<Longrightarrow> j \<le> k \<Longrightarrow> extends k s s'"
  by (fastforce simp: extends_def)

lemma extends_now: "extends 0 s (snd (work_now E s))" "extends 0 s (snd (work_cancelled E s))"
  by (simp_all add: extends_def work_now_def work_cancelled_def Let_def split_beta)

lemma extends_may_work: "extends 0 s (snd (may_work E s))"
  using extends_trans [OF extends_now(1) extends_now(2), of s E E] extends_now(1) [of s E]
  by (simp add: may_work_def Let_def split_beta)

lemma extends_remaining: "extends 0 s (snd (work_remaining E s))"
  using extends_trans [OF extends_now(1) extends_now(1), of s E E] extends_now(1) [of s E]
  by (simp add: work_remaining_def Let_def split_beta)

lemma extends_receipt: "extends 0 s (snd (work_receipt J X E url token dev s))"
  by (simp add: extends_def work_receipt_def Let_def split_beta is_attempt_def)

lemma extends_attempt: "extends 1 s (snd (attempt_upload E url token dev jpeg n s))"
  by (simp add: extends_def attempt_upload_def Let_def split_beta is_attempt_def)

lemma extends_world: "extends k s s' \<Longrightarrow> extends k s (s'\<lparr>work_world := w\<rparr>)"
  by (simp add: extends_def)

lemma check_receipt_extends:
  "extends 0 s (snd (check_receipt J X E url token dev s))
   \<and> (fst (check_receipt J X E url token dev s) = Some True \<longrightarrow>
        work_log (snd (check_receipt J X E url token dev s)) \<noteq> []
        \<and> proves_stored (work_notice (snd (check_receipt J X E url token dev s))) (last (work_log (snd (check_receipt J X E url token dev s)))))"
proof -
  obtain t1 s1 where n1: "work_now E s = (t1, s1)" by force
  obtain t2 s2 where n2: "work_now E s1 = (t2, s2)" by force
  obtain r s3 where n3: "work_receipt J X E url token dev s2 = (r, s3)" by force
  have "extends 0 s s1" "extends 0 s1 s2" "extends 0 s2 s3"
    using extends_now(1) [of s E] extends_now(1) [of s1 E] extends_receipt [of s2 J X E url token dev] by (simp_all add: n1 n2 n3)
  then have e: "extends 0 s s3" by (metis extends_trans add_0)
  have l: "work_log s3 \<noteq> [] \<and> last (work_log s3) = ReceiptRead r"
    using n3 by (auto simp: work_receipt_def Let_def split_beta)
  show ?thesis using e l
    by (auto simp: check_receipt_def n1 n2 n3 Let_def extends_def proves_stored_def receipt_matches_def)
qed

lemma upload_attempts_extends:
  "1 \<le> attempt \<Longrightarrow> extends (nat (4 - attempt)) s (snd (upload_attempts J X E url token dev jpeg attempt s))
   \<and> (fst (upload_attempts J X E url token dev jpeg attempt s) \<longrightarrow>
        work_log (snd (upload_attempts J X E url token dev jpeg attempt s)) \<noteq> []
        \<and> proves_stored (work_notice (snd (upload_attempts J X E url token dev jpeg attempt s)))
            (last (work_log (snd (upload_attempts J X E url token dev jpeg attempt s)))))"
proof (induction "nat (4 - attempt)" arbitrary: attempt s)
  case 0
  then show ?case by (subst (1 2 3 4) upload_attempts.simps) (simp add: extends_le [OF extends_refl])
next
  case (Suc k)
  then have a: "attempt \<le> 3" "nat (4 - attempt) = Suc k" "k = nat (4 - (attempt + 1))" by simp_all
  obtain go s1 where n1: "may_work E s = (go, s1)" by force
  obtain t2 s2 where n2: "work_now E s1 = (t2, s2)" by force
  obtain error status retry s3 where n3: "attempt_upload E url token dev jpeg attempt s2 = ((error, status, retry), s3)"
    by (metis surj_pair)
  obtain go2 s4 where n4: "(if status < 0 then may_work E s3 else (False, s3)) = (go2, s4)" by force
  obtain d s5 where n5: "(if go2 then check_receipt J X E url token dev s4 else (None, s4)) = (d, s5)" by force
  obtain rem s6 where n6: "work_remaining E s5 = (rem, s6)" by force
  obtain t7 s7 where n7: "work_now E s6 = (t7, s7)" by force
  define delay where "delay = captureRetryDelay status retry attempt rem"
  define s8 where "s8 = s7\<lparr>work_world := env_wait E (t7 + word_of_int delay) (work_world s7)\<rparr>"
  have e1: "extends 0 s s1" using extends_may_work [of s E] by (simp add: n1)
  have e2: "extends 0 s1 s2" using extends_now(1) [of s1 E] by (simp add: n2)
  have e3: "extends 1 s2 s3" using extends_attempt [of s2 E url token dev jpeg attempt] by (simp add: n3)
  have e4: "extends 0 s3 s4" using n4 extends_may_work [of s3 E] extends_refl [of s3] by (auto split: if_splits)
  have e5: "extends 0 s4 s5" using n5 check_receipt_extends [of s4 J X E url token dev] extends_refl [of s4] by (auto split: if_splits)
  have e6: "extends 0 s5 s6" using extends_remaining [of s5 E] by (simp add: n6)
  have e7: "extends 0 s6 s8" using extends_now(1) [of s6 E] by (simp add: n7 s8_def extends_world)
  have s3: "extends 1 s s3" using extends_trans [OF extends_trans [OF e1 e2] e3] by simp
  have s5: "extends 1 s s5" using extends_trans [OF s3 extends_trans [OF e4 e5]] by simp
  have s8: "extends 1 s s8" using extends_trans [OF s5 extends_trans [OF e6 e7]] by simp
  have l3: "work_log s3 \<noteq> [] \<and> last (work_log s3) = Attempt attempt error status"
    using n3 by (auto simp: attempt_upload_def Let_def split_beta)
  have l5: "d = Some True \<Longrightarrow> work_log s5 \<noteq> [] \<and> proves_stored (work_notice s5) (last (work_log s5))"
    using n5 check_receipt_extends [of s4 J X E url token dev] by (auto split: if_splits)
  define R where "R = upload_attempts J X E url token dev jpeg (attempt + 1) s8"
  have IH: "extends k s8 (snd R) \<and> (fst R \<longrightarrow> work_log (snd R) \<noteq> [] \<and> proves_stored (work_notice (snd R)) (last (work_log (snd R))))"
    using Suc.hyps(1) [OF a(3), of s8] Suc.prems a(3) by (simp add: R_def)
  have eq: "upload_attempts J X E url token dev jpeg attempt s =
    (if \<not> go then (False, s1)
     else if error = CameraUploadError.NoError \<and> status = 201 \<or> status = 201 then (True, s3)
     else case d of Some ok \<Rightarrow> (ok, s5) | None \<Rightarrow> if delay < 0 then (False, s6) else R)"
    using a(1) by (subst upload_attempts.simps) (simp add: n1 n2 n3 n4 n5 n6 n7 Let_def delay_def s8_def R_def split: option.split)
  have r: "extends (Suc k) s (snd R)" using extends_trans [OF s8, of k "snd R"] IH by simp
  have le: "extends (Suc k) s s1" "extends (Suc k) s s3" "extends (Suc k) s s5" "extends (Suc k) s s6"
    using e1 s3 s5 extends_trans [OF s5 e6] by (auto intro: extends_le)
  show ?case
    using le r IH l3 l5 proves_attempt [of _ attempt error status] unfolding eq a(2) by (auto split: option.split)
qed

lemma encoded_bounded:
  "length (jpeg_bytes c) \<le> kMaxJpegBytes
   \<Longrightarrow> length (jpeg_bytes (fst (fold (\<lambda>data st. snd (encodeChunk E end data st)) chunks (c, w)))) \<le> kMaxJpegBytes"
proof (induction chunks arbitrary: c w)
  case (Cons data chunks)
  obtain c' w' where c': "snd (encodeChunk E end data (c, w)) = (c', w')" by force
  then have "length (jpeg_bytes c') \<le> kMaxJpegBytes"
    using Cons.prems by (auto simp: encodeChunk_def Let_def split_beta split: if_splits)
  then show ?case using Cons.IH [of c' w'] c' by simp
qed simp

text \<open>What a notice says of the image.\<close>

definition describes :: "'w capture_env \<Rightarrow> CaptureCompletionNotice \<Rightarrow> u8 list \<Rightarrow> bool" where
  "describes E n jpeg \<longleftrightarrow> notice_digest n = jpeg_digest E jpeg \<and> notice_sizeBytes n = length jpeg \<and> jpeg_digest E jpeg \<noteq> []
     \<and> 0 < length jpeg \<and> length jpeg \<le> kMaxJpegBytes"

lemma describes_result [simp]:
  "describes E (n\<lparr>notice_error := e\<rparr>) = describes E n" "describes E (n\<lparr>notice_ok := ok\<rparr>) = describes E n"
  by (simp_all add: describes_def fun_eq_iff)

text \<open>A capture in the course of which every claim about the image holds.\<close>

definition captured_ok :: "'w capture_env \<Rightarrow> CaptureCompletionNotice \<Rightarrow> bool \<times> 'w work \<Rightarrow> bool" where
  "captured_ok E n0 = (\<lambda>(ok, s). length (filter is_attempt (work_log s)) \<le> 3
     \<and> notice_captureId (work_notice s) = notice_captureId n0 \<and> notice_error (work_notice s) = notice_error n0
     \<and> (ok \<longrightarrow> work_log s \<noteq> [] \<and> proves_stored (work_notice s) (last (work_log s)) \<and> (\<exists>jpeg. describes E (work_notice s) jpeg)))"

lemma captured_early: "extends 0 s0 s \<Longrightarrow> work_log s0 = [] \<Longrightarrow> captured_ok E (work_notice s0) (False, s)"
  by (auto simp: captured_ok_def extends_def filter_empty_conv)

lemma captured_attempts:
  assumes "describes E (work_notice s) jpeg" "filter is_attempt (work_log s) = []"
    "notice_captureId (work_notice s) = notice_captureId n0" "notice_error (work_notice s) = notice_error n0"
  shows "captured_ok E n0 (upload_attempts J X E url token dev jpeg 1 s)"
proof -
  obtain ok s' where r: "upload_attempts J X E url token dev jpeg 1 s = (ok, s')" by force
  have e: "extends 3 s s'" "ok \<longrightarrow> work_log s' \<noteq> [] \<and> proves_stored (work_notice s') (last (work_log s'))"
    using upload_attempts_extends [of 1 s J X E url token dev jpeg] by (simp_all add: r)
  have "length (filter is_attempt (work_log s')) \<le> 3" using e(1) assms(2) by (auto simp: extends_def)
  moreover have "describes E (work_notice s') jpeg" using e(1) assms(1) by (simp add: extends_def describes_def)
  moreover have "notice_captureId (work_notice s') = notice_captureId n0" "notice_error (work_notice s') = notice_error n0"
    using e(1) assms(3,4) by (simp_all add: extends_def)
  ultimately show ?thesis using e(2) by (auto simp: captured_ok_def r)
qed

lemma capture_ok: "captured_ok E result (captureAndUpload J X E bridgeUrl token dev request result w)"
proof -
  define s0 where "s0 = \<lparr>work_deadline = new_CaptureDeadline (startedMs request) (word_of_int (timeoutMs request)),
              work_notice = result, work_world = w, work_log = []\<rparr>"
  have r0: "result = work_notice s0" "work_log s0 = []" by (simp_all add: s0_def)
  show ?thesis
  proof (cases "resolveCaptureUploadUrl bridgeUrl (request_captureId request)")
    case None
    then show ?thesis
      using captured_early [OF extends_refl r0(2), of E] by (simp add: captureAndUpload_def s0_def)
  next
    case (Some url)
    obtain t1 s1 where n1: "work_now E s0 = (t1, s1)" by force
    obtain t2 s2 where n2: "work_now E s1 = (t2, s2)" by force
    obtain r s3 where n3: "work_receipt J X E url token dev s2 = (r, s3)" by force
    define d where "d = constrain t2 (receipt_remaining r) (work_deadline s3)"
    define s4 where "s4 = s3\<lparr>work_deadline := d, work_notice := (work_notice s3)\<lparr>deadlineMs := m_end d\<rparr>\<rparr>"
    obtain go s5 where n5: "may_work E s4 = (go, s5)" by force
    obtain frame w6 where n6: "env_frame E (workEnd d) (work_world s5) = (frame, w6)" by force
    obtain chunks encoded w7 where n7: "env_encode E (request_quality request) w6 = ((chunks, encoded), w7)" by (metis surj_pair)
    obtain c w8 where n8: "fold (\<lambda>data st. snd (encodeChunk E (workEnd d) data st)) chunks (new_Encoder, w7) = (c, w8)" by force
    define s8 where "s8 = s5\<lparr>work_world := w8\<rparr>"
    define s9 where "s9 = s8\<lparr>work_notice := (work_notice s8)\<lparr>notice_digest := jpeg_digest E (jpeg_bytes c),
                                          notice_sizeBytes := length (jpeg_bytes c)\<rparr>\<rparr>"
    have "extends 0 s0 s1" "extends 0 s1 s2" "extends 0 s2 s3" "extends 0 s4 s5"
      using extends_now(1) [of s0 E] extends_now(1) [of s1 E] extends_receipt [of s2 J X E url token dev] extends_may_work [of s4 E]
      by (simp_all add: n1 n2 n3 n5)
    moreover have "extends 0 s3 s4" by (simp add: s4_def extends_def)
    ultimately have e: "extends 0 s0 s3" "extends 0 s0 s5" by (metis extends_trans add_0)+
    have early: "captured_ok E result (False, s3)" "captured_ok E result (False, s5\<lparr>work_world := v\<rparr>)"
      "captured_ok E result (False, s5)" for v
      using captured_early [OF e(1)] captured_early [OF e(2)] captured_early [OF extends_world [OF e(2)]] r0 by simp_all
    have "captured_ok E result (False, s9)" using early(2) [of w8] by (simp add: captured_ok_def s9_def s8_def)
    moreover have "length (jpeg_bytes c) \<le> kMaxJpegBytes"
      using encoded_bounded [of new_Encoder E "workEnd d" chunks w7] n8 by (simp add: new_Encoder_def)
    then have "captured_ok E result (upload_attempts J X E url token dev (jpeg_bytes c) 1 s9)"
      if "jpeg_bytes c \<noteq> []" "jpeg_digest E (jpeg_bytes c) \<noteq> []"
      using that e(2) r0
      by (intro captured_attempts) (auto simp: describes_def s9_def s8_def extends_def filter_empty_conv)
    moreover have "captured_ok E result (False, s8)" using early(2) by (simp add: s8_def)
    moreover have "notice_digest (work_notice s9) = jpeg_digest E (jpeg_bytes c)" by (simp add: s9_def)
    ultimately show ?thesis
      using early by (simp add: captureAndUpload_def s0_def [symmetric] Some n1 n2 n3 n5 n6 n7 n8 d_def [symmetric] s4_def [symmetric]
          s8_def [symmetric] s9_def [symmetric] Let_def split_beta)
  qed
qed


section \<open>The notice can be reported\<close>

lemma hex_digit_lower: "n < 16 \<Longrightarrow> hex_digit n \<in> set ''0123456789abcdef''"
proof -
  have "\<forall>n<16. hex_digit n \<in> set ''0123456789abcdef''"
    unfolding all_nat_16 by (simp add: hex_digit_def upt_rec)
  then show "n < 16 \<Longrightarrow> ?thesis" by blast
qed

lemma hex2_chars: "length (hex2 b) = 2 \<and> set (hex2 b) \<subseteq> set ''0123456789abcdef''"
proof -
  have "set (hex2 b) = {hex_digit (unat b div 16), hex_digit (unat b mod 16)}" by (simp add: hex2_def)
  then show ?thesis
    using hex_digit_lower [OF byte_nibbles(1) [of b]] hex_digit_lower [OF byte_nibbles(2) [of b]]
    by (metis insert_subset empty_subsetI hex2_def length_Cons list.size(3) numeral_2_eq_2)
qed

lemma jpeg_digest_chars:
  assumes "jpeg_digest E jpeg \<noteq> []"
  shows "length (jpeg_digest E jpeg) = 64 \<and> list_all (\<lambda>c. c \<in> set ''0123456789abcdef'') (jpeg_digest E jpeg)"
proof -
  obtain out where o: "env_sha256 E jpeg = Some out" using assms by (auto simp: jpeg_digest_def split: option.splits)
  have "length (concat (map (\<lambda>i. hex2 (out i)) is)) = 2 * length is" for "is"
    using hex2_chars by (induction "is") auto
  moreover have "set (concat (map (\<lambda>i. hex2 (out i)) is)) \<subseteq> set ''0123456789abcdef''" for "is"
    using hex2_chars by fastforce
  ultimately show ?thesis by (auto simp: jpeg_digest_def o list_all_iff simp del: set_concat list.set)
qed

lemma run_capture_notice:
  assumes n_def: "n = run_capture J X E bridgeUrl token dev request threw w"
  shows "notice_captureId n = request_captureId request
     \<and> (if notice_ok n then notice_error n = CameraCompletionError.NoError \<and> (\<exists>jpeg. describes E n jpeg)
        else notice_error n = CaptureFailed \<or> notice_error n = CameraCompletionError.InternalError)"
proof -
  define result where "result = \<lparr>notice_captureId = request_captureId request, notice_ok = False, notice_error = CaptureFailed,
                   notice_digest = [], notice_sizeBytes = 0,
                   deadlineMs = startedMs request + word_of_int (timeoutMs request), nextSendMs = 0\<rparr>"
  obtain ok s where c: "captureAndUpload J X E bridgeUrl token dev request result w = (ok, s)" by force
  have ok: "captured_ok E result (ok, s)" using capture_ok [of E result J X bridgeUrl token dev request w] by (simp add: c)
  have id: "notice_captureId (work_notice s) = request_captureId request" "notice_error (work_notice s) = CaptureFailed"
    using ok by (simp_all add: captured_ok_def result_def)
  have d: "\<exists>jpeg. describes E (work_notice s) jpeg" if ok using ok that by (simp add: captured_ok_def)
  have n: "n = (let r = (if threw then (work_notice s)\<lparr>notice_ok := False, notice_error := CameraCompletionError.InternalError\<rparr>
                 else (work_notice s)\<lparr>notice_ok := ok\<rparr>)
     in if notice_ok r then r\<lparr>notice_error := CameraCompletionError.NoError\<rparr> else r)"
    unfolding n_def run_capture_def Let_def result_def [symmetric] c split_conv by (rule refl)
  show ?thesis using id d by (cases threw; cases ok) (simp_all add: n)
qed

theorem completion_is_reportable:
  assumes "camera_isValidUuid (messageId envelope)" "camera_isValidDeviceId dev" "camera_isValidUuid (request_captureId request)"
    "sentAtMs envelope \<le> INT64_MAX"
  shows "let n = run_capture J X E bridgeUrl token dev request threw w
     in buildCameraCompletedEventJson L envelope dev (notice_captureId n) (notice_ok n) (notice_error n) (notice_digest n) (notice_sizeBytes n)
          \<noteq> Inl CameraEventBuildError.InvalidArgument"
proof -
  define n where "n = run_capture J X E bridgeUrl token dev request threw w"
  note n = run_capture_notice [OF n_def]
  define valid where "valid d \<longleftrightarrow> length d = 64 \<and> list_all (\<lambda>c. c \<in> set ''0123456789abcdef'') d" for d :: string
  have digest: "valid (notice_digest n) \<and> notice_sizeBytes n \<noteq> 0 \<and> \<not> kMaxJpegBytes < notice_sizeBytes n" if "notice_ok n"
    using n that jpeg_digest_chars [of E] unfolding valid_def describes_def by (metis not_less gr_implies_not_zero)
  have name: "completionErrorName (notice_error n) \<noteq> None" if "\<not> notice_ok n" using n that by auto
  show ?thesis
    using n digest name assms unfolding n_def [symmetric] Let_def buildCameraCompletedEventJson_def valid_def [symmetric]
    by (cases "notice_ok n") (simp_all add: not_less)
qed

section \<open>A capture\<close>

text \<open>A camera that delivers one JPEG of four bytes, and a bridge that accepts it at once.\<close>

definition toy_env :: "unit capture_env" where
  "toy_env =
    \<lparr>env_now = (\<lambda>w. (1000, w)), env_cancelled = (\<lambda>w. (False, w)), env_get = (\<lambda>url headers w. (Some (200, ''reserved''), w)),
     env_frame = (\<lambda>end w. (Some (320, 240), w)), env_encode = (\<lambda>quality w. (([[0xFF, 0xD8], [0xFF, 0xD9], []], True), w)),
     env_transport = (\<lambda>attempt w. (\<lparr>openPost_ok = (\<lambda>l u. True), write_ok = (\<lambda>l d. True), status_of = (\<lambda>l. 201)\<rparr>, w)),
     env_response = (\<lambda>w. ((201, []), w)), env_wait = (\<lambda>t w. w), env_sha256 = (\<lambda>bytes. Some (\<lambda>i. 0xAB))\<rparr>"

definition toy_receipts :: "toy_value json_lib" where
  "toy_receipts = toy_json [(''reserved'', TObj [(''state'', TStr ''reserved''), (''remaining_ms'', TInt 20000)])]"

definition toy_request :: CameraCaptureRequest where
  "toy_request = \<lparr>request_captureId = ''12345678-1234-4234-8234-123456789abc'', request_quality = 80, timeoutMs = 20000, startedMs = 900\<rparr>"

definition toy_notice :: CaptureCompletionNotice where
  "toy_notice = run_capture toy_receipts (\<lambda>v. case v of TStr s \<Rightarrow> s | _ \<Rightarrow> []) toy_env ''ws://bridge:8080/v1/device/ws'' ''token'' ''stackchan''
     toy_request False ()"

lemma completion_is_reportable_witness:
  "buildCameraCompletedEventJson toy_receipts \<lparr>messageId = ''12345678-1234-4234-8234-123456789abd'', sentAtMs = 7\<rparr> ''stackchan''
     (notice_captureId toy_notice) (notice_ok toy_notice) (notice_error toy_notice) (notice_digest toy_notice) (notice_sizeBytes toy_notice)
     \<noteq> Inl CameraEventBuildError.InvalidArgument"
proof -
  have v: "camera_isValidUuid ''12345678-1234-4234-8234-123456789abd''" "camera_isValidDeviceId ''stackchan''"
    "camera_isValidUuid (request_captureId toy_request)" "(7 :: u64) \<le> INT64_MAX"
    by code_simp+
  show ?thesis
    using completion_is_reportable [of "\<lparr>messageId = ''12345678-1234-4234-8234-123456789abd'', sentAtMs = 7\<rparr>" "''stackchan''" toy_request
        toy_receipts "\<lambda>v. case v of TStr s \<Rightarrow> s | _ \<Rightarrow> []" toy_env "''ws://bridge:8080/v1/device/ws''" "''token''" False "()" toy_receipts] v
    by (simp add: toy_notice_def Let_def)
qed

end
