(* ===== verification/Capture_Service.thy ===== *)
theory Capture_Service
  imports Capture_Upload Command_Executor
begin

text \<open>
  \<open>OfficialCameraCapture\<close> of \<open>hal/stackchan_bridge_camera.cpp\<close> as the other tasks see it: the gate that admits
  one capture, the thread that works on it, and the notices of completed captures.

  A \<open>std::thread\<close> that is joinable is \<open>Some\<close> of the request it runs; \<open>oc_io\<close> is the shared context of the
  running capture, of which only the cancellation flag matters here.  Each operation runs under the mutex and
  is one step; the end of the thread is a step of its own.
\<close>

record official_camera =
  oc_bridgeUrl :: string
  oc_gate :: CameraCaptureGate
  oc_completion :: CaptureCompletionNotice
  oc_completionReady :: bool
  oc_worker :: "CameraCaptureRequest option"
  oc_notifications :: CaptureCompletionQueue
  oc_io :: "bool option"

definition new_CaptureCompletionNotice :: CaptureCompletionNotice where
  "new_CaptureCompletionNotice =
    \<lparr>notice_captureId = [], notice_ok = False, notice_error = CaptureFailed, notice_digest = [], notice_sizeBytes = 0,
     deadlineMs = 0, nextSendMs = 0\<rparr>"

definition new_official_camera :: "string \<Rightarrow> official_camera" where
  "new_official_camera url =
    \<lparr>oc_bridgeUrl = url, oc_gate = new_CameraCaptureGate, oc_completion = new_CaptureCompletionNotice, oc_completionReady = False,
     oc_worker = None, oc_notifications = [], oc_io = None\<rparr>"

definition camera_setBridgeUrl :: "string \<Rightarrow> official_camera \<Rightarrow> official_camera" where
  "camera_setBridgeUrl url c =
    (let c = (if oc_io c \<noteq> None \<and> url \<noteq> oc_bridgeUrl c then c\<lparr>oc_io := Some True\<rparr> else c)
     in c\<lparr>oc_bridgeUrl := url\<rparr>)"

text \<open>\<open>available\<close> says that the board has a camera; the clock is read twice.\<close>

definition camera_start ::
  "bool \<Rightarrow> u64 \<Rightarrow> u64 \<Rightarrow> string \<Rightarrow> int \<Rightarrow> int \<Rightarrow> official_camera \<Rightarrow> CommandTargetResult \<times> official_camera" where
  "camera_start available now started ident qual timeout c =
    (if \<not> available then (CommandTargetResult.InvalidState, c)
     else
       let c = c\<lparr>oc_notifications := purge now (oc_notifications c)\<rparr>
       in if length (oc_notifications c) \<ge> 16 then (CommandTargetResult.DeviceBusy, c)
          else
            let request = \<lparr>request_captureId = ident, request_quality = qual, timeoutMs = timeout, startedMs = started\<rparr>;
                (error, gate) = tryStart request (oc_gate c); c = c\<lparr>oc_gate := gate\<rparr>
            in if error = CameraRequestError.DeviceBusy then (CommandTargetResult.DeviceBusy, c)
               else if error \<noteq> CameraRequestError.NoError then (CommandTargetResult.InvalidState, c)
               else (CommandTargetResult.Success, c))"

definition camera_cancel :: "string \<Rightarrow> official_camera \<Rightarrow> bool \<times> official_camera" where
  "camera_cancel ident c =
    (if \<not> m_busy (oc_gate c) \<or> request_captureId (m_current (oc_gate c)) \<noteq> ident then (False, c)
     else if oc_io c \<noteq> None then (True, c\<lparr>oc_io := Some True\<rparr>)
     else (True, c\<lparr>oc_gate := complete (oc_gate c)\<rparr>))"

definition camera_completion :: "u64 \<Rightarrow> official_camera \<Rightarrow> CaptureCompletionNotice option \<times> official_camera" where
  "camera_completion now c = (let (n, q) = notice_next now (oc_notifications c) in (n, c\<lparr>oc_notifications := q\<rparr>))"

definition camera_acknowledge :: "string \<Rightarrow> official_camera \<Rightarrow> official_camera" where
  "camera_acknowledge ident c = c\<lparr>oc_notifications := snd (acknowledge ident (oc_notifications c))\<rparr>"

text \<open>How the start of the thread ends: it runs, creating it failed, or there was no memory for its context.\<close>

datatype spawn = ThreadStarted | ThreadFailed | OutOfMemory

datatype camera_event = Accepted string | Dropped string | Launched string
  | Reported CaptureCompletionNotice | Lost CaptureCompletionNotice

definition publish_completion :: "official_camera \<Rightarrow> camera_event list \<times> official_camera" where
  "publish_completion c =
    (if oc_completionReady c then
       let n = oc_completion c;
           c = c\<lparr>oc_worker := None, oc_completionReady := False, oc_io := None, oc_gate := complete (oc_gate c)\<rparr>;
           (pushed, q) = notice_push n (oc_notifications c)
       in ([if pushed then Reported n else Lost n],
           c\<lparr>oc_notifications := q, oc_completion := new_CaptureCompletionNotice\<rparr>)
     else ([], c))"

definition launch :: "spawn \<Rightarrow> official_camera \<Rightarrow> camera_event list \<times> official_camera" where
  "launch spawn c =
    (if oc_worker c \<noteq> None then ([], c)
     else case takePending (oc_gate c) of
       (None, g) \<Rightarrow> ([], c\<lparr>oc_gate := g\<rparr>)
     | (Some request, g) \<Rightarrow>
        let c = c\<lparr>oc_gate := g\<rparr>; c = (if spawn = OutOfMemory then c else c\<lparr>oc_io := Some False\<rparr>)
        in ([Launched (request_captureId request)],
            if spawn = ThreadStarted then c\<lparr>oc_worker := Some request\<rparr>
            else c\<lparr>oc_completion := new_CaptureCompletionNotice
                     \<lparr>notice_captureId := request_captureId request, notice_error := CameraCompletionError.InternalError,
                      deadlineMs := startedMs request + word_of_int (timeoutMs request)\<rparr>,
                   oc_completionReady := True\<rparr>))"

definition camera_update :: "spawn \<Rightarrow> official_camera \<Rightarrow> camera_event list \<times> official_camera" where
  "camera_update spawn c =
    (let (published, c) = publish_completion c; (launched, c) = launch spawn c in (published @ launched, c))"

text \<open>The end of \<open>run\<close>: the thread publishes the result of its request.\<close>

definition worker_ends :: "(CameraCaptureRequest \<Rightarrow> CaptureCompletionNotice) \<Rightarrow> official_camera \<Rightarrow> official_camera" where
  "worker_ends run c =
    (case oc_worker c of
       Some request \<Rightarrow> if oc_completionReady c then c else c\<lparr>oc_completion := run request, oc_completionReady := True\<rparr>
     | None \<Rightarrow> c)"

section \<open>Runs\<close>

text \<open>\<open>WorkerEnds\<close> carries the URL that the thread copied and the world it met.\<close>

datatype 'w camera_op = SetBridgeUrl string | StartCapture bool u64 u64 string int int | CancelCapture string
  | Completion u64 | Acknowledge string | UpdateCamera spawn | WorkerEnds string bool 'w

fun camera_step ::
  "('v, 'z) json_lib_scheme \<Rightarrow> ('v \<Rightarrow> string) \<Rightarrow> 'w capture_env \<Rightarrow> string \<Rightarrow> string \<Rightarrow> 'w camera_op \<Rightarrow> official_camera
     \<Rightarrow> camera_event list \<times> official_camera" where
  "camera_step J X E token dev (SetBridgeUrl url) c = ([], camera_setBridgeUrl url c)"
| "camera_step J X E token dev (StartCapture available now started ident qual timeout) c =
    (let (result, c) = camera_start available now started ident qual timeout c
     in (if result = CommandTargetResult.Success then [Accepted ident] else [], c))"
| "camera_step J X E token dev (CancelCapture ident) c =
    (let (found, c') = camera_cancel ident c in (if found \<and> oc_io c = None then [Dropped ident] else [], c'))"
| "camera_step J X E token dev (Completion now) c = ([], snd (camera_completion now c))"
| "camera_step J X E token dev (Acknowledge ident) c = ([], camera_acknowledge ident c)"
| "camera_step J X E token dev (UpdateCamera spawn) c = camera_update spawn c"
| "camera_step J X E token dev (WorkerEnds url threw w) c =
    ([], worker_ends (\<lambda>request. run_capture J X E url token dev request threw w) c)"

fun camera_trace ::
  "('v, 'z) json_lib_scheme \<Rightarrow> ('v \<Rightarrow> string) \<Rightarrow> 'w capture_env \<Rightarrow> string \<Rightarrow> string \<Rightarrow> 'w camera_op list \<Rightarrow> official_camera
     \<Rightarrow> camera_event list" where
  "camera_trace J X E token dev [] c = []"
| "camera_trace J X E token dev (op # ops) c =
    (let (es, c) = camera_step J X E token dev op c in es @ camera_trace J X E token dev ops c)"

section \<open>Every accepted capture is accounted for\<close>

datatype progress = Free | Waiting string | Working string

fun accounted :: "progress \<Rightarrow> camera_event list \<Rightarrow> bool" where
  "accounted p [] \<longleftrightarrow> True"
| "accounted Free (Accepted i # es) \<longleftrightarrow> accounted (Waiting i) es"
| "accounted (Waiting i) (Dropped j # es) \<longleftrightarrow> j = i \<and> accounted Free es"
| "accounted (Waiting i) (Launched j # es) \<longleftrightarrow> j = i \<and> accounted (Working i) es"
| "accounted (Working i) (Reported n # es) \<longleftrightarrow> notice_captureId n = i \<and> accounted Free es"
| "accounted p (e # es) \<longleftrightarrow> False"

definition progress_of :: "official_camera \<Rightarrow> progress" where
  "progress_of c = (let g = oc_gate c; i = request_captureId (m_current g)
    in if \<not> m_busy g then Free else if m_pending g then Waiting i else Working i)"

definition camera_ok :: "official_camera \<Rightarrow> bool" where
  "camera_ok c \<longleftrightarrow>
    (case progress_of c of
       Working i \<Rightarrow> oc_io c \<noteq> None \<and> length (oc_notifications c) < 16
         \<and> (if oc_completionReady c then notice_captureId (oc_completion c) = i
            else \<exists>request. oc_worker c = Some request \<and> request_captureId request = i)
     | p \<Rightarrow> oc_io c = None \<and> \<not> oc_completionReady c \<and> oc_worker c = None \<and> (p \<noteq> Free \<longrightarrow> length (oc_notifications c) < 16))"

fun memory_ok :: "'w camera_op \<Rightarrow> bool" where
  "memory_ok (UpdateCamera spawn) \<longleftrightarrow> spawn \<noteq> OutOfMemory"
| "memory_ok op \<longleftrightarrow> True"

lemma purge_shorter: "length (purge now q) \<le> length q"
  by (induction q) auto

lemma send_due_length: "length (snd (send_due now q)) = length q"
  by (induction q) (auto simp: Let_def split_beta)

lemma notice_next_shorter: "length (snd (notice_next now q)) \<le> length q"
  by (simp add: notice_next_def send_due_length purge_shorter)

lemma acknowledge_shorter: "length (snd (acknowledge i q)) \<le> length q"
  by (induction q) (auto simp: Let_def split_beta)

text \<open>\<open>follows c es c'\<close>: the events lead the specification from the progress of \<open>c\<close> to that of \<open>c'\<close>.\<close>

definition follows :: "official_camera \<Rightarrow> camera_event list \<Rightarrow> official_camera \<Rightarrow> bool" where
  "follows c es c' \<longleftrightarrow> camera_ok c' \<and> (\<forall>rest. accounted (progress_of c) (es @ rest) \<longleftrightarrow> accounted (progress_of c') rest)"

lemma follows_trans: "follows c es c' \<Longrightarrow> follows c' es' c'' \<Longrightarrow> follows c (es @ es') c''"
  by (simp add: follows_def)

lemma follows_quiet:
  assumes "camera_ok c" "oc_gate c' = oc_gate c" "(oc_io c' = None) = (oc_io c = None)" "oc_completion c' = oc_completion c"
    "oc_completionReady c' = oc_completionReady c" "oc_worker c' = oc_worker c" "length (oc_notifications c') \<le> length (oc_notifications c)"
  shows "follows c [] c'"
  using assms by (auto simp: follows_def camera_ok_def progress_of_def Let_def split: progress.splits if_splits)

lemma publish_follows: "camera_ok c \<Longrightarrow> case publish_completion c of (es, c') \<Rightarrow> follows c es c' \<and> \<not> oc_completionReady c'"
  by (auto simp: publish_completion_def follows_def camera_ok_def progress_of_def notice_push_def complete_def Let_def
      split: progress.splits if_splits)

lemma launch_follows:
  "camera_ok c \<Longrightarrow> \<not> oc_completionReady c \<Longrightarrow> spawn \<noteq> OutOfMemory \<Longrightarrow> case launch spawn c of (es, c') \<Rightarrow> follows c es c'"
  by (auto simp: launch_def follows_def camera_ok_def progress_of_def takePending_def Let_def split: progress.splits if_splits)

lemma step_follows:
  assumes "camera_ok c" "memory_ok op"
  shows "case camera_step J X E token dev op c of (es, c') \<Rightarrow> follows c es c'"
proof (cases op)
  case (SetBridgeUrl url)
  then show ?thesis using assms by (auto simp: camera_setBridgeUrl_def Let_def intro!: follows_quiet)
next
  case (StartCapture available now started i qual timeout)
  show ?thesis
    using assms purge_shorter [of now "oc_notifications c"]
    by (auto simp: StartCapture camera_start_def tryStart_def follows_def camera_ok_def progress_of_def Let_def
        split: progress.splits if_splits prod.splits)
next
  case (CancelCapture i)
  then show ?thesis
    using assms by (auto simp: camera_cancel_def follows_def camera_ok_def progress_of_def complete_def Let_def split: progress.splits if_splits)
next
  case (Completion now)
  then show ?thesis
    using assms notice_next_shorter [of now "oc_notifications c"] by (auto simp: camera_completion_def Let_def split_beta intro!: follows_quiet)
next
  case (Acknowledge i)
  then show ?thesis
    using assms acknowledge_shorter [of i "oc_notifications c"] by (auto simp: camera_acknowledge_def intro!: follows_quiet)
next
  case (UpdateCamera spawn)
  obtain es1 c1 where p: "publish_completion c = (es1, c1)" by force
  obtain es2 c2 where l: "launch spawn c1 = (es2, c2)" by force
  have f: "follows c es1 c1" "\<not> oc_completionReady c1" using publish_follows [OF assms(1)] by (simp_all add: p)
  then have "follows c1 es2 c2"
    using launch_follows [of c1 spawn] assms(2) by (simp add: l UpdateCamera follows_def)
  with f show ?thesis by (simp add: UpdateCamera camera_update_def p l follows_trans)
next
  case (WorkerEnds url threw w)
  then show ?thesis
    using assms run_capture_notice [OF refl, of J X E url token dev _ threw w]
    by (auto simp: worker_ends_def follows_def camera_ok_def progress_of_def Let_def split: progress.splits if_splits option.splits)
qed

lemma trace_accounted: "camera_ok c \<Longrightarrow> list_all memory_ok ops \<Longrightarrow> accounted (progress_of c) (camera_trace J X E token dev ops c)"
proof (induction ops arbitrary: c)
  case (Cons op ops)
  obtain es c' where s: "camera_step J X E token dev op c = (es, c')" by force
  then have "follows c es c'" using step_follows [of c op J X E token dev] Cons.prems by simp
  then show ?case using Cons.IH [of c'] Cons.prems s by (simp add: follows_def)
qed simp



text \<open>When there is no memory for the context, the cancellation frees the gate although the completion is
  still to be published: the capture accepted then is dropped without a notice.\<close>

lemma lost_after_out_of_memory:
  "camera_trace toy_receipts (\<lambda>v. []) toy_env ''token'' ''dev''
     [StartCapture True 0 0 ''12345678-1234-4234-8234-123456789abc'' 80 20000, UpdateCamera OutOfMemory,
      CancelCapture ''12345678-1234-4234-8234-123456789abc'',
      StartCapture True 0 0 ''12345678-1234-4234-8234-123456789abd'' 80 20000, UpdateCamera ThreadStarted, UpdateCamera ThreadStarted]
     (new_official_camera ''ws'')
   = [Accepted ''12345678-1234-4234-8234-123456789abc'', Launched ''12345678-1234-4234-8234-123456789abc'',
      Dropped ''12345678-1234-4234-8234-123456789abc'', Accepted ''12345678-1234-4234-8234-123456789abd'',
      Reported (new_CaptureCompletionNotice\<lparr>notice_captureId := ''12345678-1234-4234-8234-123456789abc'',
        notice_error := CameraCompletionError.InternalError, deadlineMs := 20000\<rparr>)]"
proof -
  have v: "camera_isValidUuid ''12345678-1234-4234-8234-123456789abc''" "camera_isValidUuid ''12345678-1234-4234-8234-123456789abd''"
    by code_simp+
  show ?thesis
    by (simp add: new_official_camera_def new_CameraCaptureGate_def camera_start_def tryStart_def v camera_update_def publish_completion_def
        launch_def takePending_def camera_cancel_def complete_def notice_push_def Let_def)
qed

end
