(* ===== verification/Capture_Network.thy ===== *)
theory Capture_Network
  imports Prelude
begin

text \<open>
  \<open>CaptureTcp\<close> of \<open>hal/capture_network.cpp\<close>: the connection of one capture upload, which polls a
  non-blocking socket until its deadline or its cancellation.

  The polling loops read a list of observations, one for each round: what the clock and the cancellation flag
  say, and what the socket call returned (a count, \<open>errno\<close> and the bytes).  The end of the list means that the
  call has not returned yet: \<open>None\<close>.  The error numbers of the platform are the parameter \<open>platform\<close>.
\<close>

record platform =
  e_again :: int
  e_wouldblock :: int
  e_intr :: int
  e_pipe :: int
  e_notconn :: int
  e_canceled :: int
  e_timedout :: int
  e_msgsize :: int
  tls_want_read :: int
  tls_want_write :: int

record observation =
  obs_cancelled :: bool
  obs_now :: u64
  obs_count :: int
  obs_errno :: int
  obs_bytes :: string

text \<open>\<open>on_wire\<close>, \<open>streamed\<close> and \<open>closings\<close> record what the socket accepted, what the stream callback was given and
  how often a live connection was closed.\<close>

record capture_tcp =
  tcp_secure :: bool
  tcp_connected :: bool
  io_deadline :: u64
  io_error :: int
  wire_bytes :: nat
  on_wire :: string
  streamed :: "string list"
  closings :: nat

definition tcp_fail :: "int \<Rightarrow> capture_tcp \<Rightarrow> capture_tcp" where
  "tcp_fail code t = t\<lparr>io_error := code\<rparr>"

definition expired :: "platform \<Rightarrow> observation \<Rightarrow> capture_tcp \<Rightarrow> bool \<times> capture_tcp" where
  "expired P ob t =
    (if obs_cancelled ob then (True, tcp_fail (e_canceled P) t)
     else if obs_now ob \<ge> io_deadline t then (True, tcp_fail (e_timedout P) t)
     else (False, t))"

definition wouldBlock :: "platform \<Rightarrow> bool \<Rightarrow> int \<Rightarrow> int \<Rightarrow> bool" where
  "wouldBlock P secure result err \<longleftrightarrow>
    (if secure then result = tls_want_read P \<or> result = tls_want_write P
     else result < 0 \<and> (err = e_again P \<or> err = e_wouldblock P \<or> err = e_intr P))"

definition tcp_Disconnect_capture :: "capture_tcp \<Rightarrow> capture_tcp" where
  "tcp_Disconnect_capture t =
    (let wasConnected = tcp_connected t; t = t\<lparr>tcp_connected := False\<rparr>
     in if wasConnected then t\<lparr>closings := closings t + 1\<rparr> else t)"

text \<open>The first component of the result says that the call returned -1 from inside the loop.\<close>

fun send_loop :: "platform \<Rightarrow> string \<Rightarrow> nat \<Rightarrow> observation list \<Rightarrow> capture_tcp \<Rightarrow> (bool \<times> nat \<times> observation list \<times> capture_tcp) option" where
  "send_loop P data sent obs t =
    (if sent \<ge> length data then Some (False, sent, obs, t)
     else case obs of
       [] \<Rightarrow> None
     | ob # obs \<Rightarrow>
        let (late, t) = expired P ob t; count = obs_count ob; err = obs_errno ob
        in if late then Some (False, sent, obs, t)
           else if count > 0 then
             send_loop P data (sent + nat count) obs
               (t\<lparr>wire_bytes := wire_bytes t + nat count, on_wire := on_wire t @ take (nat count) (drop sent data)\<rparr>)
           else if wouldBlock P (tcp_secure t) count err then send_loop P data sent obs t
           else Some (True, sent, obs, tcp_fail (if count = 0 then e_pipe P else if tcp_secure t then count else err) t))"

fun receiveResponse :: "platform \<Rightarrow> nat \<Rightarrow> observation list \<Rightarrow> capture_tcp \<Rightarrow> (bool \<times> observation list \<times> capture_tcp) option" where
  "receiveResponse P received [] t = None"
| "receiveResponse P received (ob # obs) t =
    (let (late, t) = expired P ob t; count = obs_count ob
     in if late then Some (False, obs, t)
        else if count > 0 then
          let received = received + nat count
          in if received > 8192 then Some (False, obs, tcp_fail (e_msgsize P) t)
             else receiveResponse P received obs (t\<lparr>streamed := streamed t @ [take (nat count) (obs_bytes ob)]\<rparr>)
        else if count = 0 then Some (received \<noteq> 0, obs, tcp_Disconnect_capture t)
        else if wouldBlock P (tcp_secure t) count (obs_errno ob) then receiveResponse P received obs t
        else Some (False, obs, tcp_fail (if tcp_secure t then count else obs_errno ob) t))"

definition ends_request :: "string \<Rightarrow> bool" where
  "ends_request data \<longleftrightarrow> take 4 data = ''GET '' \<or> data = ''0'' @ [CHR 13, CHR 10, CHR 13, CHR 10]"

definition capture_Send :: "platform \<Rightarrow> string \<Rightarrow> observation list \<Rightarrow> capture_tcp \<Rightarrow> (int \<times> observation list \<times> capture_tcp) option" where
  "capture_Send P data obs t =
    (if \<not> tcp_connected t then Some (- 1, obs, tcp_fail (e_notconn P) t)
     else case send_loop P data 0 obs t of
       None \<Rightarrow> None
     | Some (failed, sent, obs, t) \<Rightarrow>
        if failed then Some (- 1, obs, t)
        else if sent \<noteq> length data then Some (- 1, obs, t)
        else case obs of
          [] \<Rightarrow> None
        | ob # obs \<Rightarrow>
           let (late, t) = expired P ob t
           in if late then Some (- 1, obs, t)
              else if ends_request data then
                case receiveResponse P 0 obs t of
                  None \<Rightarrow> None
                | Some (ok, obs, t) \<Rightarrow> Some (if ok then int sent else - 1, obs, t)
              else Some (int sent, obs, t))"

section \<open>Properties\<close>

declare send_loop.simps [simp del]

lemma tcp_frame [simp]:
  "on_wire (tcp_fail c t) = on_wire t" "streamed (tcp_fail c t) = streamed t" "io_deadline (tcp_fail c t) = io_deadline t"
  "on_wire (tcp_Disconnect_capture t) = on_wire t" "streamed (tcp_Disconnect_capture t) = streamed t"
  by (simp_all add: tcp_fail_def tcp_Disconnect_capture_def Let_def)

lemma expired_cases:
  "(late, t') = expired P ob t \<Longrightarrow> on_wire t' = on_wire t \<and> streamed t' = streamed t \<and> io_deadline t' = io_deadline t
     \<and> (late \<longleftrightarrow> obs_cancelled ob \<or> io_deadline t \<le> obs_now ob)"
  by (auto simp: expired_def split: if_splits)

text \<open>What is on the wire is always a prefix of the data, and all of it when the loop ends with its length sent.\<close>

lemma send_loop_wire:
  assumes "send_loop P data sent obs t = Some (failed, sent', obs', t')" "on_wire t = w0 @ take sent data"
  shows "on_wire t' = w0 @ take sent' data \<and> streamed t' = streamed t \<and> io_deadline t' = io_deadline t \<and> (\<exists>used. obs = used @ obs')"
  using assms
proof (induction obs arbitrary: sent t)
  case Nil
  then show ?case by (auto simp: send_loop.simps [of P data sent "[]" t] split: if_splits)
next
  case (Cons ob obs)
  obtain late t1 where e: "expired P ob t = (late, t1)" by force
  note x = expired_cases [OF e [symmetric]]
  show ?case
  proof (cases "length data \<le> sent \<or> late")
    case True
    then show ?thesis using Cons.prems x by (auto simp: send_loop.simps [of P data sent "ob # obs" t] e split: if_splits)
  next
    case False
    let ?c = "nat (obs_count ob)"
    let ?t = "t1\<lparr>wire_bytes := wire_bytes t1 + ?c, on_wire := on_wire t1 @ take ?c (drop sent data)\<rparr>"
    have "on_wire ?t = w0 @ take (sent + ?c) data" using Cons.prems(2) x by (simp add: take_add)
    then show ?thesis
      using Cons.prems False x Cons.IH [of "sent + ?c" ?t] Cons.IH [of sent t1]
      by (auto simp: send_loop.simps [of P data sent "ob # obs" t] e Let_def split: if_splits)
  qed
qed

lemma receive_stream:
  "receiveResponse P received obs t = Some (ok, obs', t') \<Longrightarrow> received \<le> 8192
   \<Longrightarrow> on_wire t' = on_wire t \<and> (\<exists>new. streamed t' = streamed t @ new \<and> received + length (concat new) \<le> 8192)"
proof (induction obs arbitrary: received t)
  case (Cons ob obs)
  obtain late t1 where e: "expired P ob t = (late, t1)" by force
  note x = expired_cases [OF e [symmetric]]
  let ?c = "nat (obs_count ob)"
  let ?b = "take ?c (obs_bytes ob)"
  let ?t = "t1\<lparr>streamed := streamed t1 @ [?b]\<rparr>"
  show ?case
  proof (cases "\<not> late \<and> obs_count ob > 0 \<and> received + ?c \<le> 8192")
    case True
    then have "receiveResponse P (received + ?c) obs ?t = Some (ok, obs', t')" using Cons.prems(1) by (simp add: e Let_def)
    from Cons.IH [OF this] True obtain new where n: "on_wire t' = on_wire t" "streamed t' = streamed t @ ?b # new"
      "received + ?c + length (concat new) \<le> 8192"
      using x by auto
    then have "received + length (concat (?b # new)) \<le> 8192" by simp
    with n(1,2) show ?thesis by blast
  next
    case False
    then show ?thesis using Cons.prems x Cons.IH [of received t1] by (auto simp: e Let_def split: if_splits)
  qed
qed simp

text \<open>C34: Send on the socket of a capture returns the length of its data only when every byte was
  written in order, -1 after a prefix of them otherwise, and streams at most 8192 bytes of
  response.\<close>

theorem capture_send_complete:
  assumes "capture_Send P data obs t = Some (r, obs', t')"
  shows "(if r = - 1 then \<exists>k. on_wire t' = on_wire t @ take k data else r = int (length data) \<and> on_wire t' = on_wire t @ data)
     \<and> (\<exists>response. streamed t' = streamed t @ response \<and> length (concat response) \<le> 8192)"
proof (cases "tcp_connected t")
  case True
  obtain failed sent obs1 t1 where l: "send_loop P data 0 obs t = Some (failed, sent, obs1, t1)"
    using assms True by (auto simp: capture_Send_def split: option.splits)
  have w: "on_wire t1 = on_wire t @ take sent data" "streamed t1 = streamed t"
    using send_loop_wire [OF l, of "on_wire t"] by simp_all
  show ?thesis
  proof (cases "failed \<or> sent \<noteq> length data")
    case True
    then show ?thesis using assms \<open>tcp_connected t\<close> l w by (auto simp: capture_Send_def intro!: exI [of _ "[]"] split: if_splits)
  next
    case False
    then obtain ob obs2 where o: "obs1 = ob # obs2" using assms \<open>tcp_connected t\<close> l by (auto simp: capture_Send_def split: list.splits)
    obtain late t2 where e: "expired P ob t1 = (late, t2)" by force
    note x = expired_cases [OF e [symmetric]]
    have all: "on_wire t2 = on_wire t @ data" "streamed t2 = streamed t" using w x False by simp_all
    show ?thesis
    proof (cases "late \<or> \<not> ends_request data")
      case True
      then have "t' = t2" "r = - 1 \<or> r = int (length data)" using assms \<open>tcp_connected t\<close> l False o e
        by (auto simp: capture_Send_def split: if_splits)
      then show ?thesis using all by (auto intro: exI [of _ "length data"] exI [of _ "[]"])
    next
      case respond: False
      then obtain ok where r: "receiveResponse P 0 obs2 t2 = Some (ok, obs', t')" "r = (if ok then int (length data) else - 1)"
        using assms \<open>tcp_connected t\<close> l False o e by (auto simp: capture_Send_def split: option.splits)
      show ?thesis using receive_stream [OF r(1)] r(2) all by (auto intro: exI [of _ "length data"])
    qed
  qed
next
  case False
  then show ?thesis using assms by (auto simp: capture_Send_def intro: exI [of _ 0])
qed

text \<open>Once the deadline has passed, the call returns.\<close>

definition past :: "capture_tcp \<Rightarrow> observation \<Rightarrow> bool" where
  "past t ob \<longleftrightarrow> obs_cancelled ob \<or> io_deadline t \<le> obs_now ob"

lemma send_loop_returns:
  "past t ob \<Longrightarrow> \<exists>failed sent' obs' t'. send_loop P data sent (obs @ [ob]) t = Some (failed, sent', obs', t')
     \<and> (failed \<or> sent' < length data \<or> (\<exists>pre. obs' = pre @ [ob]))"
proof (induction obs arbitrary: sent t)
  case Nil
  then show ?case by (auto simp: send_loop.simps [of P data sent "[ob]" t] expired_def past_def)
next
  case (Cons o1 obs)
  obtain late t1 where e: "expired P o1 t = (late, t1)" by force
  note x = expired_cases [OF e [symmetric]]
  show ?case
    using Cons.prems x Cons.IH [of t1 sent] Cons.IH [of "t1\<lparr>wire_bytes := wire_bytes t1 + nat (obs_count o1),
        on_wire := on_wire t1 @ take (nat (obs_count o1)) (drop sent data)\<rparr>" "sent + nat (obs_count o1)"]
    by (auto simp: send_loop.simps [of P data sent "o1 # obs @ [ob]" t] e past_def Let_def)
qed

lemma receive_returns: "past t ob \<Longrightarrow> receiveResponse P received (obs @ [ob]) t \<noteq> None"
proof (induction obs arbitrary: received t)
  case Nil
  then show ?case by (auto simp: expired_def past_def)
next
  case (Cons o1 obs)
  obtain late t1 where e: "expired P o1 t = (late, t1)" by force
  note x = expired_cases [OF e [symmetric]]
  show ?case
    using Cons.prems x Cons.IH [of t1 received] Cons.IH [of "t1\<lparr>streamed := streamed t1 @ [take (nat (obs_count o1)) (obs_bytes o1)]\<rparr>" "received + nat (obs_count o1)"]
    by (auto simp: e past_def Let_def)
qed

text \<open>C35: Send on the socket of a capture returns whatever the socket does, as soon as one
  observation shows the capture cancelled or its deadline reached.\<close>

theorem capture_send_returns:
  assumes "obs_cancelled ob \<or> io_deadline t \<le> obs_now ob"
  shows "capture_Send P data (obs @ [ob]) t \<noteq> None"
proof (cases "tcp_connected t")
  case True
  have p: "past t ob" using assms by (simp add: past_def)
  obtain failed sent obs1 t1 where l: "send_loop P data 0 (obs @ [ob]) t = Some (failed, sent, obs1, t1)"
    and c: "failed \<or> sent < length data \<or> (\<exists>pre. obs1 = pre @ [ob])"
    using send_loop_returns [OF p, of P data 0 obs] by blast
  have d: "io_deadline t1 = io_deadline t" using send_loop_wire [OF l, of "on_wire t"] by simp
  show ?thesis
  proof (cases "failed \<or> sent \<noteq> length data")
    case False
    then obtain pre where pre: "obs1 = pre @ [ob]" using c by auto
    show ?thesis
    proof (cases pre)
      case Nil
      then show ?thesis using True l False pre p d by (auto simp: capture_Send_def expired_def past_def)
    next
      case (Cons o1 rest)
      obtain late t2 where e: "expired P o1 t1 = (late, t2)" by force
      have "past t2 ob" using expired_cases [OF e [symmetric]] p d by (simp add: past_def)
      then obtain r where "receiveResponse P 0 (rest @ [ob]) t2 = Some r" using receive_returns [of t2 ob P 0 rest] by blast
      then show ?thesis using True l False pre Cons e by (cases r) (simp add: capture_Send_def)
    qed
  qed (use True l in \<open>auto simp: capture_Send_def\<close>)
qed (simp add: capture_Send_def)

section \<open>Two bytes, one at a time\<close>

definition toy_platform :: platform where
  "toy_platform = \<lparr>e_again = 11, e_wouldblock = 11, e_intr = 4, e_pipe = 32, e_notconn = 128, e_canceled = 140, e_timedout = 116,
     e_msgsize = 122, tls_want_read = - 26880, tls_want_write = - 26752\<rparr>"

definition seen :: "u64 \<Rightarrow> int \<Rightarrow> observation" where
  "seen now count = \<lparr>obs_cancelled = False, obs_now = now, obs_count = count, obs_errno = 11, obs_bytes = []\<rparr>"

definition toy_tcp :: capture_tcp where
  "toy_tcp = \<lparr>tcp_secure = False, tcp_connected = True, io_deadline = 10, io_error = 0, wire_bytes = 0, on_wire = [], streamed = [], closings = 0\<rparr>"

lemma toy_send: "capture_Send toy_platform ''ab'' [seen 2 1, seen 3 (- 1), seen 4 1, seen 5 0] toy_tcp
    = Some (2, [], toy_tcp\<lparr>wire_bytes := 2, on_wire := ''ab''\<rparr>)"
  by (simp add: capture_Send_def toy_tcp_def toy_platform_def seen_def send_loop.simps expired_def wouldBlock_def ends_request_def)

lemma capture_send_complete_witness: "\<exists>t'. capture_Send toy_platform ''ab'' [seen 2 1, seen 3 (- 1), seen 4 1, seen 5 0] toy_tcp = Some (2, [], t')
    \<and> on_wire t' = on_wire toy_tcp @ ''ab''"
  using capture_send_complete [OF toy_send] toy_send by simp

lemma capture_send_returns_witness: "capture_Send toy_platform ''ab'' ([seen 2 1, seen 3 (- 1)] @ [seen 10 (- 1)]) toy_tcp \<noteq> None"
  by (rule capture_send_returns) (simp add: seen_def toy_tcp_def)

end
