(* ===== verification/Video_Ioctl.thy ===== *)
theory Video_Ioctl
  imports Prelude
begin

unbundle bit_operations_syntax

text \<open>
  The buffer operations of \<open>esp_video_ioctl.c\<close>: requesting, querying, mapping, queuing and dequeuing the
  buffers of a V4L2 stream.  The \<open>esp_video\<close> component below them is the parameter \<open>esp_video\<close>; the other
  commands only hand their argument to it.

  \<open>buf_m\<close> is the union of the offset and the user pointer, both 32 bits wide.
\<close>

datatype esp_err = ESP_OK | ESP_ERR_INVALID_ARG | ESP_ERR_TIMEOUT | ESP_ERR int

datatype v4l2_memory = MMAP | USERPTR | OTHER_MEMORY nat

datatype buf_flag = FLAG_ERROR | FLAG_DONE | FLAG_MAPPED

record v4l2_buffer =
  buf_type :: u32
  buf_index :: u32
  buf_memory :: v4l2_memory
  buf_m :: u32
  buf_length :: u32
  buf_bytesused :: u32
  buf_flags :: "buf_flag set"

record buffer_info =
  info_memory :: v4l2_memory
  info_count :: u32
  info_size :: u32

record element =
  element_index :: u32
  element_valid :: u32
  element_buffer :: u32

record 'w esp_video =
  setup_buffer :: "u32 \<Rightarrow> v4l2_memory \<Rightarrow> u32 \<Rightarrow> 'w \<Rightarrow> esp_err \<times> 'w"
  get_buffer_info :: "u32 \<Rightarrow> 'w \<Rightarrow> esp_err \<times> buffer_info"
  element_payload :: "u32 \<Rightarrow> u32 \<Rightarrow> 'w \<Rightarrow> u32"
  queue_index :: "u32 \<Rightarrow> u32 \<Rightarrow> 'w \<Rightarrow> esp_err \<times> 'w"
  queue_buffer :: "u32 \<Rightarrow> u32 \<Rightarrow> u32 \<Rightarrow> u32 \<Rightarrow> 'w \<Rightarrow> esp_err \<times> 'w"
  recv_element :: "u32 \<Rightarrow> u32 \<Rightarrow> 'w \<Rightarrow> element option \<times> 'w"

definition BUF_OFF :: "u32 \<Rightarrow> u32 \<Rightarrow> u32" where
  "BUF_OFF t i = push_bit 24 t + i"

definition BUF_OFF_2_INDEX :: "u32 \<Rightarrow> u32" where
  "BUF_OFF_2_INDEX off = off AND 0x00ffffff"

definition BUF_OFF_2_TYPE :: "u32 \<Rightarrow> u32" where
  "BUF_OFF_2_TYPE off = drop_bit 24 off"

definition ioctl_reqbufs :: "'w esp_video \<Rightarrow> u32 \<Rightarrow> v4l2_memory \<Rightarrow> u32 \<Rightarrow> 'w \<Rightarrow> esp_err \<times> 'w" where
  "ioctl_reqbufs V type memory count w =
    (if memory \<noteq> MMAP \<and> memory \<noteq> USERPTR then (ESP_ERR_INVALID_ARG, w)
     else if count = 0 then (ESP_ERR_INVALID_ARG, w)
     else setup_buffer V type memory count w)"

definition ioctl_querybuf :: "'w esp_video \<Rightarrow> v4l2_buffer \<Rightarrow> 'w \<Rightarrow> esp_err \<times> v4l2_buffer" where
  "ioctl_querybuf V vbuf w =
    (case get_buffer_info V (buf_type vbuf) w of (ret, info) \<Rightarrow>
        if ret \<noteq> ESP_OK then (ret, vbuf)
        else if buf_memory vbuf \<noteq> info_memory info \<or> buf_index vbuf \<ge> info_count info then (ESP_ERR_INVALID_ARG, vbuf)
        else
          let vbuf = vbuf\<lparr>buf_length := info_size info\<rparr>
          in (ESP_OK, if buf_memory vbuf = MMAP then vbuf\<lparr>buf_m := BUF_OFF (buf_type vbuf) (buf_index vbuf)\<rparr> else vbuf))"

text \<open>The type is cut to eight bits; \<open>Inr\<close> is the mapped pointer.\<close>

definition ioctl_mmap :: "'w esp_video \<Rightarrow> u32 \<Rightarrow> u32 \<Rightarrow> 'w \<Rightarrow> esp_err + u32" where
  "ioctl_mmap V offset len w =
    (let type = ucast (ucast (BUF_OFF_2_TYPE offset) :: u8); index = BUF_OFF_2_INDEX offset
     in case get_buffer_info V type w of (ret, info) \<Rightarrow>
        if ret \<noteq> ESP_OK then Inl ret
        else if info_memory info \<noteq> MMAP \<or> len > info_size info \<or> index \<ge> info_count info then Inl ESP_ERR_INVALID_ARG
        else Inr (element_payload V type index w))"

definition ioctl_qbuf :: "'w esp_video \<Rightarrow> v4l2_buffer \<Rightarrow> 'w \<Rightarrow> esp_err \<times> 'w" where
  "ioctl_qbuf V vbuf w =
    (case get_buffer_info V (buf_type vbuf) w of (ret, info) \<Rightarrow>
        if ret \<noteq> ESP_OK then (ret, w)
        else if buf_memory vbuf \<noteq> info_memory info \<or> buf_index vbuf \<ge> info_count info then (ESP_ERR_INVALID_ARG, w)
        else if info_memory info = USERPTR \<and> buf_m vbuf = 0 then (ESP_ERR_INVALID_ARG, w)
        else if info_memory info = MMAP then queue_index V (buf_type vbuf) (buf_index vbuf) w
        else queue_buffer V (buf_type vbuf) (buf_index vbuf) (buf_m vbuf) (buf_length vbuf) w)"

definition ioctl_dqbuf :: "'w esp_video \<Rightarrow> v4l2_buffer \<Rightarrow> u32 \<Rightarrow> 'w \<Rightarrow> esp_err \<times> v4l2_buffer \<times> 'w" where
  "ioctl_dqbuf V vbuf ticks w =
    (case get_buffer_info V (buf_type vbuf) w of (ret, info) \<Rightarrow>
        if ret \<noteq> ESP_OK then (ret, vbuf, w)
        else if buf_memory vbuf \<noteq> info_memory info then (ESP_ERR_INVALID_ARG, vbuf, w)
        else case recv_element V (buf_type vbuf) ticks w of
          (None, w) \<Rightarrow> (ESP_ERR_TIMEOUT, vbuf, w)
        | (Some e, w) \<Rightarrow>
           let vbuf = vbuf\<lparr>buf_flags := {}, buf_index := element_index e, buf_bytesused := element_valid e\<rparr>;
               vbuf = vbuf\<lparr>buf_flags := insert (if buf_bytesused vbuf = 0 then FLAG_ERROR else FLAG_DONE) (buf_flags vbuf)\<rparr>;
               vbuf = (if buf_memory vbuf \<noteq> USERPTR
                       then vbuf\<lparr>buf_m := element_buffer e, buf_flags := insert FLAG_MAPPED (buf_flags vbuf)\<rparr> else vbuf)
           in (ESP_OK, vbuf, w))"

text \<open>\<open>VIDIOC_DQBUF\<close> waits for ever, the added \<open>VIDIOC_CAPTURE_DQBUF\<close> for the ticks of its request.\<close>

datatype dequeue = DQBUF v4l2_buffer | CAPTURE_DQBUF v4l2_buffer u32

definition portMAX_DELAY :: u32 where
  "portMAX_DELAY = - 1"

definition ioctl_dequeue :: "'w esp_video \<Rightarrow> dequeue \<Rightarrow> 'w \<Rightarrow> esp_err \<times> v4l2_buffer \<times> 'w" where
  "ioctl_dequeue V c w =
    (case c of DQBUF vbuf \<Rightarrow> ioctl_dqbuf V vbuf portMAX_DELAY w | CAPTURE_DQBUF vbuf ticks \<Rightarrow> ioctl_dqbuf V vbuf ticks w)"

section \<open>Offsets name buffers\<close>

lemma buffer_offset:
  assumes "t < 256" "i < 2 ^ 24"
  shows "BUF_OFF_2_TYPE (BUF_OFF t i) = t" "BUF_OFF_2_INDEX (BUF_OFF t i) = i"
proof -
  have t: "unat t < 256" and i: "unat i < 16777216" using assms by (simp_all add: word_less_nat_alt)
  have p: "unat (push_bit 24 t) = unat t * 16777216"
    using t by (simp add: unsigned_push_bit_eq take_bit_nat_eq_self push_bit_nat_def)
  have s: "unat (BUF_OFF t i) = unat t * 16777216 + unat i"
    using t i by (simp add: BUF_OFF_def unat_word_ariths p)
  have "unat (BUF_OFF_2_TYPE (BUF_OFF t i)) = unat t"
    using i t by (simp add: BUF_OFF_2_TYPE_def unsigned_drop_bit_eq drop_bit_nat_def s take_bit_nat_eq_self)
  then show "BUF_OFF_2_TYPE (BUF_OFF t i) = t" by (rule unsigned_word_eqI)
  have m: "(0x00ffffff :: u32) = mask 24" by (simp add: mask_eq_exp_minus_1)
  have "BUF_OFF_2_INDEX (BUF_OFF t i) = take_bit 24 (BUF_OFF t i)" by (simp add: BUF_OFF_2_INDEX_def m take_bit_eq_mask)
  then have "unat (BUF_OFF_2_INDEX (BUF_OFF t i)) = unat i"
    using i by (simp add: unsigned_take_bit_eq s) (simp add: take_bit_nat_def)
  then show "BUF_OFF_2_INDEX (BUF_OFF t i) = i" by (rule unsigned_word_eqI)
qed

text \<open>The offset that a query returns maps the buffer that was queried.\<close>

theorem mapped_buffer_is_queried:
  assumes "ioctl_querybuf V vbuf w = (ESP_OK, q)" "buf_memory vbuf = MMAP" "buf_type vbuf < 256" "buf_index vbuf < 2 ^ 24"
  shows "ioctl_mmap V (buf_m q) (buf_length q) w = Inr (element_payload V (buf_type vbuf) (buf_index vbuf) w)"
proof -
  obtain info where info: "get_buffer_info V (buf_type vbuf) w = (ESP_OK, info)" "info_memory info = MMAP" "\<not> buf_index vbuf \<ge> info_count info"
    "q = vbuf\<lparr>buf_length := info_size info, buf_m := BUF_OFF (buf_type vbuf) (buf_index vbuf)\<rparr>"
    using assms(1,2) by (auto simp: ioctl_querybuf_def Let_def split: prod.splits if_splits)
  have small: "unat (ucast (ucast (buf_type vbuf) :: u8) :: u32) = unat (buf_type vbuf)"
    using assms(3) by (simp add: unsigned_ucast_eq unsigned_take_bit_eq take_bit_nat_eq_self word_less_nat_alt)
  have "ucast (ucast (buf_type vbuf) :: u8) = buf_type vbuf"
    using small by (rule unsigned_word_eqI)
  then show ?thesis using info buffer_offset [OF assms(3,4)] by (simp add: ioctl_mmap_def)
qed

definition toy_video :: "unit esp_video" where
  "toy_video =
    \<lparr>setup_buffer = (\<lambda>t m c w. (ESP_OK, w)), get_buffer_info = (\<lambda>t w. (ESP_OK, \<lparr>info_memory = MMAP, info_count = 4, info_size = 9\<rparr>)),
     element_payload = (\<lambda>t i w. 0x1000 + i), queue_index = (\<lambda>t i w. (ESP_OK, w)), queue_buffer = (\<lambda>t i p l w. (ESP_OK, w)),
     recv_element = (\<lambda>t ticks w. (None, w))\<rparr>"

lemma mapped_buffer_is_queried_witness: "ioctl_mmap toy_video (BUF_OFF 1 2) 9 () = Inr 0x1002"
proof -
  let ?b = "\<lparr>buf_type = 1, buf_index = 2, buf_memory = MMAP, buf_m = 0, buf_length = 0, buf_bytesused = 0, buf_flags = {}\<rparr>"
  have "ioctl_querybuf toy_video ?b () = (ESP_OK, ?b\<lparr>buf_length := 9, buf_m := BUF_OFF 1 2\<rparr>)"
    by (simp add: ioctl_querybuf_def toy_video_def)
  from mapped_buffer_is_queried [OF this] show ?thesis by (simp add: toy_video_def)
qed

end
