(* ===== verification/Local_Control.thy ===== *)
theory Local_Control
  imports Motion
begin

unbundle bit_operations_syntax

text \<open>
  The device on its own: the packets of the ESP-NOW remote control (\<open>hal/espnow_control.h\<close> for the receiver,
  \<open>apps/app_espnow_ctrl/app_espnow_ctrl.cpp\<close> for the sender), the queue of tasks that other threads hand to the
  main loop (\<open>hal/local_tasks.h\<close>), the power and application policies (\<open>hal/local_device_policy.h\<close>) and the
  confirmation of a new firmware image (\<open>hal/boot_confirmation.h\<close>).
\<close>

section \<open>Remote control\<close>

record EspNowControlPose =
  pose_yaw :: int
  pose_pitch :: int
  pose_speed :: int
  pose_laser :: bool

definition read_int16 :: "u8 list \<Rightarrow> nat \<Rightarrow> int" where
  "read_int16 data offset = sint (word_of_int (uint (data ! offset) OR push_bit 8 (uint (data ! (offset + 1)))) :: 16 word)"

text \<open>The result is the pose that the callback is given; \<open>None\<close> when the packet is refused.\<close>

definition applyEspNowControlPacket :: "u8 list \<Rightarrow> u8 \<Rightarrow> EspNowControlPose option" where
  "applyEspNowControlPacket data receiverId =
    (if length data < 8 \<or> (data ! 0 \<noteq> 0 \<and> data ! 0 \<noteq> receiverId) then None
     else Some \<lparr>pose_yaw = read_int16 data 1, pose_pitch = read_int16 data 3, pose_speed = read_int16 data 5,
                pose_laser = (data ! 7 \<noteq> 0)\<rparr>)"

text \<open>The laser is the second component of the state.\<close>

definition handle_received_data ::
  "'a toolkit \<Rightarrow> 'w servo_hal \<Rightarrow> u8 \<Rightarrow> u8 list \<Rightarrow> ('a, 'w) motion_state \<times> bool \<Rightarrow> ('a, 'w) motion_state \<times> bool" where
  "handle_received_data K H receiverId data = (\<lambda>(m, laser).
    case applyEspNowControlPacket data receiverId of
      None \<Rightarrow> (m, laser)
    | Some pose \<Rightarrow> (motion_moveWithSpeed K H (pose_yaw pose) (pose_pitch pose) (pose_speed pose) m, pose_laser pose))"

definition int16_bytes :: "16 word \<Rightarrow> u8 list" where
  "int16_bytes v = [word_of_int (sint v AND 0xFF), word_of_int (drop_bit 8 (sint v) AND 0xFF)]"

definition pose_packet :: "u8 \<Rightarrow> 16 word \<Rightarrow> 16 word \<Rightarrow> u8 list" where
  "pose_packet receiverId yaw_angle pitch_angle =
    [receiverId] @ int16_bytes yaw_angle @ int16_bytes pitch_angle @ int16_bytes 800 @ [0]"

text \<open>\<open>handle_send_pose\<close> at two readings of the clock: the packet sent, if any, and the time of the last one.\<close>

definition handle_send_pose :: "u32 \<Rightarrow> u32 \<Rightarrow> int \<Rightarrow> int \<Rightarrow> int \<Rightarrow> u32 \<Rightarrow> u8 list option \<times> u32" where
  "handle_send_pose now now' receiverId yaw pitch last_send_tick =
    (if now - last_send_tick < 50 then (None, last_send_tick)
     else (Some (pose_packet (word_of_int receiverId) (word_of_int yaw) (word_of_int pitch)), now'))"

lemma int16_roundtrip:
  assumes "int16_bytes v = [a, b]" "data ! k = a" "data ! (k + 1) = b"
  shows "read_int16 data k = sint v"
proof -
  have "a = word_of_int (sint v AND 0xFF)" "b = word_of_int (drop_bit 8 (sint v) AND 0xFF)" using assms(1) by (simp_all add: int16_bytes_def)
  moreover have m: "(0xFF :: int) = mask 8" by (simp add: mask_eq_exp_minus_1)
  ultimately have ab: "a = ucast v" "b = ucast (drop_bit 8 v)"
    by (auto simp: bit_eq_iff bit_simps m intro!: bit_word_eqI)
  have "(word_of_int (uint a OR push_bit 8 (uint b)) :: 16 word) = v"
    by (rule bit_word_eqI) (auto simp: ab bit_simps)
  then show ?thesis by (simp add: read_int16_def assms(2) assms(3) [simplified])
qed

theorem remote_pose_roundtrip:
  "handle_received_data K H receiverId (pose_packet target yaw_angle pitch_angle) (m, laser) =
    (if target = 0 \<or> target = receiverId then (motion_moveWithSpeed K H (sint yaw_angle) (sint pitch_angle) 800 m, False) else (m, laser))"
proof -
  define data where "data = pose_packet target yaw_angle pitch_angle"
  have d: "data ! 0 = target" "length data = 8" "data ! 7 = 0" by (simp_all add: data_def pose_packet_def int16_bytes_def)
  have "read_int16 data 1 = sint yaw_angle" "read_int16 data 3 = sint pitch_angle" "read_int16 data 5 = sint (800 :: 16 word)"
    by (rule int16_roundtrip [OF _ refl refl]; simp add: data_def pose_packet_def int16_bytes_def eval_nat_numeral)+
  then show ?thesis unfolding data_def [symmetric] by (simp add: handle_received_data_def applyEspNowControlPacket_def d)
qed

section \<open>LocalTasks\<close>

text \<open>An empty \<open>std::function\<close> is \<open>None\<close>.\<close>

definition local_schedule :: "'t option \<Rightarrow> 't list \<Rightarrow> bool \<times> 't list" where
  "local_schedule task tasks =
    (case task of
       None \<Rightarrow> (False, tasks)
     | Some t \<Rightarrow> if length tasks \<ge> 8 then (False, tasks) else (True, tasks @ [t]))"

definition local_runOne :: "'t list \<Rightarrow> 't option \<times> 't list" where
  "local_runOne tasks = (case tasks of [] \<Rightarrow> (None, []) | t # rest \<Rightarrow> (Some t, rest))"

datatype 't task_op = Schedule "'t option" | RunOne

text \<open>The tasks accepted, the tasks run and the queue that is left.\<close>

fun run_tasks :: "'t task_op list \<Rightarrow> 't list \<Rightarrow> 't list \<times> 't list \<times> 't list" where
  "run_tasks [] q = ([], [], q)"
| "run_tasks (Schedule t # ops) q =
    (let (ok, q) = local_schedule t q; (accepted, run, q) = run_tasks ops q
     in (if ok then the t # accepted else accepted, run, q))"
| "run_tasks (RunOne # ops) q =
    (let (t, q) = local_runOne q; (accepted, run, q) = run_tasks ops q
     in (accepted, (case t of None \<Rightarrow> run | Some t \<Rightarrow> t # run), q))"

lemma run_tasks_queue:
  "length q \<le> 8 \<Longrightarrow> case run_tasks ops q of (accepted, run, q') \<Rightarrow> q @ accepted = run @ q' \<and> length q' \<le> 8"
proof (induction ops arbitrary: q)
  case (Cons op ops)
  show ?case
  proof (cases op)
    case (Schedule t)
    show ?thesis
      using Cons.prems Cons.IH [of "snd (local_schedule t q)"]
      by (auto simp: Schedule local_schedule_def Let_def split: option.splits prod.splits if_splits)
  next
    case RunOne
    show ?thesis
      using Cons.prems Cons.IH [of "snd (local_runOne q)"]
      by (auto simp: RunOne local_runOne_def Let_def split: list.splits prod.splits)
  qed
qed simp

theorem tasks_run_in_order:
  "case run_tasks ops [] of (accepted, run, q) \<Rightarrow> accepted = run @ q \<and> length q \<le> 8"
  using run_tasks_queue [of "[]" ops] by (auto split: prod.splits)

section \<open>Policies\<close>

definition restoreAppIndex :: "string \<Rightarrow> string list \<Rightarrow> int" where
  "restoreAppIndex name installed =
    (if name = [] then - 1
     else case filter (\<lambda>i. name = installed ! i) [0..<length installed] of [] \<Rightarrow> - 1 | i # _ \<Rightarrow> int i)"

datatype IdlePowerState = Awake | Sleeping | Shutdown

definition powerSaveEnabled :: "bool \<Rightarrow> bool \<Rightarrow> bool \<Rightarrow> bool" where
  "powerSaveEnabled externalPower discharging allowWhenCharging \<longleftrightarrow> discharging \<or> (externalPower \<and> allowWhenCharging)"

definition idlePowerState :: "u32 \<Rightarrow> u32 \<Rightarrow> bool \<Rightarrow> bool \<Rightarrow> IdlePowerState" where
  "idlePowerState idleSeconds shutdownSeconds enabled busy =
    (if \<not> enabled \<or> busy then Awake
     else if shutdownSeconds > 0 \<and> idleSeconds \<ge> shutdownSeconds then Shutdown
     else if idleSeconds \<ge> 300 then Sleeping else Awake)"

text \<open>A deeper state is never left while the idle time grows.\<close>

fun depth :: "IdlePowerState \<Rightarrow> nat" where
  "depth Awake = 0" | "depth Sleeping = 1" | "depth Shutdown = 2"

lemma idle_power_monotone:
  "s \<le> t \<Longrightarrow> depth (idlePowerState s shutdown enabled busy) \<le> depth (idlePowerState t shutdown enabled busy)"
  by (auto simp: idlePowerState_def)

text \<open>The calls of the OTA library are the parameters: whether there is a running partition, the result and the
  state of its image, and the confirmation.\<close>

datatype image_state = Undefined | PendingVerify | OtherState nat
datatype ota_result = OtaOk | OtaNotFound | OtaNotSupported | OtaError int

definition confirm_running_image :: "bool \<Rightarrow> ota_result \<Rightarrow> image_state \<Rightarrow> ('s \<Rightarrow> ota_result \<times> 's) \<Rightarrow> 's \<Rightarrow> ota_result \<times> 's" where
  "confirm_running_image running result state mark_valid s =
    (if \<not> running then (OtaNotFound, s)
     else if result = OtaNotFound \<or> result = OtaNotSupported then (OtaOk, s)
     else if result \<noteq> OtaOk then (result, s)
     else if state \<noteq> PendingVerify then (OtaOk, s)
     else mark_valid s)"

end
