(* ===== verification/Animation.thy ===== *)
theory Animation
  imports Servo_Safety
begin

text \<open>
  What moves the face: the keyframe player of \<open>stackchan/animation\<close> (\<open>Timeline\<close>) and the blinking of the eyes
  (\<open>BlinkModifier\<close>), both driven by the 32-bit clock of the main loop.

  A keyframe matters here by its duration; what \<open>Keyframe::apply\<close> sets on the avatar and the servos is not
  repeated, \<open>applied\<close> records which keyframe was applied.
\<close>

section \<open>Timeline\<close>

datatype TimelineStatus = Idle | Playing | Paused | Finished

record Timeline =
  keyframe_durations :: "u32 list"
  tl_loop :: bool
  current_index :: nat
  tl_status :: TimelineStatus
  start_time :: u32
  elapsed_time :: u32
  applied :: "nat list"

definition new_Timeline :: "u32 list \<Rightarrow> bool \<Rightarrow> Timeline" where
  "new_Timeline durations repeat =
    \<lparr>keyframe_durations = durations, tl_loop = repeat, current_index = 0, tl_status = Idle, start_time = 0, elapsed_time = 0, applied = []\<rparr>"

definition apply_current_keyframe :: "Timeline \<Rightarrow> Timeline" where
  "apply_current_keyframe t =
    (if current_index t < length (keyframe_durations t) then t\<lparr>applied := applied t @ [current_index t]\<rparr> else t)"

definition timeline_start :: "u32 \<Rightarrow> Timeline \<Rightarrow> Timeline" where
  "timeline_start now t =
    (if keyframe_durations t = [] then t\<lparr>tl_status := Finished\<rparr>
     else apply_current_keyframe (t\<lparr>current_index := 0, tl_status := Playing, start_time := now\<rparr>))"

definition timeline_stop :: "Timeline \<Rightarrow> Timeline" where
  "timeline_stop t = t\<lparr>tl_status := Idle, current_index := 0\<rparr>"

definition timeline_pause :: "u32 \<Rightarrow> Timeline \<Rightarrow> Timeline" where
  "timeline_pause now t =
    (if tl_status t = Playing then t\<lparr>tl_status := Paused, elapsed_time := now - start_time t\<rparr> else t)"

definition timeline_resume :: "u32 \<Rightarrow> Timeline \<Rightarrow> Timeline" where
  "timeline_resume now t =
    (if tl_status t = Paused then t\<lparr>tl_status := Playing, start_time := now - elapsed_time t\<rparr> else t)"

definition timeline_update :: "u32 \<Rightarrow> Timeline \<Rightarrow> Timeline" where
  "timeline_update now t =
    (if tl_status t \<noteq> Playing then t
     else if keyframe_durations t = [] then t\<lparr>tl_status := Finished\<rparr>
     else if now - start_time t \<ge> keyframe_durations t ! current_index t then
       let t = t\<lparr>current_index := current_index t + 1\<rparr>
       in if current_index t \<ge> length (keyframe_durations t) \<and> \<not> tl_loop t then t\<lparr>tl_status := Finished\<rparr>
          else
            let t = (if current_index t \<ge> length (keyframe_durations t) then t\<lparr>current_index := 0\<rparr> else t)
            in apply_current_keyframe (t\<lparr>start_time := now\<rparr>)
     else t)"

definition setLoop :: "bool \<Rightarrow> Timeline \<Rightarrow> Timeline" where
  "setLoop repeat t = t\<lparr>tl_loop := repeat\<rparr>"

text \<open>A pause of any length, over a wrap of the clock or not, keeps the time left of the keyframe.\<close>

lemma pause_keeps_elapsed:
  "tl_status t = Playing \<Longrightarrow> now' - start_time (timeline_resume now' (timeline_pause now t)) = now - start_time t
     \<and> tl_status (timeline_resume now' (timeline_pause now t)) = Playing"
  by (simp add: timeline_resume_def timeline_pause_def)

datatype timeline_op = UpdateAt u32 | PauseAt u32 | ResumeAt u32

fun timeline_step :: "timeline_op \<Rightarrow> Timeline \<Rightarrow> Timeline" where
  "timeline_step (UpdateAt now) t = timeline_update now t"
| "timeline_step (PauseAt now) t = timeline_pause now t"
| "timeline_step (ResumeAt now) t = timeline_resume now t"

text \<open>\<open>n\<close> keyframes were applied: the first ones in order, over and over in a loop.\<close>

definition played :: "nat \<Rightarrow> Timeline \<Rightarrow> bool" where
  "played n t \<longleftrightarrow> (let k = length (keyframe_durations t) in
     applied t = map (\<lambda>i. i mod k) [0..<n] \<and> 0 < k \<and> 0 < n \<and> (\<not> tl_loop t \<longrightarrow> n \<le> k)
     \<and> (if tl_status t = Finished then \<not> tl_loop t \<and> n = k else current_index t = (n - 1) mod k))"

lemma played_simps:
  assumes "played n t"
  shows "keyframe_durations t \<noteq> []" "0 < n" "\<not> tl_loop t \<Longrightarrow> n \<le> length (keyframe_durations t)"
    "applied t = map (\<lambda>i. i mod length (keyframe_durations t)) [0..<n]"
    "tl_status t \<noteq> Finished \<Longrightarrow> current_index t = (n - 1) mod length (keyframe_durations t)"
  using assms by (auto simp: played_def Let_def)

text \<open>A keyframe that has run its time is followed by the next one, or ends the sequence.\<close>

lemma update_due:
  assumes "tl_status t = Playing" "keyframe_durations t \<noteq> []" "now - start_time t \<ge> keyframe_durations t ! current_index t"
    "current_index t < length (keyframe_durations t)"
  shows "timeline_update now t =
    (if Suc (current_index t) = length (keyframe_durations t) \<and> \<not> tl_loop t
     then t\<lparr>current_index := length (keyframe_durations t), tl_status := Finished\<rparr>
     else let i = Suc (current_index t) mod length (keyframe_durations t)
          in t\<lparr>current_index := i, start_time := now, applied := applied t @ [i]\<rparr>)"
proof (cases "Suc (current_index t) = length (keyframe_durations t)")
  case True
  then show ?thesis using assms by (simp add: timeline_update_def apply_current_keyframe_def Let_def)
next
  case False
  then have "Suc (current_index t) < length (keyframe_durations t)" using assms(4) by simp
  then show ?thesis using assms by (simp add: timeline_update_def apply_current_keyframe_def Let_def)
qed

lemma update_not_due:
  assumes "\<not> (tl_status t = Playing \<and> now - start_time t \<ge> keyframe_durations t ! current_index t)" "keyframe_durations t \<noteq> []"
  shows "timeline_update now t = t"
  using assms unfolding timeline_update_def by (cases "tl_status t = Playing") simp_all

lemma played_update:
  assumes "played n t"
  shows "\<exists>m. played m (timeline_update now t)"
proof (cases "tl_status t = Playing \<and> now - start_time t \<ge> keyframe_durations t ! current_index t")
  case False
  then show ?thesis using update_not_due [OF False played_simps(1) [OF assms]] assms by auto
next
  case go: True
  define k where "k = length (keyframe_durations t)"
  have k: "0 < k" "0 < n" "current_index t = (n - 1) mod k" "\<not> tl_loop t \<Longrightarrow> n \<le> k" "applied t = map (\<lambda>i. i mod k) [0..<n]"
    using played_simps [OF assms] go by (simp_all add: k_def)
  have u: "timeline_update now t =
      (if Suc ((n - 1) mod k) = k \<and> \<not> tl_loop t then t\<lparr>current_index := k, tl_status := Finished\<rparr>
       else t\<lparr>current_index := n mod k, start_time := now, applied := applied t @ [n mod k]\<rparr>)"
    using update_due [of t now] go k(1,2,3) played_simps(1) [OF assms] mod_Suc_eq [of "n - 1" k]
    by (simp add: k_def [symmetric] Let_def)
  show ?thesis
  proof (cases "Suc ((n - 1) mod k) = k \<and> \<not> tl_loop t")
    case True
    then have "n - 1 < k" using k(2,4) by simp
    then have "n = k" using True k(2) by simp
    then have "played n (timeline_update now t)"
      using True k unfolding u by (simp add: played_def k_def [symmetric])
    then show ?thesis by blast
  next
    case False
    have "Suc n \<le> k" if "\<not> tl_loop t"
    proof -
      have "n - 1 < k" using k(2,4) that by simp
      then show ?thesis using False that k(2) by simp
    qed
    then have "played (Suc n) (timeline_update now t)"
      using False k go played_simps(1) [OF assms] unfolding u by (simp add: played_def k_def [symmetric])
    then show ?thesis by blast
  qed
qed

lemma played_step: "played n t \<Longrightarrow> \<exists>m. played m (timeline_step op t)"
proof (cases op)
  case (PauseAt now)
  assume "played n t"
  then have "played n (timeline_pause now t)" by (simp add: played_def timeline_pause_def Let_def)
  then show ?thesis using PauseAt by auto
next
  case (ResumeAt now)
  assume "played n t"
  then have "played n (timeline_resume now t)" by (simp add: played_def timeline_resume_def Let_def)
  then show ?thesis using ResumeAt by auto
qed (simp add: played_update)

theorem keyframes_in_order:
  assumes "durations \<noteq> []"
  shows "\<exists>n. played n (fold timeline_step ops (timeline_start now (new_Timeline durations repeat)))"
proof -
  have "played n t \<Longrightarrow> \<exists>m. played m (fold timeline_step ops t)" for n t
  proof (induction ops arbitrary: n t)
    case (Cons op ops)
    then obtain m where "played m (timeline_step op t)" using played_step by blast
    then show ?case using Cons.IH by simp
  qed auto
  moreover have "played 1 (timeline_start now (new_Timeline durations repeat))"
    using assms by (auto simp: played_def timeline_start_def new_Timeline_def apply_current_keyframe_def Let_def Suc_le_eq)
  ultimately show ?thesis by blast
qed

lemma keyframes_in_order_witness:
  "\<exists>n. played n (fold timeline_step [UpdateAt 60, PauseAt 70, ResumeAt 500, UpdateAt 550] (timeline_start 10 (new_Timeline [50, 40] True)))"
  by (rule keyframes_in_order) simp

section \<open>BlinkModifier\<close>

datatype eye_state = OPEN | CLOSED

text \<open>The weights of the eyes; \<open>Feature::setWeight\<close> clamps.\<close>

record face =
  has_avatar :: bool
  modify_locked :: bool
  left_weight :: int
  right_weight :: int

record BlinkModifier =
  blink_state :: eye_state
  next_state_tick :: u32
  open_interval_ms :: u32
  close_interval_ms :: u32
  destroy_at :: u32
  has_lifetime :: bool
  needs_resync :: bool
  left_eye_weight :: int
  right_eye_weight :: int
  blink_destroyed :: bool

definition new_BlinkModifier :: "u32 \<Rightarrow> u32 \<Rightarrow> u32 \<Rightarrow> u32 \<Rightarrow> BlinkModifier" where
  "new_BlinkModifier now destroyAfterMs openIntervalMs closeIntervalMs =
    \<lparr>blink_state = OPEN, next_state_tick = now + openIntervalMs, open_interval_ms = openIntervalMs, close_interval_ms = closeIntervalMs,
     destroy_at = (if destroyAfterMs > 0 then now + destroyAfterMs else 0), has_lifetime = (destroyAfterMs > 0), needs_resync = False,
     left_eye_weight = 100, right_eye_weight = 100, blink_destroyed = False\<rparr>"

definition resyncEyeWeights :: "BlinkModifier \<Rightarrow> BlinkModifier" where
  "resyncEyeWeights b = b\<lparr>needs_resync := True\<rparr>"

definition apply_eye_weights :: "'a toolkit \<Rightarrow> int \<Rightarrow> int \<Rightarrow> face \<Rightarrow> face" where
  "apply_eye_weights K l r f = f\<lparr>left_weight := uitk_clamp K l 0 100, right_weight := uitk_clamp K r 0 100\<rparr>"

definition blink_update :: "'a toolkit \<Rightarrow> u32 \<Rightarrow> u32 \<Rightarrow> BlinkModifier \<times> face \<Rightarrow> BlinkModifier \<times> face" where
  "blink_update K now jitter = (\<lambda>(b, f).
    if \<not> has_avatar f \<or> modify_locked f then (b, f)
    else if has_lifetime b \<and> now \<ge> destroy_at b then
      (b\<lparr>blink_destroyed := True\<rparr>,
       if blink_state b = CLOSED then apply_eye_weights K (left_eye_weight b) (right_eye_weight b) f else f)
    else
      let b = (if needs_resync b
               then b\<lparr>needs_resync := False, left_eye_weight := left_weight f, right_eye_weight := right_weight f\<rparr> else b)
      in if now \<ge> next_state_tick b then
           if blink_state b = OPEN then
             let b = b\<lparr>blink_state := CLOSED, next_state_tick := now + close_interval_ms b,
                       left_eye_weight := left_weight f, right_eye_weight := right_weight f\<rparr>
             in (b, apply_eye_weights K 25 25 f)
           else
             (b\<lparr>blink_state := OPEN, next_state_tick := now + open_interval_ms b + jitter\<rparr>,
              apply_eye_weights K (left_eye_weight b) (right_eye_weight b) f)
         else (b, f))"

text \<open>While nobody else sets the weights or asks for them to be read again, an open eye has its own weight.\<close>

definition blink_ok :: "int \<Rightarrow> int \<Rightarrow> BlinkModifier \<times> face \<Rightarrow> bool" where
  "blink_ok l r = (\<lambda>(b, f). \<not> needs_resync b
     \<and> (if blink_state b = CLOSED \<and> \<not> blink_destroyed b then left_weight f = 25 \<and> right_weight f = 25 \<and> left_eye_weight b = l \<and> right_eye_weight b = r
        else left_weight f = l \<and> right_weight f = r))"

fun run_blink :: "'a toolkit \<Rightarrow> (u32 \<times> u32) list \<Rightarrow> BlinkModifier \<times> face \<Rightarrow> BlinkModifier \<times> face" where
  "run_blink K [] s = s"
| "run_blink K ((now, jitter) # ts) s =
    (let s = blink_update K now jitter s in if blink_destroyed (fst s) then s else run_blink K ts s)"

lemma clamp_id: "clamp_ok K \<Longrightarrow> lo \<le> x \<Longrightarrow> x \<le> hi \<Longrightarrow> uitk_clamp K x lo hi = x"
  unfolding clamp_ok_def Let_def by (drule spec [of _ x], drule spec [of _ lo], drule spec [of _ hi]) (auto split: if_splits)

lemma blink_update_ok:
  assumes "clamp_ok K" "0 \<le> l" "l \<le> 100" "0 \<le> r" "r \<le> 100" "blink_ok l r s" "\<not> blink_destroyed (fst s)"
  shows "blink_ok l r (blink_update K now jitter s)"
proof -
  obtain b f where s: "s = (b, f)" by (cases s)
  have c: "uitk_clamp K 25 0 100 = 25" "uitk_clamp K l 0 100 = l" "uitk_clamp K r 0 100 = r"
    using assms(1-5) by (simp_all add: clamp_id)
  show ?thesis
  proof (cases "blink_state b")
    case OPEN
    then show ?thesis using assms(6,7) c by (simp add: s blink_ok_def blink_update_def apply_eye_weights_def)
  next
    case CLOSED
    then show ?thesis using assms(6,7) c by (simp add: s blink_ok_def blink_update_def apply_eye_weights_def)
  qed
qed

lemma run_blink_ok:
  assumes "clamp_ok K" "0 \<le> l" "l \<le> 100" "0 \<le> r" "r \<le> 100"
  shows "blink_ok l r s \<Longrightarrow> \<not> blink_destroyed (fst s) \<Longrightarrow> blink_ok l r (run_blink K ts s)"
proof (induction ts arbitrary: s)
  case (Cons t ts)
  obtain now j where t: "t = (now, j)" by (cases t)
  have "blink_ok l r (blink_update K now j s)" using blink_update_ok [OF assms Cons.prems] .
  then show ?case using Cons.IH by (simp add: t Let_def)
qed simp

theorem blinking_restores_weights:
  assumes "clamp_ok K" "0 \<le> left_weight f" "left_weight f \<le> 100" "0 \<le> right_weight f" "right_weight f \<le> 100"
    and "run_blink K ts (new_BlinkModifier now life open_ms close_ms, f) = (b, f')"
  shows "if blink_state b = CLOSED \<and> \<not> blink_destroyed b then left_weight f' = 25 \<and> right_weight f' = 25
     else left_weight f' = left_weight f \<and> right_weight f' = right_weight f"
proof -
  let ?b = "new_BlinkModifier now life open_ms close_ms"
  have "blink_ok (left_weight f) (right_weight f) (?b, f)" "\<not> blink_destroyed (fst (?b, f))"
    by (simp_all add: blink_ok_def new_BlinkModifier_def)
  from run_blink_ok [OF assms(1-5) this, of ts] have "blink_ok (left_weight f) (right_weight f) (b, f')"
    using assms(6) by simp
  then show ?thesis by (auto simp: blink_ok_def split: if_splits)
qed

text \<open>The ticks are compared without regard to the wrap of the clock: eyes that close so shortly before it that
  the next update comes after it stay closed until the clock is back there, 49 days later.\<close>

lemma closed_until_wrap:
  assumes "has_avatar f" "\<not> modify_locked f" "\<not> has_lifetime b" "\<not> needs_resync b" "blink_state b = CLOSED" "list_all (\<lambda>(now, j). now < next_state_tick b) ts"
  shows "fold (\<lambda>(now, j). blink_update K now j) ts (b, f) = (b, f)"
  using assms(6) by (induction ts) (use assms(1-5) in \<open>auto simp: blink_update_def\<close>)

end
