(* ===== verification/Avatar.thy ===== *)
theory Avatar
  imports Object_Pool Motion
begin

text \<open>
  The face: \<open>stackchan/avatar/avatar/avatar.h\<close> with its elements (\<open>element.h\<close>, \<open>feature.h\<close>, \<open>speech_bubble.h\<close>), the
  eyes of the default skin (\<open>skins/default/eyes.cpp\<close>) and the decorators (\<open>decorators/*.cpp\<close>).

  A feature is what its getters return; what it draws is a function of that, except for the rotation, which
  is drawn as it was given (\<open>f_drawn_rotation\<close>).  A decorator is its kind, its lifetime and the frame of its
  animation.  \<open>'z\<close> of \<open>ObjectPool\<close> is here the extension of \<open>Poolable\<close> to a decorator.
\<close>

section \<open>Elements\<close>

datatype Emotion = Neutral | Happy | Angry | Sad | Doubt | Sleepy

record Feature =
  f_position :: Vector2i
  f_rotation :: int
  f_drawn_rotation :: int
  f_visible :: bool
  f_ignore_emotion :: bool
  f_weight :: int
  f_size :: int

definition setPosition :: "'a toolkit \<Rightarrow> Vector2i \<Rightarrow> Feature \<Rightarrow> Feature" where
  "setPosition K p f = f\<lparr>f_position := \<lparr>vec_x = uitk_clamp K (vec_x p) (- 100) 100, vec_y = uitk_clamp K (vec_y p) (- 100) 100\<rparr>\<rparr>"

definition setRotation :: "'a toolkit \<Rightarrow> int \<Rightarrow> Feature \<Rightarrow> Feature" where
  "setRotation K r f = f\<lparr>f_rotation := uitk_clamp K r 0 3600, f_drawn_rotation := r\<rparr>"

definition setVisible :: "bool \<Rightarrow> Feature \<Rightarrow> Feature" where
  "setVisible v f = f\<lparr>f_visible := v\<rparr>"

definition setIgnoreEmotion :: "bool \<Rightarrow> Feature \<Rightarrow> Feature" where
  "setIgnoreEmotion v f = f\<lparr>f_ignore_emotion := v\<rparr>"

definition setWeight :: "'a toolkit \<Rightarrow> int \<Rightarrow> Feature \<Rightarrow> Feature" where
  "setWeight K w f = f\<lparr>f_weight := uitk_clamp K w 0 100\<rparr>"

definition setSize :: "'a toolkit \<Rightarrow> int \<Rightarrow> Feature \<Rightarrow> Feature" where
  "setSize K s f = f\<lparr>f_size := uitk_clamp K s (- 100) 100\<rparr>"

text \<open>The eyes set their weight again, to move the lid.\<close>

definition eye_setSize :: "'a toolkit \<Rightarrow> int \<Rightarrow> Feature \<Rightarrow> Feature" where
  "eye_setSize K s f = (let f = setSize K s f in setWeight K (f_weight f) f)"

fun emotion_style :: "Emotion \<Rightarrow> int \<times> int" where
  "emotion_style Neutral = (100, 0)"
| "emotion_style Happy = (72, 1550)"
| "emotion_style Angry = (70, 450)"
| "emotion_style Sad = (70, - 400)"
| "emotion_style Doubt = (75, 0)"
| "emotion_style Sleepy = (35, - 50)"

definition eye_setEmotion :: "'a toolkit \<Rightarrow> bool \<Rightarrow> Emotion \<Rightarrow> Feature \<Rightarrow> Feature" where
  "eye_setEmotion K is_left_eye e f =
    (if f_ignore_emotion f then f
     else let (weight, rotation) = emotion_style e
     in setRotation K (if is_left_eye then rotation else - rotation) (setWeight K weight f))"

section \<open>Decorators\<close>

datatype decorator_kind = Heart | AngryMark | Sweat | Shy | Dizzy

record Decorator = Poolable +
  dec_kind :: decorator_kind
  dec_destroy_at :: u32
  dec_next_animation_tick :: u32
  dec_animation_interval_ms :: u32
  dec_has_lifetime :: bool
  dec_animation_index :: nat

definition new_Decorator :: "u32 \<Rightarrow> decorator_kind \<Rightarrow> u32 \<Rightarrow> u32 \<Rightarrow> Decorator" where
  "new_Decorator now kind destroyAfterMs animationIntervalMs =
    \<lparr>destroy_requested = False, dec_kind = kind, dec_destroy_at = (if destroyAfterMs > 0 then now + destroyAfterMs else 0),
     dec_next_animation_tick = (if animationIntervalMs > 0 then now + animationIntervalMs else 0),
     dec_animation_interval_ms = animationIntervalMs, dec_has_lifetime = (destroyAfterMs > 0), dec_animation_index = 0\<rparr>"

fun next_frame_index :: "decorator_kind \<Rightarrow> nat \<Rightarrow> nat" where
  "next_frame_index Heart i = (i + 1) mod 2"
| "next_frame_index AngryMark i = (i + 1) mod 2"
| "next_frame_index Sweat i = (i + 1) mod 5"
| "next_frame_index Shy i = i"
| "next_frame_index Dizzy i = (i + 300) mod 3600"

definition decorator_update :: "u32 \<Rightarrow> Decorator \<Rightarrow> Decorator" where
  "decorator_update now d =
    (if dec_has_lifetime d \<and> now \<ge> dec_destroy_at d then requestDestroy d
     else if dec_animation_interval_ms d > 0 \<and> now \<ge> dec_next_animation_tick d then
       d\<lparr>dec_next_animation_tick := now + dec_animation_interval_ms d, dec_animation_index := next_frame_index (dec_kind d) (dec_animation_index d)\<rparr>
     else d)"

section \<open>Avatar\<close>

record Avatar =
  av_emotion :: Emotion
  left_eye :: Feature
  right_eye :: Feature
  mouth :: Feature
  has_bubble :: bool
  bubble_text :: "string option"
  decorators :: "unit Decorator_ext ObjectPool"
  avatar_locked :: bool

text \<open>Every decorator reads the clock itself.  The elements of the default skin have no \<open>_update\<close> of their own.\<close>

definition avatar_update :: "(int \<Rightarrow> u32) \<Rightarrow> Avatar \<Rightarrow> Avatar" where
  "avatar_update clock a = a\<lparr>decorators := cleanup (forEach (\<lambda>d i. decorator_update (clock i) d) (decorators a))\<rparr>"

definition avatar_setEmotion :: "'a toolkit \<Rightarrow> Emotion \<Rightarrow> Avatar \<Rightarrow> Avatar" where
  "avatar_setEmotion K e a =
    a\<lparr>av_emotion := e, left_eye := eye_setEmotion K True e (left_eye a), right_eye := eye_setEmotion K False e (right_eye a)\<rparr>"

definition setSpeech :: "string \<Rightarrow> Avatar \<Rightarrow> Avatar" where
  "setSpeech t a = (if has_bubble a then a\<lparr>bubble_text := Some t\<rparr> else a)"

definition clearSpeech :: "Avatar \<Rightarrow> Avatar" where
  "clearSpeech a = (if has_bubble a then a\<lparr>bubble_text := None\<rparr> else a)"

definition avatar_setModifyLock :: "bool \<Rightarrow> Avatar \<Rightarrow> Avatar" where
  "avatar_setModifyLock locked a = a\<lparr>avatar_locked := locked\<rparr>"

definition addDecorator :: "Decorator \<Rightarrow> Avatar \<Rightarrow> int \<times> Avatar" where
  "addDecorator d a = (let (i, p) = create (Some d) (decorators a) in (i, a\<lparr>decorators := p\<rparr>))"

definition removeDecorator :: "int \<Rightarrow> Avatar \<Rightarrow> bool \<times> Avatar" where
  "removeDecorator i a = (let (found, p) = destroy i (decorators a) in (found, a\<lparr>decorators := p\<rparr>))"

definition clearDecorators :: "Avatar \<Rightarrow> Avatar" where
  "clearDecorators a = a\<lparr>decorators := clear (decorators a)\<rparr>"

text \<open>The decorator with identifier \<open>i\<close>.\<close>

definition decorator :: "Avatar \<Rightarrow> int \<Rightarrow> Decorator option" where
  "decorator a i = get i (decorators a)"

definition avatar_ok :: "Avatar \<Rightarrow> bool" where
  "avatar_ok a \<longleftrightarrow> pool_ok (decorators a)"

text \<open>The laws of the pool for the decorators of an avatar.\<close>

lemma add_decorator:
  assumes "avatar_ok a" "addDecorator d a = (i, a')"
  shows "avatar_ok a'" "decorator a i = None" "decorator a' = (decorator a)(i := Some d)" "0 \<le> i"
    "\<exists>p. a' = a\<lparr>decorators := p\<rparr>"
proof -
  obtain p where p: "create (Some d) (decorators a) = (i, p)" "a' = a\<lparr>decorators := p\<rparr>"
    using assms(2) by (auto simp: addDecorator_def split: prod.splits)
  have ok: "pool_ok (decorators a)" using assms(1) by (simp add: avatar_ok_def)
  show "avatar_ok a'" using pool.add_ok [OF ok, of d] by (simp add: avatar_ok_def p)
  show "decorator a i = None" using pool.add_fresh [OF ok, of d] by (simp add: decorator_def p)
  show "decorator a' = (decorator a)(i := Some d)" using pool.lookup_add [OF ok, of _ d] by (auto simp: decorator_def p)
  show "0 \<le> i" using get_create(3) [OF ok, of d] by (simp add: p)
  show "\<exists>p. a' = a\<lparr>decorators := p\<rparr>" using p by blast
qed

lemma remove_decorator:
  assumes "avatar_ok a" "removeDecorator i a = (found, a')"
  shows "avatar_ok a'" "decorator a' = (decorator a)(i := None)" "found \<longleftrightarrow> decorator a i \<noteq> None"
    "\<exists>p. a' = a\<lparr>decorators := p\<rparr>"
proof -
  obtain p where p: "destroy i (decorators a) = (found, p)" "a' = a\<lparr>decorators := p\<rparr>"
    using assms(2) by (auto simp: removeDecorator_def split: prod.splits)
  have ok: "pool_ok (decorators a)" using assms(1) by (simp add: avatar_ok_def)
  show "avatar_ok a'" using pool.remove_ok [OF ok, of i] by (simp add: avatar_ok_def p)
  show "decorator a' = (decorator a)(i := None)" using pool.lookup_remove [OF ok, of _ i] by (auto simp: decorator_def p)
  show "found \<longleftrightarrow> decorator a i \<noteq> None" using pool.remove_reports [OF ok, of i] by (simp add: decorator_def p)
  show "\<exists>p. a' = a\<lparr>decorators := p\<rparr>" using p by blast
qed

end
