(* ===== verification/Modifiers.thy ===== *)
theory Modifiers
  imports Avatar
begin

text \<open>
  What makes the robot look alive, \<open>stackchan/modifiers\<close>: modifiers that show something for a while, breathe,
  move the mouth and the head while speaking, and move on their own when idle.

  A modifier works on the avatar and the head.  The random numbers are a parameter: \<open>getInt R n a b\<close> is drawn with the
  bounds \<open>a\<close> and \<open>b\<close>, and \<open>n\<close> keeps the draws of one update apart.
\<close>

record random_source =
  getInt :: "nat \<Rightarrow> int \<Rightarrow> int \<Rightarrow> int"
  getFloat :: "nat \<Rightarrow> rat \<Rightarrow> rat \<Rightarrow> rat"

type_synonym ('a, 'w) stage = "Avatar \<times> ('a, 'w) motion_state"

section \<open>Timed events\<close>

record TimedEventModifier = Poolable +
  duration_ms :: u32
  event_start_time :: u32
  is_started :: bool

definition new_TimedEventModifier :: "u32 \<Rightarrow> TimedEventModifier" where
  "new_TimedEventModifier durationMs = \<lparr>destroy_requested = False, duration_ms = durationMs, event_start_time = 0, is_started = False\<rparr>"

text \<open>\<open>on_start\<close> and \<open>on_end\<close> are the virtual functions; \<open>'s\<close> holds what they work on.\<close>

definition timed_update ::
  "('s \<Rightarrow> 's) \<Rightarrow> ('s \<Rightarrow> 's) \<Rightarrow> u32 \<Rightarrow> TimedEventModifier \<times> 's \<Rightarrow> TimedEventModifier \<times> 's" where
  "timed_update on_start on_end now = (\<lambda>(t, s).
    if \<not> is_started t then
      let t = t\<lparr>is_started := True, event_start_time := now\<rparr>; s = on_start s
      in if duration_ms t = 0 then (requestDestroy t, on_end s) else (t, s)
    else if now - event_start_time t \<ge> duration_ms t then (requestDestroy t, on_end s)
    else (t, s))"

text \<open>\<open>TimedEmotionModifier\<close> and \<open>TimedSpeechModifier\<close>; the state pairs the member \<open>prev_emotion\<close> with the avatar.\<close>

definition emotion_on_start :: "'a toolkit \<Rightarrow> Emotion \<Rightarrow> Emotion \<times> Avatar option \<Rightarrow> Emotion \<times> Avatar option" where
  "emotion_on_start K target = (\<lambda>(prev, avatar). case avatar of
       None \<Rightarrow> (prev, None)
     | Some a \<Rightarrow> (av_emotion a, Some (avatar_setEmotion K target a)))"

definition emotion_on_end :: "'a toolkit \<Rightarrow> Emotion \<times> Avatar option \<Rightarrow> Emotion \<times> Avatar option" where
  "emotion_on_end K = (\<lambda>(prev, avatar). (prev, map_option (avatar_setEmotion K prev) avatar))"

definition speech_on_start :: "string \<Rightarrow> Avatar option \<Rightarrow> Avatar option" where
  "speech_on_start target = map_option (setSpeech target)"

definition speech_on_end :: "Avatar option \<Rightarrow> Avatar option" where
  "speech_on_end = map_option clearSpeech"

text \<open>The pool removes a modifier after the update in which it asks for it.\<close>

fun timed_run :: "('s \<Rightarrow> 's) \<Rightarrow> ('s \<Rightarrow> 's) \<Rightarrow> u32 list \<Rightarrow> TimedEventModifier \<times> 's \<Rightarrow> TimedEventModifier \<times> 's" where
  "timed_run on_start on_end [] ts = ts"
| "timed_run on_start on_end (now # nows) ts =
    (let ts = timed_update on_start on_end now ts in if destroy_requested (fst ts) then ts else timed_run on_start on_end nows ts)"

lemma timed_run_started:
  assumes "is_started t" "\<not> destroy_requested t"
  shows "timed_run on_start on_end nows (t, s) =
    (if list_all (\<lambda>now. now - event_start_time t < duration_ms t) nows then (t, s) else (requestDestroy t, on_end s))"
  using assms by (induction nows) (auto simp: timed_update_def requestDestroy_def Let_def not_less)

text \<open>From the first update on, for any length of time and over a wrap of the clock, the effect lasts until the
  first update after the duration, which ends it and the modifier.\<close>

theorem timed_effect_lasts:
  assumes "duration \<noteq> 0"
  shows "case timed_run on_start on_end (now # nows) (new_TimedEventModifier duration, s) of (t, s') \<Rightarrow>
    if list_all (\<lambda>n. n - now < duration) nows then \<not> destroy_requested t \<and> s' = on_start s
    else destroy_requested t \<and> s' = on_end (on_start s)"
  using assms timed_run_started [of "new_TimedEventModifier duration\<lparr>is_started := True, event_start_time := now\<rparr>" on_start on_end nows]
  by (simp add: timed_update_def new_TimedEventModifier_def requestDestroy_def Let_def)

section \<open>BreathModifier\<close>

record BreathModifier = Poolable +
  br_amplitude :: int
  breath_cycle_ms :: u32
  br_update_interval_ms :: u32
  start_tick :: u32
  last_update_tick :: u32
  br_destroy_at :: u32
  br_has_lifetime :: bool
  last_applied_offset :: int

definition new_BreathModifier :: "u32 \<Rightarrow> u32 \<Rightarrow> int \<Rightarrow> u32 \<Rightarrow> u32 \<Rightarrow> BreathModifier" where
  "new_BreathModifier now destroyAfterMs amplitude breathCycleMs updateIntervalMs =
    \<lparr>destroy_requested = False, br_amplitude = amplitude, breath_cycle_ms = breathCycleMs, br_update_interval_ms = updateIntervalMs,
     start_tick = now, last_update_tick = 0, br_destroy_at = (if destroyAfterMs > 0 then now + destroyAfterMs else 0),
     br_has_lifetime = (destroyAfterMs > 0), last_applied_offset = 0\<rparr>"

definition move_component :: "'a toolkit \<Rightarrow> int \<Rightarrow> Feature \<Rightarrow> Feature" where
  "move_component K delta_y f = setPosition K ((f_position f)\<lparr>vec_y := vec_y (f_position f) + delta_y\<rparr>) f"

definition apply_relative_offset :: "'a toolkit \<Rightarrow> int \<Rightarrow> BreathModifier \<times> Avatar \<Rightarrow> BreathModifier \<times> Avatar" where
  "apply_relative_offset K new_offset = (\<lambda>(b, a).
    let delta = new_offset - last_applied_offset b
    in if delta = 0 then (b, a)
       else (b\<lparr>last_applied_offset := new_offset\<rparr>,
             a\<lparr>left_eye := move_component K delta (left_eye a), right_eye := move_component K delta (right_eye a),
               mouth := move_component K delta (mouth a)\<rparr>))"

text \<open>\<open>wave t cycle amplitude\<close> is the sine computed in \<open>float\<close> and cut to an \<open>int\<close>.\<close>

definition breath_update ::
  "'a toolkit \<Rightarrow> (u32 \<Rightarrow> u32 \<Rightarrow> int \<Rightarrow> int) \<Rightarrow> u32 \<Rightarrow> BreathModifier \<times> Avatar option \<Rightarrow> BreathModifier \<times> Avatar option" where
  "breath_update K wave now = (\<lambda>(b, avatar). case avatar of
       None \<Rightarrow> (b, None)
     | Some a \<Rightarrow>
        if br_has_lifetime b \<and> now \<ge> br_destroy_at b then
          let (b, a) = apply_relative_offset K 0 (b, a) in (requestDestroy b, Some a)
        else if now - last_update_tick b < br_update_interval_ms b then (b, Some a)
        else let b = b\<lparr>last_update_tick := now\<rparr>;
                 (b, a) = apply_relative_offset K (wave ((now - start_tick b) mod breath_cycle_ms b) (breath_cycle_ms b) (br_amplitude b)) (b, a)
             in (b, Some a))"

text \<open>A breath leaves the face where it was, when the face does not touch the edge of its range.\<close>

definition shift_feature :: "int \<Rightarrow> Feature \<Rightarrow> Feature" where
  "shift_feature d f = f\<lparr>f_position := (f_position f)\<lparr>vec_y := vec_y (f_position f) + d\<rparr>\<rparr>"

definition shift_face :: "int \<Rightarrow> Avatar \<Rightarrow> Avatar" where
  "shift_face d a = a\<lparr>left_eye := shift_feature d (left_eye a), right_eye := shift_feature d (right_eye a), mouth := shift_feature d (mouth a)\<rparr>"

definition has_room :: "int \<Rightarrow> Feature \<Rightarrow> bool" where
  "has_room d f \<longleftrightarrow> abs (vec_x (f_position f)) \<le> 100 \<and> abs (vec_y (f_position f)) + d \<le> 100"

definition bounded_wave :: "(u32 \<Rightarrow> u32 \<Rightarrow> int \<Rightarrow> int) \<Rightarrow> int \<Rightarrow> bool" where
  "bounded_wave wave d \<longleftrightarrow> (\<forall>t c. abs (wave t c d) \<le> d)"

fun breath_run :: "'a toolkit \<Rightarrow> (u32 \<Rightarrow> u32 \<Rightarrow> int \<Rightarrow> int) \<Rightarrow> u32 list \<Rightarrow> BreathModifier \<times> Avatar option \<Rightarrow> BreathModifier \<times> Avatar option" where
  "breath_run K wave [] s = s"
| "breath_run K wave (now # nows) s =
    (let s = breath_update K wave now s in if destroy_requested (fst s) then s else breath_run K wave nows s)"

lemma shift_face_zero [simp]: "shift_face 0 a = a"
  by (simp add: shift_face_def shift_feature_def)

lemma clamp_inside: "clamp_ok K \<Longrightarrow> abs v \<le> 100 \<Longrightarrow> uitk_clamp K v (- 100) 100 = v"
  unfolding clamp_ok_def Let_def by (drule spec [of _ v], drule spec [of _ "- 100"], drule spec [of _ 100]) (auto split: if_splits)

lemma move_shifted:
  assumes "clamp_ok K" "has_room d f" "abs o1 \<le> d" "abs o2 \<le> d"
  shows "move_component K (o2 - o1) (shift_feature o1 f) = shift_feature o2 f"
proof -
  have "abs (vec_y (f_position f) + o2) \<le> 100" using assms(2,4) unfolding has_room_def by arith
  then show ?thesis
    using assms(2) clamp_inside [OF assms(1)] by (simp add: move_component_def setPosition_def shift_feature_def has_room_def)
qed

lemma offset_shifted:
  assumes "clamp_ok K" "has_room d (left_eye a)" "has_room d (right_eye a)" "has_room d (mouth a)"
    "abs (last_applied_offset b) \<le> d" "abs off \<le> d"
  shows "apply_relative_offset K off (b, shift_face (last_applied_offset b) a) = (b\<lparr>last_applied_offset := off\<rparr>, shift_face off a)"
  using assms move_shifted [OF assms(1) _ assms(5,6)] by (simp add: apply_relative_offset_def Let_def shift_face_def)

definition breath_ok :: "int \<Rightarrow> Avatar \<Rightarrow> BreathModifier \<times> Avatar option \<Rightarrow> bool" where
  "breath_ok d a = (\<lambda>(b, avatar). br_amplitude b = d \<and> abs (last_applied_offset b) \<le> d
     \<and> avatar = Some (shift_face (last_applied_offset b) a) \<and> (destroy_requested b \<longrightarrow> last_applied_offset b = 0))"

lemma breath_update_ok:
  assumes "clamp_ok K" "bounded_wave wave d" "has_room d (left_eye a)" "has_room d (right_eye a)" "has_room d (mouth a)"
    and "breath_ok d a s" "\<not> destroy_requested (fst s)"
  shows "breath_ok d a (breath_update K wave now s)"
proof -
  obtain b where s: "s = (b, Some (shift_face (last_applied_offset b) a))" "br_amplitude b = d" "abs (last_applied_offset b) \<le> d"
    using assms(6) by (cases s) (auto simp: breath_ok_def)
  note off = offset_shifted [OF assms(1,3,4,5)]
  have late: "apply_relative_offset K off (b\<lparr>last_update_tick := now\<rparr>, shift_face (last_applied_offset b) a)
      = (b\<lparr>last_update_tick := now, last_applied_offset := off\<rparr>, shift_face off a)" if "abs off \<le> d" for off
    using off [of "b\<lparr>last_update_tick := now\<rparr>" off] s(3) that by simp
  have "0 \<le> d" using s(3) by simp
  then show ?thesis
    using s(2,3) assms(2,7) off [of b 0] late by (simp add: s(1) breath_update_def breath_ok_def bounded_wave_def requestDestroy_def Let_def)
qed

lemma breath_run_ok:
  assumes "clamp_ok K" "bounded_wave wave d" "has_room d (left_eye a)" "has_room d (right_eye a)" "has_room d (mouth a)"
  shows "breath_ok d a s \<Longrightarrow> \<not> destroy_requested (fst s) \<Longrightarrow> breath_ok d a (breath_run K wave nows s)"
proof (induction nows arbitrary: s)
  case (Cons now nows)
  have "breath_ok d a (breath_update K wave now s)" using breath_update_ok [OF assms Cons.prems] .
  then show ?case using Cons.IH by (simp add: Let_def)
qed simp

theorem breath_leaves_face:
  assumes "clamp_ok K" "bounded_wave wave amplitude"
    "has_room amplitude (left_eye a)" "has_room amplitude (right_eye a)" "has_room amplitude (mouth a)"
  shows "case breath_run K wave nows (new_BreathModifier now life amplitude cycle interval, Some a) of (b, avatar) \<Rightarrow>
     abs (last_applied_offset b) \<le> amplitude
     \<and> avatar = Some (if destroy_requested b then a else shift_face (last_applied_offset b) a)"
proof -
  have "0 \<le> amplitude" using assms(2) unfolding bounded_wave_def by (metis abs_ge_zero order_trans)
  then have "breath_ok amplitude a (new_BreathModifier now life amplitude cycle interval, Some a)"
    by (simp add: breath_ok_def new_BreathModifier_def)
  from breath_run_ok [OF assms this, of nows] show ?thesis
    by (auto simp: breath_ok_def new_BreathModifier_def split: prod.splits)
qed

text \<open>The effect may be anything; here a counter stands for it.\<close>

lemma timed_effect_lasts_witness:
  "case timed_run (\<lambda>n. n + (1 :: nat)) (\<lambda>n. n + 10) (4294967000 # [4294967290, 300, 1000]) (new_TimedEventModifier 500, 0) of (t, s') \<Rightarrow>
    if list_all (\<lambda>n. n - 4294967000 < (500 :: u32)) [4294967290, 300, 1000] then \<not> destroy_requested t \<and> s' = 0 + 1
    else destroy_requested t \<and> s' = (0 + 1) + 10"
  by (rule timed_effect_lasts) simp

section \<open>SpeakingModifier\<close>

record SpeakingModifier = Poolable +
  sp_destroy_at :: u32
  next_mouth_tick :: u32
  next_motion_tick :: u32
  mouth_interval_ms :: u32
  sp_has_lifetime :: bool
  enable_motion :: bool
  is_mouth_open :: bool
  need_get_prev_angles :: bool
  prev_angles :: Vector2i

definition new_SpeakingModifier :: "random_source \<Rightarrow> u32 \<Rightarrow> u32 \<Rightarrow> u32 \<Rightarrow> bool \<Rightarrow> SpeakingModifier" where
  "new_SpeakingModifier R now destroyAfterMs mouthIntervalMs enableMotion =
    \<lparr>destroy_requested = False, sp_destroy_at = (if destroyAfterMs > 0 then now + destroyAfterMs else 0),
     next_mouth_tick = now + mouthIntervalMs, next_motion_tick = (if enableMotion then now + word_of_int (getInt R 0 1000 2000) else 0),
     mouth_interval_ms = mouthIntervalMs, sp_has_lifetime = (destroyAfterMs > 0), enable_motion = enableMotion, is_mouth_open = False,
     need_get_prev_angles = True, prev_angles = \<lparr>vec_x = 0, vec_y = 0\<rparr>\<rparr>"

definition animate_mouth :: "'a toolkit \<Rightarrow> random_source \<Rightarrow> SpeakingModifier \<times> Avatar \<Rightarrow> SpeakingModifier \<times> Avatar" where
  "animate_mouth K R = (\<lambda>(s, a).
    let s = s\<lparr>is_mouth_open := \<not> is_mouth_open s\<rparr>
    in (s, a\<lparr>mouth := setWeight K (if is_mouth_open s then getInt R 0 40 80 else getInt R 0 0 20) (mouth a)\<rparr>))"

text \<open>The angles around which the head moves: read at the first movement, and again when something else has
  moved the head far away.\<close>

definition speaking_base :: "Vector2i \<Rightarrow> SpeakingModifier \<Rightarrow> SpeakingModifier" where
  "speaking_base current s =
    (if need_get_prev_angles s then s\<lparr>prev_angles := current, need_get_prev_angles := False\<rparr>
     else if abs (vec_x current - vec_x (prev_angles s)) > 300 \<or> abs (vec_y current - vec_y (prev_angles s)) > 300
          then s\<lparr>prev_angles := current\<rparr>
     else s)"

definition perform_subtle_speaking_motion ::
  "'a toolkit \<Rightarrow> 'w servo_hal \<Rightarrow> random_source \<Rightarrow> SpeakingModifier \<times> ('a, 'w) motion_state \<Rightarrow> SpeakingModifier \<times> ('a, 'w) motion_state" where
  "perform_subtle_speaking_motion K H R = (\<lambda>(s, m).
    if motion_isMoving K H (fst m) (world_of (snd m)) then (s, m)
    else
      let s = speaking_base (getCurrentAngles K H (fst m) (world_of (snd m))) s;
          action = getInt R 2 0 10; speed = getInt R 3 100 200;
          (target_yaw, target_pitch) =
            (if action < 5 then (vec_x (prev_angles s), vec_y (prev_angles s) + getInt R 4 (- 20) 50)
             else (vec_x (prev_angles s) + getInt R 4 (- 40) 40, vec_y (prev_angles s) + getInt R 5 (- 20) 20))
      in (s, motion_moveWithSpeed K H target_yaw target_pitch speed m))"

definition speaking_update ::
  "'a toolkit \<Rightarrow> 'w servo_hal \<Rightarrow> random_source \<Rightarrow> u32 \<Rightarrow> SpeakingModifier \<times> Avatar option \<times> ('a, 'w) motion_state
     \<Rightarrow> SpeakingModifier \<times> Avatar option \<times> ('a, 'w) motion_state" where
  "speaking_update K H R now = (\<lambda>(s, avatar, m). case avatar of
       None \<Rightarrow> (s, None, m)
     | Some a \<Rightarrow>
        if sp_has_lifetime s \<and> now \<ge> sp_destroy_at s then (requestDestroy s, Some (a\<lparr>mouth := setWeight K 0 (mouth a)\<rparr>), m)
        else
          let (s, a) = (if now \<ge> next_mouth_tick s then animate_mouth K R (s\<lparr>next_mouth_tick := now + mouth_interval_ms s\<rparr>, a) else (s, a));
              (s, m) = (if enable_motion s \<and> now \<ge> next_motion_tick s
                        then perform_subtle_speaking_motion K H R (s\<lparr>next_motion_tick := now + word_of_int (getInt R 1 1500 2500)\<rparr>, m)
                        else (s, m))
          in (s, Some a, m))"

section \<open>Idle modifiers\<close>

record IdleMotionModifier =
  motion_interval_min :: u32
  motion_interval_max :: u32
  motion_next_tick :: u32
  paused :: bool

definition new_IdleMotionModifier :: "u32 \<Rightarrow> u32 \<Rightarrow> u32 \<Rightarrow> IdleMotionModifier" where
  "new_IdleMotionModifier now interval_min interval_max =
    \<lparr>motion_interval_min = interval_min, motion_interval_max = interval_max, motion_next_tick = now + 1000, paused = False\<rparr>"

definition idle_pause :: "IdleMotionModifier \<Rightarrow> IdleMotionModifier" where
  "idle_pause i = i\<lparr>paused := True\<rparr>"

definition idle_resume :: "u32 \<Rightarrow> IdleMotionModifier \<Rightarrow> IdleMotionModifier" where
  "idle_resume now i = (if paused i then i\<lparr>paused := False, motion_next_tick := now + 500\<rparr> else i)"

definition perform_idle_motion ::
  "'a toolkit \<Rightarrow> 'w servo_hal \<Rightarrow> random_source \<Rightarrow> ('a, 'w) motion_state \<Rightarrow> ('a, 'w) motion_state" where
  "perform_idle_motion K H R m =
    (if is_modify_locked (fst m) then m
     else let action = getInt R 0 0 100 in
       if action < 50 then
         lookAtNormalized K H (getFloat R 1 (- (4 / 10)) (4 / 10)) (getFloat R 2 (- (95 / 100)) (2 / 10)) (getInt R 3 150 300) m
       else if action < 80 then
         let current = getCurrentAngles K H (fst m) (world_of (snd m))
         in motion_moveWithSpeed K H (uitk_clamp K (vec_x current + getInt R 1 (- 150) 150) (- 800) 800)
              (uitk_clamp K (vec_y current + getInt R 2 (- 80) 80) 0 600) (getInt R 3 100 250) m
       else if action < 90 then motion_moveWithSpeed K H (getInt R 1 (- 500) 500) (getInt R 2 100 400) (getInt R 3 250 400) m
       else motion_moveWithSpeed K H 0 (getInt R 1 50 400) (getInt R 2 100 300) m)"

definition idle_motion_update ::
  "'a toolkit \<Rightarrow> 'w servo_hal \<Rightarrow> random_source \<Rightarrow> u32 \<Rightarrow> bool \<Rightarrow> IdleMotionModifier \<times> ('a, 'w) motion_state
     \<Rightarrow> IdleMotionModifier \<times> ('a, 'w) motion_state" where
  "idle_motion_update K H R now hasAvatar = (\<lambda>(i, m).
    if paused i \<or> \<not> hasAvatar then (i, m)
    else if now < motion_next_tick i then (i, m)
    else if motion_isMoving K H (fst m) (world_of (snd m)) then (i\<lparr>motion_next_tick := now + 500\<rparr>, m)
    else
      let delay = word_of_int (getInt R 4 (sint (motion_interval_min i)) (sint (motion_interval_max i)))
      in (i\<lparr>motion_next_tick := now + delay\<rparr>, perform_idle_motion K H R m))"

record IdleExpressionModifier =
  expression_interval_min :: u32
  expression_interval_max :: u32
  expression_next_tick :: u32

definition new_IdleExpressionModifier :: "u32 \<Rightarrow> u32 \<Rightarrow> u32 \<Rightarrow> IdleExpressionModifier" where
  "new_IdleExpressionModifier now interval_min interval_max =
    \<lparr>expression_interval_min = interval_min, expression_interval_max = interval_max, expression_next_tick = now + 500\<rparr>"

definition reset_to_neutral :: "'a toolkit \<Rightarrow> Avatar \<Rightarrow> Avatar" where
  "reset_to_neutral K a =
    (let centre = \<lparr>vec_x = 0, vec_y = 0\<rparr>
     in a\<lparr>left_eye := eye_setSize K 0 (setPosition K centre (left_eye a)), right_eye := eye_setSize K 0 (setPosition K centre (right_eye a)),
          mouth := setWeight K 0 (setRotation K 0 (setPosition K centre (mouth a)))\<rparr>)"

definition perform_idle_emotion :: "'a toolkit \<Rightarrow> random_source \<Rightarrow> Avatar \<Rightarrow> Avatar" where
  "perform_idle_emotion K R a =
    (let action = getInt R 0 0 100 in
     if action < 70 then
       let offset = \<lparr>vec_x = getInt R 1 (- 20) 20, vec_y = getInt R 2 (- 15) 15\<rparr>
       in a\<lparr>left_eye := setPosition K offset (left_eye a), right_eye := setPosition K offset (right_eye a),
            mouth := setPosition K \<lparr>vec_x = 0, vec_y = getInt R 3 0 10\<rparr> (mouth a)\<rparr>
     else if action < 80 then
       let rotation = getInt R 1 (- 30) 30
       in a\<lparr>mouth := setRotation K (if rotation < 0 then 3600 + rotation else rotation) (mouth a)\<rparr>
     else reset_to_neutral K a)"

definition idle_expression_update ::
  "'a toolkit \<Rightarrow> random_source \<Rightarrow> u32 \<Rightarrow> IdleExpressionModifier \<times> Avatar option \<Rightarrow> IdleExpressionModifier \<times> Avatar option" where
  "idle_expression_update K R now = (\<lambda>(i, avatar). case avatar of
       None \<Rightarrow> (i, None)
     | Some a \<Rightarrow>
        if avatar_locked a \<or> now < expression_next_tick i then (i, Some a)
        else
          let delay = word_of_int (getInt R 4 (sint (expression_interval_min i)) (sint (expression_interval_max i)))
          in (i\<lparr>expression_next_tick := now + delay\<rparr>, Some (perform_idle_emotion K R a)))"

end
