(* ===== verification/Reactions.thy ===== *)
theory Reactions
  imports Modifiers
begin

text \<open>
  How the robot reacts to being petted and to being shaken: \<open>modifiers/head_pet.h\<close> and \<open>modifiers/imu.h\<close>.  Both
  decorate the face, and remember the identifiers of their decorators.

  \<open>HeadPetModifier\<close> and \<open>ImuEventModifier\<close> use the avatar without asking whether there is one, and are given one.
\<close>

section \<open>HeadPetModifier\<close>

record HeadPetModifier =
  event_swipe :: bool
  event_release :: bool
  in_happy_state :: bool
  is_waiting_restore :: bool
  restore_tick :: u32
  restore_delay_ms :: u32
  heart_decorator_id :: int
  pet_shy_decorator_id :: int
  prev_emotion :: Emotion
  prev_yaw :: int
  prev_pitch :: int

definition new_HeadPetModifier :: "u32 \<Rightarrow> HeadPetModifier" where
  "new_HeadPetModifier restoreDelayMs =
    \<lparr>event_swipe = False, event_release = False, in_happy_state = False, is_waiting_restore = False, restore_tick = 0,
     restore_delay_ms = restoreDelayMs, heart_decorator_id = - 1, pet_shy_decorator_id = - 1, prev_emotion = Neutral,
     prev_yaw = 0, prev_pitch = 0\<rparr>"

definition pet_gesture :: "bool \<Rightarrow> bool \<Rightarrow> HeadPetModifier \<Rightarrow> HeadPetModifier" where
  "pet_gesture swipe release p =
    (if swipe then p\<lparr>event_swipe := True\<rparr> else if release then p\<lparr>event_release := True\<rparr> else p)"

definition perform_pet_motion ::
  "'a toolkit \<Rightarrow> 'w servo_hal \<Rightarrow> random_source \<Rightarrow> HeadPetModifier \<Rightarrow> ('a, 'w) motion_state \<Rightarrow> ('a, 'w) motion_state" where
  "perform_pet_motion K H R p = (\<lambda>(m, b).
    if is_modify_locked m \<or> motion_isMoving K H m (world_of b) then (m, b)
    else
      let action = getInt R 1 0 2; speed = getInt R 2 300 500;
          (target_yaw, target_pitch) =
            (if action = 0 then (prev_yaw p + getInt R 4 (- 50) 50, prev_pitch p + getInt R 3 150 250)
             else if action = 1 then (prev_yaw p + (if getInt R 4 0 1 = 0 then 150 else - 150), prev_pitch p - getInt R 3 0 50)
             else if action = 2 then (prev_yaw p, prev_pitch p + getInt R 3 250 400)
             else (prev_yaw p, prev_pitch p))
      in motion_moveWithSpeed K H (uitk_clamp K target_yaw (- 512) 512) (uitk_clamp K target_pitch 0 540) speed (m, b))"

definition show_affection :: "(nat \<Rightarrow> u32) \<Rightarrow> int \<Rightarrow> HeadPetModifier \<times> Avatar \<Rightarrow> HeadPetModifier \<times> Avatar" where
  "show_affection clock duration = (\<lambda>(p, a).
    let a = snd (removeDecorator (heart_decorator_id p) a);
        a = snd (removeDecorator (pet_shy_decorator_id p) a);
        (h, a) = addDecorator (new_Decorator (clock 1) Heart (word_of_int duration) 500) a;
        (s, a) = addDecorator (new_Decorator (clock 2) Shy (word_of_int duration) 0) a
    in (p\<lparr>heart_decorator_id := h, pet_shy_decorator_id := s\<rparr>, a))"

definition handle_swipe ::
  "'a toolkit \<Rightarrow> 'w servo_hal \<Rightarrow> random_source \<Rightarrow> (nat \<Rightarrow> u32) \<Rightarrow> HeadPetModifier \<times> ('a, 'w) stage \<Rightarrow> HeadPetModifier \<times> ('a, 'w) stage" where
  "handle_swipe K H R clock = (\<lambda>(p, a, m).
    let angles = getCurrentAngles K H (fst m) (world_of (snd m));
        p = (if \<not> in_happy_state p
             then p\<lparr>in_happy_state := True, prev_emotion := av_emotion a, prev_yaw := vec_x angles, prev_pitch := vec_y angles\<rparr> else p);
        (p, a) = show_affection clock (getInt R 0 1500 2500) (p, avatar_setEmotion K Happy a)
    in (p, a, perform_pet_motion K H R p m))"

definition pet_restore_original_state ::
  "'a toolkit \<Rightarrow> 'w servo_hal \<Rightarrow> HeadPetModifier \<times> ('a, 'w) stage \<Rightarrow> HeadPetModifier \<times> ('a, 'w) stage" where
  "pet_restore_original_state K H = (\<lambda>(p, a, m).
    if \<not> in_happy_state p then (p, a, m)
    else (p\<lparr>in_happy_state := False\<rparr>, avatar_setEmotion K (prev_emotion p) a, motion_moveWithSpeed K H (prev_yaw p) (prev_pitch p) 200 m))"

definition pet_update ::
  "'a toolkit \<Rightarrow> 'w servo_hal \<Rightarrow> random_source \<Rightarrow> (nat \<Rightarrow> u32) \<Rightarrow> HeadPetModifier \<times> ('a, 'w) stage \<Rightarrow> HeadPetModifier \<times> ('a, 'w) stage" where
  "pet_update K H R clock = (\<lambda>(p, s).
    let now = clock 0;
        (p, s) = (if event_swipe p
                  then let (p, s) = handle_swipe K H R clock (p\<lparr>event_swipe := False\<rparr>, s) in (p\<lparr>is_waiting_restore := False\<rparr>, s)
                  else (p, s));
        p = (if event_release p
             then let p = p\<lparr>event_release := False\<rparr>
                  in if in_happy_state p then p\<lparr>is_waiting_restore := True, restore_tick := now + restore_delay_ms p\<rparr> else p
             else p)
    in if is_waiting_restore p \<and> now \<ge> restore_tick p then pet_restore_original_state K H (p\<lparr>is_waiting_restore := False\<rparr>, s) else (p, s))"

section \<open>ImuEventModifier\<close>

record ImuEventModifier =
  event_shake :: bool
  is_reacting :: bool
  toggle_phase :: bool
  restore_at :: u32
  next_toggle_tick :: u32
  reaction_duration_ms :: u32
  dizzy_decorator_id :: int
  shy_decorator_id :: int

definition new_ImuEventModifier :: "u32 \<Rightarrow> ImuEventModifier" where
  "new_ImuEventModifier reactionDurationMs =
    \<lparr>event_shake = False, is_reacting = False, toggle_phase = False, restore_at = 0, next_toggle_tick = 0,
     reaction_duration_ms = reactionDurationMs, dizzy_decorator_id = - 1, shy_decorator_id = - 1\<rparr>"

definition show_dizziness :: "(nat \<Rightarrow> u32) \<Rightarrow> ImuEventModifier \<times> Avatar \<Rightarrow> ImuEventModifier \<times> Avatar" where
  "show_dizziness clock = (\<lambda>(i, a).
    let a = avatar_setModifyLock True a;
        a = a\<lparr>left_eye := setVisible False (left_eye a), right_eye := setVisible False (right_eye a)\<rparr>;
        a = snd (removeDecorator (dizzy_decorator_id i) a);
        a = snd (removeDecorator (shy_decorator_id i) a);
        (d, a) = addDecorator (new_Decorator (clock 1) Dizzy 0 300) a;
        (s, a) = addDecorator (new_Decorator (clock 2) Shy 0 0) a
    in (i\<lparr>is_reacting := True, dizzy_decorator_id := d, shy_decorator_id := s\<rparr>, a))"

definition handle_shake_start :: "(nat \<Rightarrow> u32) \<Rightarrow> u32 \<Rightarrow> ImuEventModifier \<times> Avatar \<Rightarrow> ImuEventModifier \<times> Avatar" where
  "handle_shake_start clock now = (\<lambda>(i, a).
    let (i, a) = (if \<not> is_reacting i then show_dizziness clock (i, a) else (i, a));
        i = i\<lparr>restore_at := now + reaction_duration_ms i\<rparr>
    in (if next_toggle_tick i \<le> now then i\<lparr>next_toggle_tick := now\<rparr> else i, a))"

definition imu_restore_state ::
  "'a toolkit \<Rightarrow> ImuEventModifier \<times> ('a, 'w) stage \<Rightarrow> ImuEventModifier \<times> ('a, 'w) stage" where
  "imu_restore_state K = (\<lambda>(i, a, m, b).
    if \<not> is_reacting i then (i, a, m, b)
    else
      let a = avatar_setModifyLock False a;
          a = a\<lparr>left_eye := setVisible True (left_eye a), right_eye := setVisible True (right_eye a),
                mouth := setRotation K 0 (setWeight K 0 (mouth a))\<rparr>;
          a = snd (removeDecorator (dizzy_decorator_id i) a);
          a = snd (removeDecorator (shy_decorator_id i) a)
      in (i\<lparr>dizzy_decorator_id := - 1, shy_decorator_id := - 1, is_reacting := False\<rparr>, a, setModifyLock False m, b))"

definition toggle_mouth :: "'a toolkit \<Rightarrow> u32 \<Rightarrow> ImuEventModifier \<times> Avatar \<Rightarrow> ImuEventModifier \<times> Avatar" where
  "toggle_mouth K now = (\<lambda>(i, a).
    if now \<ge> next_toggle_tick i then
      let i = i\<lparr>next_toggle_tick := now + 600, toggle_phase := \<not> toggle_phase i\<rparr>
      in (i, a\<lparr>mouth := setWeight K 65 (setRotation K (if toggle_phase i then - 25 else 25) (mouth a))\<rparr>)
    else (i, a))"

definition hold_head :: "'a toolkit \<Rightarrow> 'w servo_hal \<Rightarrow> ('a, 'w) motion_state \<Rightarrow> ('a, 'w) motion_state" where
  "hold_head K H = (\<lambda>(m, b). if is_modify_locked m then (m, b) else goHome K H 300 (setModifyLock True m, b))"

definition imu_update ::
  "'a toolkit \<Rightarrow> 'w servo_hal \<Rightarrow> (nat \<Rightarrow> u32) \<Rightarrow> ImuEventModifier \<times> ('a, 'w) stage \<Rightarrow> ImuEventModifier \<times> ('a, 'w) stage" where
  "imu_update K H clock = (\<lambda>(i, a, m).
    let now = clock 0;
        (i, a) = (if event_shake i then handle_shake_start clock now (i\<lparr>event_shake := False\<rparr>, a) else (i, a))
    in if is_reacting i then
         let (i, a) = toggle_mouth K now (i, a);
             m = hold_head K H m
         in if now \<ge> restore_at i then imu_restore_state K (i, a, m) else (i, a, m)
       else (i, a, m))"

section \<open>A reaction is undone\<close>

datatype imu_op = Shake | ImuUpdate "nat \<Rightarrow> u32"

fun imu_step :: "'a toolkit \<Rightarrow> 'w servo_hal \<Rightarrow> imu_op \<Rightarrow> ImuEventModifier \<times> ('a, 'w) stage \<Rightarrow> ImuEventModifier \<times> ('a, 'w) stage" where
  "imu_step K H Shake (i, s) = (i\<lparr>event_shake := True\<rparr>, s)"
| "imu_step K H (ImuUpdate clock) s = imu_update K H clock s"

text \<open>Exactly while the robot reacts, its eyes are hidden and locked, and the face has two more decorators than
  \<open>a0\<close>, the ones that the modifier remembers.\<close>

definition two_more :: "int \<Rightarrow> int \<Rightarrow> Avatar \<Rightarrow> Avatar \<Rightarrow> bool" where
  "two_more i j a0 a \<longleftrightarrow> i \<noteq> j \<and> decorator a0 i = None \<and> decorator a0 j = None
     \<and> (\<exists>d s. dec_kind d = Dizzy \<and> dec_kind s = Shy \<and> decorator a = (decorator a0)(i \<mapsto> d, j \<mapsto> s))"

definition decorated :: "bool \<Rightarrow> int \<Rightarrow> int \<Rightarrow> Avatar \<Rightarrow> Avatar \<Rightarrow> bool" where
  "decorated reacting i j a0 a \<longleftrightarrow> avatar_ok a \<and> avatar_locked a = reacting
     \<and> f_visible (left_eye a) = (\<not> reacting) \<and> f_visible (right_eye a) = (\<not> reacting)
     \<and> (if reacting then two_more i j a0 a else i = - 1 \<and> j = - 1 \<and> decorator a = decorator a0)"

definition dizzy :: "ImuEventModifier \<Rightarrow> Avatar \<Rightarrow> Avatar \<Rightarrow> bool" where
  "dizzy i = decorated (is_reacting i) (dizzy_decorator_id i) (shy_decorator_id i)"

lemma decorator_simps [simp]:
  "decorator (a\<lparr>left_eye := l\<rparr>) = decorator a" "decorator (a\<lparr>right_eye := l\<rparr>) = decorator a" "decorator (a\<lparr>mouth := l\<rparr>) = decorator a"
  "decorator (a\<lparr>avatar_locked := b\<rparr>) = decorator a"
  "avatar_ok (a\<lparr>left_eye := l\<rparr>) = avatar_ok a" "avatar_ok (a\<lparr>right_eye := l\<rparr>) = avatar_ok a" "avatar_ok (a\<lparr>mouth := l\<rparr>) = avatar_ok a"
  "avatar_ok (a\<lparr>avatar_locked := b\<rparr>) = avatar_ok a"
  by (auto simp: decorator_def avatar_ok_def)

lemma decorated_mouth [simp]: "decorated r i j a0 (a\<lparr>mouth := f\<rparr>) = decorated r i j a0 a"
  by (simp add: decorated_def two_more_def)

lemma no_decorator [simp]: "decorator a (- 1) = None"
  by (simp add: decorator_def get_def)

lemma remove_absent: "decorator a i = None \<Longrightarrow> snd (removeDecorator i a) = a"
  by (auto simp: decorator_def removeDecorator_def get_def destroy_def)

lemma show_dizziness_dizzy:
  assumes "dizzy i a0 a" "\<not> is_reacting i" "show_dizziness clock (i, a) = (i', a')"
  shows "dizzy i' a0 a' \<and> is_reacting i'"
proof -
  define b where "b = a\<lparr>avatar_locked := True, left_eye := setVisible False (left_eye a), right_eye := setVisible False (right_eye a)\<rparr>"
  obtain d c where d: "addDecorator (new_Decorator (clock 1) Dizzy 0 300) b = (d, c)" by force
  obtain s e where s: "addDecorator (new_Decorator (clock 2) Shy 0 0) c = (s, e)" by force
  have ids: "dizzy_decorator_id i = - 1" "shy_decorator_id i = - 1" "avatar_ok b" "decorator b = decorator a0"
    using assms(1,2) by (simp_all add: dizzy_def decorated_def b_def)
  have r: "i' = i\<lparr>is_reacting := True, dizzy_decorator_id := d, shy_decorator_id := s\<rparr>" "a' = e"
    using assms(3) ids d s remove_absent [of b "- 1"]
    by (simp_all add: show_dizziness_def Let_def avatar_setModifyLock_def b_def)
  note D = add_decorator [OF ids(3) d] and S = add_decorator [OF add_decorator(1) [OF ids(3) d] s]
  obtain p q where "c = b\<lparr>decorators := p\<rparr>" "e = c\<lparr>decorators := q\<rparr>" using D(5) S(5) by blast
  then have f: "avatar_locked e" "\<not> f_visible (left_eye e)" "\<not> f_visible (right_eye e)" by (simp_all add: b_def setVisible_def)
  have "two_more d s a0 e"
    unfolding two_more_def
  proof (intro conjI exI)
    show "d \<noteq> s" "decorator a0 d = None" "decorator a0 s = None" using S(2) D(2,3) ids(4) by (auto split: if_splits)
    show "decorator e = (decorator a0)(d \<mapsto> new_Decorator (clock 1) Dizzy 0 300, s \<mapsto> new_Decorator (clock 2) Shy 0 0)"
      using S(3) D(3) ids(4) by simp
  qed (simp_all add: new_Decorator_def)
  then show ?thesis using S(1) f by (simp add: dizzy_def decorated_def r)
qed

lemma restore_dizzy:
  assumes "dizzy i a0 a" "is_reacting i" "imu_restore_state K (i, a, m, b) = (i', a', m', b')"
  shows "dizzy i' a0 a' \<and> \<not> is_reacting i' \<and> m' = setModifyLock False m"
proof -
  define c where "c = a\<lparr>avatar_locked := False, left_eye := setVisible True (left_eye a), right_eye := setVisible True (right_eye a),
      mouth := setRotation K 0 (setWeight K 0 (mouth a))\<rparr>"
  obtain f1 d where d: "removeDecorator (dizzy_decorator_id i) c = (f1, d)" by force
  obtain f2 e where e: "removeDecorator (shy_decorator_id i) d = (f2, e)" by force
  have ok: "avatar_ok c" "decorator c = decorator a" using assms(1) by (simp_all add: dizzy_def decorated_def c_def)
  have r: "i' = i\<lparr>dizzy_decorator_id := - 1, shy_decorator_id := - 1, is_reacting := False\<rparr>" "a' = e" "m' = setModifyLock False m"
    using assms(2,3) d e by (simp_all add: imu_restore_state_def Let_def avatar_setModifyLock_def c_def)
  note D = remove_decorator [OF ok(1) d] and E = remove_decorator [OF remove_decorator(1) [OF ok(1) d] e]
  obtain p q where "d = c\<lparr>decorators := p\<rparr>" "e = d\<lparr>decorators := q\<rparr>" using D(4) E(4) by blast
  then have f: "\<not> avatar_locked e" "f_visible (left_eye e)" "f_visible (right_eye e)" by (simp_all add: c_def setVisible_def)
  have "decorator e = decorator a0"
    using E(2) D(2) ok(2) assms(1,2) by (auto simp: dizzy_def decorated_def two_more_def fun_eq_iff)
  then show ?thesis using f E(1) by (simp add: dizzy_def decorated_def r)
qed

lemma toggle_dizzy:
  assumes "dizzy i a0 a" "toggle_mouth K now (i, a) = (i', a')"
  shows "dizzy i' a0 a' \<and> is_reacting i' = is_reacting i \<and> restore_at i' = restore_at i"
  using assms by (auto simp: toggle_mouth_def dizzy_def Let_def split: if_splits)

lemma shake_start_dizzy:
  assumes "dizzy i a0 a" "handle_shake_start clock now (i, a) = (i', a')"
  shows "dizzy i' a0 a' \<and> is_reacting i'"
proof -
  obtain j c where j: "(if \<not> is_reacting i then show_dizziness clock (i, a) else (i, a)) = (j, c)" by force
  have dj: "dizzy j a0 c \<and> is_reacting j"
  proof (cases "is_reacting i")
    case True
    then show ?thesis using j assms(1) by simp
  next
    case False
    then show ?thesis using j show_dizziness_dizzy [OF assms(1), of clock j c] by simp
  qed
  have "handle_shake_start clock now (i, a) =
      (let j = j\<lparr>restore_at := now + reaction_duration_ms j\<rparr> in (if next_toggle_tick j \<le> now then j\<lparr>next_toggle_tick := now\<rparr> else j, c))"
    unfolding handle_shake_start_def Let_def split_conv j ..
  then have f: "is_reacting i' = is_reacting j" "dizzy_decorator_id i' = dizzy_decorator_id j" "shy_decorator_id i' = shy_decorator_id j" "a' = c"
    using assms(2) by (simp_all add: Let_def split: if_splits)
  show ?thesis using dj unfolding dizzy_def f .
qed

lemma hold_head_locks: "is_modify_locked (fst (hold_head K H m))"
  by (cases m) (auto simp: hold_head_def goHome_def on_yaw_def on_pitch_def setModifyLock_def split: prod.splits)

lemma imu_step_dizzy:
  assumes "dizzy i a0 a" "is_modify_locked (fst m) = is_reacting i" "imu_step K H op (i, a, m) = (i', a', m')"
  shows "dizzy i' a0 a' \<and> is_modify_locked (fst m') = is_reacting i'"
proof (cases op)
  case Shake
  then show ?thesis using assms by (auto simp: dizzy_def)
next
  case (ImuUpdate clock)
  obtain j c where j: "(if event_shake i then handle_shake_start clock (clock 0) (i\<lparr>event_shake := False\<rparr>, a) else (i, a)) = (j, c)" by force
  have "dizzy (i\<lparr>event_shake := False\<rparr>) a0 a" using assms(1) by (simp add: dizzy_def)
  then have dj: "dizzy j a0 c" "\<not> event_shake i \<Longrightarrow> j = i"
    using j assms(1) shake_start_dizzy by (auto split: if_splits)
  show ?thesis
  proof (cases "is_reacting j")
    case False
    moreover have "\<not> event_shake i" using False j shake_start_dizzy [OF \<open>dizzy (i\<lparr>event_shake := False\<rparr>) a0 a\<close>] by (auto split: if_splits)
    ultimately show ?thesis using assms ImuUpdate j dj by (auto simp: imu_update_def Let_def)
  next
    case True
    obtain k e where k: "toggle_mouth K (clock 0) (j, c) = (k, e)" by force
    note dk = toggle_dizzy [OF dj(1) k]
    obtain n b where n: "hold_head K H m = (n, b)" by force
    have u: "(i', a', m') = (if restore_at k \<le> clock 0 then imu_restore_state K (k, e, n, b) else (k, e, n, b))"
      using assms(3) ImuUpdate j k n True by (auto simp: imu_update_def Let_def)
    show ?thesis
    proof (cases "restore_at k \<le> clock 0")
      case late: True
      obtain n' b' where "m' = (n', b')" by force
      then have "imu_restore_state K (k, e, n, b) = (i', a', n', b')" using u late by simp
      from restore_dizzy [OF _ _ this] show ?thesis using dk True \<open>m' = (n', b')\<close> by (auto simp: setModifyLock_def)
    next
      case False
      then show ?thesis using u dk True hold_head_locks [of K H m] n by simp
    qed
  qed
qed

text \<open>C39: After any sequence of shakes and updates the modifier that reacts to shaking holds the
  locks of the avatar and of the head and hides the eyes exactly while it reacts, and the face
  then has exactly two more decorators than before, the ones it remembers; afterwards the
  decorators are those from before.\<close>

theorem shake_reaction_undone:
  assumes "avatar_ok a0" "\<not> avatar_locked a0" "f_visible (left_eye a0)" "f_visible (right_eye a0)" "\<not> is_modify_locked (fst m0)"
  shows "case fold (imu_step K H) ops (new_ImuEventModifier reaction_ms, a0, m0) of (i, a, m) \<Rightarrow>
     is_modify_locked (fst m) = is_reacting i \<and> decorated (is_reacting i) (dizzy_decorator_id i) (shy_decorator_id i) a0 a"
proof -
  have run: "dizzy j a0 c \<Longrightarrow> is_modify_locked (fst n) = is_reacting j \<Longrightarrow> fold (imu_step K H) ops (j, c, n) = (i, a, m)
      \<Longrightarrow> dizzy i a0 a \<and> is_modify_locked (fst m) = is_reacting i" for i a m j c n
  proof (induction ops arbitrary: j c n)
    case (Cons op ops)
    obtain j' c' n' where s: "imu_step K H op (j, c, n) = (j', c', n')" by (metis prod_cases3)
    show ?case using Cons.IH [of j' c' n'] imu_step_dizzy [OF Cons.prems(1,2) s] Cons.prems(3) s by simp
  qed simp
  have "dizzy (new_ImuEventModifier reaction_ms) a0 a0" "is_modify_locked (fst m0) = is_reacting (new_ImuEventModifier reaction_ms)"
    using assms by (simp_all add: dizzy_def decorated_def new_ImuEventModifier_def)
  from run [OF this] show ?thesis by (auto simp: dizzy_def split: prod.splits)
qed

text \<open>The first update at the end of the reaction ends it, when no shake has come since.\<close>

lemma reaction_ends:
  assumes "is_reacting i" "\<not> event_shake i" "restore_at i \<le> clock 0" "imu_update K H clock (i, a, m) = (i', a', m')"
  shows "\<not> is_reacting i'"
proof -
  obtain k e where k: "toggle_mouth K (clock 0) (i, a) = (k, e)" by force
  then have "is_reacting k" "restore_at k = restore_at i" using assms(1) by (auto simp: toggle_mouth_def Let_def split: if_splits)
  then show ?thesis
    using assms k by (cases "hold_head K H m") (auto simp: imu_update_def imu_restore_state_def Let_def)
qed

section \<open>Identifiers outlive their decorators\<close>

definition plain_feature :: Feature where
  "plain_feature = \<lparr>f_position = \<lparr>vec_x = 0, vec_y = 0\<rparr>, f_rotation = 0, f_drawn_rotation = 0, f_visible = True, f_ignore_emotion = False,
     f_weight = 100, f_size = 0\<rparr>"

definition new_Avatar :: Avatar where
  "new_Avatar = \<lparr>av_emotion = Neutral, left_eye = plain_feature, right_eye = plain_feature, mouth = setWeight jump_toolkit 0 plain_feature,
     has_bubble = True, bubble_text = None, decorators = new_ObjectPool, avatar_locked = False\<rparr>"

text \<open>The heart and the blush of a petting time out, and the pool hands out their identifiers again.  A shake then
  decorates the face with them, and the next swipe removes the decorators of the shake, which goes on without.\<close>

lemma petting_removes_dizziness:
  "let (p, a) = show_affection (\<lambda>n. 0) 2000 (new_HeadPetModifier 3000, new_Avatar);
       a = avatar_update (\<lambda>i. 2500) a;
       (i, a) = show_dizziness (\<lambda>n. 3000) (new_ImuEventModifier 4000, a);
       (p', a') = show_affection (\<lambda>n. 3500) 2000 (p, a)
   in map (map_option dec_kind) (pool_objs (decorators a)) = [Some Shy, Some Dizzy]
     \<and> is_reacting i \<and> map (map_option dec_kind) (pool_objs (decorators a')) = [Some Shy, Some Heart]"
  by code_simp

section \<open>Modifiers and the head\<close>

text \<open>Whatever a modifier does to the head is a sequence of operations of the head.\<close>

definition moves :: "'a toolkit \<Rightarrow> 'w servo_hal \<Rightarrow> ('a, 'w) motion_state \<Rightarrow> ('a, 'w) motion_state \<Rightarrow> bool" where
  "moves K H m m' \<longleftrightarrow> (\<forall>look. \<exists>ops. m' = fold (head_step K H look) ops m)"

lemma moves_refl [simp]: "moves K H m m"
  unfolding moves_def by (metis fold_simps(1))

lemma moves_step: "(\<And>look. m' = head_step K H look op m) \<Longrightarrow> moves K H m m'"
  unfolding moves_def by (metis fold_simps)

lemma moves_trans: "moves K H m n \<Longrightarrow> moves K H n p \<Longrightarrow> moves K H m p"
  unfolding moves_def by (metis fold_append comp_apply)

lemma moves_with_speed [simp]: "moves K H m (motion_moveWithSpeed K H y p v m)"
  by (rule moves_step [of _ _ _ "MoveHeadWithSpeed y p v"]) simp

lemma moves_look [simp]: "moves K H m (lookAtNormalized K H x y v m)"
  by (rule moves_step [of _ _ _ "LookAtNormalized x y v"]) simp

lemma moves_modify_lock [simp]: "moves K H (m, b) (setModifyLock l m, b)"
  by (rule moves_step [of _ _ _ "HeadModifyLock l"]) simp

lemma moves_home: "moves K H m (goHome K H v m)"
  by (rule moves_step [of _ _ _ "GoHome v"]) simp

lemma moves_lock_home [simp]: "moves K H (m, b) (goHome K H v (setModifyLock l m, b))"
  by (rule moves_trans [OF moves_modify_lock moves_home])

lemma moves_hold [simp]: "moves K H m (hold_head K H m)"
  by (cases m) (simp add: hold_head_def)

lemma speaking_moves: "speaking_update K H R now (s, av, m) = (s', av', m') \<Longrightarrow> moves K H m m'"
  by (auto simp: speaking_update_def perform_subtle_speaking_motion_def Let_def split: option.splits if_splits prod.splits)

lemma idle_moves: "idle_motion_update K H R now has (i, m) = (i', m') \<Longrightarrow> moves K H m m'"
  by (auto simp: idle_motion_update_def perform_idle_motion_def Let_def split: if_splits)

lemma pet_motion_moves [simp]: "moves K H m (perform_pet_motion K H R p m)"
  by (cases m) (auto simp: perform_pet_motion_def Let_def split: prod.splits)

lemma swipe_moves: "handle_swipe K H R clock (p, a, m) = (p', a', m') \<Longrightarrow> moves K H m m'"
  by (auto simp: handle_swipe_def Let_def split: prod.splits)

lemma pet_restore_moves: "pet_restore_original_state K H (p, a, m) = (p', a', m') \<Longrightarrow> moves K H m m'"
  by (auto simp: pet_restore_original_state_def split: if_splits)

lemma pet_moves:
  assumes "pet_update K H R clock (p, a, m) = (p', a', m')"
  shows "moves K H m m'"
proof -
  obtain q c n where q: "(if event_swipe p
      then let (p, s) = handle_swipe K H R clock (p\<lparr>event_swipe := False\<rparr>, a, m) in (p\<lparr>is_waiting_restore := False\<rparr>, s)
      else (p, a, m)) = (q, c, n)" by (metis prod_cases3)
  then have n: "moves K H m n"
    using swipe_moves [of K H R clock "p\<lparr>event_swipe := False\<rparr>" a m] by (cases "event_swipe p") (auto split: prod.splits)
  define r where "r = (if event_release q
      then if in_happy_state (q\<lparr>event_release := False\<rparr>)
           then q\<lparr>event_release := False, is_waiting_restore := True, restore_tick := clock 0 + restore_delay_ms (q\<lparr>event_release := False\<rparr>)\<rparr>
           else q\<lparr>event_release := False\<rparr>
      else q)"
  have "pet_update K H R clock (p, a, m) =
      (if is_waiting_restore r \<and> clock 0 \<ge> restore_tick r
       then pet_restore_original_state K H (r\<lparr>is_waiting_restore := False\<rparr>, c, n) else (r, c, n))"
    unfolding pet_update_def Let_def split_conv q [unfolded Let_def] r_def ..
  then show ?thesis
    using assms n pet_restore_moves [of K H "r\<lparr>is_waiting_restore := False\<rparr>" c n p' a' m'] moves_trans [OF n]
    by (auto split: if_splits)
qed

lemma imu_restore_moves: "imu_restore_state K (i, a, m) = (i', a', m') \<Longrightarrow> moves K H m m'"
  by (cases m) (auto simp: imu_restore_state_def Let_def split: if_splits)

lemma imu_moves:
  assumes "imu_update K H clock (i, a, m) = (i', a', m')"
  shows "moves K H m m'"
proof -
  obtain j c where j: "(if event_shake i then handle_shake_start clock (clock 0) (i\<lparr>event_shake := False\<rparr>, a) else (i, a)) = (j, c)" by force
  obtain k e where k: "toggle_mouth K (clock 0) (j, c) = (k, e)" by force
  have "imu_update K H clock (i, a, m) =
      (if is_reacting j then if restore_at k \<le> clock 0 then imu_restore_state K (k, e, hold_head K H m) else (k, e, hold_head K H m)
       else (j, c, m))"
    unfolding imu_update_def Let_def split_conv j k ..
  then show ?thesis
    using assms imu_restore_moves [of K k e "hold_head K H m" i' a' m' H] moves_trans [OF moves_hold, of K H m m']
    by (auto split: if_splits)
qed

text \<open>A robot whose modifiers are updated in any order and as often as the owner likes, between any other
  operations of the head.\<close>

record ('a, 'w) creature =
  cr_speaking :: SpeakingModifier
  cr_idle :: IdleMotionModifier
  cr_pet :: HeadPetModifier
  cr_imu :: ImuEventModifier
  cr_avatar :: Avatar
  cr_head :: "('a, 'w) motion_state"

datatype 'w life_op = Speak random_source u32 | IdleMove random_source u32 | Petted bool bool | PetUpdate random_source "nat \<Rightarrow> u32"
  | Shaken | ImuUpdated "nat \<Rightarrow> u32" | AvatarUpdate "int \<Rightarrow> u32" | HeadOp "'w head_op"

fun life_step ::
  "'a toolkit \<Rightarrow> 'w servo_hal \<Rightarrow> (int \<Rightarrow> int \<Rightarrow> int \<Rightarrow> MotionAngles) \<Rightarrow> 'w life_op \<Rightarrow> ('a, 'w) creature \<Rightarrow> ('a, 'w) creature" where
  "life_step K H look (Speak R now) c =
    (case speaking_update K H R now (cr_speaking c, Some (cr_avatar c), cr_head c) of
       (s, Some a, m) \<Rightarrow> c\<lparr>cr_speaking := s, cr_avatar := a, cr_head := m\<rparr>
     | (s, None, m) \<Rightarrow> c\<lparr>cr_speaking := s, cr_head := m\<rparr>)"
| "life_step K H look (IdleMove R now) c =
    (let (i, m) = idle_motion_update K H R now True (cr_idle c, cr_head c) in c\<lparr>cr_idle := i, cr_head := m\<rparr>)"
| "life_step K H look (Petted swipe release) c = c\<lparr>cr_pet := pet_gesture swipe release (cr_pet c)\<rparr>"
| "life_step K H look (PetUpdate R clock) c =
    (let (p, a, m) = pet_update K H R clock (cr_pet c, cr_avatar c, cr_head c) in c\<lparr>cr_pet := p, cr_avatar := a, cr_head := m\<rparr>)"
| "life_step K H look Shaken c = c\<lparr>cr_imu := (cr_imu c)\<lparr>event_shake := True\<rparr>\<rparr>"
| "life_step K H look (ImuUpdated clock) c =
    (let (i, a, m) = imu_update K H clock (cr_imu c, cr_avatar c, cr_head c) in c\<lparr>cr_imu := i, cr_avatar := a, cr_head := m\<rparr>)"
| "life_step K H look (AvatarUpdate clock) c = c\<lparr>cr_avatar := avatar_update clock (cr_avatar c)\<rparr>"
| "life_step K H look (HeadOp op) c = c\<lparr>cr_head := head_step K H look op (cr_head c)\<rparr>"

lemma life_step_moves: "moves K H (cr_head c) (cr_head (life_step K H look op c)) \<or> (\<exists>h. op = HeadOp h)"
  by (cases op)
    (auto split: prod.splits option.splits dest: speaking_moves idle_moves pet_moves imu_moves simp: Let_def)

lemma life_moves: "\<exists>ops'. cr_head (fold (life_step K H look) ops c) = fold (head_step K H look) ops' (cr_head c)"
proof (induction ops arbitrary: c)
  case Nil
  show ?case by (rule exI [of _ "[]"]) simp
next
  case (Cons op ops)
  obtain ops1 where "cr_head (life_step K H look op c) = fold (head_step K H look) ops1 (cr_head c)"
  proof (cases "\<exists>h. op = HeadOp h")
    case True
    then obtain h where "op = HeadOp h" by blast
    then show ?thesis using that [of "[h]"] by simp
  next
    case False
    then show ?thesis using that life_step_moves [of K H c look op] unfolding moves_def by blast
  qed
  moreover obtain ops2 where
    "cr_head (fold (life_step K H look) ops (life_step K H look op c)) = fold (head_step K H look) ops2 (cr_head (life_step K H look op c))"
    using Cons.IH by blast
  ultimately show ?case by (intro exI [of _ "ops1 @ ops2"]) simp
qed



lemma shake_reaction_undone_witness:
  "case fold (imu_step jump_toolkit shown_hal) [Shake, ImuUpdate (\<lambda>n. 100), ImuUpdate (\<lambda>n. 5000)]
     (new_ImuEventModifier 4000, new_Avatar, (new_Motion False (0, 0), new_bus (shown_at 620 0))) of (i, a, m) \<Rightarrow>
     is_modify_locked (fst m) = is_reacting i \<and> decorated (is_reacting i) (dizzy_decorator_id i) (shy_decorator_id i) new_Avatar a"
  by (rule shake_reaction_undone) (simp_all add: new_Avatar_def avatar_ok_def new_pool_ok plain_feature_def new_Motion_def)

end
