(* ===== verification/Spec2Isabelle.thy ===== *)
theory Spec2Isabelle
  imports Provisioning Discovery Http_Requests Bridge_Websocket Web_Socket_Connect Web_Socket_Messages Websocket_Pong Session_Replay Session_Wire Session_Timers Command_Executor Message_Id Audio_Safety Capture_Transaction Device_Target Touch_Recording Object_Pool Capture_Service Capture_Network Video_Ioctl Local_Control Animation Reactions
begin

text \<open>
  A verification development of StackChan Hermes, the firmware of a desktop robot that is driven by a
  bridge over a WebSocket.

  Paths below are relative to the repository: CB is \<open>firmware/components/stackchan_bridge_client\<close> (the
  bridge client library), MAIN is \<open>firmware/main\<close> (the firmware around it), HAL is \<open>firmware/main/hal\<close>.

  THE PROGRAM

  \<^item> The client of the bridge (CB) opens a WebSocket, says hello, executes the commands of the bridge at most
    once each, streams the microphone to the bridge and the speech of the bridge to the speaker, reports
    faults, touches and captures, keeps the connection alive and reconnects with a growing delay.
  \<^item> Under it lie a WebSocket client and an HTTP client over TCP or TLS sockets (CB), and a transport (HAL) that
    opens the WebSocket on a worker thread and hands its callbacks to the task of the client through a queue.
  \<^item> Above it the worker task (HAL) calls the client periodically and feeds it gestures, encoded sound and the
    results of captures.  Commands end at the device command target (HAL): the display, the LEDs, the
    codec, and the head, whose two servos (MAIN/stackchan/motion) are guarded by limits, by a local motion
    lock, by a build switch that locks the head altogether, and by a stall protection.
  \<^item> Captures run on a thread of their own (HAL): the image is encoded, uploaded over HTTP with a deadline and at
    most three attempts, and reported to the bridge until it is acknowledged.
  \<^item> Provisioning and discovery (CB) configure the robot: console commands, and the URL of a bridge found over
    mDNS.

  THE THEORIES

  Foundations.
  \<^item> \<open>Prelude\<close>: machine integers, strings as byte lists, searches of \<open>std::string\<close>, and the locale
    \<open>invariant_machine\<close>: an invariant that every step keeps holds over every run.
  \<^item> \<open>Cpp_Library\<close>: \<open>std::to_string\<close>, \<open>std::hex\<close>, \<open>strtol\<close>, \<open>strtoul\<close> and trimming, as the standards define them.
  \<^item> \<open>Json_Interface\<close>: ArduinoJson as the parameter \<open>json_lib\<close>, the record of the calls that the sources make.
  \<^item> \<open>Text_Validation\<close>: the validators of UUIDs, device identifiers and bounded UTF-8 text.  The sources repeat
    them in six files; the copies are separate definitions, proved equal to one, and that one accepts
    exactly the UTF-8 of scalar values without control characters.

  Messages (CB; a function with an output parameter and an error code is a sum).
  \<^item> \<open>Protocol\<close> (\<open>protocol.cpp\<close>): the hello and its acknowledgement.  \<open>Protocol_Guard\<close> (\<open>protocol_guard.cpp\<close>): errors of
    both peers, and the window that closes a connection after three invalid messages in ten seconds.
    \<open>Event\<close> (\<open>event.cpp\<close>), \<open>Audio_Input\<close> (\<open>audio_input.cpp\<close>), \<open>Message_Id\<close> (\<open>message_id.cpp\<close>).
  \<^item> \<open>Command\<close> (\<open>command.cpp\<close>): parsing, results, and the comparison that recognises a repetition.
    \<open>Command_Executor\<close> (\<open>command_executor.cpp\<close>): every command over an abstract device \<open>DeviceCommandTarget\<close>; the locale
    \<open>guarded_target\<close> is the contract of a device whose calls keep an invariant when their arguments are in
    range, with the consequence that every command keeps it.
  \<^item> \<open>Audio_Output\<close> (\<open>audio_output.cpp\<close>): the playback buffer, its bounds and the order of its packets.
    \<open>Audio_Safety\<close> (\<open>audio_safety.cpp\<close>, \<open>audio_playback_completion.h\<close>): failure gate, PCM gain, completion flags.
  \<^item> \<open>Settings\<close> (\<open>settings.cpp\<close>), \<open>Discovery\<close> (\<open>discovery.cpp\<close>), \<open>Provisioning\<close> (\<open>provisioning.cpp\<close>): which URLs, services and
    console arguments are accepted, against specifications that read the accepted text.

  The session (CB \<open>session.cpp\<close>).
  \<^item> \<open>State_Machine\<close> (\<open>state_machine.cpp\<close>) and \<open>Reconnect\<close> (\<open>reconnect.cpp\<close>): transitions and delays against their tables.
  \<^item> \<open>Session\<close>: \<open>BridgeClient\<close>.  The member \<open>x_\<close> is the field \<open>m_x\<close>; every operation, every transport callback and
    every timer of \<open>update\<close> is a definition; \<open>m_io\<close> is the list of calls made on the outside so far, and what the
    outside answers is any function of it (the parameter \<open>world\<close>).  \<open>client_step\<close> is one call of the client.
  \<^item> \<open>Session_Invariant\<close>: playback exactly in SPEAKING, recording only in LISTENING, an acknowledgement exactly in a
    session.  \<open>Session_Relation\<close>: the locale \<open>client_relation\<close>, a proof rule for relations between the state before
    and after a step, interpreted by \<open>Session_Replay\<close> (at most one execution of a request, replayed answers),
    \<open>Session_Wire\<close> (limits on everything sent, bounded histories) and \<open>Session_Timers\<close> (lost connections are retried,
    silent peers dropped).  \<open>Session_Example\<close>: the concrete bridge of the witnesses.

  WebSocket and HTTP.
  \<^item> \<open>Base64\<close>, \<open>Sha1\<close>, \<open>Websocket_Handshake\<close> (\<open>websocket_handshake.cpp\<close>): Base64 decodes back, the digest is that of
    FIPS 180-4, and the response has the fields of an upgrade.  \<open>Websocket_Frame\<close> (\<open>websocket_frame_limits.h\<close>): which headers are accepted.  \<open>Websocket_Pong\<close>
    (\<open>websocket_pong.cpp\<close>): the locale \<open>bounded_registry\<close>, and the table of observers as a map.
  \<^item> \<open>Web_Socket\<close> (\<open>web_socket.cpp\<close>): the parser of the stream and sending.  \<open>Web_Socket_Stream\<close>: segmentation does not
    matter.  \<open>Web_Socket_Messages\<close>: messages arrive whole, sent frames decode.  \<open>Web_Socket_Connect\<close>: \<open>Connect\<close> in two
    halves, up to the request and from the answer on.
  \<^item> \<open>Bridge_Websocket\<close> (HAL/\<open>stackchan_bridge_websocket.cpp\<close>): the transport as interleaved steps of the task of the
    client, the connection worker and the network task.
  \<^item> \<open>Http_Client\<close>, \<open>Http_Receive\<close>, \<open>Http_Stream\<close>, \<open>Http_Response\<close>, \<open>Http_Exchange\<close>, \<open>Http_Requests\<close> (\<open>http_client.cpp\<close>): requests
    and URLs, the parser of responses with its chunked coding, segmentation, well-formed responses, whole
    exchanges, and the reuse of connections.

  Captures.
  \<^item> \<open>Camera_Capture\<close> (\<open>camera_capture.cpp\<close>): multipart upload, gate, retry budget, completion messages.
    \<open>Capture_Transaction\<close> (\<open>capture_transaction.h\<close>, \<open>camera_video_wait.h\<close>): deadlines, retry delays, the queue of notices,
    the wait for a frame.
  \<^item> \<open>Capture_Upload\<close> (HAL/\<open>stackchan_bridge_camera.cpp\<close>): the work of the capture thread, with receipts that decide a
    capture whose upload got no answer.  \<open>Capture_Service\<close> (same file): \<open>OfficialCameraCapture\<close> as the other tasks see
    it; \<open>accounted\<close> is the abstract life of a capture, which the events of every run follow.
  \<^item> \<open>Capture_Network\<close> (HAL/\<open>capture_network.cpp\<close>): sending and receiving on the non-blocking socket of a capture.
    \<open>Video_Ioctl\<close> (CB \<open>esp_video_ioctl.c\<close>): the buffers of the video shim.

  The device.
  \<^item> \<open>Motion_Safety\<close> (\<open>motion_safety.h\<close>, \<open>motion_command_safety.h\<close>): ranges and the local motion lock.
  \<^item> \<open>Servo\<close> (MAIN/\<open>stackchan/motion/servo.cpp\<close>, HAL/\<open>hal_servo.cpp\<close>, HAL/\<open>servo_output_safety.h\<close>): one servo, from a requested angle
    to the position on the bus, with the stall protection.  \<open>Servo_Safety\<close>: the locale \<open>servo_safety\<close>, which keeps every
    write within limits.  \<open>Motion\<close> (\<open>motion.cpp\<close>, \<open>motion_math.cpp\<close>): the head; its locale \<open>head_safety\<close> has the one of
    each servo as a sublocale.  \<open>Device_Target\<close> (HAL/\<open>stackchan_bridge_command_target.cpp\<close>): the official device, whose
    locale \<open>safe_device\<close> is a \<open>guarded_target\<close>, so that all commands of the bridge keep the head safe.
  \<^item> \<open>Head_Touch\<close> (HAL/\<open>head_touch_debouncer.h\<close>, HAL/\<open>hal_head_touch.cpp\<close>): debouncer and gestures.  \<open>Bridge_Service\<close>
    (HAL/\<open>stackchan_bridge_service.cpp\<close>): the worker task; it uses the client only through its operations, and it
    ties the microphone to the state LISTENING.  \<open>Touch_Recording\<close> composes both: the microphone is on only while
    the head is touched.
  \<^item> \<open>Object_Pool\<close> (MAIN/\<open>stackchan/utils/object_pool.h\<close>): the pools of modifiers and decorators; the locale \<open>object_store\<close> has
    the laws of a store, and a pool is a map with a free list.  \<open>Local_Control\<close> (HAL/\<open>espnow_control.h\<close>, \<open>local_tasks.h\<close>,
    \<open>local_device_policy.h\<close>, \<open>boot_confirmation.h\<close>, MAIN/\<open>apps/app_espnow_ctrl\<close>): the robot without a bridge.  \<open>Animation\<close>
    (MAIN/\<open>stackchan/animation\<close>, \<open>modifiers/blink.h\<close>): the keyframe player and the blinking eyes.
  \<^item> \<open>Avatar\<close> (MAIN/\<open>stackchan/avatar\<close>): features, emotions, and decorators in a pool, over the laws of \<open>object_store\<close>.
    \<open>Modifiers\<close> (MAIN/\<open>stackchan/modifiers\<close>: \<open>timed.h\<close>, \<open>breath.h\<close>, \<open>speaking.h\<close>, \<open>idle_motion.h\<close>, \<open>idle_expression.h\<close>): timed
    effects last their duration, a breath leaves the face where it was.  \<open>Reactions\<close> (\<open>head_pet.h\<close>, \<open>imu.h\<close>): a
    reaction to a shake is undone, petting may remove its decorators, and no modifier drives the head out of
    the limits of its servos.

  CONVENTIONS

  \<^item> A class is a record and a method a function from the state, and its arguments, to its result and the new state.
    Where two tasks share an object under a mutex, a critical section is one step, and runs are all sequences
    of steps.  Calls on the outside are logged in a field of the state, and the outside answers through a
    parameter, which is arbitrary unless a theorem says otherwise.
  \<^item> Integers keep the width of the code (\<open>u8\<close> to \<open>u64\<close>) where it can wrap; \<open>size_t\<close> and \<open>long\<close> have 32 bits on the
    ESP32; sizes that are bounded by memory are natural numbers.  Each reading of the clock is an argument.
    \<open>double\<close> values of JSON are exact rationals, and spring constants real numbers: rounding is not modelled.
  \<^item> Parameters for code outside the repository: \<open>json_lib\<close> (ArduinoJson), \<open>world\<close> (transport and callbacks of the
    client), \<open>network\<close> and \<open>http_net\<close> (sockets), \<open>chunk_ops\<close> with the body limit (a header of \<open>esp-ml307\<close>), \<open>toolkit\<close> and
    \<open>servo_hal\<close> (\<open>smooth_ui_toolkit\<close>, the servo bus and the settings store), \<open>board\<close> (display, codec and LEDs),
    \<open>capture_env\<close> (camera, JPEG encoder, hash, HTTP calls), \<open>platform\<close> (error numbers), \<open>esp_video\<close> (the video
    driver), \<open>random_source\<close> (random numbers).
  \<^item> Blocking waits are predicates on the state in which they end.

  BOUNDS AND TERMINATION

  No definition takes fuel.  Loops are structural or have a measure: the rest of the text, of the header lines or
  of the stream.  Two loops need not end by themselves and are partial functions with the value \<open>None\<close> for a
  run that does not end: \<open>ProcessReceivedData\<close>, which is proved to return on every segment from every state that a
  client reaches, and \<open>waitCameraFrame\<close>, which is proved to return by its deadline.  The polling loops of
  \<open>Capture_Network\<close> read a list of observations of the clock and the socket; \<open>None\<close> means that the list was too short, and one
  observation of an elapsed deadline is proved to be enough.  The limits of the code are kept as they are: 16384
  bytes of JSON, 1275 bytes of a packet, 32 queued packets, 256 queued callbacks, 8 observers, 16 notices,
  2 MiB of image, 3 attempts, 8192 bytes of response.

  NOT MODELLED

  \<^item> Vendored or generated code: the BMI270 sensor driver, the servo and display drivers, fonts and images.
  \<^item> \<open>esp_tcp.cpp\<close> and \<open>esp_ssl.cpp\<close> beyond what the clients rely on when they disconnect, and name resolution and
    connecting in \<open>capture_network.cpp\<close>: calls into lwIP, mbedTLS and FreeRTOS.
  \<^item> The commands of \<open>esp_video_ioctl.c\<close> that only forward their arguments to the video driver.
  \<^item> Reading the configuration of the worker from flash and starting its task; accessors without state.
  \<^item> The inverse kinematics of \<open>lookAtPoint\<close> (\<open>atan2\<close> and \<open>sqrt\<close> of floats), which is a parameter.
  \<^item> Drawing (LVGL, the skin of the avatar, the status bar), the pages of the applications, Bluetooth, the remaining
    glue to ESP-IDF, and the poses that a keyframe sets on the face: input and output around the parts above.
\<close>

end
